(* ===== verification/Forge_Prelude.thy ===== *)
theory Forge_Prelude
  imports Main "HOL-Library.Word" "HOL-Library.Char_ord" "HOL-Library.List_Lexorder"
    "HOL-Library.Product_Lexorder"
begin

text \<open>
  What every other theory shares: results as sums, the byte and string functions of the Rust
  standard library that the forge uses, and the generic lemmas about them.

  A Rust \<open>str\<close> is a list of bytes in UTF-8, so it is a \<open>string\<close> here, one character per byte:
  \<open>len\<close> is \<open>length\<close>. A test on characters that only ASCII can pass reads the same on bytes,
  because every byte of a longer encoding is at least 128; the two places where code points
  matter (\<open>chars().count()\<close> and \<open>trim\<close>) are written out on the encoding below.
\<close>

section \<open>Results\<close>

type_synonym ('a, 'e) result = "'e + 'a"

abbreviation Ok :: "'a \<Rightarrow> ('a, 'e) result" where
  "Ok \<equiv> Inr"

abbreviation Err :: "'e \<Rightarrow> ('a, 'e) result" where
  "Err \<equiv> Inl"

text \<open>The question mark operator: stop at the error, go on with the value.\<close>

definition and_then :: "('a, 'e) result \<Rightarrow> ('a \<Rightarrow> ('b, 'e) result) \<Rightarrow> ('b, 'e) result" where
  "and_then r f = (case r of Err e \<Rightarrow> Err e | Ok x \<Rightarrow> f x)"

definition ok_or :: "'a option \<Rightarrow> 'e \<Rightarrow> ('a, 'e) result" where
  "ok_or v e = (case v of None \<Rightarrow> Err e | Some x \<Rightarrow> Ok x)"

lemma and_then_simps [simp]:
  "and_then (Ok x) f = f x" "and_then (Err e) f = Err e"
  by (simp_all add: and_then_def)

lemma ok_or_simps [simp]:
  "ok_or (Some x) e = Ok x" "ok_or None e = Err e"
  by (simp_all add: ok_or_def)

lemma and_then_Ok_iff: "and_then r f = Ok y \<longleftrightarrow> (\<exists>x. r = Ok x \<and> f x = Ok y)"
  by (cases r) auto

lemma ok_or_Ok_iff [simp]: "ok_or v e = Ok x \<longleftrightarrow> v = Some x"
  by (cases v) auto

section \<open>Lists\<close>

lemma set_map_filter: "set (List.map_filter f xs) = {y. \<exists>x\<in>set xs. f x = Some y}"
  by (force simp: List.map_filter_def)

lemma map_filter_append: "List.map_filter f (xs @ ys) = List.map_filter f xs @ List.map_filter f ys"
  by (simp add: List.map_filter_def)

section \<open>Bytes and characters\<close>

type_synonym byte = "8 word"

type_synonym bytes = "byte list"

definition code :: "char \<Rightarrow> nat" where
  "code c = of_char c"

definition is_digit :: "char \<Rightarrow> bool" where
  "is_digit c \<longleftrightarrow> 48 \<le> code c \<and> code c \<le> 57"

definition is_upper :: "char \<Rightarrow> bool" where
  "is_upper c \<longleftrightarrow> 65 \<le> code c \<and> code c \<le> 90"

definition is_lower :: "char \<Rightarrow> bool" where
  "is_lower c \<longleftrightarrow> 97 \<le> code c \<and> code c \<le> 122"

definition is_alnum :: "char \<Rightarrow> bool" where
  "is_alnum c \<longleftrightarrow> is_digit c \<or> is_upper c \<or> is_lower c"

definition is_control :: "char \<Rightarrow> bool" where
  "is_control c \<longleftrightarrow> code c < 32 \<or> code c = 127"

definition to_lower :: "char \<Rightarrow> char" where
  "to_lower c = (if is_upper c then char_of (code c + 32) else c)"

definition to_ascii_lowercase :: "string \<Rightarrow> string" where
  "to_ascii_lowercase s = map to_lower s"

lemmas char_class_defs =
  is_digit_def is_upper_def is_lower_def is_alnum_def is_control_def code_def

lemma code_char_of [simp]: "code (char_of n) = n mod 256"
  by (simp add: code_def)

lemma code_less [simp]: "code c < 256"
  by (simp add: code_def)

lemma code_inject: "code c = code d \<longleftrightarrow> c = d"
  by (simp add: code_def)

lemma code_to_lower: "code (to_lower c) = (if is_upper c then code c + 32 else code c)"
proof (cases "is_upper c")
  case True
  then have "code c + 32 < 256" by (simp add: is_upper_def)
  with True show ?thesis by (simp add: to_lower_def)
qed (simp add: to_lower_def)

lemma not_upper_to_lower [simp]: "\<not> is_upper (to_lower c)"
  by (simp add: is_upper_def code_to_lower)

lemma to_lower_idem [simp]: "to_lower (to_lower c) = to_lower c"
  by (simp add: to_lower_def [of "to_lower c"])

lemma is_alnum_to_lower [simp]: "is_alnum (to_lower c) = is_alnum c"
  by (auto simp: is_alnum_def is_digit_def is_lower_def is_upper_def code_to_lower)

lemma to_lower_other: "\<not> is_alnum c \<Longrightarrow> to_lower c = c"
  by (simp add: to_lower_def is_alnum_def)

lemma to_lower_eq_other: "\<not> is_alnum d \<Longrightarrow> to_lower c = d \<longleftrightarrow> c = d"
  by (metis is_alnum_to_lower to_lower_other)

lemma to_ascii_lowercase_idem [simp]:
  "to_ascii_lowercase (to_ascii_lowercase s) = to_ascii_lowercase s"
  by (simp add: to_ascii_lowercase_def)

lemma length_to_ascii_lowercase [simp]: "length (to_ascii_lowercase s) = length s"
  by (simp add: to_ascii_lowercase_def)

lemma to_ascii_lowercase_Nil [simp]:
  "to_ascii_lowercase [] = []" "to_ascii_lowercase s = [] \<longleftrightarrow> s = []"
  by (simp_all add: to_ascii_lowercase_def)

section \<open>Prefixes, suffixes and splitting\<close>

fun strip_prefix :: "'a list \<Rightarrow> 'a list \<Rightarrow> 'a list option" where
  "strip_prefix [] s = Some s"
| "strip_prefix (p # ps) [] = None"
| "strip_prefix (p # ps) (c # cs) = (if p = c then strip_prefix ps cs else None)"

definition strip_suffix :: "'a list \<Rightarrow> 'a list \<Rightarrow> 'a list option" where
  "strip_suffix p s = map_option rev (strip_prefix (rev p) (rev s))"

definition starts_with :: "'a list \<Rightarrow> 'a list \<Rightarrow> bool" where
  "starts_with p s \<longleftrightarrow> strip_prefix p s \<noteq> None"

definition ends_with :: "'a list \<Rightarrow> 'a list \<Rightarrow> bool" where
  "ends_with p s \<longleftrightarrow> strip_suffix p s \<noteq> None"

fun contains_str :: "'a list \<Rightarrow> 'a list \<Rightarrow> bool" where
  "contains_str p [] = (p = [])"
| "contains_str p (c # cs) = (starts_with p (c # cs) \<or> contains_str p cs)"

text \<open>\<open>split_once\<close> cuts at the first separator and \<open>rsplit_once\<close> at the last.\<close>

fun split_once :: "char \<Rightarrow> string \<Rightarrow> (string \<times> string) option" where
  "split_once d [] = None"
| "split_once d (c # cs) =
     (if c = d then Some ([], cs)
      else map_option (\<lambda>(a, b). (c # a, b)) (split_once d cs))"

definition rsplit_once :: "char \<Rightarrow> string \<Rightarrow> (string \<times> string) option" where
  "rsplit_once d s = map_option (\<lambda>(a, b). (rev b, rev a)) (split_once d (rev s))"

text \<open>The string form of \<open>split_once\<close>, for a separator of several characters.\<close>

fun split_once_str :: "string \<Rightarrow> string \<Rightarrow> (string \<times> string) option" where
  "split_once_str p [] = (if p = [] then Some ([], []) else None)"
| "split_once_str p (c # cs) =
     (case strip_prefix p (c # cs) of
        Some rest \<Rightarrow> Some ([], rest)
      | None \<Rightarrow> map_option (\<lambda>(a, b). (c # a, b)) (split_once_str p cs))"

text \<open>\<open>str::split\<close>: the pieces between separators, one piece for the empty string.\<close>

fun split_by :: "(char \<Rightarrow> bool) \<Rightarrow> string \<Rightarrow> string list" where
  "split_by P [] = [[]]"
| "split_by P (c # cs) =
     (if P c then [] # split_by P cs
      else (case split_by P cs of p # ps \<Rightarrow> (c # p) # ps | [] \<Rightarrow> [[c]]))"

lemma strip_prefix_Some_iff [simp]: "strip_prefix p s = Some r \<longleftrightarrow> s = p @ r"
  by (induction p s rule: strip_prefix.induct) auto

lemma strip_prefix_append [simp]: "strip_prefix p (p @ r) = Some r"
  by simp

lemma strip_suffix_Some_iff [simp]: "strip_suffix p s = Some r \<longleftrightarrow> s = r @ p"
proof -
  have "strip_suffix p s = Some r \<longleftrightarrow> rev s = rev p @ rev r"
    unfolding strip_suffix_def strip_prefix_Some_iff [symmetric]
    by (cases "strip_prefix (rev p) (rev s)") (auto simp: rev_swap simp del: strip_prefix_Some_iff)
  also have "\<dots> \<longleftrightarrow> s = r @ p"
    by (metis rev_append rev_rev_ident)
  finally show ?thesis .
qed

lemma strip_suffix_append [simp]: "strip_suffix p (r @ p) = Some r"
  by simp

lemma starts_with_iff: "starts_with p s \<longleftrightarrow> (\<exists>r. s = p @ r)"
  by (auto simp: starts_with_def)

lemma ends_with_iff: "ends_with p s \<longleftrightarrow> (\<exists>r. s = r @ p)"
  by (auto simp: ends_with_def)

lemma contains_str_iff: "contains_str p s \<longleftrightarrow> (\<exists>a b. s = a @ p @ b)"
proof (induction s)
  case Nil
  show ?case by auto
next
  case (Cons c cs)
  show ?case
  proof
    assume "contains_str p (c # cs)"
    then consider b where "c # cs = p @ b" | a b where "cs = a @ p @ b"
      using Cons.IH by (auto simp: starts_with_iff)
    then show "\<exists>a b. c # cs = a @ p @ b"
      by cases (metis append_Nil, metis append_Cons)
  next
    assume "\<exists>a b. c # cs = a @ p @ b"
    then obtain a b where ab: "c # cs = a @ p @ b" by blast
    show "contains_str p (c # cs)"
    proof (cases a)
      case Nil
      with ab have "starts_with p (c # cs)" by (auto simp: starts_with_iff)
      then show ?thesis by simp
    next
      case (Cons x a')
      with ab have "cs = a' @ p @ b" by simp
      with Cons.IH show ?thesis by auto
    qed
  qed
qed

lemma split_once_Some:
  "split_once d s = Some (a, b) \<longleftrightarrow> s = a @ d # b \<and> d \<notin> set a"
proof (induction s arbitrary: a)
  case (Cons c cs)
  show ?case
  proof (cases "c = d")
    case True
    then show ?thesis by (cases a) auto
  next
    case False
    then show ?thesis using Cons.IH by (cases a) auto
  qed
qed simp

lemma split_once_None [simp]: "split_once d s = None \<longleftrightarrow> d \<notin> set s"
  by (induction s) auto

lemma rsplit_once_Some:
  "rsplit_once d s = Some (a, b) \<longleftrightarrow> s = a @ d # b \<and> d \<notin> set b"
proof
  assume "rsplit_once d s = Some (a, b)"
  then have "rev s = rev b @ d # rev a" "d \<notin> set b"
    by (auto simp: rsplit_once_def split_once_Some)
  then have "rev (rev s) = a @ d # b" by (simp only: rev_append rev.simps rev_rev_ident) simp
  then show "s = a @ d # b \<and> d \<notin> set b" using \<open>d \<notin> set b\<close> by simp
next
  assume "s = a @ d # b \<and> d \<notin> set b"
  then have "split_once d (rev s) = Some (rev b, rev a)" by (simp add: split_once_Some)
  then show "rsplit_once d s = Some (a, b)" by (simp add: rsplit_once_def)
qed

lemma rsplit_once_None [simp]: "rsplit_once d s = None \<longleftrightarrow> d \<notin> set s"
  by (simp add: rsplit_once_def)

lemma split_by_not_Nil [simp]: "split_by P s \<noteq> []"
  by (cases s) (auto split: list.splits)

lemma split_by_Cons [simp]:
  "split_by P (c # cs) =
     (if P c then [] # split_by P cs else (c # hd (split_by P cs)) # tl (split_by P cs))"
  by (auto split: list.splits)

declare split_by.simps(2) [simp del]

lemma split_by_none: "\<forall>c\<in>set s. \<not> P c \<Longrightarrow> split_by P s = [s]"
  by (induction s) auto

lemma split_by_append:
  "P d \<Longrightarrow> split_by P (a @ d # b) = split_by P a @ split_by P b"
  by (induction a) (auto simp: hd_append tl_append split: list.splits)

lemma hd_split_by: "hd (split_by P s) = takeWhile (\<lambda>c. \<not> P c) s"
  by (induction s) auto

section \<open>Numbers as text\<close>

definition digit_char :: "nat \<Rightarrow> char" where
  "digit_char n = ''0123456789abcdef'' ! n"

text \<open>Decimal, most significant digit first, as \<open>to_string\<close> writes an unsigned integer.\<close>

fun show_nat :: "nat \<Rightarrow> string" where
  "show_nat n = (if n < 10 then [digit_char n] else show_nat (n div 10) @ [digit_char (n mod 10)])"

declare show_nat.simps [simp del]

text \<open>The format \<open>{:0w}\<close>: padded on the left with zeros to at least \<open>w\<close> digits.\<close>

definition show_padded :: "nat \<Rightarrow> nat \<Rightarrow> string" where
  "show_padded w n = (let s = show_nat n in replicate (w - length s) (CHR ''0'') @ s)"

fun digits_value :: "nat \<Rightarrow> string \<Rightarrow> nat" where
  "digits_value acc [] = acc"
| "digits_value acc (c # cs) = digits_value (10 * acc + (code c - 48)) cs"

text \<open>
  \<open>str::parse\<close> to an unsigned integer below \<open>bound\<close>: an optional plus sign, then one or more
  digits whose value fits.
\<close>

definition parse_unsigned :: "nat \<Rightarrow> string \<Rightarrow> nat option" where
  "parse_unsigned bound s =
     (let ds = (case s of c # cs \<Rightarrow> if c = CHR ''+'' then cs else s | [] \<Rightarrow> [])
      in if ds \<noteq> [] \<and> list_all is_digit ds \<and> digits_value 0 ds < bound
         then Some (digits_value 0 ds) else None)"

lemma digit_char_props:
  assumes "n < 10" shows "is_digit (digit_char n)" "code (digit_char n) = 48 + n"
proof -
  have "list_all (\<lambda>n. is_digit (digit_char n) \<and> code (digit_char n) = 48 + n) [0..<10]"
    by code_simp
  with assms show "is_digit (digit_char n)" "code (digit_char n) = 48 + n"
    by (auto simp: list_all_iff)
qed

lemma show_nat_not_Nil [simp]: "show_nat n \<noteq> []"
  by (subst show_nat.simps) simp

lemma show_nat_digits: "list_all is_digit (show_nat n)"
proof (induction n rule: show_nat.induct)
  case (1 n)
  show ?case
    by (cases "n < 10") (use 1 in \<open>simp_all add: show_nat.simps [of n] digit_char_props\<close>)
qed

lemma digits_value_append:
  "digits_value acc (xs @ ys) = digits_value (digits_value acc xs) ys"
  by (induction xs arbitrary: acc) auto

lemma digits_value_show_nat: "digits_value 0 (show_nat n) = n"
proof (induction n rule: show_nat.induct)
  case (1 n)
  show ?case
  proof (cases "n < 10")
    case True
    then show ?thesis by (simp add: show_nat.simps [of n] digit_char_props)
  next
    case False
    with 1 have "digits_value 0 (show_nat (n div 10)) = n div 10" by simp
    with False show ?thesis
      by (simp add: show_nat.simps [of n] digits_value_append digit_char_props)
  qed
qed

lemma digits_value_zeros: "digits_value 0 (replicate k (CHR ''0'') @ s) = digits_value 0 s"
  by (induction k) (simp_all add: code_def)

lemma zeros_digits: "list_all is_digit (replicate k (CHR ''0''))"
  by (simp add: list_all_iff is_digit_def code_def)

lemma parse_unsigned_digits:
  assumes "ds \<noteq> []" "list_all is_digit ds" "digits_value 0 ds < bound"
  shows "parse_unsigned bound ds = Some (digits_value 0 ds)"
proof (cases ds)
  case (Cons c cs)
  have "c \<noteq> CHR ''+''" using assms(2) Cons by (auto simp: is_digit_def code_def)
  with Cons assms show ?thesis by (simp add: parse_unsigned_def)
qed (use assms in simp)

lemma parse_show_padded:
  assumes "n < bound" shows "parse_unsigned bound (show_padded w n) = Some n"
proof -
  let ?z = "replicate (w - length (show_nat n)) (CHR ''0'')"
  have "digits_value 0 (?z @ show_nat n) = n"
    by (simp add: digits_value_zeros digits_value_show_nat)
  moreover have "list_all is_digit (?z @ show_nat n)"
    by (simp add: zeros_digits show_nat_digits del: replicate_append_same)
  ultimately have "parse_unsigned bound (?z @ show_nat n) = Some n"
    using assms parse_unsigned_digits [of "?z @ show_nat n" bound] by simp
  then show ?thesis by (simp add: show_padded_def Let_def)
qed

lemma parse_show_nat: "n < bound \<Longrightarrow> parse_unsigned bound (show_nat n) = Some n"
  using parse_show_padded [of n bound 0] by (simp add: show_padded_def)

lemma show_nat_inject: "show_nat m = show_nat n \<longleftrightarrow> m = n"
  by (metis digits_value_show_nat)

text \<open>A byte as two lowercase hex digits: the format \<open>{:02x}\<close>.\<close>

definition hex_byte :: "byte \<Rightarrow> string" where
  "hex_byte b = [digit_char (unat b div 16), digit_char (unat b mod 16)]"

section \<open>Unicode white space and characters\<close>

text \<open>
  How many bytes the white space character at the front takes, 0 when there is none: the
  property \<open>White_Space\<close> (U+0009 to U+000D, U+0020, U+0085, U+00A0, U+1680, U+2000 to U+200A,
  U+2028, U+2029, U+202F, U+205F, U+3000) on its UTF-8 encoding.
\<close>

definition ws_front :: "nat list \<Rightarrow> nat" where
  "ws_front s = (case s of
     [] \<Rightarrow> 0
   | a # s1 \<Rightarrow>
       if 9 \<le> a \<and> a \<le> 13 \<or> a = 32 then 1
       else (case s1 of
         [] \<Rightarrow> 0
       | b # s2 \<Rightarrow>
           if a = 194 \<and> (b = 133 \<or> b = 160) then 2
           else (case s2 of
             [] \<Rightarrow> 0
           | c # _ \<Rightarrow>
               if a = 225 \<and> b = 154 \<and> c = 128
                 \<or> a = 226 \<and> b = 128 \<and> (128 \<le> c \<and> c \<le> 138 \<or> c = 168 \<or> c = 169 \<or> c = 175)
                 \<or> a = 226 \<and> b = 129 \<and> c = 159
                 \<or> a = 227 \<and> b = 128 \<and> c = 128
               then 3 else 0)))"

text \<open>The same at the back, on the reversed text.\<close>

definition ws_back :: "nat list \<Rightarrow> nat" where
  "ws_back s =
     (if ws_front (take 1 s) = 1 then 1
      else if ws_front (rev (take 2 s)) = 2 then 2
      else if ws_front (rev (take 3 s)) = 3 then 3 else 0)"

function trim_with :: "(nat list \<Rightarrow> nat) \<Rightarrow> string \<Rightarrow> string" where
  "trim_with w s = (let n = w (map code s) in if n = 0 \<or> s = [] then s else trim_with w (drop n s))"
  by pat_completeness auto

termination
  by (relation "measure (\<lambda>(w, s). length s)") auto

declare trim_with.simps [simp del]

definition trim_start :: "string \<Rightarrow> string" where
  "trim_start s = trim_with ws_front s"

definition trim_end :: "string \<Rightarrow> string" where
  "trim_end s = rev (trim_with ws_back (rev s))"

definition trim :: "string \<Rightarrow> string" where
  "trim s = trim_end (trim_start s)"

text \<open>The next word starts where the white space ends, and it ends where white space starts.\<close>

function split_whitespace_from :: "string \<Rightarrow> string \<Rightarrow> string list" where
  "split_whitespace_from word s =
     (case s of
        [] \<Rightarrow> if word = [] then [] else [word]
      | c # cs \<Rightarrow>
          (let n = ws_front (map code s) in
           if n = 0 then split_whitespace_from (word @ [c]) cs
           else (if word = [] then [] else [word]) @ split_whitespace_from [] (drop n s)))"
  by pat_completeness auto

termination
  by (relation "measure (\<lambda>(w, s). length s)") auto

declare split_whitespace_from.simps [simp del]

definition split_whitespace :: "string \<Rightarrow> string list" where
  "split_whitespace s = split_whitespace_from [] s"

text \<open>\<open>chars().count()\<close>: the bytes that do not continue a character.\<close>

definition chars_count :: "string \<Rightarrow> nat" where
  "chars_count s = length (filter (\<lambda>c. \<not> (128 \<le> code c \<and> code c < 192)) s)"

lemma chars_count_le: "chars_count s \<le> length s"
  by (simp add: chars_count_def)

lemma trim_with_none: "w (map code s) = 0 \<Longrightarrow> trim_with w s = s"
  by (simp add: trim_with.simps [of w s])

lemma trim_with_length: "length (trim_with w s) \<le> length s"
proof (induction w s rule: trim_with.induct)
  case (1 w s)
  show ?case
  proof (cases "w (map code s) = 0 \<or> s = []")
    case False
    with 1 have "length (trim_with w (drop (w (map code s)) s)) \<le> length (drop (w (map code s)) s)"
      by (simp add: Let_def)
    with False show ?thesis by (simp add: trim_with.simps [of w s] Let_def)
  qed (simp add: trim_with.simps [of w s])
qed

lemma trim_with_done: "w (map code (trim_with w s)) = 0 \<or> trim_with w s = []"
proof (induction w s rule: trim_with.induct)
  case (1 w s)
  then show ?case by (cases "w (map code s) = 0 \<or> s = []") (simp_all add: trim_with.simps [of w s] Let_def)
qed

lemma trim_length: "length (trim s) \<le> length s"
  unfolding trim_def trim_end_def trim_start_def
  using trim_with_length [of ws_front s] trim_with_length [of ws_back "rev (trim_with ws_front s)"]
  by simp

lemma trim_ascii:
  assumes "list_all (\<lambda>c. 33 \<le> code c \<and> code c < 127) s" shows "trim s = s"
proof -
  have front: "ws_front (map code t) = 0" if "list_all (\<lambda>c. 33 \<le> code c \<and> code c < 127) t" for t
    using that by (cases t) (auto simp: ws_front_def split: list.splits)
  have "trim_start s = s" using front [OF assms] by (simp add: trim_start_def trim_with_none)
  moreover have "ws_back (map code (rev s)) = 0"
  proof -
    have taken: "list_all (\<lambda>c. 33 \<le> code c \<and> code c < 127) (take n (rev s))" for n
      using assms set_take_subset [of n "rev s"] by (auto simp: list_all_iff)
    have "ws_front (take 1 (map code (rev s))) = 0"
      using front [OF taken [of 1]] by (simp add: take_map)
    moreover have "ws_front (rev (take n (map code (rev s)))) = 0" for n
      using front [of "rev (take n (rev s))"] taken [of n] by (simp add: take_map rev_map)
    ultimately show ?thesis by (simp add: ws_back_def)
  qed
  ultimately show ?thesis by (simp add: trim_def trim_end_def trim_with_none)
qed

lemma trim_leading_space: "trim (CHR '' '' # s) = trim s"
proof -
  have "ws_front (map code (CHR '' '' # s)) = 1" by (simp add: ws_front_def code_def)
  then have "trim_start (CHR '' '' # s) = trim_start s"
    unfolding trim_start_def by (subst trim_with.simps) (simp add: Let_def)
  then show ?thesis by (simp add: trim_def)
qed

section \<open>Texts as bytes\<close>

definition str_bytes :: "string \<Rightarrow> bytes" where
  "str_bytes s = map (\<lambda>c. of_nat (code c)) s"

lemma length_str_bytes [simp]: "length (str_bytes s) = length s"
  by (simp add: str_bytes_def)

lemma str_bytes_append [simp]: "str_bytes (s @ t) = str_bytes s @ str_bytes t"
  by (simp add: str_bytes_def)

lemma str_bytes_inject: "str_bytes s = str_bytes t \<longleftrightarrow> s = t"
proof
  have "(of_nat (code c) :: byte) = of_nat (code d) \<longleftrightarrow> c = d" for c d
    by (simp add: word_of_nat_eq_iff take_bit_eq_mod code_inject)
  then have "inj (\<lambda>c. of_nat (code c) :: byte)" by (simp add: inj_def)
  then show "s = t" if "str_bytes s = str_bytes t"
    using that by (simp add: str_bytes_def inj_map_eq_map)
qed simp

unbundle bit_operations_syntax

text \<open>A comparison that does not stop early: the differences of all positions, joined.\<close>

lemma fold_differences:
  "foldl (\<lambda>acc (a, b). acc OR (a XOR b)) (z :: byte) (zip xs ys) = 0 \<longleftrightarrow>
     z = 0 \<and> take (length ys) xs = take (length xs) ys"
proof (induction xs arbitrary: ys z)
  case (Cons x xs)
  show ?case
  proof (cases ys)
    case (Cons y ys')
    have "z OR (x XOR y) = 0 \<longleftrightarrow> z = 0 \<and> x = y"
      by (auto simp: or_eq_0_iff) (metis bit.xor_left_self xor.right_neutral)
    then show ?thesis using Cons Cons.IH by auto
  qed simp
qed simp

end
