(* ===== verification/Names.thy ===== *)
theory Names
  imports Forge_Prelude
begin

text \<open>
  Validated user and repository names: \<open>forge-types/src/names.rs\<close>. A name is accepted or refused
  by \<open>validate\<close>; both name types carry the text as typed and its lowered form, which is the
  lookup key everywhere else.
\<close>

definition RESERVED :: "string list" where
  "RESERVED = [''api'', ''assets'', ''explore'', ''healthz'', ''internal'', ''login'', ''logout'',
     ''new'', ''register'', ''settings'', ''static'']"

definition is_reserved_namespace :: "string \<Rightarrow> bool" where
  "is_reserved_namespace name \<longleftrightarrow> to_ascii_lowercase name \<in> set RESERVED"

datatype invalid_name =
    Empty
  | TooLong (tl_max: nat) (tl_got: nat)
  | IllegalCharacter
  | BadStart
  | BadEnd
  | Reserved string
  | NotAddressable

definition name_char :: "char \<Rightarrow> bool" where
  "name_char c \<longleftrightarrow> is_alnum c \<or> c = CHR ''-'' \<or> c = CHR ''_'' \<or> c = CHR ''.''"

definition validate :: "string \<Rightarrow> nat \<Rightarrow> (unit, invalid_name) result" where
  "validate raw max_len =
     (case raw of
        [] \<Rightarrow> Err Empty
      | first # _ \<Rightarrow>
          if length raw > max_len then Err (TooLong max_len (length raw))
          else if \<not> list_all name_char raw then Err IllegalCharacter
          else if \<not> is_alnum first then Err BadStart
          else if ends_with ''.'' raw then Err BadEnd
          else Ok ())"

record username =
  user_raw :: string
  user_lower :: string

definition username_MAX_LEN :: nat where
  "username_MAX_LEN = 39"

definition username_parse :: "string \<Rightarrow> (username, invalid_name) result" where
  "username_parse raw =
     and_then (validate raw username_MAX_LEN) (\<lambda>_.
       let lower = to_ascii_lowercase raw in
       if is_reserved_namespace lower then Err (Reserved raw)
       else Ok \<lparr>user_raw = raw, user_lower = lower\<rparr>)"

record repo_name =
  repo_raw :: string
  repo_lower :: string

definition repo_name_MAX_LEN :: nat where
  "repo_name_MAX_LEN = 100"

definition repo_name_parse :: "string \<Rightarrow> (repo_name, invalid_name) result" where
  "repo_name_parse raw0 =
     (let raw = (case strip_suffix ''.git'' raw0 of Some stripped \<Rightarrow> stripped | None \<Rightarrow> raw0) in
      and_then (validate raw repo_name_MAX_LEN) (\<lambda>_.
        if raw = ''.'' \<or> raw = ''..'' then Err NotAddressable
        else Ok \<lparr>repo_raw = raw, repo_lower = to_ascii_lowercase raw\<rparr>))"

definition full_name_lower :: "username \<Rightarrow> repo_name \<Rightarrow> string" where
  "full_name_lower owner repo = user_lower owner @ ''/'' @ repo_lower repo"

section \<open>What a valid name looks like\<close>

definition valid_shape :: "nat \<Rightarrow> string \<Rightarrow> bool" where
  "valid_shape max_len raw \<longleftrightarrow> raw \<noteq> [] \<and> length raw \<le> max_len \<and> list_all name_char raw \<and>
     is_alnum (hd raw) \<and> last raw \<noteq> CHR ''.''"

lemma ends_with_char: "ends_with [c] raw \<longleftrightarrow> raw \<noteq> [] \<and> last raw = c"
  by (cases raw rule: rev_cases) (auto simp: ends_with_iff)

lemma validate_Ok_iff: "validate raw max_len = Ok u \<longleftrightarrow> valid_shape max_len raw"
  by (cases raw) (auto simp: validate_def valid_shape_def ends_with_char)

lemma validate_cases:
  "validate raw max_len = Ok () \<or> (\<exists>e. validate raw max_len = Err e \<and>
     e \<in> {Empty, TooLong max_len (length raw), IllegalCharacter, BadStart, BadEnd})"
  by (cases raw) (auto simp: validate_def)

lemma name_char_no_sep: "name_char c \<Longrightarrow> c \<notin> {CHR ''/'', CHR '':'', CHR '' '', CHR 0x00}"
  by (auto simp: name_char_def char_class_defs)

lemma valid_shape_no_slash: "valid_shape max_len raw \<Longrightarrow> CHR ''/'' \<notin> set raw"
  using name_char_no_sep by (fastforce simp: valid_shape_def list_all_iff)

lemma slash_lower: "CHR ''/'' \<in> set (to_ascii_lowercase s) \<longleftrightarrow> CHR ''/'' \<in> set s"
proof -
  have "\<not> is_alnum (CHR ''/'')" by (simp add: char_class_defs)
  from to_lower_eq_other [OF this] have "CHR ''/'' = to_lower c \<longleftrightarrow> c = CHR ''/''" for c
    by (metis (full_types))
  then show ?thesis by (auto simp: to_ascii_lowercase_def image_iff)
qed

lemma username_parse_Ok_iff:
  "username_parse raw = Ok u \<longleftrightarrow>
     valid_shape username_MAX_LEN raw \<and> to_ascii_lowercase raw \<notin> set RESERVED \<and>
     u = \<lparr>user_raw = raw, user_lower = to_ascii_lowercase raw\<rparr>"
  by (auto simp: username_parse_def and_then_Ok_iff validate_Ok_iff is_reserved_namespace_def Let_def)

lemma username_no_slash: "username_parse raw = Ok u \<Longrightarrow> CHR ''/'' \<notin> set (user_lower u)"
  by (auto simp: username_parse_Ok_iff slash_lower dest: valid_shape_no_slash)

lemma repo_name_parse_Ok_iff:
  "repo_name_parse raw0 = Ok r \<longleftrightarrow>
     (\<exists>raw. (raw0 = raw @ ''.git'' \<or> (\<not> ends_with ''.git'' raw0 \<and> raw0 = raw)) \<and>
       valid_shape repo_name_MAX_LEN raw \<and>
       r = \<lparr>repo_raw = raw, repo_lower = to_ascii_lowercase raw\<rparr>)"
proof -
  have dots: "\<not> valid_shape n ''.''" "\<not> valid_shape n ''..''" for n
    by (simp_all add: valid_shape_def)
  then show ?thesis
    by (auto simp: repo_name_parse_def and_then_Ok_iff validate_Ok_iff Let_def ends_with_def
        split: option.splits if_splits)
qed

lemma repo_name_no_slash: "repo_name_parse raw = Ok r \<Longrightarrow> CHR ''/'' \<notin> set (repo_lower r)"
  by (auto simp: repo_name_parse_Ok_iff slash_lower dest: valid_shape_no_slash)

lemma append_sep_inject:
  fixes a b :: string
  assumes "c \<notin> set a" "c \<notin> set b" "a @ c # x = b @ c # y"
  shows "a = b \<and> x = y"
proof -
  have "split_once c (a @ c # x) = Some (a, x)" "split_once c (b @ c # y) = Some (b, y)"
    using assms(1,2) by (simp_all add: split_once_Some)
  with assms(3) show ?thesis by (metis option.inject prod.inject)
qed

section \<open>Properties\<close>

text \<open>Two texts that differ at most in the case of ASCII letters.\<close>

definition same_but_case :: "string \<Rightarrow> string \<Rightarrow> bool" where
  "same_but_case a b \<longleftrightarrow> list_all2 (\<lambda>c d. code c = code d \<or>
     code c + 32 = code d \<and> code c \<in> {65..90} \<or> code d + 32 = code c \<and> code d \<in> {65..90}) a b"

lemma same_but_case_lower: "to_ascii_lowercase a = to_ascii_lowercase b \<longleftrightarrow> same_but_case a b"
proof -
  have "to_lower c = to_lower d \<longleftrightarrow> code c = code d \<or> code c + 32 = code d \<and> code c \<in> {65..90} \<or>
      code d + 32 = code c \<and> code d \<in> {65..90}" for c d
    unfolding code_inject [symmetric] code_to_lower is_upper_def by auto
  moreover have "map to_lower a = map to_lower b \<longleftrightarrow> list_all2 (=) (map to_lower a) (map to_lower b)" by (simp add: list.rel_eq)
  ultimately show ?thesis by (simp only: same_but_case_def to_ascii_lowercase_def list.rel_map)
qed

definition RESERVED_WORDS :: "string list" where
  "RESERVED_WORDS = [''api'', ''assets'', ''explore'', ''healthz'', ''internal'', ''login'', ''logout'',
     ''new'', ''register'', ''settings'', ''static'']"

lemma reserved_in_any_case: "to_ascii_lowercase raw \<in> set RESERVED \<longleftrightarrow> (\<exists>w\<in>set RESERVED_WORDS. same_but_case raw w)"
proof -
  have "list_all (\<lambda>w. to_ascii_lowercase w = w) RESERVED" by code_simp
  then have "\<forall>w\<in>set RESERVED. to_ascii_lowercase w = w" by (simp add: list_all_iff)
  moreover have "set RESERVED = set RESERVED_WORDS" by (simp add: RESERVED_def RESERVED_WORDS_def)
  ultimately show ?thesis unfolding same_but_case_lower [symmetric] by force
qed

text \<open>Property C40: which names an account can have, and when two accounts have the same. A name is
  accepted exactly when it has 1 to 39 characters, all of them letters or digits of ASCII, hyphens,
  underscores or dots, the first one a letter or digit and the last one no dot, and it is none of the
  eleven words \<open>api\<close>, \<open>assets\<close>, \<open>explore\<close>, \<open>healthz\<close>, \<open>internal\<close>, \<open>login\<close>, \<open>logout\<close>, \<open>new\<close>,
  \<open>register\<close>, \<open>settings\<close> and \<open>static\<close>, in any case of the letters. (\<open>readyz\<close>, which the server
  answers too, is not among them.) The name is kept as it was typed, and the keys of two accepted
  names are equal exactly when they differ at most in the case of letters, so that names
  which differ in nothing else compete for one key.\<close>

theorem username_accepted_iff:
  "((\<exists>u. username_parse raw = Ok u) \<longleftrightarrow>
     1 \<le> length raw \<and> length raw \<le> 39 \<and>
     (\<forall>c\<in>set raw. code c \<in> {48..57} \<union> {65..90} \<union> {97..122} \<or> c \<in> {CHR ''-'', CHR ''_'', CHR ''.''}) \<and>
     code (hd raw) \<in> {48..57} \<union> {65..90} \<union> {97..122} \<and> last raw \<noteq> CHR ''.'' \<and>
     (\<forall>w\<in>{''api'', ''assets'', ''explore'', ''healthz'', ''internal'', ''login'', ''logout'', ''new'', ''register'',
        ''settings'', ''static''}. \<not> same_but_case raw w)) \<and>
   (\<forall>a b u v. username_parse a = Ok u \<and> username_parse b = Ok v \<longrightarrow>
     user_raw u = a \<and> (user_lower u = user_lower v \<longleftrightarrow> same_but_case a b))"
proof -
  have alnum: "is_alnum c \<longleftrightarrow> code c \<in> {48..57} \<union> {65..90} \<union> {97..122}" for c
    by (auto simp: char_class_defs)
  have words: "set RESERVED_WORDS = {''api'', ''assets'', ''explore'', ''healthz'', ''internal'', ''login'', ''logout'', ''new'',
      ''register'', ''settings'', ''static''}" by (simp add: RESERVED_WORDS_def)
  have accepted: "(\<exists>u. username_parse raw = Ok u) \<longleftrightarrow> valid_shape 39 raw \<and> (\<forall>w\<in>set RESERVED_WORDS. \<not> same_but_case raw w)"
    unfolding username_parse_Ok_iff reserved_in_any_case username_MAX_LEN_def by blast
  have shape: "valid_shape 39 raw \<longleftrightarrow> 1 \<le> length raw \<and> length raw \<le> 39 \<and>
     (\<forall>c\<in>set raw. code c \<in> {48..57} \<union> {65..90} \<union> {97..122} \<or> c \<in> {CHR ''-'', CHR ''_'', CHR ''.''}) \<and>
     code (hd raw) \<in> {48..57} \<union> {65..90} \<union> {97..122} \<and> last raw \<noteq> CHR ''.''"
    unfolding valid_shape_def name_char_def alnum list_all_iff by (cases raw) auto
  have keys: "\<forall>a b u v. username_parse a = Ok u \<and> username_parse b = Ok v \<longrightarrow>
     user_raw u = a \<and> (user_lower u = user_lower v \<longleftrightarrow> same_but_case a b)"
    unfolding same_but_case_lower [symmetric] by (auto simp: username_parse_Ok_iff)
  show ?thesis unfolding accepted shape words conj_assoc by (rule conjI [OF refl keys])
qed

theorem username_accepted_witness:
  "(\<exists>u. username_parse ''Octo-cat'' = Ok u) \<and> (\<nexists>u. username_parse ''LogIn'' = Ok u) \<and>
   (\<exists>u v. username_parse ''Octo-cat'' = Ok u \<and> username_parse ''octo-Cat'' = Ok v \<and> user_lower u = user_lower v)"
proof -
  have cases: "username_parse ''Octo-cat'' = Ok \<lparr>user_raw = ''Octo-cat'', user_lower = ''octo-cat''\<rparr>"
    "username_parse ''octo-Cat'' = Ok \<lparr>user_raw = ''octo-Cat'', user_lower = ''octo-cat''\<rparr>"
    "same_but_case ''LogIn'' ''login''" "same_but_case ''Octo-cat'' ''octo-Cat''" by code_simp+
  have "(\<exists>u. username_parse ''LogIn'' = Ok u) \<Longrightarrow> \<not> same_but_case ''LogIn'' ''login''"
    using conjunct1 [OF username_accepted_iff [of "''LogIn''"]] by (simp only: ball_simps) blast
  with cases(3) have "\<nexists>u. username_parse ''LogIn'' = Ok u" by blast
  then show ?thesis using cases(1,2) by simp
qed

text \<open>The lookup key of a repository determines its owner and its name, so two
  different repositories never compete for one key: the separator cannot occur inside a parsed
  name.\<close>

theorem full_name_lower_inject:
  assumes "username_parse a = Ok o1" "username_parse b = Ok o2"
    and "repo_name_parse c = Ok r1" "repo_name_parse d = Ok r2"
  shows "full_name_lower o1 r1 = full_name_lower o2 r2 \<longleftrightarrow>
     user_lower o1 = user_lower o2 \<and> repo_lower r1 = repo_lower r2"
proof
  assume "full_name_lower o1 r1 = full_name_lower o2 r2"
  then have "user_lower o1 @ CHR ''/'' # repo_lower r1 = user_lower o2 @ CHR ''/'' # repo_lower r2"
    by (simp add: full_name_lower_def)
  with append_sep_inject [OF username_no_slash [OF assms(1)] username_no_slash [OF assms(2)]]
  show "user_lower o1 = user_lower o2 \<and> repo_lower r1 = repo_lower r2" by blast
qed (simp add: full_name_lower_def)

theorem full_name_lower_witness:
  "\<exists>o1 r1 r2. username_parse ''Octo'' = Ok o1 \<and> repo_name_parse ''hello.git'' = Ok r1 \<and>
     repo_name_parse ''World'' = Ok r2 \<and> full_name_lower o1 r1 \<noteq> full_name_lower o1 r2"
proof -
  let ?o = "\<lparr>user_raw = ''Octo'', user_lower = ''octo''\<rparr>"
  let ?r = "\<lparr>repo_raw = ''hello'', repo_lower = ''hello''\<rparr>"
  let ?q = "\<lparr>repo_raw = ''World'', repo_lower = ''world''\<rparr>"
  have "username_parse ''Octo'' = Ok ?o" "repo_name_parse ''hello.git'' = Ok ?r"
    "repo_name_parse ''World'' = Ok ?q"
    by code_simp+
  with full_name_lower_inject [OF this(1) this(1) this(2,3)] show ?thesis by fastforce
qed

text \<open>Parsing is not idempotent. One suffix is stripped, so a name with the suffix
  twice is stored still ending in it, and reading the stored name back strips it again and gives
  another repository; a stored name without the suffix reads back as itself.\<close>

theorem repo_name_reparse:
  assumes "repo_name_parse raw = Ok r"
  shows "repo_name_parse (repo_raw r) = Ok r \<longleftrightarrow> \<not> ends_with ''.git'' (repo_raw r)"
proof
  assume "repo_name_parse (repo_raw r) = Ok r"
  then show "\<not> ends_with ''.git'' (repo_raw r)"
    by (auto simp: repo_name_parse_Ok_iff)
next
  assume "\<not> ends_with ''.git'' (repo_raw r)"
  with assms show "repo_name_parse (repo_raw r) = Ok r"
    by (auto simp: repo_name_parse_Ok_iff)
qed

theorem repo_name_reparse_witness:
  "repo_name_parse ''a.git.git'' = Ok \<lparr>repo_raw = ''a.git'', repo_lower = ''a.git''\<rparr> \<and>
   repo_name_parse ''a.git'' \<noteq> repo_name_parse ''a.git.git''"
proof -
  have r: "repo_name_parse ''a.git.git'' = Ok \<lparr>repo_raw = ''a.git'', repo_lower = ''a.git''\<rparr>"
    by code_simp
  moreover have "ends_with ''.git'' ''a.git''" by code_simp
  ultimately show ?thesis using repo_name_reparse [OF r] by simp
qed

end
