(* ===== verification/Value_Types.thy ===== *)
theory Value_Types
  imports Forge_Prelude
begin

unbundle bit_operations_syntax

text \<open>
  The value types of \<open>forge-types\<close>: visibility and roles (\<open>lib.rs\<close>), aggregate identifiers
  (\<open>ids.rs\<close>), git object ids (\<open>oid.rs\<close>), byte quantities and chunk counts (\<open>size.rs\<close>) and
  topic names (\<open>topics.rs\<close>).

  An identifier is a UUID, which the uuid crate provides. The forge uses only its equality and
  its text, so an identifier is modelled by its text; what the code relies on (the text of a
  UUID holds no separator) is the predicate \<open>uuid_text\<close>, a hypothesis where it is needed.
\<close>

section \<open>Visibility and roles\<close>

datatype visibility = Public | Private

definition visibility_display :: "visibility \<Rightarrow> string" where
  "visibility_display v = (case v of Public \<Rightarrow> ''public'' | Private \<Rightarrow> ''private'')"

definition visibility_parse :: "string \<Rightarrow> visibility option" where
  "visibility_parse s =
     (if s = ''public'' then Some Public else if s = ''private'' then Some Private else None)"

datatype role = Read | Write | Admin

text \<open>The derived order of the enum: the order of its variants.\<close>

definition role_rank :: "role \<Rightarrow> nat" where
  "role_rank r = (case r of Read \<Rightarrow> 0 | Write \<Rightarrow> 1 | Admin \<Rightarrow> 2)"

instantiation role :: linorder
begin

definition less_eq_role :: "role \<Rightarrow> role \<Rightarrow> bool" where
  "less_eq_role a b \<longleftrightarrow> role_rank a \<le> role_rank b"

definition less_role :: "role \<Rightarrow> role \<Rightarrow> bool" where
  "less_role a b \<longleftrightarrow> role_rank a < role_rank b"

instance
  by standard (auto simp: less_eq_role_def less_role_def role_rank_def split: role.splits)

end

definition role_display :: "role \<Rightarrow> string" where
  "role_display r = (case r of Read \<Rightarrow> ''read'' | Write \<Rightarrow> ''write'' | Admin \<Rightarrow> ''admin'')"

definition role_parse :: "string \<Rightarrow> role option" where
  "role_parse s =
     (if s = ''read'' then Some Read else if s = ''write'' then Some Write
      else if s = ''admin'' then Some Admin else None)"

definition role_allows :: "role \<Rightarrow> role \<Rightarrow> bool" where
  "role_allows self needed \<longleftrightarrow> needed \<le> self"

lemma role_allows_trans: "role_allows a b \<Longrightarrow> role_allows b c \<Longrightarrow> role_allows a c"
  unfolding role_allows_def by (rule order_trans)

section \<open>Identifiers\<close>

definition hex_or_dash :: "char \<Rightarrow> bool" where
  "hex_or_dash c \<longleftrightarrow> c \<in> set ''0123456789abcdef-''"

definition uuid_text :: "string \<Rightarrow> bool" where
  "uuid_text s \<longleftrightarrow> length s = 36 \<and> list_all hex_or_dash s"

type_synonym user_id = string
type_synonym repo_id = string
type_synonym issue_id = string
type_synonym pr_id = string
type_synonym comment_id = string
type_synonym run_id = string
type_synonym job_id = string

definition record_key :: "string \<Rightarrow> string \<Rightarrow> string" where
  "record_key PREFIX uuid = PREFIX @ '':'' @ uuid"

lemma uuid_text_no_sep: "uuid_text s \<Longrightarrow> CHR ''/'' \<notin> set s \<and> CHR '':'' \<notin> set s"
  unfolding uuid_text_def list_all_iff hex_or_dash_def by fastforce

section \<open>Git object ids\<close>

datatype oid = Oid (oid_bytes: bytes)

definition oid_wf :: "oid \<Rightarrow> bool" where
  "oid_wf x \<longleftrightarrow> length (oid_bytes x) = 20"

instantiation oid :: linorder
begin

definition less_eq_oid :: "oid \<Rightarrow> oid \<Rightarrow> bool" where
  "less_eq_oid a b \<longleftrightarrow> oid_bytes a \<le> oid_bytes b"

definition less_oid :: "oid \<Rightarrow> oid \<Rightarrow> bool" where
  "less_oid a b \<longleftrightarrow> oid_bytes a < oid_bytes b"

instance
  by standard (auto simp: less_eq_oid_def less_oid_def oid.expand)

end

datatype invalid_oid = OidLength nat | NotHex

definition oid_HEX_LEN :: nat where
  "oid_HEX_LEN = 40"

definition oid_zero :: oid where
  "oid_zero = Oid (replicate 20 0)"

definition oid_is_zero :: "oid \<Rightarrow> bool" where
  "oid_is_zero x \<longleftrightarrow> oid_bytes x = replicate 20 0"

definition to_hex :: "oid \<Rightarrow> string" where
  "to_hex x = concat (map hex_byte (oid_bytes x))"

definition hex_val :: "char \<Rightarrow> byte option" where
  "hex_val c =
     (if is_digit c then Some (of_nat (code c - 48))
      else if 97 \<le> code c \<and> code c \<le> 102 then Some (of_nat (code c - 97 + 10))
      else if 65 \<le> code c \<and> code c \<le> 70 then Some (of_nat (code c - 65 + 10))
      else None)"

text \<open>The loop over \<open>chunks_exact(2)\<close>: a trailing odd byte would be left out.\<close>

fun hex_chunks :: "string \<Rightarrow> (bytes, invalid_oid) result" where
  "hex_chunks (a # b # cs) =
     and_then (ok_or (hex_val a) NotHex) (\<lambda>hi.
       and_then (ok_or (hex_val b) NotHex) (\<lambda>lo.
         and_then (hex_chunks cs) (\<lambda>out. Ok ((push_bit 4 hi OR lo) # out))))"
| "hex_chunks _ = Ok []"

definition oid_from_str :: "string \<Rightarrow> (oid, invalid_oid) result" where
  "oid_from_str s =
     (if length s \<noteq> oid_HEX_LEN then Err (OidLength (length s))
      else and_then (hex_chunks s) (\<lambda>out. Ok (Oid out)))"

lemma hex_val_digit:
  assumes "n < 16" shows "hex_val (digit_char n) = Some (of_nat n)"
proof -
  have "list_all (\<lambda>n. hex_val (digit_char n) = Some (of_nat n)) [0..<16]" by code_simp
  with assms show ?thesis by (simp add: list_all_iff)
qed

lemma low_nibble: "(b :: byte) AND 15 = of_nat (unat b mod 16)"
proof -
  have "b AND 15 = b AND mask 4" by (simp add: mask_eq_exp_minus_1)
  also have "\<dots> = take_bit 4 b" by (simp add: take_bit_eq_mask)
  also have "\<dots> = of_nat (unat b mod 16)"
    by (rule iffD2 [OF word_unat_eq_iff]) (simp add: unsigned_take_bit_eq take_bit_eq_mod unat_of_nat unat_mod)
  finally show ?thesis .
qed

lemma high_nibble: "drop_bit 4 (b :: byte) = of_nat (unat b div 16)"
proof (rule iffD2 [OF word_unat_eq_iff])
  have "unat b < 256" using unsigned_less [of b, where ?'a = nat] by simp
  then show "unat (drop_bit 4 b) = unat (of_nat (unat b div 16) :: byte)"
    by (simp add: unat_of_nat drop_bit_eq_div unat_div take_bit_eq_mod)
qed

lemma nibble_join: "push_bit 4 (drop_bit 4 (b :: byte)) OR (b AND 15) = b"
proof -
  have "b AND 15 = b AND mask 4" by (simp add: mask_eq_exp_minus_1)
  then show ?thesis by (auto intro!: bit_eqI simp: bit_simps)
qed

lemma hex_byte_val:
  "hex_val (digit_char (unat b div 16)) = Some (drop_bit 4 b)"
  "hex_val (digit_char (unat b mod 16)) = Some (b AND 15)"
  "push_bit 4 (drop_bit 4 b) OR (b AND 15) = b"
proof -
  have "unat b < 256" using unsigned_less [of b, where ?'a = nat] by simp
  then have "unat b div 16 < 16" by simp
  then show "hex_val (digit_char (unat b div 16)) = Some (drop_bit 4 b)"
    by (simp only: hex_val_digit high_nibble)
  show "hex_val (digit_char (unat b mod 16)) = Some (b AND 15)"
    by (simp only: hex_val_digit low_nibble mod_less_divisor zero_less_numeral)
qed (rule nibble_join)

lemma hex_chunks_hex: "hex_chunks (concat (map hex_byte bs)) = Ok bs"
  by (induction bs) (simp_all add: hex_byte_def hex_byte_val)

lemma length_concat_hex [simp]: "length (concat (map hex_byte bs)) = 2 * length bs"
  by (induction bs) (simp_all add: hex_byte_def)

lemma code_digit_char: "n < 16 \<Longrightarrow> code (digit_char n) = (if n < 10 then 48 + n else 87 + n)"
proof -
  have "list_all (\<lambda>n. code (digit_char n) = (if n < 10 then 48 + n else 87 + n)) [0..<16]"
    by code_simp
  then show "n < 16 \<Longrightarrow> ?thesis" by (simp only: list_all_iff set_upt atLeastLessThan_iff) simp
qed

lemma unat_of_small: "n < 256 \<Longrightarrow> unat (of_nat n :: byte) = n"
  by (simp add: unat_of_nat take_bit_eq_mod)

lemma hex_val_char:
  assumes "hex_val c = Some v"
  shows "unat v < 16 \<and> digit_char (unat v) = to_lower c"
proof -
  have "\<exists>n. v = of_nat n \<and> n < 16 \<and> (if n < 10 then 48 + n else 87 + n) = code (to_lower c)"
  proof -
    consider "is_digit c" | "97 \<le> code c" "code c \<le> 102" "\<not> is_digit c"
      | "65 \<le> code c" "code c \<le> 70" "\<not> is_digit c" "\<not> 97 \<le> code c"
      using assms by (auto simp: hex_val_def split: if_splits)
    then show ?thesis
    proof cases
      case 1
      with assms have "v = of_nat (code c - 48)" by (simp add: hex_val_def)
      with 1 show ?thesis
        by (intro exI [of _ "code c - 48"]) (auto simp: is_digit_def is_upper_def code_to_lower)
    next
      case 2
      with assms have "v = of_nat (code c - 97 + 10)" by (simp add: hex_val_def)
      with 2 show ?thesis
        by (intro exI [of _ "code c - 97 + 10"]) (auto simp: is_upper_def code_to_lower)
    next
      case 3
      with assms have "v = of_nat (code c - 65 + 10)" by (simp add: hex_val_def)
      with 3 show ?thesis
        by (intro exI [of _ "code c - 65 + 10"]) (auto simp: is_upper_def code_to_lower)
    qed
  qed
  then obtain n where n: "v = of_nat n" "n < 16" "code (digit_char n) = code (to_lower c)"
    using code_digit_char by metis
  then have "unat v = n" by (simp add: unat_of_small)
  with n show ?thesis by (simp add: code_inject)
qed

lemma nibbles_join:
  assumes "unat (h :: byte) < 16" "unat (l :: byte) < 16"
  shows "unat (push_bit 4 h OR l) div 16 = unat h \<and> unat (push_bit 4 h OR l) mod 16 = unat l"
proof -
  have all: "list_all (\<lambda>i. list_all (\<lambda>j. unat (push_bit 4 (of_nat i) OR of_nat j :: byte) div 16 = i \<and>
      unat (push_bit 4 (of_nat i) OR of_nat j :: byte) mod 16 = j) [0..<16]) [0..<16]"
    by code_simp
  have ij: "h = of_nat i" "l = of_nat j" if "i = unat h" "j = unat l" for i j
    using that by simp_all
  have "unat h \<in> set [0..<16]" "unat l \<in> set [0..<16]" using assms by simp_all
  with all have "unat (push_bit 4 (of_nat (unat h)) OR of_nat (unat l) :: byte) div 16 = unat h \<and>
      unat (push_bit 4 (of_nat (unat h)) OR of_nat (unat l) :: byte) mod 16 = unat l"
    unfolding list_all_iff by blast
  then show ?thesis using ij [OF refl refl] by metis
qed

lemma hex_chunks_lower:
  "hex_chunks s = Ok bs \<Longrightarrow> even (length s) \<Longrightarrow>
     concat (map hex_byte bs) = to_ascii_lowercase s \<and> length s = 2 * length bs"
proof (induction s arbitrary: bs rule: hex_chunks.induct)
  case (1 a b cs)
  then obtain h l out where hl: "hex_val a = Some h" "hex_val b = Some l"
    and out: "hex_chunks cs = Ok out" and bs: "bs = (push_bit 4 h OR l) # out"
    by (auto simp: and_then_Ok_iff)
  have "unat h < 16" "digit_char (unat h) = to_lower a" "unat l < 16" "digit_char (unat l) = to_lower b"
    using hex_val_char [OF hl(1)] hex_val_char [OF hl(2)] by simp_all
  moreover have "concat (map hex_byte out) = to_ascii_lowercase cs \<and> length cs = 2 * length out"
    using 1 hl out by simp
  ultimately show ?case using nibbles_join [of h l]
    unfolding bs by (simp add: to_ascii_lowercase_def) (simp add: hex_byte_def)
qed (auto simp: to_ascii_lowercase_def)

text \<open>The hex spelling of an object id and its parser are inverse. Every well-formed
  id is read back from its spelling; a text that parses has 40 characters, gives a well-formed
  id, and is spelled by it up to letter case, so the spelling is canonical.\<close>

theorem oid_hex_round_trip:
  "(oid_wf x \<longrightarrow> oid_from_str (to_hex x) = Ok x) \<and>
   (oid_from_str s = Ok y \<longrightarrow> oid_wf y \<and> to_hex y = to_ascii_lowercase s \<and> length s = 40)"
proof (intro conjI impI)
  assume "oid_wf x"
  then show "oid_from_str (to_hex x) = Ok x"
    by (cases x) (simp add: oid_wf_def oid_from_str_def to_hex_def oid_HEX_LEN_def hex_chunks_hex)
next
  assume "oid_from_str s = Ok y"
  then obtain out where "length s = 40" "hex_chunks s = Ok out" "y = Oid out"
    by (auto simp: oid_from_str_def oid_HEX_LEN_def and_then_Ok_iff split: if_splits)
  with hex_chunks_lower [of s out]
  show "oid_wf y" "to_hex y = to_ascii_lowercase s" "length s = 40"
    by (simp_all add: oid_wf_def to_hex_def)
qed

theorem oid_hex_round_trip_witness:
  "oid_from_str (to_hex (Oid (replicate 20 171))) = Ok (Oid (replicate 20 171)) \<and>
   oid_from_str (concat (replicate 20 ''aB'')) = Ok (Oid (replicate 20 171)) \<and>
   to_hex (Oid (replicate 20 171)) = concat (replicate 20 ''ab'')"
proof -
  have r: "oid_from_str (concat (replicate 20 ''aB'')) = Ok (Oid (replicate 20 171))"
    by code_simp
  have "to_ascii_lowercase (concat (replicate 20 ''aB'')) = concat (replicate 20 ''ab'')"
    by code_simp
  moreover have "oid_wf (Oid (replicate 20 171))" by code_simp
  ultimately show ?thesis
    using oid_hex_round_trip [of "Oid (replicate 20 171)" "concat (replicate 20 ''aB'')" "Oid (replicate 20 171)"] r
    by metis
qed

section \<open>Byte quantities\<close>

type_synonym u64 = "64 word"

type_synonym byte_size = u64

definition mib :: "u64 \<Rightarrow> byte_size" where
  "mib n = n * 1048576"

definition as_i64 :: "byte_size \<Rightarrow> int" where
  "as_i64 b = (if uint b \<le> 9223372036854775807 then uint b else 9223372036854775807)"

text \<open>\<open>u64::div_ceil\<close>: the quotient, plus one when something is left over.\<close>

definition div_ceil :: "u64 \<Rightarrow> u64 \<Rightarrow> u64" where
  "div_ceil a b = (if a mod b > 0 then a div b + 1 else a div b)"

text \<open>A \<open>ChunkSize\<close> is a \<open>u64\<close> refined to be positive; the model carries that as a hypothesis.\<close>

definition chunk_count :: "u64 \<Rightarrow> u64 \<Rightarrow> u64" where
  "chunk_count len chunk = (if len = 0 then 1 else div_ceil len chunk)"

definition chunks_of :: "byte_size \<Rightarrow> byte_size \<Rightarrow> u64" where
  "chunks_of sz chunk = chunk_count sz chunk"

definition max_frame :: byte_size where
  "max_frame = mib 100"

definition object_chunk :: byte_size where
  "object_chunk = mib 4"

lemma unat_div_ceil:
  assumes "b \<noteq> 0" shows "unat (div_ceil a b) = unat a div unat b + (if unat a mod unat b > 0 then 1 else 0)"
proof (cases "a mod b > 0")
  case True
  then have r: "unat a mod unat b > 0" by (simp add: word_less_nat_alt unat_mod)
  have b: "0 < unat b" using assms by (simp add: unat_gt_0)
  have "unat a div unat b < unat a \<or> unat a div unat b = unat a" by (meson div_le_dividend le_neq_implies_less)
  then have "unat a div unat b + 1 < 2 ^ 64"
  proof
    assume "unat a div unat b < unat a"
    then show ?thesis using unsigned_less [of a, where ?'a = nat] by simp
  next
    assume *: "unat a div unat b = unat a"
    with r b have "unat b \<noteq> 1" by auto
    with b have "1 < unat b" by simp
    moreover have "0 < unat a" using r by (metis mod_0 not_gr_zero)
    ultimately have "unat a div unat b < unat a" by (rule div_less_dividend)
    with * show ?thesis by simp
  qed
  then have "unat (a div b + 1) = unat a div unat b + 1"
    by (simp add: unat_word_ariths unat_div)
  with True r show ?thesis by (simp add: div_ceil_def)
next
  case False
  then have "a mod b = 0" by (simp add: word_neq_0_conv [symmetric])
  then have "unat a mod unat b = 0" by (metis unat_0 unat_mod)
  with False show ?thesis by (simp add: div_ceil_def unat_div)
qed

text \<open>The chunk count of a size is enough to hold it and the least such count, is
  never zero (an empty object still occupies one chunk) and does not wrap, for every pair of
  64-bit sizes with a positive chunk.\<close>

theorem chunk_count_exact:
  assumes "0 < chunk"
  shows "unat len \<le> unat (chunk_count len chunk) * unat chunk \<and> 1 \<le> unat (chunk_count len chunk) \<and>
    (unat (chunk_count len chunk) = 1 \<or> (unat (chunk_count len chunk) - 1) * unat chunk < unat len)"
proof -
  have c: "0 < unat chunk" using assms by (simp add: unat_gt_0 word_neq_0_conv)
  let ?n = "unat (chunk_count len chunk)"
  have n: "?n = (if len = 0 then 1
      else unat len div unat chunk + (if unat len mod unat chunk > 0 then 1 else 0))"
    using assms by (simp add: chunk_count_def unat_div_ceil word_neq_0_conv)
  have split: "unat len = unat len div unat chunk * unat chunk + unat len mod unat chunk"
    by simp
  have lt: "unat len mod unat chunk < unat chunk" using c by simp
  have le: "unat len \<le> ?n * unat chunk"
  proof (cases "unat len mod unat chunk > 0")
    case True
    then have "?n * unat chunk = unat len div unat chunk * unat chunk + unat chunk" by (auto simp: n)
    with split lt show ?thesis by linarith
  next
    case False
    with split have "unat len = unat len div unat chunk * unat chunk" by linarith
    moreover have "unat len div unat chunk \<le> ?n" using False by (cases "len = 0") (simp_all add: n)
    ultimately show ?thesis by (metis mult_le_mono1)
  qed
  have one: "1 \<le> ?n"
  proof (cases "len = 0")
    case False
    then have "0 < unat len" by (simp add: unat_gt_0)
    with le have "?n \<noteq> 0" by (metis mult_0 not_le)
    then show ?thesis by simp
  qed (simp add: chunk_count_def)
  have least: "1 < ?n \<Longrightarrow> (?n - 1) * unat chunk < unat len"
  proof -
    assume big: "1 < ?n"
    then have t: "len \<noteq> 0" by (auto simp: n)
    show "(?n - 1) * unat chunk < unat len"
    proof (cases "unat len mod unat chunk > 0")
      case True
      with t have "?n - 1 = unat len div unat chunk" by (simp add: n)
      then have "(?n - 1) * unat chunk = unat len div unat chunk * unat chunk" by (simp only:)
      with True split show ?thesis by linarith
    next
      case False
      with t have q: "?n = unat len div unat chunk" by (simp add: n)
      have "unat len = ?n * unat chunk" unfolding q using False split by linarith
      moreover have "(?n - 1) * unat chunk < ?n * unat chunk" using big c by simp
      ultimately show ?thesis by simp
    qed
  qed
  from le one least show ?thesis by linarith
qed

theorem chunk_count_witness:
  "unat (chunk_count (mib 10) object_chunk) = 3 \<and>
   unat (mib 10) \<le> unat (chunk_count (mib 10) object_chunk) * unat object_chunk \<and>
   2 * unat object_chunk < unat (mib 10)"
proof -
  have p: "0 < object_chunk" by (simp add: object_chunk_def mib_def)
  have v: "unat (chunk_count (mib 10) object_chunk) = 3" by code_simp
  with chunk_count_exact [OF p, of "mib 10"] show ?thesis by simp
qed

section \<open>Topic names\<close>

definition EVENTS_USERS :: string where "EVENTS_USERS = ''forge.events.users''"
definition EVENTS_REPOS :: string where "EVENTS_REPOS = ''forge.events.repos''"
definition EVENTS_ISSUES :: string where "EVENTS_ISSUES = ''forge.events.issues''"
definition EVENTS_PRS :: string where "EVENTS_PRS = ''forge.events.prs''"
definition EVENTS_GIT_REFS :: string where "EVENTS_GIT_REFS = ''forge.events.git-refs''"
definition EVENTS_CI :: string where "EVENTS_CI = ''forge.events.ci''"
definition META_CATALOG :: string where "META_CATALOG = ''forge.meta.catalog''"
definition GIT_REFS :: string where "GIT_REFS = ''forge.git.refs''"
definition WEBHOOKS_CONFIG :: string where "WEBHOOKS_CONFIG = ''forge.webhooks.config''"
definition WEBHOOKS_DELIVERIES :: string where "WEBHOOKS_DELIVERIES = ''forge.webhooks.deliveries''"
definition WEBHOOKS_ATTEMPTS :: string where "WEBHOOKS_ATTEMPTS = ''forge.webhooks.attempts''"
definition WEBHOOKS_DLQ :: string where "WEBHOOKS_DLQ = ''forge.webhooks.dlq''"
definition CI_JOBS :: string where "CI_JOBS = ''forge.ci.jobs''"
definition CI_LOGS :: string where "CI_LOGS = ''forge.ci.logs''"

definition EVENT_TOPICS :: "string list" where
  "EVENT_TOPICS = [EVENTS_USERS, EVENTS_REPOS, EVENTS_ISSUES, EVENTS_PRS, EVENTS_GIT_REFS, EVENTS_CI]"

definition repo_objects :: "repo_id \<Rightarrow> string" where
  "repo_objects repo = ''forge.git.objects.'' @ repo"

lemmas topic_defs = EVENTS_USERS_def EVENTS_REPOS_def EVENTS_ISSUES_def EVENTS_PRS_def
  EVENTS_GIT_REFS_def EVENTS_CI_def META_CATALOG_def GIT_REFS_def WEBHOOKS_CONFIG_def
  WEBHOOKS_DELIVERIES_def WEBHOOKS_ATTEMPTS_def WEBHOOKS_DLQ_def CI_JOBS_def CI_LOGS_def

end
