(* ===== verification/Forge_Auth.thy ===== *)
theory Forge_Auth
  imports Value_Types
begin

text \<open>
  Credentials as \<open>forge-auth\<close> handles them: token scopes (\<open>scope.rs\<close>), form tokens
  (\<open>csrf.rs\<close>), the session cookie (\<open>cookie.rs\<close>) and the shape of a secret (\<open>secret.rs\<close>).
  SHA-256 and the base64 engine are other crates: the digest is the parameter \<open>sha\<close> and the
  encoded random bytes are the argument of \<open>mint_token\<close>.
\<close>

section \<open>Scopes\<close>

datatype scope = RepoRead | RepoWrite | RepoAdmin | User

definition scope_rank :: "scope \<Rightarrow> nat" where
  "scope_rank s = (case s of RepoRead \<Rightarrow> 0 | RepoWrite \<Rightarrow> 1 | RepoAdmin \<Rightarrow> 2 | User \<Rightarrow> 3)"

instantiation scope :: linorder
begin

definition less_eq_scope :: "scope \<Rightarrow> scope \<Rightarrow> bool" where
  "less_eq_scope a b \<longleftrightarrow> scope_rank a \<le> scope_rank b"

definition less_scope :: "scope \<Rightarrow> scope \<Rightarrow> bool" where
  "less_scope a b \<longleftrightarrow> scope_rank a < scope_rank b"

instance
  by standard (auto simp: less_eq_scope_def less_scope_def scope_rank_def split: scope.splits)

end

definition scope_as_str :: "scope \<Rightarrow> string" where
  "scope_as_str s = (case s of
     RepoRead \<Rightarrow> ''repo:read'' | RepoWrite \<Rightarrow> ''repo:write''
   | RepoAdmin \<Rightarrow> ''repo:admin'' | User \<Rightarrow> ''user'')"

definition scope_all :: "scope list" where
  "scope_all = [RepoRead, RepoWrite, RepoAdmin, User]"

definition implies :: "scope \<Rightarrow> scope \<Rightarrow> bool" where
  "implies self needed = (case self of
     RepoAdmin \<Rightarrow> needed \<in> {RepoAdmin, RepoWrite, RepoRead}
   | RepoWrite \<Rightarrow> needed \<in> {RepoWrite, RepoRead}
   | RepoRead \<Rightarrow> needed = RepoRead
   | User \<Rightarrow> needed = User)"

definition as_role :: "scope \<Rightarrow> role option" where
  "as_role s = (case s of
     RepoRead \<Rightarrow> Some Read | RepoWrite \<Rightarrow> Some Write | RepoAdmin \<Rightarrow> Some Admin | User \<Rightarrow> None)"

definition scope_from_str :: "string \<Rightarrow> (scope, string) result" where
  "scope_from_str s =
     (if s = ''repo:read'' then Ok RepoRead
      else if s = ''repo:write'' then Ok RepoWrite
      else if s = ''repo:admin'' then Ok RepoAdmin
      else if s = ''user'' then Ok User
      else Err s)"

text \<open>\<open>Vec::dedup\<close> drops an element equal to the one kept before it.\<close>

fun dedup :: "'a list \<Rightarrow> 'a list" where
  "dedup (a # b # xs) = (if a = b then dedup (b # xs) else a # dedup (b # xs))"
| "dedup xs = xs"

definition scopes_new :: "scope list \<Rightarrow> scope list" where
  "scopes_new xs = dedup (sort xs)"

definition parse_ok :: "string \<Rightarrow> scope option" where
  "parse_ok s = (case scope_from_str s of Ok x \<Rightarrow> Some x | Err _ \<Rightarrow> None)"

definition from_stored :: "string list \<Rightarrow> scope list" where
  "from_stored stored = scopes_new (List.map_filter parse_ok stored)"

definition to_stored :: "scope list \<Rightarrow> string list" where
  "to_stored xs = map scope_as_str xs"

definition scopes_parse :: "string \<Rightarrow> scope list" where
  "scopes_parse requested = scopes_new (List.map_filter parse_ok (split_whitespace requested))"

definition allows :: "scope list \<Rightarrow> scope \<Rightarrow> bool" where
  "allows xs needed \<longleftrightarrow> list_ex (\<lambda>held. implies held needed) xs"

lemma set_dedup [simp]: "set (dedup xs) = set xs"
  by (induction xs rule: dedup.induct) auto

lemma sorted_dedup: "sorted (xs :: 'a :: linorder list) \<Longrightarrow> sorted (dedup xs) \<and> distinct (dedup xs)"
  by (induction xs rule: dedup.induct) (auto simp: less_le_not_le)

lemma dedup_id: "sorted xs \<Longrightarrow> distinct xs \<Longrightarrow> dedup xs = (xs :: 'a :: linorder list)"
  by (induction xs rule: dedup.induct) auto

lemma scopes_new_canonical:
  "set (scopes_new xs) = set xs" "sorted (scopes_new xs)" "distinct (scopes_new xs)"
  using sorted_dedup [of "sort xs"] by (simp_all add: scopes_new_def)

lemma scopes_new_set: "set xs = set ys \<Longrightarrow> scopes_new xs = scopes_new ys"
  by (rule sorted_distinct_set_unique) (simp_all add: scopes_new_canonical)

lemma parse_ok_as_str: "parse_ok (scope_as_str s) = Some s"
  by (cases s) (simp_all add: parse_ok_def scope_from_str_def scope_as_str_def)

lemma implies_role:
  "implies a b \<longleftrightarrow> (case (as_role a, as_role b) of
     (Some r, Some s) \<Rightarrow> s \<le> r | (None, None) \<Rightarrow> True | _ \<Rightarrow> False)"
  by (cases a; cases b)
     (auto simp: implies_def as_role_def less_eq_role_def role_rank_def)

lemma implies_trans: "implies a b \<Longrightarrow> implies b c \<Longrightarrow> implies a c"
  by (cases a; cases b; cases c) (auto simp: implies_def)

text \<open>A stored scope set grants exactly what its recognised words grant. Reading the
  stored words back gives a sorted duplicate-free set that does not depend on their order or
  on unknown words; a needed scope is allowed exactly when a recognised word implies it, and
  account access never follows from a repository scope or the other way round.\<close>

theorem scopes_grant_exactly:
  "sorted (from_stored ws) \<and> distinct (from_stored ws) \<and>
   from_stored (to_stored (from_stored ws)) = from_stored ws \<and>
   (allows (from_stored ws) needed \<longleftrightarrow>
     (\<exists>held. scope_as_str held \<in> set ws \<and>
       (case (as_role held, as_role needed) of
          (Some r, Some s) \<Rightarrow> s \<le> r | (None, None) \<Rightarrow> True | _ \<Rightarrow> False)))"
proof (intro conjI)
  have parse: "parse_ok w = Some h \<longleftrightarrow> w = scope_as_str h" for w h
    by (cases h) (auto simp: parse_ok_def scope_from_str_def scope_as_str_def)
  show "sorted (from_stored ws)" "distinct (from_stored ws)"
    by (simp_all add: from_stored_def scopes_new_canonical)
  have "List.map_filter parse_ok (map scope_as_str xs) = xs" for xs
    by (induction xs) (simp_all add: parse_ok_as_str)
  then show "from_stored (to_stored (from_stored ws)) = from_stored ws"
    by (simp add: from_stored_def to_stored_def)
       (rule scopes_new_set, simp add: scopes_new_canonical)
  show "allows (from_stored ws) needed \<longleftrightarrow> (\<exists>held. scope_as_str held \<in> set ws \<and>
      (case (as_role held, as_role needed) of
        (Some r, Some s) \<Rightarrow> s \<le> r | (None, None) \<Rightarrow> True | _ \<Rightarrow> False))"
    by (auto simp: allows_def list_ex_iff from_stored_def scopes_new_canonical set_map_filter
        parse implies_role)
qed

section \<open>Form tokens\<close>

definition token_for :: "(bytes \<Rightarrow> bytes) \<Rightarrow> bytes \<Rightarrow> string \<Rightarrow> string" where
  "token_for sha server_secret session_hash =
     concat (map hex_byte (sha (server_secret @ str_bytes ''csrf'' @ str_bytes session_hash)))"

definition csrf_verify :: "(bytes \<Rightarrow> bytes) \<Rightarrow> bytes \<Rightarrow> string \<Rightarrow> string \<Rightarrow> bool" where
  "csrf_verify sha server_secret session_hash presented =
     (let expected = token_for sha server_secret session_hash in
      if length expected \<noteq> length presented then False
      else foldl (\<lambda>acc (a, b). acc OR (a XOR b)) 0
             (zip (str_bytes expected) (str_bytes presented)) = (0 :: byte))"

definition is_cross_site :: "string option \<Rightarrow> bool" where
  "is_cross_site sec_fetch_site \<longleftrightarrow> sec_fetch_site = Some ''cross-site''"

text \<open>The constant-time comparison of form tokens accepts the token of the session
  and no other text, whatever the digest function.\<close>

theorem csrf_verify_exact:
  "csrf_verify sha secret session presented \<longleftrightarrow> presented = token_for sha secret session"
  by (auto simp: csrf_verify_def Let_def fold_differences str_bytes_inject)

section \<open>The session cookie\<close>

definition SESSION_COOKIE :: string where
  "SESSION_COOKIE = ''crabforge_session''"

definition session_cookie :: "string \<Rightarrow> nat \<Rightarrow> bool \<Rightarrow> string" where
  "session_cookie token max_age secure =
     SESSION_COOKIE @ ''='' @ token @ ''; Path=/; HttpOnly'' @ (if secure then ''; Secure'' else [])
       @ ''; SameSite=Lax; Max-Age='' @ show_nat max_age"

definition clear_session_cookie :: "bool \<Rightarrow> string" where
  "clear_session_cookie secure =
     SESSION_COOKIE @ ''=; Path=/; HttpOnly'' @ (if secure then ''; Secure'' else [])
       @ ''; SameSite=Lax; Max-Age=0''"

definition read_cookie :: "string list \<Rightarrow> string \<Rightarrow> string option" where
  "read_cookie header_values name =
     (let pairs = List.map_filter (split_once (CHR ''=''))
                    (concat (map (split_by (\<lambda>c. c = CHR '';'')) header_values))
      in map_option (\<lambda>(_, value). trim value) (find (\<lambda>(key, _). trim key = name) pairs))"

text \<open>The \<open>Cookie\<close> header a client sends, RFC 6265: pairs joined by a semicolon and a space.\<close>

definition cookie_octet :: "char \<Rightarrow> bool" where
  "cookie_octet c \<longleftrightarrow> 33 \<le> code c \<and> code c < 127 \<and> c \<noteq> CHR '';''"

definition cookie_pair_ok :: "string \<times> string \<Rightarrow> bool" where
  "cookie_pair_ok kv \<longleftrightarrow> list_all (\<lambda>c. cookie_octet c \<and> c \<noteq> CHR ''='') (fst kv)
     \<and> list_all cookie_octet (snd kv)"

fun cookie_header :: "(string \<times> string) list \<Rightarrow> string" where
  "cookie_header [] = []"
| "cookie_header [(k, v)] = k @ ''='' @ v"
| "cookie_header ((k, v) # kvs) = k @ ''='' @ v @ ''; '' @ cookie_header kvs"

fun spaced :: "(string \<times> string) list \<Rightarrow> string list" where
  "spaced [] = []"
| "spaced ((k, v) # kvs) = (CHR '' '' # k @ ''='' @ v) # spaced kvs"

definition cookie_pieces :: "(string \<times> string) list \<Rightarrow> string list" where
  "cookie_pieces kvs = (case kvs of [] \<Rightarrow> [[]] | (k, v) # r \<Rightarrow> (k @ ''='' @ v) # spaced r)"

lemma cookie_octets_no_semi:
  "list_all cookie_octet s \<Longrightarrow> \<forall>c\<in>set s. c \<noteq> CHR '';''"
  by (auto simp: list_all_iff cookie_octet_def)

lemma cookie_pair_no_semi:
  "cookie_pair_ok (k, v) \<Longrightarrow> \<forall>c\<in>set (k @ ''='' @ v). c \<noteq> CHR '';''"
  by (auto simp: cookie_pair_ok_def list_all_iff cookie_octet_def)

lemma split_cookie_header:
  "list_all cookie_pair_ok kvs \<Longrightarrow> split_by (\<lambda>c. c = CHR '';'') (cookie_header kvs) = cookie_pieces kvs"
proof (induction kvs rule: cookie_header.induct)
  case (2 k v)
  then show ?case using cookie_pair_no_semi [of k v] by (simp add: cookie_pieces_def split_by_none)
next
  case (3 k v kv kvs)
  obtain k' v' where kv: "kv = (k', v')" by (cases kv)
  have "split_by (\<lambda>c. c = CHR '';'') ((k @ ''='' @ v) @ CHR '';'' # CHR '' '' # cookie_header (kv # kvs))
      = (k @ ''='' @ v) # split_by (\<lambda>c. c = CHR '';'') (CHR '' '' # cookie_header (kv # kvs))"
    using 3 cookie_pair_no_semi [of k v] by (subst split_by_append) (simp_all add: split_by_none)
  with 3 show ?case by (simp add: cookie_pieces_def kv)
qed (simp add: cookie_pieces_def)

definition trimmed_pairs :: "string list \<Rightarrow> (string \<times> string) list" where
  "trimmed_pairs pieces =
     map (\<lambda>(k, v). (trim k, trim v)) (List.map_filter (split_once (CHR ''='')) pieces)"

lemma read_cookie_pairs:
  "read_cookie hs name =
     map_of (trimmed_pairs (concat (map (split_by (\<lambda>c. c = CHR '';'')) hs))) name"
proof -
  have "map_option (\<lambda>(_, v). trim v) (find (\<lambda>(k, _). trim k = name) ps)
      = map_of (map (\<lambda>(k, v). (trim k, trim v)) ps) name" for ps
    by (induction ps) auto
  then show ?thesis by (simp add: read_cookie_def trimmed_pairs_def Let_def)
qed

lemma octets_ascii: "list_all cookie_octet s \<Longrightarrow> trim s = s"
  by (rule trim_ascii) (auto simp: list_all_iff cookie_octet_def)

lemma split_pair:
  assumes "cookie_pair_ok (k, v)"
  shows "split_once (CHR ''='') (k @ ''='' @ v) = Some (k, v)"
    and "split_once (CHR ''='') (CHR '' '' # k @ ''='' @ v) = Some (CHR '' '' # k, v)"
  using assms by (auto simp: split_once_Some cookie_pair_ok_def list_all_iff)

lemma trimmed_spaced: "list_all cookie_pair_ok kvs \<Longrightarrow> trimmed_pairs (spaced kvs) = kvs"
proof (induction kvs rule: spaced.induct)
  case (2 k v kvs)
  have k: "trim (CHR '' '' # k) = k" "trim v = v" using 2
    by (simp_all add: trim_leading_space octets_ascii cookie_pair_ok_def list_all_iff)
  with 2 split_pair(2) [of k v] show ?case
    by (simp add: trimmed_pairs_def List.map_filter_def)
qed (simp add: trimmed_pairs_def List.map_filter_def)

lemma trimmed_pieces: "list_all cookie_pair_ok kvs \<Longrightarrow> trimmed_pairs (cookie_pieces kvs) = kvs"
proof (cases kvs)
  case (Cons kv r)
  obtain k v where kv: "kv = (k, v)" by (cases kv)
  assume ok: "list_all cookie_pair_ok kvs"
  then have "trim k = k" "trim v = v" "trimmed_pairs (spaced r) = r"
    using Cons kv trimmed_spaced [of r]
    by (simp_all add: octets_ascii cookie_pair_ok_def list_all_iff)
  with split_pair(1) [of k v] ok Cons kv show ?thesis
    by (simp add: cookie_pieces_def trimmed_pairs_def List.map_filter_def)
qed (simp add: cookie_pieces_def trimmed_pairs_def List.map_filter_def)

text \<open>The cookie reader is the lookup a browser expects. For any number of
  \<open>Cookie\<close> headers holding any pairs of legal names and values, in the order sent, it gives
  the value of the first pair with the wanted name across all headers, and nothing when no
  pair has it.\<close>

theorem read_cookie_finds_first:
  assumes "list_all (list_all cookie_pair_ok) headers"
  shows "read_cookie (map cookie_header headers) name = map_of (concat headers) name"
proof -
  have append: "trimmed_pairs (xs @ ys) = trimmed_pairs xs @ trimmed_pairs ys" for xs ys
    by (simp add: trimmed_pairs_def List.map_filter_def)
  have "trimmed_pairs (concat (map (split_by (\<lambda>c. c = CHR '';'')) (map cookie_header headers)))
      = concat headers"
    using assms
  proof (induction headers)
    case Nil
    show ?case by (simp add: trimmed_pairs_def List.map_filter_def)
  next
    case (Cons h hs)
    then show ?case by (simp add: append split_cookie_header trimmed_pieces)
  qed
  then show ?thesis by (simp add: read_cookie_pairs)
qed

theorem read_cookie_witness:
  "read_cookie [''theme=dark'', ''a=1; crabforge_session=xyz; b=2''] SESSION_COOKIE = Some ''xyz''"
proof -
  have ok: "list_all (list_all cookie_pair_ok)
      [[(''theme'', ''dark'')], [(''a'', ''1''), (''crabforge_session'', ''xyz''), (''b'', ''2'')]]"
    by code_simp
  show ?thesis using read_cookie_finds_first [OF ok, of SESSION_COOKIE]
    by (simp add: SESSION_COOKIE_def)
qed

section \<open>The shape of a secret\<close>

definition SECRET_BYTES :: nat where
  "SECRET_BYTES = 32"

definition TOKEN_PREFIX :: string where
  "TOKEN_PREFIX = ''cfp_''"

definition encoded_len :: nat where
  "encoded_len = (SECRET_BYTES + 2) div 3 * 4 - (3 - SECRET_BYTES mod 3) mod 3"

definition url_safe :: "char \<Rightarrow> bool" where
  "url_safe c \<longleftrightarrow> is_alnum c \<or> c = CHR ''-'' \<or> c = CHR ''_''"

definition mint_token :: "string \<Rightarrow> string" where
  "mint_token minted = TOKEN_PREFIX @ minted"

definition looks_like_token :: "string \<Rightarrow> bool" where
  "looks_like_token candidate \<longleftrightarrow>
     starts_with TOKEN_PREFIX candidate
     \<and> length candidate = length TOKEN_PREFIX + encoded_len
     \<and> list_all url_safe (drop (length TOKEN_PREFIX) candidate)"

definition digest :: "(bytes \<Rightarrow> bytes) \<Rightarrow> string \<Rightarrow> string" where
  "digest sha secret = concat (map hex_byte (sha (str_bytes secret)))"

text \<open>The test before the database lookup passes every token the forge mints (32 bytes in
  unpadded base64url) and only texts of that shape.\<close>

lemma looks_like_token_iff:
  "looks_like_token t \<longleftrightarrow> (\<exists>m. t = mint_token m \<and> length m = 43 \<and> list_all url_safe m)"
  by (auto simp: looks_like_token_def mint_token_def starts_with_iff encoded_len_def
      SECRET_BYTES_def TOKEN_PREFIX_def)

end
