(* ===== verification/Forge_Events.thy ===== *)
theory Forge_Events
  imports Value_Types
begin

text \<open>
  Domain events and their transport: the event enums of \<open>forge-events/src/domain.rs\<close>, the
  envelope (\<open>envelope.rs\<close>) and the CloudEvents headers (\<open>ce.rs\<close>). Constructor arguments are the
  variant's fields in the source's order. The trait \<open>DomainEvent\<close> is the locale
  \<open>domain_event\<close>, interpreted on every enum. JSON is serde's: a serialised payload is a value of
  a type parameter and its decoder is an argument.
\<close>

section \<open>Users and repositories\<close>

datatype user_event =
    UserRegistered (ue_user: user_id) (ue_username: string) (ue_username_lower: string)
      (ue_email: string) (ue_password_hash: string)
  | UserProfileUpdated (ue_user: user_id) (ue_display_name: "string option") (ue_bio: "string option")
  | UserDeactivated (ue_user: user_id)

definition user_event_topic :: "user_event \<Rightarrow> string" where
  "user_event_topic e = EVENTS_USERS"

definition user_event_type :: "user_event \<Rightarrow> string" where
  "user_event_type e = (case e of
     UserRegistered _ _ _ _ _ \<Rightarrow> ''user.registered''
   | UserProfileUpdated _ _ _ \<Rightarrow> ''user.profile_updated''
   | UserDeactivated _ \<Rightarrow> ''user.deactivated'')"

definition user_event_aggregate_id :: "user_event \<Rightarrow> string" where
  "user_event_aggregate_id e = ue_user e"

datatype repo_event =
    RepoCreated (re_repo: repo_id) (re_owner: user_id) (re_owner_name: string) (re_name: string)
      (re_full_name_lower: string) (re_description: "string option") (re_default_branch: string)
      (re_visibility: visibility)
  | RepoRenamed (re_repo: repo_id) (re_name: string) (re_full_name_lower: string)
  | RepoDescriptionChanged (re_repo: repo_id) (re_description: "string option")
  | RepoVisibilityChanged (re_repo: repo_id) (re_visibility: visibility)
  | RepoDefaultBranchChanged (re_repo: repo_id) (re_default_branch: string)
  | RepoCollaboratorAdded (re_repo: repo_id) (re_user: user_id) (re_username: string) (re_role: role)
  | RepoCollaboratorRemoved (re_repo: repo_id) (re_user: user_id)
  | RepoDeleted (re_repo: repo_id)

definition repo_event_topic :: "repo_event \<Rightarrow> string" where
  "repo_event_topic e = EVENTS_REPOS"

definition repo_event_type :: "repo_event \<Rightarrow> string" where
  "repo_event_type e = (case e of
     RepoCreated _ _ _ _ _ _ _ _ \<Rightarrow> ''repo.created''
   | RepoRenamed _ _ _ \<Rightarrow> ''repo.renamed''
   | RepoDescriptionChanged _ _ \<Rightarrow> ''repo.description_changed''
   | RepoVisibilityChanged _ _ \<Rightarrow> ''repo.visibility_changed''
   | RepoDefaultBranchChanged _ _ \<Rightarrow> ''repo.default_branch_changed''
   | RepoCollaboratorAdded _ _ _ _ \<Rightarrow> ''repo.collaborator_added''
   | RepoCollaboratorRemoved _ _ \<Rightarrow> ''repo.collaborator_removed''
   | RepoDeleted _ \<Rightarrow> ''repo.deleted'')"

definition repo_event_aggregate_id :: "repo_event \<Rightarrow> string" where
  "repo_event_aggregate_id e = re_repo e"

section \<open>Issues and pull requests\<close>

datatype issue_event =
    IssueOpened (ie_issue: issue_id) (ie_repo: repo_id) (ie_number: int) (ie_title: string)
      (ie_body: "string option") (ie_author: user_id) (ie_author_name: string)
  | IssueCommented (ie_comment: comment_id) (ie_issue: issue_id) (ie_repo: repo_id)
      (ie_author: user_id) (ie_author_name: string) (ie_comment_body: string)
  | IssueTitleChanged (ie_issue: issue_id) (ie_repo: repo_id) (ie_title: string)
  | IssueClosed (ie_issue: issue_id) (ie_repo: repo_id) (ie_actor: user_id)
  | IssueReopened (ie_issue: issue_id) (ie_repo: repo_id) (ie_actor: user_id)

definition issue_event_topic :: "issue_event \<Rightarrow> string" where
  "issue_event_topic e = EVENTS_ISSUES"

definition issue_event_type :: "issue_event \<Rightarrow> string" where
  "issue_event_type e = (case e of
     IssueOpened _ _ _ _ _ _ _ \<Rightarrow> ''issue.opened''
   | IssueCommented _ _ _ _ _ _ \<Rightarrow> ''issue.commented''
   | IssueTitleChanged _ _ _ \<Rightarrow> ''issue.title_changed''
   | IssueClosed _ _ _ \<Rightarrow> ''issue.closed''
   | IssueReopened _ _ _ \<Rightarrow> ''issue.reopened'')"

definition issue_event_aggregate_id :: "issue_event \<Rightarrow> string" where
  "issue_event_aggregate_id e = ie_repo e"

datatype review_verdict = Approve | RequestChanges | VerdictComment

definition review_verdict_as_str :: "review_verdict \<Rightarrow> string" where
  "review_verdict_as_str v = (case v of
     Approve \<Rightarrow> ''approve'' | RequestChanges \<Rightarrow> ''request_changes'' | VerdictComment \<Rightarrow> ''comment'')"

definition review_verdict_parse :: "string \<Rightarrow> review_verdict option" where
  "review_verdict_parse s =
     (if s = ''approve'' then Some Approve else if s = ''request_changes'' then Some RequestChanges
      else if s = ''comment'' then Some VerdictComment else None)"

datatype pr_event =
    PrOpened (pe_pr: pr_id) (pe_repo: repo_id) (pe_number: int) (pe_title: string)
      (pe_body: "string option") (pe_author: user_id) (pe_author_name: string)
      (pe_source_branch: string) (pe_target_branch: string) (pe_head_oid: oid) (pe_base_oid: oid)
  | PrSynchronized (pe_pr: pr_id) (pe_repo: repo_id) (pe_head_oid: oid) (pe_base_oid: oid)
  | PrMergeabilityComputed (pe_pr: pr_id) (pe_repo: repo_id) (pe_head_oid: oid) (pe_base_oid: oid)
      (pe_mergeable: bool) (pe_conflicts: "string list")
  | PrReviewed (pe_review: comment_id) (pe_pr: pr_id) (pe_repo: repo_id) (pe_reviewer: user_id)
      (pe_reviewer_name: string) (pe_verdict: review_verdict) (pe_body: "string option")
  | PrMerged (pe_pr: pr_id) (pe_repo: repo_id) (pe_merge_commit_oid: oid) (pe_merged_by: user_id)
      (pe_merged_by_name: string)
  | PrClosed (pe_pr: pr_id) (pe_repo: repo_id) (pe_actor: user_id)
  | PrReopened (pe_pr: pr_id) (pe_repo: repo_id) (pe_actor: user_id)

definition pr_event_topic :: "pr_event \<Rightarrow> string" where
  "pr_event_topic e = EVENTS_PRS"

definition pr_event_type :: "pr_event \<Rightarrow> string" where
  "pr_event_type e = (case e of
     PrOpened _ _ _ _ _ _ _ _ _ _ _ \<Rightarrow> ''pr.opened''
   | PrSynchronized _ _ _ _ \<Rightarrow> ''pr.synchronized''
   | PrMergeabilityComputed _ _ _ _ _ _ \<Rightarrow> ''pr.mergeability_computed''
   | PrReviewed _ _ _ _ _ _ _ \<Rightarrow> ''pr.reviewed''
   | PrMerged _ _ _ _ _ \<Rightarrow> ''pr.merged''
   | PrClosed _ _ _ \<Rightarrow> ''pr.closed''
   | PrReopened _ _ _ \<Rightarrow> ''pr.reopened'')"

definition pr_event_aggregate_id :: "pr_event \<Rightarrow> string" where
  "pr_event_aggregate_id e = pe_repo e"

section \<open>References\<close>

datatype git_ref_event =
  RefUpdated (ge_repo: repo_id) (ge_ref: string) (ge_old: "oid option") (ge_new: "oid option")
    (ge_pusher: user_id) (ge_forced: bool)

definition git_ref_event_topic :: "git_ref_event \<Rightarrow> string" where
  "git_ref_event_topic e = EVENTS_GIT_REFS"

definition git_ref_event_type :: "git_ref_event \<Rightarrow> string" where
  "git_ref_event_type e = ''git.ref_updated''"

definition git_ref_event_aggregate_id :: "git_ref_event \<Rightarrow> string" where
  "git_ref_event_aggregate_id e = ge_repo e"

section \<open>Continuous integration\<close>

record planned_job_spec =
  pj_job_id :: job_id
  pj_name :: string
  pj_image :: string

datatype job_conclusion = JobSuccess | JobFailed | JobTimedOut | JobInfraFailed | JobCancelled

definition job_conclusion_as_str :: "job_conclusion \<Rightarrow> string" where
  "job_conclusion_as_str c = (case c of
     JobSuccess \<Rightarrow> ''success'' | JobFailed \<Rightarrow> ''failed'' | JobTimedOut \<Rightarrow> ''timed_out''
   | JobInfraFailed \<Rightarrow> ''infra_failed'' | JobCancelled \<Rightarrow> ''cancelled'')"

definition job_conclusion_is_success :: "job_conclusion \<Rightarrow> bool" where
  "job_conclusion_is_success c \<longleftrightarrow> c = JobSuccess"

datatype run_conclusion = RunSuccess | RunFailed | RunCancelled

definition run_conclusion_as_str :: "run_conclusion \<Rightarrow> string" where
  "run_conclusion_as_str c = (case c of
     RunSuccess \<Rightarrow> ''success'' | RunFailed \<Rightarrow> ''failed'' | RunCancelled \<Rightarrow> ''cancelled'')"

text \<open>The loop of \<open>from_jobs\<close> with its two flags; a failure returns at once.\<close>

fun from_jobs_loop :: "bool \<Rightarrow> bool \<Rightarrow> job_conclusion list \<Rightarrow> run_conclusion" where
  "from_jobs_loop cancelled_only any [] =
     (if any \<and> cancelled_only then RunCancelled else RunSuccess)"
| "from_jobs_loop cancelled_only any (c # cs) =
     (case c of
        JobSuccess \<Rightarrow> from_jobs_loop False True cs
      | JobCancelled \<Rightarrow> from_jobs_loop cancelled_only True cs
      | _ \<Rightarrow> RunFailed)"

definition from_jobs :: "job_conclusion list \<Rightarrow> run_conclusion" where
  "from_jobs conclusions = from_jobs_loop True False conclusions"

datatype ci_event =
    RunQueued (ce_run: run_id) (ce_repo: repo_id) (ce_number: int) (ce_workflow: string)
      (ce_name: string) (ce_event: string) (ce_head_oid: oid) (ce_ref_name: string)
      (ce_actor_name: string) (ce_jobs: "planned_job_spec list")
  | JobStarted (ce_job: job_id) (ce_run: run_id) (ce_repo: repo_id) (ce_attempt: int)
      (ce_log_offset: int)
  | JobFinished (ce_job: job_id) (ce_run: run_id) (ce_repo: repo_id) (ce_attempt: int)
      (ce_conclusion: job_conclusion) (ce_exit_code: "int option")
  | RunFinished (ce_run: run_id) (ce_repo: repo_id) (ce_run_conclusion: run_conclusion)

definition ci_event_topic :: "ci_event \<Rightarrow> string" where
  "ci_event_topic e = EVENTS_CI"

definition ci_event_type :: "ci_event \<Rightarrow> string" where
  "ci_event_type e = (case e of
     RunQueued _ _ _ _ _ _ _ _ _ _ \<Rightarrow> ''ci.run_queued''
   | JobStarted _ _ _ _ _ \<Rightarrow> ''ci.job_started''
   | JobFinished _ _ _ _ _ _ \<Rightarrow> ''ci.job_finished''
   | RunFinished _ _ _ \<Rightarrow> ''ci.run_finished'')"

definition ci_event_aggregate_id :: "ci_event \<Rightarrow> string" where
  "ci_event_aggregate_id e = ce_run e"

lemma from_jobs_loop_spec:
  "from_jobs_loop co any cs =
     (if list_ex (\<lambda>c. c \<notin> {JobSuccess, JobCancelled}) cs then RunFailed
      else if (any \<or> cs \<noteq> []) \<and> co \<and> JobSuccess \<notin> set cs then RunCancelled else RunSuccess)"
proof (induction cs arbitrary: co any)
  case (Cons c cs)
  then show ?case by (cases c) auto
qed simp

text \<open>A run is as good as its worst job. It fails exactly when some job neither
  succeeded nor was cancelled, a job that never ran included; it is cancelled exactly when it
  has jobs and all of them were; every other run succeeds, and such a run has a job that
  succeeded unless it has no jobs at all.\<close>

theorem from_jobs_spec:
  "(from_jobs cs = RunFailed \<longleftrightarrow> list_ex (\<lambda>c. c \<notin> {JobSuccess, JobCancelled}) cs) \<and>
   (from_jobs cs = RunCancelled \<longleftrightarrow> cs \<noteq> [] \<and> list_all (\<lambda>c. c = JobCancelled) cs) \<and>
   (from_jobs cs = RunSuccess \<longleftrightarrow>
     cs = [] \<or> JobSuccess \<in> set cs \<and> list_all (\<lambda>c. c \<in> {JobSuccess, JobCancelled}) cs)"
  unfolding from_jobs_def from_jobs_loop_spec by (cases cs) (auto simp: list_ex_iff list_all_iff)

section \<open>The envelope\<close>

record 'p envelope =
  event_id :: string
  event_type :: string
  event_version :: int
  aggregate_id :: string
  actor :: "user_id option"
  occurred_at :: int
  payload :: 'p

datatype decode_error = DecTombstone | Malformed string

text \<open>
  \<open>Envelope::new\<close>, with the minted id and the clock as arguments; the version is the default of
  the trait, which no enum overrides.
\<close>

definition event_version_default :: int where
  "event_version_default = 1"

definition envelope_new ::
    "('p \<Rightarrow> string) \<Rightarrow> ('p \<Rightarrow> string) \<Rightarrow> string \<Rightarrow> int \<Rightarrow> 'p \<Rightarrow> user_id option \<Rightarrow> 'p envelope" where
  "envelope_new ev_type agg fresh_id now e who =
     \<lparr>event_id = fresh_id, event_type = ev_type e, event_version = event_version_default,
      aggregate_id = agg e, actor = who, occurred_at = now, payload = e\<rparr>"

definition source :: "'p envelope \<Rightarrow> string" where
  "source env = ''/'' @ aggregate_id env"

text \<open>The decoder of the envelope's JSON and the one of the payload are serde's.\<close>

definition decode_raw ::
    "('j \<Rightarrow> ('v envelope, string) result) \<Rightarrow> 'j option \<Rightarrow> ('v envelope, decode_error) result" where
  "decode_raw from_slice v =
     and_then (ok_or v DecTombstone) (\<lambda>bytes.
       case from_slice bytes of Ok env \<Rightarrow> Ok env | Err e \<Rightarrow> Err (Malformed e))"

definition envelope_parse ::
    "('v \<Rightarrow> ('p, string) result) \<Rightarrow> 'v envelope \<Rightarrow> ('p envelope, decode_error) result" where
  "envelope_parse from_value raw =
     (case from_value (payload raw) of
        Err e \<Rightarrow> Err (Malformed e)
      | Ok p \<Rightarrow> Ok \<lparr>event_id = event_id raw, event_type = event_type raw,
          event_version = event_version raw, aggregate_id = aggregate_id raw,
          actor = actor raw, occurred_at = occurred_at raw, payload = p\<rparr>)"

section \<open>CloudEvents headers\<close>

type_synonym header = "string \<times> string"

definition SPEC_VERSION :: string where "SPEC_VERSION = ''1.0''"
definition CONTENT_TYPE :: string where "CONTENT_TYPE = ''application/json''"
definition TYPE_PREFIX :: string where "TYPE_PREFIX = ''com.crabforge''"

definition qualified_type :: "string \<Rightarrow> string" where
  "qualified_type ev_type = TYPE_PREFIX @ ''.'' @ ev_type"

definition unqualified_type :: "string \<Rightarrow> string" where
  "unqualified_type ce_type =
     (case strip_prefix TYPE_PREFIX ce_type of
        None \<Rightarrow> ce_type
      | Some rest \<Rightarrow> (case strip_prefix ''.'' rest of None \<Rightarrow> ce_type | Some t \<Rightarrow> t))"

text \<open>\<open>fmt\<close> is the RFC 3339 formatter of the time crate, \<open>None\<close> when it fails.\<close>

definition kafka_headers :: "(int \<Rightarrow> string option) \<Rightarrow> 'p envelope \<Rightarrow> header list" where
  "kafka_headers fmt env =
     [(''ce_specversion'', SPEC_VERSION),
      (''ce_id'', event_id env),
      (''ce_source'', source env),
      (''ce_type'', qualified_type (event_type env)),
      (''ce_time'', (case fmt (occurred_at env) of None \<Rightarrow> [] | Some s \<Rightarrow> s)),
      (''content-type'', CONTENT_TYPE),
      (''forge-event-type'', event_type env),
      (''forge-event-version'', show_nat (nat (event_version env)))]"

definition kafka_headers_to_http :: "header list \<Rightarrow> header list" where
  "kafka_headers_to_http headers =
     map (\<lambda>(name, value).
       ((case strip_prefix ''ce_'' name of Some attr \<Rightarrow> ''ce-'' @ attr | None \<Rightarrow> name), value)) headers"

definition http_headers_to_kafka :: "header list \<Rightarrow> header list" where
  "http_headers_to_kafka headers =
     map (\<lambda>(name, value).
       let lower = to_ascii_lowercase name in
       ((case strip_prefix ''ce-'' lower of Some attr \<Rightarrow> ''ce_'' @ attr | None \<Rightarrow> lower), value)) headers"

lemma unqualified_qualified: "unqualified_type (qualified_type t) = t"
  by (simp add: unqualified_type_def qualified_type_def)

lemma ce_prefixes_lower:
  "to_ascii_lowercase (CHR ''c'' # CHR ''e'' # CHR ''-'' # a) = CHR ''c'' # CHR ''e'' # CHR ''-'' # to_ascii_lowercase a"
  "to_ascii_lowercase (CHR ''c'' # CHR ''e'' # CHR ''_'' # a) = CHR ''c'' # CHR ''e'' # CHR ''_'' # to_ascii_lowercase a"
  by (simp_all add: to_ascii_lowercase_def to_lower_def is_upper_def code_def)

definition survives_hop :: "header \<Rightarrow> bool" where
  "survives_hop h \<longleftrightarrow> to_ascii_lowercase (fst h) = fst h \<and> \<not> starts_with ''ce-'' (fst h)"

lemma hop_one:
  "http_headers_to_kafka (kafka_headers_to_http [h]) = [h] \<longleftrightarrow> survives_hop h"
proof (cases "strip_prefix ''ce_'' (fst h)")
  case (Some attr)
  then obtain v where h: "h = (''ce_'' @ attr, v)" by (cases h) simp
  then show ?thesis
    by (auto simp: http_headers_to_kafka_def kafka_headers_to_http_def ce_prefixes_lower
        survives_hop_def starts_with_iff)
next
  case None
  then have "http_headers_to_kafka (kafka_headers_to_http [h]) =
      [(case strip_prefix ''ce-'' (to_ascii_lowercase (fst h)) of
          Some attr \<Rightarrow> ''ce_'' @ attr | None \<Rightarrow> to_ascii_lowercase (fst h), snd h)]"
    by (simp add: http_headers_to_kafka_def kafka_headers_to_http_def Let_def split_beta)
  with None show ?thesis
    by (cases h) (auto simp: survives_hop_def starts_with_def split: option.splits)
qed

lemma hop_all:
  "http_headers_to_kafka (kafka_headers_to_http hs) = hs \<longleftrightarrow> list_all survives_hop hs"
proof (induction hs)
  case Nil
  show ?case by (simp add: http_headers_to_kafka_def kafka_headers_to_http_def)
next
  case (Cons h hs)
  have "http_headers_to_kafka (kafka_headers_to_http (h # hs)) =
      http_headers_to_kafka (kafka_headers_to_http [h]) @ http_headers_to_kafka (kafka_headers_to_http hs)"
    by (simp add: http_headers_to_kafka_def kafka_headers_to_http_def)
  moreover have "length (http_headers_to_kafka (kafka_headers_to_http [h])) = 1"
    by (simp add: http_headers_to_kafka_def kafka_headers_to_http_def)
  ultimately show ?case using Cons.IH hop_one [of h]
    by (auto simp: length_Suc_conv)
qed

text \<open>The CloudEvents headers of an event survive the trip to HTTP spelling and
  back, whatever its payload, and the event type is recovered from the qualified one. Of
  header lists in general exactly those survive whose names are lower case and do not already
  use the HTTP spelling \<open>ce-\<close>.\<close>

theorem headers_round_trip:
  "http_headers_to_kafka (kafka_headers_to_http (kafka_headers fmt env)) = kafka_headers fmt env \<and>
   unqualified_type (qualified_type (event_type env)) = event_type env \<and>
   (http_headers_to_kafka (kafka_headers_to_http hs) = hs \<longleftrightarrow>
     list_all (\<lambda>(name, _). to_ascii_lowercase name = name \<and> \<not> starts_with ''ce-'' name) hs)"
proof (intro conjI)
  have names: "list_all (\<lambda>n. to_ascii_lowercase n = n \<and> \<not> starts_with ''ce-'' n)
      [''ce_specversion'', ''ce_id'', ''ce_source'', ''ce_type'', ''ce_time'', ''content-type'',
       ''forge-event-type'', ''forge-event-version'']"
    by code_simp
  show "http_headers_to_kafka (kafka_headers_to_http (kafka_headers fmt env)) = kafka_headers fmt env"
    unfolding hop_all using names by (simp add: kafka_headers_def survives_hop_def)
  show "http_headers_to_kafka (kafka_headers_to_http hs) = hs \<longleftrightarrow>
      list_all (\<lambda>(name, _). to_ascii_lowercase name = name \<and> \<not> starts_with ''ce-'' name) hs"
    unfolding hop_all by (auto simp: survives_hop_def list_all_iff)
qed (rule unqualified_qualified)

end
