(* ===== verification/Keyed_Table.thy ===== *)
theory Keyed_Table
  imports Forge_Prelude "HOL-Library.AList"
begin

text \<open>
  Finite maps with an enumerable content: the \<open>HashMap\<close>s of the command service and the SQL
  tables of the read model (a table with a primary key). The interface the clients use is the
  locale \<open>keyed_map\<close>; association lists with distinct keys provide it. The second locale,
  \<open>topic_fold\<close>, is the shape of every state that is rebuilt from a compacted topic: one
  record sets a key, a tombstone removes it, a record that cannot be read changes nothing.
\<close>

section \<open>The map interface\<close>

locale keyed_map =
  fixes empty :: "'m"
    and get :: "'m \<Rightarrow> 'k \<Rightarrow> 'v option"
    and put :: "'k \<Rightarrow> 'v \<Rightarrow> 'm \<Rightarrow> 'm"
    and del :: "'k \<Rightarrow> 'm \<Rightarrow> 'm"
    and entries :: "'m \<Rightarrow> ('k \<times> 'v) list"
    and wf :: "'m \<Rightarrow> bool"
  assumes wf_empty: "wf empty"
    and wf_put: "wf m \<Longrightarrow> wf (put k v m)"
    and wf_del: "wf m \<Longrightarrow> wf (del k m)"
    and get_empty: "get empty k = None"
    and get_put: "get (put k v m) k' = (if k' = k then Some v else get m k')"
    and get_del: "wf m \<Longrightarrow> get (del k m) k' = (if k' = k then None else get m k')"
    and entries_get: "wf m \<Longrightarrow> (k, v) \<in> set (entries m) \<longleftrightarrow> get m k = Some v"
    and entries_distinct: "wf m \<Longrightarrow> distinct (map fst (entries m))"
begin

lemma put_overwrites: "get (put k v (put k w m)) k' = get (put k v m) k'"
  by (simp add: get_put)

lemma put_comm: "k \<noteq> l \<Longrightarrow> get (put k v (put l w m)) k' = get (put l w (put k v m)) k'"
  by (simp add: get_put)

lemma filter_entries_get:
  "wf m \<Longrightarrow> (k, v) \<in> set (filter P (entries m)) \<longleftrightarrow> get m k = Some v \<and> P (k, v)"
  by (simp add: entries_get)

lemma keys_entries: "wf m \<Longrightarrow> k \<in> fst ` set (entries m) \<longleftrightarrow> get m k \<noteq> None"
proof -
  assume wf: "wf m"
  have "k \<in> fst ` set (entries m) \<longleftrightarrow> (\<exists>v. (k, v) \<in> set (entries m))" by force
  then show ?thesis using wf by (simp add: entries_get)
qed

end

section \<open>Association lists provide it\<close>

type_synonym ('k, 'v) table = "('k \<times> 'v) list"

definition tbl_get :: "('k, 'v) table \<Rightarrow> 'k \<Rightarrow> 'v option" where
  "tbl_get t k = map_of t k"

definition tbl_put :: "'k \<Rightarrow> 'v \<Rightarrow> ('k, 'v) table \<Rightarrow> ('k, 'v) table" where
  "tbl_put k v t = AList.update k v t"

definition tbl_del :: "'k \<Rightarrow> ('k, 'v) table \<Rightarrow> ('k, 'v) table" where
  "tbl_del k t = AList.delete k t"

definition tbl_wf :: "('k, 'v) table \<Rightarrow> bool" where
  "tbl_wf t \<longleftrightarrow> distinct (map fst t)"

lemma tbl_get_put: "tbl_get (tbl_put k v t) k' = (if k' = k then Some v else tbl_get t k')"
  by (simp add: tbl_get_def tbl_put_def update_conv')

lemma tbl_get_del: "tbl_get (tbl_del k t) k' = (if k' = k then None else tbl_get t k')"
  by (simp add: tbl_get_def tbl_del_def delete_conv')

lemma tbl_get_Nil [simp]: "tbl_get [] k = None"
  by (simp add: tbl_get_def)

lemma tbl_wf_Nil [simp]: "tbl_wf []"
  by (simp add: tbl_wf_def)

lemma tbl_wf_put [simp]: "tbl_wf t \<Longrightarrow> tbl_wf (tbl_put k v t)"
  by (simp add: tbl_wf_def tbl_put_def distinct_update)

lemma tbl_wf_del [simp]: "tbl_wf t \<Longrightarrow> tbl_wf (tbl_del k t)"
  by (simp add: tbl_wf_def tbl_del_def distinct_delete)

lemma tbl_get_in: "tbl_wf t \<Longrightarrow> (k, v) \<in> set t \<longleftrightarrow> tbl_get t k = Some v"
  by (simp add: tbl_wf_def tbl_get_def)

interpretation tbl: keyed_map "[]" tbl_get tbl_put tbl_del "\<lambda>t. t" tbl_wf
  by unfold_locales (auto simp: tbl_get_put tbl_get_del tbl_get_in, simp add: tbl_wf_def)

lemma tbl_put_idem: "tbl_put k v (tbl_put k v t) = tbl_put k v t"
  unfolding tbl_put_def by (induction t) auto

lemma tbl_put_put: "tbl_put k v (tbl_put k w t) = tbl_put k v t"
  unfolding tbl_put_def by (induction t) auto

lemma tbl_put_same: "tbl_get t k = Some v \<Longrightarrow> tbl_put k v t = t"
  unfolding tbl_put_def tbl_get_def by (induction t) (auto split: if_splits)

lemma set_tbl_put: "tbl_wf t \<Longrightarrow> set (tbl_put k v t) = {(k, v)} \<union> {e \<in> set t. fst e \<noteq> k}"
proof -
  assume wf: "tbl_wf t"
  have "(a, b) \<in> set (tbl_put k v t) \<longleftrightarrow> (a, b) = (k, v) \<or> (a, b) \<in> set t \<and> a \<noteq> k" for a b
    using wf by (auto simp: tbl_get_in tbl_get_put)
  then show ?thesis by auto
qed

lemmas tbl_simps [simp] = tbl_get_put tbl_get_del

section \<open>State folded from a compacted topic\<close>

record 'j topic_record =
  rec_key :: "string option"
  rec_value :: "'j option"

text \<open>The record's key as the code reads it: an absent key is the empty string.\<close>

definition key_text :: "('j, 'z) topic_record_scheme \<Rightarrow> string" where
  "key_text r = (case rec_key r of None \<Rightarrow> [] | Some k \<Rightarrow> k)"

text \<open>The last record under a key, which is what compaction keeps.\<close>

definition latest :: "string \<Rightarrow> ('j, 'z) topic_record_scheme list \<Rightarrow> ('j option) option" where
  "latest k rs = (case filter (\<lambda>r. key_text r = k) (rev rs) of
     [] \<Rightarrow> None | r # _ \<Rightarrow> Some (rec_value r))"

text \<open>
  What the broker promises of a compacted topic: whatever it has removed, the latest record of
  every key is still there.
\<close>

definition same_latest :: "('j, 'z) topic_record_scheme list \<Rightarrow> ('j, 'z) topic_record_scheme list \<Rightarrow> bool" where
  "same_latest rs rs' \<longleftrightarrow> (\<forall>k. latest k rs = latest k rs')"

lemma latest_Nil [simp]: "latest k [] = None"
  by (simp add: latest_def)

lemma latest_snoc:
  "latest k (rs @ [r]) = (if key_text r = k then Some (rec_value r) else latest k rs)"
  by (simp add: latest_def)

lemma latest_in: "latest k rs = Some v \<Longrightarrow> \<exists>r\<in>set rs. key_text r = k \<and> rec_value r = v"
  by (induction rs rule: rev_induct) (auto simp: latest_snoc split: if_splits)

definition replay :: "('s \<Rightarrow> string \<Rightarrow> 'j option \<Rightarrow> 's) \<Rightarrow> 's \<Rightarrow> ('j, 'z) topic_record_scheme list \<Rightarrow> 's" where
  "replay app s rs = foldl (\<lambda>s r. app s (key_text r) (rec_value r)) s rs"

text \<open>
  A broker compacts a topic by dropping records: what is left was there before, and it holds the
  latest record of every key.
\<close>

definition compacted :: "('j, 'z) topic_record_scheme list \<Rightarrow> ('j, 'z) topic_record_scheme list \<Rightarrow> bool" where
  "compacted rs rs' \<longleftrightarrow> same_latest rs rs' \<and> set rs' \<subseteq> set rs"

definition readable :: "('j \<Rightarrow> 'v option) \<Rightarrow> ('j, 'z) topic_record_scheme list \<Rightarrow> bool" where
  "readable decode rs \<longleftrightarrow> (\<forall>r\<in>set rs. \<forall>j. rec_value r = Some j \<longrightarrow> decode j \<noteq> None)"

lemma replay_append: "replay app s (rs @ qs) = replay app (replay app s rs) qs"
  by (simp add: replay_def)

lemma replay_simps [simp]:
  "replay app s [] = s"
  "replay app s (r # rs) = replay app (app s (key_text r) (rec_value r)) rs"
  by (simp_all add: replay_def)

lemma readable_simps [simp]:
  "readable decode []"
  "readable decode (rs @ qs) \<longleftrightarrow> readable decode rs \<and> readable decode qs"
  by (auto simp: readable_def)

locale topic_fold =
  fixes app :: "'s \<Rightarrow> string \<Rightarrow> 'j option \<Rightarrow> 's"
    and get :: "'s \<Rightarrow> string \<Rightarrow> 'v option"
    and decode :: "'j \<Rightarrow> 'v option"
    and wf :: "'s \<Rightarrow> bool"
    and empty :: "'s"
  assumes app_value: "get (app s k (Some j)) k' =
      (if k' = k then (case decode j of Some v \<Rightarrow> Some v | None \<Rightarrow> get s k) else get s k')"
    and app_tombstone: "get (app s k None) k' = (if k' = k then None else get s k')"
    and app_wf: "wf s \<Longrightarrow> wf (app s k v)"
    and empty_wf: "wf empty"
    and empty_get: "get empty k = None"
begin

lemma replay_wf: "wf s \<Longrightarrow> wf (replay app s rs)"
  by (induction rs arbitrary: s) (auto simp: app_wf)

lemma replay_get:
  "readable decode rs \<Longrightarrow> get (replay app s rs) k =
     (case latest k rs of None \<Rightarrow> get s k | Some None \<Rightarrow> None | Some (Some j) \<Rightarrow> decode j)"
proof (induction rs rule: rev_induct)
  case (snoc r rs)
  then have IH: "get (replay app s rs) k =
      (case latest k rs of None \<Rightarrow> get s k | Some None \<Rightarrow> None | Some (Some j) \<Rightarrow> decode j)"
    by (simp add: readable_def)
  have "decode j \<noteq> None" if "rec_value r = Some j" for j
    using snoc.prems that by (simp add: readable_def)
  with IH show ?case
    by (cases "rec_value r")
       (auto simp: replay_append latest_snoc app_value app_tombstone split: option.splits)
qed simp

lemma replay_cong: "get s = get s' \<Longrightarrow> get (replay app s rs) = get (replay app s' rs)"
proof (induction rs arbitrary: s s')
  case (Cons r rs)
  have eq: "get s k = get s' k" for k using Cons.prems by simp
  have "get (app s (key_text r) (rec_value r)) k = get (app s' (key_text r) (rec_value r)) k" for k
  proof (cases "rec_value r")
    case (Some j)
    then show ?thesis by (cases "decode j") (simp_all add: app_value eq)
  qed (simp add: app_tombstone eq)
  then have "get (app s (key_text r) (rec_value r)) = get (app s' (key_text r) (rec_value r))" by blast
  from Cons.IH [OF this] show ?case by (simp only: replay_simps)
qed simp

text \<open>Compaction is invisible: only the latest record of each key matters.\<close>

lemma replay_compacted:
  assumes "readable decode rs" "readable decode rs'" "same_latest rs rs'"
  shows "get (replay app empty rs) = get (replay app empty rs')"
  using assms by (auto simp: replay_get same_latest_def fun_eq_iff)

end

end
