(* ===== verification/Topic_Manifest.thy ===== *)
theory Topic_Manifest
  imports Value_Types Keyed_Table
begin

text \<open>
  The topics the forge provisions: \<open>forge-topics/src/manifest.rs\<close> (the specifications and their
  rendering to broker configs) and \<open>lib.rs\<close> (\<open>ensure\<close>, \<open>missing\<close>). The admin client is another
  crate: what it answers is an argument. An \<open>i32\<close> and an \<open>i64\<close> are integers here, since nothing
  computed from them leaves the range for the manifest's own numbers.
\<close>

section \<open>Specifications\<close>

definition DAY_MS :: int where
  "DAY_MS = 24 * 60 * 60 * 1000"

datatype cleanup = Forever | Delete int | Compact

record topic_spec =
  ts_name :: string
  partitions :: int
  replicas :: int
  cleanup_policy :: cleanup
  segment_bytes :: byte_size
  compression :: "string option"

definition topic_spec_new :: "string \<Rightarrow> int \<Rightarrow> cleanup \<Rightarrow> byte_size \<Rightarrow> topic_spec" where
  "topic_spec_new name parts c seg =
     \<lparr>ts_name = name, partitions = parts, replicas = 1, cleanup_policy = c, segment_bytes = seg,
      compression = Some ''zstd''\<rparr>"

definition replicated :: "int \<Rightarrow> topic_spec \<Rightarrow> topic_spec" where
  "replicated n spec = spec\<lparr>replicas := (if n \<ge> 1 then n else 1)\<rparr>"

definition show_int :: "int \<Rightarrow> string" where
  "show_int i = (if i < 0 then CHR ''-'' # show_nat (nat (- i)) else show_nat (nat i))"

definition configs :: "topic_spec \<Rightarrow> (string, string) table" where
  "configs spec =
     (let c = (case cleanup_policy spec of
                 Forever \<Rightarrow> tbl_put ''retention.ms'' ''-1'' (tbl_put ''cleanup.policy'' ''delete'' [])
               | Delete days \<Rightarrow>
                   tbl_put ''retention.ms'' (show_int (days * DAY_MS))
                     (tbl_put ''cleanup.policy'' ''delete'' [])
               | Compact \<Rightarrow> tbl_put ''cleanup.policy'' ''compact'' []);
          c = tbl_put ''segment.bytes'' (show_int (as_i64 (segment_bytes spec))) c;
          c = (case compression spec of
                 Some codec \<Rightarrow> tbl_put ''compression.type'' codec c | None \<Rightarrow> c)
      in if replicas spec > 1
         then tbl_put ''min.insync.replicas'' (show_int (replicas spec div 2 + 1)) c else c)"

definition event_topic_spec :: "string \<Rightarrow> topic_spec" where
  "event_topic_spec topic =
     topic_spec_new topic 1 Forever
       (if topic = EVENTS_ISSUES \<or> topic = EVENTS_PRS then mib 32 else mib 16)"

definition static_topics :: "topic_spec list" where
  "static_topics = map event_topic_spec EVENT_TOPICS @
     [topic_spec_new META_CATALOG 1 Compact (mib 1),
      topic_spec_new GIT_REFS 1 Compact (mib 1),
      topic_spec_new WEBHOOKS_CONFIG 1 Compact (mib 1),
      topic_spec_new WEBHOOKS_DELIVERIES 16 (Delete 7) (mib 16),
      topic_spec_new WEBHOOKS_ATTEMPTS 4 (Delete 7) (mib 16),
      topic_spec_new WEBHOOKS_DLQ 4 (Delete 7) (mib 16),
      topic_spec_new CI_JOBS 16 (Delete 30) (mib 16),
      topic_spec_new CI_LOGS 16 (Delete 7) (mib 16)]"

definition repo_objects_topic :: "repo_id \<Rightarrow> topic_spec" where
  "repo_objects_topic repo =
     \<lparr>ts_name = repo_objects repo, partitions = 1, replicas = 1, cleanup_policy = Compact,
      segment_bytes = mib 64, compression = Some ''producer''\<rparr>"

section \<open>Provisioning\<close>

record create_outcome =
  co_name :: string
  co_error :: "(int \<times> string) option"

datatype topic_error = AdminFailed string | CreateFailed string int string

definition TOPIC_ALREADY_EXISTS :: int where
  "TOPIC_ALREADY_EXISTS = 36"

fun check_outcomes :: "create_outcome list \<Rightarrow> (unit, topic_error) result" where
  "check_outcomes [] = Ok ()"
| "check_outcomes (o1 # os) =
     (case co_error o1 of
        None \<Rightarrow> check_outcomes os
      | Some (ec, name) \<Rightarrow>
          if ec = TOPIC_ALREADY_EXISTS then check_outcomes os
          else Err (CreateFailed (co_name o1) ec name))"

definition ensure ::
    "(topic_spec list \<Rightarrow> (create_outcome list, string) result) \<Rightarrow> topic_spec list \<Rightarrow> (unit, topic_error) result" where
  "ensure create_topics specs =
     (if specs = [] then Ok ()
      else (case create_topics specs of
              Err e \<Rightarrow> Err (AdminFailed e)
            | Ok outcomes \<Rightarrow> check_outcomes outcomes))"

definition ensure_static_replicated ::
    "(topic_spec list \<Rightarrow> (create_outcome list, string) result) \<Rightarrow> int \<Rightarrow> (unit, topic_error) result" where
  "ensure_static_replicated create_topics n = ensure create_topics (map (replicated n) static_topics)"

definition ensure_repo_replicated ::
    "(topic_spec list \<Rightarrow> (create_outcome list, string) result) \<Rightarrow> repo_id \<Rightarrow> int \<Rightarrow> (unit, topic_error) result" where
  "ensure_repo_replicated create_topics repo n = ensure create_topics [replicated n (repo_objects_topic repo)]"

definition missing :: "string list \<Rightarrow> topic_spec list \<Rightarrow> string list" where
  "missing existing specs = map ts_name (filter (\<lambda>s. ts_name s \<notin> set existing) specs)"

text \<open>A re-run of provisioning succeeds: every topic that already exists is not an error.\<close>

lemma check_outcomes_Ok_iff:
  "check_outcomes os = Ok () \<longleftrightarrow>
     list_all (\<lambda>o1. co_error o1 = None \<or> (\<exists>name. co_error o1 = Some (TOPIC_ALREADY_EXISTS, name))) os"
  by (induction os) (auto split: option.splits)

section \<open>The configs the manifest renders\<close>

definition WHITELIST :: "string list" where
  "WHITELIST = [''retention.ms'', ''retention.bytes'', ''segment.bytes'', ''cleanup.policy'',
     ''compression.type'', ''min.insync.replicas'', ''unclean.leader.election.enable'',
     ''unclean.recovery.strategy'', ''remote.storage.enable'', ''local.retention.ms'',
     ''local.retention.bytes'', ''delete.retention.ms'', ''qos.tier'']"

lemma configs_get:
  "tbl_get (configs spec) ''cleanup.policy'' =
     Some (case cleanup_policy spec of Compact \<Rightarrow> ''compact'' | _ \<Rightarrow> ''delete'')"
  "tbl_get (configs spec) ''retention.ms'' =
     (case cleanup_policy spec of Forever \<Rightarrow> Some ''-1'' | Delete d \<Rightarrow> Some (show_int (d * DAY_MS))
      | Compact \<Rightarrow> None)"
  "tbl_get (configs spec) ''min.insync.replicas'' =
     (if replicas spec > 1 then Some (show_int (replicas spec div 2 + 1)) else None)"
  by (auto simp: configs_def Let_def split: cleanup.splits option.splits)

lemma configs_keys: "tbl_get (configs spec) k = Some v \<Longrightarrow> k \<in> set WHITELIST"
  by (auto simp: configs_def Let_def WHITELIST_def split: cleanup.splits option.splits if_splits)

lemma event_topics_distinct: "distinct (map ts_name static_topics)"
  by code_simp

text \<open>Provisioning keeps the history. Whatever replica count is asked for, each
  event topic is declared exactly once, as a single partition kept forever and never
  compacted; a replicated topic requires a majority of its replicas in sync, and no topic
  carries a config key outside the broker's list.\<close>

theorem event_history_kept:
  assumes "topic \<in> set EVENT_TOPICS"
  shows "\<exists>!spec. spec \<in> set (map (replicated n) static_topics) \<and> ts_name spec = topic \<and>
    partitions spec = 1 \<and>
    tbl_get (configs spec) ''cleanup.policy'' = Some ''delete'' \<and>
    tbl_get (configs spec) ''retention.ms'' = Some ''-1'' \<and>
    fst ` set (configs spec) \<subseteq> set WHITELIST \<and>
    tbl_get (configs spec) ''min.insync.replicas'' =
      (if n > 1 then Some (show_int (n div 2 + 1)) else None)"
proof (rule ex1I)
  let ?s = "replicated n (event_topic_spec topic)"
  have keys: "fst ` set (configs spec) \<subseteq> set WHITELIST" for spec
  proof -
    have "tbl_wf (configs spec)" by (simp add: configs_def Let_def split: cleanup.splits option.splits)
    then show ?thesis using tbl.keys_entries [of "configs spec"] configs_keys by blast
  qed
  show "?s \<in> set (map (replicated n) static_topics) \<and> ts_name ?s = topic \<and> partitions ?s = 1 \<and>
    tbl_get (configs ?s) ''cleanup.policy'' = Some ''delete'' \<and>
    tbl_get (configs ?s) ''retention.ms'' = Some ''-1'' \<and>
    fst ` set (configs ?s) \<subseteq> set WHITELIST \<and>
    tbl_get (configs ?s) ''min.insync.replicas'' = (if n > 1 then Some (show_int (n div 2 + 1)) else None)"
    using assms keys
    by (simp add: configs_get static_topics_def) (simp add: replicated_def event_topic_spec_def topic_spec_new_def)
next
  fix spec assume *: "spec \<in> set (map (replicated n) static_topics) \<and> ts_name spec = topic \<and> partitions spec = 1 \<and>
    tbl_get (configs spec) ''cleanup.policy'' = Some ''delete'' \<and>
    tbl_get (configs spec) ''retention.ms'' = Some ''-1'' \<and>
    fst ` set (configs spec) \<subseteq> set WHITELIST \<and>
    tbl_get (configs spec) ''min.insync.replicas'' = (if n > 1 then Some (show_int (n div 2 + 1)) else None)"
  then obtain s0 where s0: "s0 \<in> set static_topics" "spec = replicated n s0" by auto
  then have "ts_name s0 = topic" using * by (simp add: replicated_def)
  moreover have "event_topic_spec topic \<in> set static_topics" "ts_name (event_topic_spec topic) = topic"
    using assms by (simp_all add: static_topics_def event_topic_spec_def topic_spec_new_def)
  ultimately have "s0 = event_topic_spec topic"
    using s0 event_topics_distinct by (metis distinct_map inj_on_eq_iff)
  with s0 show "spec = replicated n (event_topic_spec topic)" by simp
qed

theorem event_history_witness:
  "\<exists>!spec. spec \<in> set (map (replicated 3) static_topics) \<and> ts_name spec = EVENTS_REPOS \<and>
    partitions spec = 1 \<and>
    tbl_get (configs spec) ''cleanup.policy'' = Some ''delete'' \<and>
    tbl_get (configs spec) ''retention.ms'' = Some ''-1'' \<and>
    fst ` set (configs spec) \<subseteq> set WHITELIST \<and>
    tbl_get (configs spec) ''min.insync.replicas'' = Some (show_int 2)"
proof -
  have "EVENTS_REPOS \<in> set EVENT_TOPICS" by code_simp
  from event_history_kept [OF this, of 3] show ?thesis by simp
qed

end
