(* ===== verification/Forge_Bus.thy ===== *)
theory Forge_Bus
  imports Forge_Events Keyed_Table
begin

text \<open>
  The log as the forge uses it: \<open>forge-bus/src/writer.rs\<close> (the fenced transactional writer),
  \<open>tailer.rs\<close> (a reader that owns its cursor) and \<open>features.rs\<close>. The producer, the broker and
  the fetch call are other crates: their answers are arguments, and what Kafka documents about
  them is stated where a theorem needs it (\<open>broker_truthful\<close>, \<open>serves\<close>).
\<close>

section \<open>Records and transactions\<close>

record 'j pending_record =
  pr_topic :: string
  pr_key :: string
  pr_value :: "'j option"
  pr_headers :: "header list"

definition pending_event ::
    "('p \<Rightarrow> string) \<Rightarrow> ('p envelope \<Rightarrow> 'j) \<Rightarrow> (int \<Rightarrow> string option) \<Rightarrow> 'p envelope \<Rightarrow> 'j pending_record" where
  "pending_event topic to_vec fmt env =
     \<lparr>pr_topic = topic (payload env), pr_key = aggregate_id env, pr_value = Some (to_vec env),
      pr_headers = kafka_headers fmt env\<rparr>"

definition pending_state :: "string \<Rightarrow> string \<Rightarrow> 'j \<Rightarrow> 'j pending_record" where
  "pending_state topic key v = \<lparr>pr_topic = topic, pr_key = key, pr_value = Some v, pr_headers = []\<rparr>"

definition pending_tombstone :: "string \<Rightarrow> string \<Rightarrow> 'j pending_record" where
  "pending_tombstone topic key = \<lparr>pr_topic = topic, pr_key = key, pr_value = None, pr_headers = []\<rparr>"

text \<open>A record as a reader of the topic sees it.\<close>

definition logged :: "'j pending_record \<Rightarrow> 'j topic_record" where
  "logged p = \<lparr>rec_key = Some (pr_key p), rec_value = pr_value p\<rparr>"

datatype producer_error = FencedProducer | TransactionAborted | RecoveryRequired | ProducerClosed
  | OtherProducer string

datatype write_error = Fenced | Producer producer_error

type_synonym committed = "(string \<times> int) list"

definition offset_for :: "committed \<Rightarrow> string \<Rightarrow> int option" where
  "offset_for c topic = map_option snd (find (\<lambda>(t, _). t = topic) c)"

text \<open>
  What happens to one transaction outside the code: whether it begins, what is acknowledged for
  each record (the inner \<open>None\<close> is a receiver that was dropped), how the commit ends, and
  whether the records are in the log afterwards.
\<close>

record txn_env =
  env_begin :: "producer_error option"
  env_acks :: "((int, producer_error) result) option list"
  env_commit :: "producer_error option"
  env_landed :: bool

record writer =
  fenced :: bool
  aborted_process :: bool

definition classify :: "producer_error \<Rightarrow> writer \<Rightarrow> write_error \<times> writer" where
  "classify e w = (case e of
     FencedProducer \<Rightarrow> (Fenced, w\<lparr>fenced := True\<rparr>)
   | TransactionAborted \<Rightarrow> (Fenced, w\<lparr>fenced := True\<rparr>)
   | RecoveryRequired \<Rightarrow> (Producer e, w\<lparr>aborted_process := True\<rparr>)
   | _ \<Rightarrow> (Producer e, w))"

text \<open>The entry of a topic takes the larger offset; a topic seen for the first time is appended.\<close>

fun note_offset :: "string \<Rightarrow> int \<Rightarrow> committed \<Rightarrow> committed" where
  "note_offset topic off [] = [(topic, off)]"
| "note_offset topic off ((t, old) # rest) =
     (if t = topic then (t, if off > old then off else old) # rest
      else (t, old) # note_offset topic off rest)"

fun collect_acks ::
    "string list \<Rightarrow> ((int, producer_error) result) option list \<Rightarrow> committed \<Rightarrow> (committed, producer_error option) result" where
  "collect_acks [] acks offs = Ok offs"
| "collect_acks (t # ts) [] offs = Err None"
| "collect_acks (t # ts) (a # acks) offs =
     (case a of
        Some (Ok off) \<Rightarrow> collect_acks ts acks (note_offset t off offs)
      | Some (Err e) \<Rightarrow> Err (Some e)
      | None \<Rightarrow> Err None)"

text \<open>
  \<open>transact\<close>. The answer comes with the new state of the writer and with what reached the log:
  an acknowledgement that fails aborts the transaction, so nothing lands.
\<close>

definition transact ::
    "txn_env \<Rightarrow> 'j pending_record list \<Rightarrow> writer \<Rightarrow> (committed, write_error) result \<times> writer \<times> 'j pending_record list" where
  "transact env records w =
     (if fenced w then (Err Fenced, w, [])
      else if records = [] then (Ok [], w, [])
      else (case env_begin env of
        Some e \<Rightarrow> (case classify e w of (err, w') \<Rightarrow> (Err err, w', []))
      | None \<Rightarrow>
          (case collect_acks (map pr_topic records) (env_acks env) [] of
             Err (Some e) \<Rightarrow> (case classify e w of (err, w') \<Rightarrow> (Err err, w', []))
           | Err None \<Rightarrow> (Err (Producer ProducerClosed), w, [])
           | Ok offs \<Rightarrow>
               (case env_commit env of
                  Some e \<Rightarrow> (case classify e w of
                     (err, w') \<Rightarrow> (Err err, w', if env_landed env then records else []))
                | None \<Rightarrow> (Ok offs, w, if env_landed env then records else [])))))"

text \<open>
  Kafka's contract for \<open>EndTxn\<close>: a commit that is acknowledged has happened, one that is refused
  has not; only an answer that never arrived leaves it open.
\<close>

definition broker_truthful :: "txn_env \<Rightarrow> bool" where
  "broker_truthful env \<longleftrightarrow>
     (case env_commit env of None \<Rightarrow> env_landed env
      | Some RecoveryRequired \<Rightarrow> True | Some _ \<Rightarrow> \<not> env_landed env)"

lemma classify_cases:
  "fst (classify e w) = (if e = FencedProducer \<or> e = TransactionAborted then Fenced else Producer e)"
  "fenced (snd (classify e w)) \<longleftrightarrow> fenced w \<or> e = FencedProducer \<or> e = TransactionAborted"
  "aborted_process (snd (classify e w)) \<longleftrightarrow> aborted_process w \<or> e = RecoveryRequired"
  by (cases e; simp add: classify_def)+

lemma note_offset_get:
  "offset_for (note_offset t off offs) u =
     (if u = t then Some (case offset_for offs t of None \<Rightarrow> off | Some old \<Rightarrow> (if off > old then off else old))
      else offset_for offs u)"
  by (induction t off offs rule: note_offset.induct) (auto simp: offset_for_def split: option.splits)

definition acked :: "string list \<Rightarrow> ((int, producer_error) result) option list \<Rightarrow> (string \<times> int) list" where
  "acked ts acks = List.map_filter (\<lambda>(t, a). case a of Some (Ok off) \<Rightarrow> Some (t, off) | _ \<Rightarrow> None) (zip ts acks)"

text \<open>The offset reported for a topic is the largest acknowledged for it.\<close>

definition max_offset :: "(string \<times> int) list \<Rightarrow> string \<Rightarrow> int option" where
  "max_offset ps t = (let os = map snd (filter (\<lambda>p. fst p = t) ps) in
     if os = [] then None else Some (Max (set os)))"

lemma collect_acks_offsets:
  "collect_acks ts acks offs = Ok offs' \<Longrightarrow>
     offset_for offs' u = (case max_offset (acked ts acks) u of
        None \<Rightarrow> offset_for offs u
      | Some m \<Rightarrow> Some (case offset_for offs u of None \<Rightarrow> m | Some old \<Rightarrow> max old m))"
proof (induction ts acks offs rule: collect_acks.induct)
  case (1 acks offs)
  then show ?case by (simp add: acked_def max_offset_def List.map_filter_def)
next
  case (3 t ts a acks offs)
  then obtain off where a: "a = Some (Ok off)" and r: "collect_acks ts acks (note_offset t off offs) = Ok offs'"
    by (auto split: option.splits sum.splits)
  have step: "acked (t # ts) (Some (Ok off) # acks) = (t, off) # acked ts acks"
    by (simp add: acked_def List.map_filter_def)
  show ?case
  proof (cases "u = t")
    case False
    then have "max_offset ((t, off) # acked ts acks) u = max_offset (acked ts acks) u"
      by (simp add: max_offset_def)
    with 3 a r False show ?thesis by (simp add: step note_offset_get split: option.splits)
  next
    case True
    have "max_offset ((t, off) # acked ts acks) t =
        Some (case max_offset (acked ts acks) t of None \<Rightarrow> off | Some m \<Rightarrow> max off m)"
    proof -
      have "Max (set (off # os)) = (if os = [] then off else max off (Max (set os)))" for os
        by (cases os) simp_all
      then show ?thesis by (simp add: max_offset_def Let_def del: set_map)
    qed
    with 3 a r True show ?thesis
      by (auto simp: step note_offset_get max_def split: option.splits)
  qed
qed simp

lemma transact_landed:
  assumes "transact env rs w = (answer, w', landed)" "broker_truthful env"
  shows "answer = Ok offs \<Longrightarrow> landed = rs"
    and "answer = Err e \<Longrightarrow> landed = [] \<or> aborted_process w'"
  using assms
  by (auto simp: transact_def broker_truthful_def classify_def
      split: if_splits option.splits sum.splits producer_error.splits)

lemma transact_all_or_nothing: "transact env rs w = (answer, w', landed) \<Longrightarrow> landed = [] \<or> landed = rs"
  by (auto simp: transact_def split: if_splits option.splits sum.splits prod.splits)

text \<open>Property C37: what \<open>transact\<close> answers is the truth about the log. Given a broker that tells
  the truth about an acknowledged or refused commit: success means that every record of the
  transaction is in the log and that the offset reported for each topic is the largest
  acknowledged for it; an error means that none is, unless the process has been stopped over
  an unknown outcome. A fenced writer writes nothing, and fencing is never undone.\<close>

theorem transact_truthful:
  assumes "broker_truthful env" and "transact env records w = (answer, w', landed)"
  shows "(case answer of
      Ok offs \<Rightarrow> landed = records \<and> (\<not> fenced w) \<and>
        (\<forall>t. offset_for offs t =
          (if records = [] then None else max_offset (acked (map pr_topic records) (env_acks env)) t))
    | Err e \<Rightarrow> landed = [] \<or> aborted_process w') \<and>
    (if fenced w then answer = Err Fenced \<and> landed = [] \<and> w' = w else True) \<and>
    (fenced w' \<longleftrightarrow> fenced w \<or> answer = Err Fenced)"
proof (cases "fenced w \<or> records = [] \<or> env_begin env \<noteq> None")
  case True
  then show ?thesis using assms(2)
    by (cases "fenced w"; cases "records = []"; cases "env_begin env")
       (auto simp: transact_def offset_for_def classify_def split: producer_error.splits)
next
  case False
  then have s: "\<not> fenced w" "records \<noteq> []" "env_begin env = None" by auto
  let ?c = "collect_acks (map pr_topic records) (env_acks env) []"
  show ?thesis
  proof (cases ?c)
    case (Inr offs)
    have "offset_for offs t = max_offset (acked (map pr_topic records) (env_acks env)) t" for t
      using collect_acks_offsets [OF Inr, of t] by (simp add: offset_for_def split: option.splits)
    with s Inr assms show ?thesis
      by (cases "env_commit env")
         (auto simp: transact_def broker_truthful_def classify_def split: producer_error.splits if_splits)
  next
    case (Inl r)
    with s assms(2) show ?thesis
      by (cases r) (auto simp: transact_def classify_def split: producer_error.splits)
  qed
qed

theorem transact_witness:
  "transact \<lparr>env_begin = None, env_acks = [Some (Ok 4), Some (Ok 9), Some (Ok 5)], env_commit = None, env_landed = True\<rparr>
     [pending_state ''a'' ''k'' True, pending_state ''b'' ''k'' True, pending_tombstone ''a'' ''l'']
     \<lparr>fenced = False, aborted_process = False\<rparr>
   = (Ok [(''a'', 5), (''b'', 9)], \<lparr>fenced = False, aborted_process = False\<rparr>,
     [pending_state ''a'' ''k'' True, pending_state ''b'' ''k'' True, pending_tombstone ''a'' ''l'']) \<and>
   offset_for [(''a'', 5), (''b'', 9)] ''a'' = max_offset [(''a'', 4), (''b'', 9), (''a'', 5)] ''a''"
proof -
  let ?env = "\<lparr>env_begin = None, env_acks = [Some (Ok 4), Some (Ok 9), Some (Ok 5)], env_commit = None, env_landed = True\<rparr>"
  let ?rs = "[pending_state ''a'' ''k'' True, pending_state ''b'' ''k'' True, pending_tombstone ''a'' ''l'']"
  let ?w = "\<lparr>fenced = False, aborted_process = False\<rparr>"
  have run: "transact ?env ?rs ?w = (Ok [(''a'', 5), (''b'', 9)], ?w, ?rs)" by code_simp
  have truth: "broker_truthful ?env" by code_simp
  have ack: "acked (map pr_topic ?rs) (env_acks ?env) = [(''a'', 4), (''b'', 9), (''a'', 5)]" by code_simp
  show ?thesis using transact_truthful [OF truth run] run unfolding ack by simp
qed

section \<open>Broker features\<close>

definition SHARE_VERSION :: string where "SHARE_VERSION = ''share.version''"
definition SHARE_GROUPS_LEVEL :: int where "SHARE_GROUPS_LEVEL = 1"

text \<open>Collecting pairs into a map keeps the last level of a name.\<close>

definition from_levels :: "(string \<times> int) list \<Rightarrow> (string, int) table" where
  "from_levels levels = foldl (\<lambda>m (n, l). tbl_put n l m) [] levels"

definition level :: "(string, int) table \<Rightarrow> string \<Rightarrow> int" where
  "level features feature = (case tbl_get features feature of None \<Rightarrow> 0 | Some l \<Rightarrow> l)"

definition share_groups :: "(string, int) table \<Rightarrow> bool" where
  "share_groups features \<longleftrightarrow> level features SHARE_VERSION \<ge> SHARE_GROUPS_LEVEL"

section \<open>The tailer\<close>

text \<open>
  What is at an offset of a partition: a visible record, or a slot that a read-committed reader
  never sees (a control batch or a record of an aborted transaction).
\<close>

datatype 'r slot = Visible 'r | Hidden

record 'r fetch_result =
  fr_records :: "(int \<times> 'r) list"
  fr_next_offset :: "int option"

record tailer =
  tl_offset :: int
  tl_applied :: int

record 'r batch =
  bt_records :: "(int \<times> 'r) list"
  bt_next_offset :: int
  bt_caught_up :: bool

definition open_at :: "int \<Rightarrow> tailer" where
  "open_at off = \<lparr>tl_offset = off, tl_applied = off - 1\<rparr>"

definition mark_applied :: "int \<Rightarrow> tailer \<Rightarrow> tailer" where
  "mark_applied off t = (if off > tl_applied t then t\<lparr>tl_applied := off\<rparr> else t)"

definition next_batch ::
    "(int \<Rightarrow> ('r fetch_result, 'e) result) \<Rightarrow> tailer \<Rightarrow> ('r batch, 'e) result \<times> tailer" where
  "next_batch fetch t = (case fetch (tl_offset t) of
     Err e \<Rightarrow> (Err e, t)
   | Ok r \<Rightarrow>
       (let previous = tl_offset t;
            off = (case fr_next_offset r of
                     Some n \<Rightarrow> (if n > previous then n else previous) | None \<Rightarrow> previous)
        in (Ok \<lparr>bt_records = fr_records r, bt_next_offset = off,
                bt_caught_up = (fr_records r = [] \<and> off = previous)\<rparr>,
            t\<lparr>tl_offset := off\<rparr>)))"

text \<open>
  \<open>replay_to_end\<close> with fuel: \<open>None\<close> is a replay that has not returned after that many fetches.
\<close>

fun replay_to_end ::
    "nat \<Rightarrow> (int \<Rightarrow> ('r fetch_result, 'e) result) \<Rightarrow> (int \<times> 'r \<Rightarrow> 's \<Rightarrow> 's) \<Rightarrow> nat \<Rightarrow> 's \<Rightarrow> tailer
      \<Rightarrow> ((nat, 'e) result \<times> 's \<times> tailer) option" where
  "replay_to_end 0 fetch f count s t = None"
| "replay_to_end (Suc fuel) fetch f count s t =
     (case next_batch fetch t of
        (Err e, t1) \<Rightarrow> Some (Err e, s, t1)
      | (Ok b, t1) \<Rightarrow>
          if bt_records b = [] then
            (if bt_caught_up b then Some (Ok count, s, t1)
             else replay_to_end fuel fetch f count s t1)
          else
            replay_to_end fuel fetch f (count + length (bt_records b)) (foldl (\<lambda>s r. f r s) s (bt_records b))
              (mark_applied (bt_next_offset b - 1) t1))"

definition visible :: "int \<Rightarrow> 'r slot list \<Rightarrow> (int \<times> 'r) list" where
  "visible first slots = List.map_filter (\<lambda>(o1, s). case s of Visible r \<Rightarrow> Some (o1, r) | Hidden \<Rightarrow> None)
     (zip (map (\<lambda>i. first + int i) [0..<length slots]) slots)"

text \<open>
  What Kafka documents of a read-committed fetch at an offset inside a partition whose content
  does not change: it returns the visible records of some non-empty stretch of the log together
  with the offset after that stretch, and at the end it returns nothing.
\<close>

definition serves :: "(int \<Rightarrow> ('r fetch_result, 'e) result) \<Rightarrow> 'r slot list \<Rightarrow> bool" where
  "serves fetch slots \<longleftrightarrow> (\<forall>n \<le> length slots.
     \<exists>m. (if n < length slots then n < m \<and> m \<le> length slots else m = n) \<and>
       (\<exists>after. fetch (int n) = Ok \<lparr>fr_records = visible (int n) (take (m - n) (drop n slots)), fr_next_offset = after\<rparr>
          \<and> (after = Some (int m) \<or> m = n \<and> after = None)))"

lemma visible_append:
  "visible i (xs @ ys) = visible i xs @ visible (i + int (length xs)) ys"
proof -
  have "map (\<lambda>j. i + int j) [0..<length xs + length ys] =
      map (\<lambda>j. i + int j) [0..<length xs] @ map (\<lambda>j. i + int (length xs) + int j) [0..<length ys]"
    by (rule nth_equalityI) (auto simp: nth_append)
  then show ?thesis by (simp add: visible_def List.map_filter_def)
qed

lemma visible_Nil [simp]: "visible i [] = []"
  by (simp add: visible_def List.map_filter_def)

lemma serves_step:
  assumes "serves fetch slots" "n \<le> length slots" "tl_offset t = int n"
  obtains m where "if n < length slots then n < m \<and> m \<le> length slots else m = n"
    and "next_batch fetch t = (Ok \<lparr>bt_records = visible (int n) (take (m - n) (drop n slots)),
      bt_next_offset = int m, bt_caught_up = (m = n)\<rparr>, t\<lparr>tl_offset := int m\<rparr>)"
proof -
  obtain m after where m: "if n < length slots then n < m \<and> m \<le> length slots else m = n"
    and f: "fetch (int n) = Ok \<lparr>fr_records = visible (int n) (take (m - n) (drop n slots)), fr_next_offset = after\<rparr>"
    and nx: "after = Some (int m) \<or> m = n \<and> after = None"
    using assms unfolding serves_def by blast
  have le: "n \<le> m" using m by (auto split: if_splits)
  have "next_batch fetch t = (Ok \<lparr>bt_records = visible (int n) (take (m - n) (drop n slots)),
      bt_next_offset = int m, bt_caught_up = (m = n)\<rparr>, t\<lparr>tl_offset := int m\<rparr>)"
    using nx le by (auto simp: next_batch_def assms(3) f Let_def split: if_splits)
  with m that show ?thesis by blast
qed

text \<open>The tailer's fields move forward only, and the published offset stays behind the cursor.\<close>

definition tailer_ok :: "tailer \<Rightarrow> bool" where
  "tailer_ok t \<longleftrightarrow> tl_applied t < tl_offset t"

lemma tailer_moves_forward:
  "tailer_ok t \<Longrightarrow> tailer_ok (snd (next_batch fetch t)) \<and> tl_offset t \<le> tl_offset (snd (next_batch fetch t))"
  "tl_applied t \<le> tl_applied (mark_applied off t)"
  "tailer_ok t \<Longrightarrow> off < tl_offset t \<Longrightarrow> tailer_ok (mark_applied off t)"
  "tailer_ok (open_at off)"
  by (auto simp: tailer_ok_def next_batch_def mark_applied_def open_at_def Let_def split: sum.splits option.splits)

lemma replay_to_end_visible:
  assumes "serves fetch slots" and "n \<le> length slots" and "length slots - n < fuel"
    and "tl_offset t = int n"
  shows "\<exists>t'. replay_to_end fuel fetch f count s t =
      Some (Ok (count + length (visible (int n) (drop n slots))),
        foldl (\<lambda>s r. f r s) s (visible (int n) (drop n slots)), t')
    \<and> tl_offset t' = int (length slots)"
  using assms(2-4)
proof (induction fuel arbitrary: n count s t)
  case (Suc fuel)
  from serves_step [OF assms(1) Suc.prems(1,3)] obtain m
    where m: "if n < length slots then n < m \<and> m \<le> length slots else m = n"
      and b: "next_batch fetch t = (Ok \<lparr>bt_records = visible (int n) (take (m - n) (drop n slots)),
        bt_next_offset = int m, bt_caught_up = (m = n)\<rparr>, t\<lparr>tl_offset := int m\<rparr>)" .
  show ?case
  proof (cases "n < length slots")
    case False
    with m b Suc.prems show ?thesis by simp
  next
    case True
    with m have nm: "n < m" "m \<le> length slots" by auto
    let ?vs = "visible (int n) (take (m - n) (drop n slots))"
    have "drop n slots = take (m - n) (drop n slots) @ drop m slots"
      using nm by (metis append_take_drop_id drop_drop le_add_diff_inverse2 less_imp_le)
    then have split: "visible (int n) (drop n slots) = ?vs @ visible (int m) (drop m slots)"
      using nm visible_append [of "int n" "take (m - n) (drop n slots)" "drop m slots"] by simp
    have len: "m \<le> length slots" "length slots - m < fuel" using nm Suc.prems(2) by simp_all
    note IH = Suc.IH [OF len]
    show ?thesis
    proof (cases "?vs = []")
      case True
      with b nm have "replay_to_end (Suc fuel) fetch f count s t =
          replay_to_end fuel fetch f count s (t\<lparr>tl_offset := int m\<rparr>)" by simp
      with IH [of "t\<lparr>tl_offset := int m\<rparr>" count s] show ?thesis using True by (simp add: split)
    next
      case False
      let ?t = "mark_applied (int m - 1) (t\<lparr>tl_offset := int m\<rparr>)"
      have "replay_to_end (Suc fuel) fetch f count s t =
          replay_to_end fuel fetch f (count + length ?vs) (foldl (\<lambda>s r. f r s) s ?vs) ?t"
        using b False by simp
      moreover have "tl_offset ?t = int m" by (simp add: mark_applied_def)
      ultimately show ?thesis
        using IH [of ?t "count + length ?vs" "foldl (\<lambda>s r. f r s) s ?vs"] by (simp add: split add.assoc)
    qed
  qed
qed simp

text \<open>Property C38: replay terminates and misses nothing. Reading from any offset of a log, with
  control batches and aborted records anywhere in it, \<open>replay_to_end\<close> returns after at most one
  fetch per slot and one more; it has then folded exactly the visible records from that offset
  on, in log order, counted them, and stands at the end of the log.\<close>

theorem replay_to_end_complete:
  assumes "serves fetch slots" and "n \<le> length slots" and "length slots - n < fuel"
    and "tl_offset t = int n"
  shows "\<exists>t'. replay_to_end fuel fetch f count s t =
      Some (Ok (count + length (visible (int n) (drop n slots))),
        foldl (\<lambda>s r. f r s) s (visible (int n) (drop n slots)), t')
    \<and> tl_offset t' = int (length slots)"
  using assms by (rule replay_to_end_visible)

definition whole_log_fetch :: "'r slot list \<Rightarrow> int \<Rightarrow> ('r fetch_result, string) result" where
  "whole_log_fetch slots off =
     Ok \<lparr>fr_records = visible off (drop (nat off) slots), fr_next_offset = Some (int (length slots))\<rparr>"

lemma whole_log_serves: "serves (whole_log_fetch slots) slots"
  unfolding serves_def whole_log_fetch_def by (auto intro!: exI [of _ "length slots"])

theorem replay_to_end_witness:
  "\<exists>t'. replay_to_end 5 (whole_log_fetch [Visible ''a'', Hidden, Visible ''b'', Hidden])
      (\<lambda>r acc. acc @ [snd r]) 0 [] (open_at 1) = Some (Ok 1, [''b''], t') \<and> tl_offset t' = 4"
proof -
  let ?s = "[Visible ''a'', Hidden, Visible ''b'', Hidden]"
  have v: "visible (int 1) (drop 1 ?s) = [(2, ''b'')]" by code_simp
  have o1: "tl_offset (open_at 1) = int 1" by (simp add: open_at_def)
  show ?thesis
    using replay_to_end_complete [OF whole_log_serves [of ?s], of 1 5 "open_at 1" "\<lambda>r acc. acc @ [snd r]" 0 "[]"]
    by (simp only: v o1) simp
qed

end
