(* ===== verification/Git_Frame.thy ===== *)
theory Git_Frame
  imports Value_Types
begin

text \<open>
  The on-log form of a git object, \<open>forge-git/src/frame.rs\<close>: frames, record keys, chunking and
  reassembly. SHA-1 is another crate's, so the hash is the parameter \<open>sha1\<close>; the theorems that
  need its length say so. A \<open>usize\<close> is 64 bits wide, and the casts are the word conversions.
\<close>

section \<open>Kinds, errors and frames\<close>

type_synonym u32 = "32 word"

datatype kind = Commit | Tree | Blob | Tag

definition kind_to_byte :: "kind \<Rightarrow> byte" where
  "kind_to_byte k = (case k of Commit \<Rightarrow> 1 | Tree \<Rightarrow> 2 | Blob \<Rightarrow> 3 | Tag \<Rightarrow> 4)"

definition kind_from_byte :: "byte \<Rightarrow> kind option" where
  "kind_from_byte b =
     (if b = 1 then Some Commit else if b = 2 then Some Tree
      else if b = 3 then Some Blob else if b = 4 then Some Tag else None)"

definition kind_as_str :: "kind \<Rightarrow> string" where
  "kind_as_str k = (case k of
     Commit \<Rightarrow> ''commit'' | Tree \<Rightarrow> ''tree'' | Blob \<Rightarrow> ''blob'' | Tag \<Rightarrow> ''tag'')"

definition kind_parse :: "string \<Rightarrow> kind option" where
  "kind_parse s =
     (if s = ''commit'' then Some Commit else if s = ''tree'' then Some Tree
      else if s = ''blob'' then Some Blob else if s = ''tag'' then Some Tag else None)"

datatype frame_error =
    TooShort nat
  | BadMagic
  | BadKind byte
  | LengthMismatch (claimed: u64) (actual_len: nat)
  | CorruptContent (expected: oid) (actual_oid: oid)
  | MissingChunk u32

datatype frame =
    Whole kind bytes
  | Manifest kind u64 u32
  | Chunk kind bytes

section \<open>Record keys\<close>

definition object_key :: "oid \<Rightarrow> string" where
  "object_key x = ''o/'' @ to_hex x"

definition chunk_key :: "oid \<Rightarrow> u32 \<Rightarrow> string" where
  "chunk_key x index = ''o/'' @ to_hex x @ ''/c/'' @ show_padded 6 (unat index)"

definition parse_oid_opt :: "string \<Rightarrow> oid option" where
  "parse_oid_opt s = (case oid_from_str s of Ok x \<Rightarrow> Some x | Err _ \<Rightarrow> None)"

definition parse_key :: "string \<Rightarrow> (oid \<times> u32 option) option" where
  "parse_key key =
     (case strip_prefix ''o/'' key of
        None \<Rightarrow> None
      | Some rest \<Rightarrow>
          (case split_once_str ''/c/'' rest of
             Some (o_text, index) \<Rightarrow>
               (case (parse_oid_opt o_text, parse_unsigned (2 ^ 32) index) of
                  (Some x, Some i) \<Rightarrow> Some (x, Some (of_nat i))
                | _ \<Rightarrow> None)
           | None \<Rightarrow> map_option (\<lambda>x. (x, None)) (parse_oid_opt rest)))"

section \<open>Frames as bytes\<close>

definition MAGIC :: bytes where
  "MAGIC = str_bytes ''FGO1''"

definition HEADER_LEN :: nat where
  "HEADER_LEN = 4 + 1 + 1 + 8 + 4"

definition FLAG_CHUNKED :: byte where "FLAG_CHUNKED = 1"
definition FLAG_IS_CHUNK :: byte where "FLAG_IS_CHUNK = 2"

text \<open>\<open>to_le_bytes\<close> of an integer of \<open>n\<close> bytes, and its inverse.\<close>

fun to_le :: "nat \<Rightarrow> nat \<Rightarrow> bytes" where
  "to_le 0 v = []"
| "to_le (Suc n) v = of_nat (v mod 256) # to_le n (v div 256)"

fun from_le :: "bytes \<Rightarrow> nat" where
  "from_le [] = 0"
| "from_le (b # bs) = unat b + 256 * from_le bs"

definition write_header :: "kind \<Rightarrow> byte \<Rightarrow> u64 \<Rightarrow> u32 \<Rightarrow> bytes" where
  "write_header k flags len count =
     MAGIC @ [kind_to_byte k] @ [flags] @ to_le 8 (unat len) @ to_le 4 (unat count)"

definition encode_whole :: "kind \<Rightarrow> bytes \<Rightarrow> bytes" where
  "encode_whole k content = write_header k 0 (of_nat (length content)) 0 @ content"

definition encode_manifest :: "kind \<Rightarrow> u64 \<Rightarrow> u32 \<Rightarrow> bytes" where
  "encode_manifest k total_len count = write_header k FLAG_CHUNKED total_len count"

definition encode_chunk :: "kind \<Rightarrow> bytes \<Rightarrow> bytes" where
  "encode_chunk k data = write_header k FLAG_IS_CHUNK (of_nat (length data)) 0 @ data"

definition decode :: "bytes \<Rightarrow> (frame, frame_error) result" where
  "decode bs =
     (if length bs < HEADER_LEN then Err (TooShort (length bs))
      else if take 4 bs \<noteq> MAGIC then Err BadMagic
      else and_then (ok_or (kind_from_byte (bs ! 4)) (BadKind (bs ! 4))) (\<lambda>k.
        let flags = bs ! 5;
            len = (of_nat (from_le (take 8 (drop 6 bs))) :: u64);
            count = (of_nat (from_le (take 4 (drop 14 bs))) :: u32);
            body = drop HEADER_LEN bs
        in if flags AND FLAG_CHUNKED \<noteq> 0 then Ok (Manifest k len count)
           else if len \<noteq> of_nat (length body) then Err (LengthMismatch len (length body))
           else if flags AND FLAG_IS_CHUNK \<noteq> 0 then Ok (Chunk k body)
           else Ok (Whole k body)))"

section \<open>Chunking\<close>

text \<open>\<open>slice::chunks\<close>: pieces of \<open>n\<close> elements, the last one possibly shorter.\<close>

function chunks :: "nat \<Rightarrow> 'a list \<Rightarrow> 'a list list" where
  "chunks n xs = (if xs = [] \<or> n = 0 then [] else take n xs # chunks n (drop n xs))"
  by pat_completeness auto

termination
  by (relation "measure (\<lambda>(n, xs). length xs)") auto

declare chunks.simps [simp del]

definition chunk_count_for :: "nat \<Rightarrow> u64 \<Rightarrow> u32" where
  "chunk_count_for len chunk = of_nat ((len + unat chunk - 1) div unat chunk)"

fun number_from :: "nat \<Rightarrow> 'a list \<Rightarrow> (nat \<times> 'a) list" where
  "number_from i [] = []"
| "number_from i (x # xs) = (i, x) # number_from (Suc i) xs"

definition encode_object :: "oid \<Rightarrow> kind \<Rightarrow> bytes \<Rightarrow> (string \<times> bytes) list" where
  "encode_object x k content =
     (let chunk_size = object_chunk; sz = (of_nat (length content) :: byte_size) in
      if sz \<le> chunk_size then [(object_key x, encode_whole k content)]
      else
        (let count = chunk_count_for (length content) chunk_size
         in (object_key x, encode_manifest k (of_nat (length content)) count)
            # map (\<lambda>(i, part). (chunk_key x (of_nat i), encode_chunk k part))
                (number_from 0 (chunks (unat chunk_size) content))))"

fun gather :: "bytes option list \<Rightarrow> nat list \<Rightarrow> (bytes, frame_error) result" where
  "gather parts [] = Ok []"
| "gather parts (i # is) =
     (case (if i < length parts then parts ! i else None) of
        None \<Rightarrow> Err (MissingChunk (of_nat i))
      | Some part \<Rightarrow> and_then (gather parts is) (\<lambda>rest. Ok (part @ rest)))"

definition reassemble :: "u64 \<Rightarrow> u32 \<Rightarrow> bytes option list \<Rightarrow> (bytes, frame_error) result" where
  "reassemble total_len count parts =
     and_then (gather parts [0..<unat count]) (\<lambda>content.
       if (of_nat (length content) :: u64) \<noteq> total_len
       then Err (LengthMismatch total_len (length content)) else Ok content)"

definition compute_oid :: "(bytes \<Rightarrow> bytes) \<Rightarrow> kind \<Rightarrow> bytes \<Rightarrow> oid" where
  "compute_oid sha1 k content =
     Oid (sha1 (str_bytes (kind_as_str k) @ str_bytes '' '' @ str_bytes (show_nat (length content))
       @ [0] @ content))"

definition frame_verify :: "(bytes \<Rightarrow> bytes) \<Rightarrow> oid \<Rightarrow> kind \<Rightarrow> bytes \<Rightarrow> (unit, frame_error) result" where
  "frame_verify sha1 x k content =
     (let actual = compute_oid sha1 k content in
      if actual = x then Ok () else Err (CorruptContent x actual))"

section \<open>Decoding undoes encoding\<close>

lemma length_to_le [simp]: "length (to_le n v) = n"
  by (induction n v rule: to_le.induct) simp_all

lemma from_le_to_le: "from_le (to_le n v) = v mod 256 ^ n"
proof (induction n v rule: to_le.induct)
  case (2 n v)
  have "v mod 256 ^ Suc n = v mod 256 + 256 * (v div 256 mod 256 ^ n)"
    by (simp add: mod_mult2_eq)
  with 2 show ?case by (simp add: unat_of_small)
qed simp

lemma length_MAGIC [simp]: "length MAGIC = 4"
  by (simp add: MAGIC_def)

lemma length_header [simp]: "length (write_header k f len cnt) = HEADER_LEN"
  by (simp add: write_header_def HEADER_LEN_def)

lemma kind_byte_round_trip: "kind_from_byte (kind_to_byte k) = Some k"
  by (cases k) (simp_all add: kind_from_byte_def kind_to_byte_def)

lemma kind_str_round_trip: "kind_parse (kind_as_str k) = Some k"
  by (cases k) (simp_all add: kind_parse_def kind_as_str_def)

lemma header_fields:
  fixes body :: bytes
  shows "take 4 (write_header k f len cnt @ body) = MAGIC"
    and "(write_header k f len cnt @ body) ! 4 = kind_to_byte k"
    and "(write_header k f len cnt @ body) ! 5 = f"
    and "take 8 (drop 6 (write_header k f len cnt @ body)) = to_le 8 (unat len)"
    and "take 4 (drop 14 (write_header k f len cnt @ body)) = to_le 4 (unat cnt)"
    and "drop HEADER_LEN (write_header k f len cnt @ body) = body"
  by (simp_all add: write_header_def nth_append HEADER_LEN_def)

lemma unat_mod_word: "(of_nat (unat (w :: 'a :: len word) mod 2 ^ LENGTH('a)) :: 'a word) = w"
  by simp

lemma decode_header:
  "decode (write_header k f len cnt @ body) =
     (if f AND FLAG_CHUNKED \<noteq> 0 then Ok (Manifest k len cnt)
      else if len \<noteq> of_nat (length body) then Err (LengthMismatch len (length body))
      else if f AND FLAG_IS_CHUNK \<noteq> 0 then Ok (Chunk k body)
      else Ok (Whole k body))"
proof -
  have "(of_nat (unat len mod 256 ^ 8) :: u64) = len" "(of_nat (unat cnt mod 256 ^ 4) :: u32) = cnt"
    using unat_mod_word [of len] unat_mod_word [of cnt] by simp_all
  then show ?thesis unfolding decode_def header_fields from_le_to_le Let_def
    by (simp add: kind_byte_round_trip)
qed

lemma frame_round_trip_whole: "decode (encode_whole k content) = Ok (Whole k content)"
  by (simp add: encode_whole_def decode_header)

lemma frame_round_trip_manifest: "decode (encode_manifest k n c) = Ok (Manifest k n c)"
  using decode_header [of k FLAG_CHUNKED n c "[]"] by (simp add: encode_manifest_def FLAG_CHUNKED_def)

lemma frame_round_trip_chunk: "decode (encode_chunk k data) = Ok (Chunk k data)"
  by (simp add: encode_chunk_def decode_header FLAG_CHUNKED_def FLAG_IS_CHUNK_def)

text \<open>Decoding undoes encoding. A whole object, a manifest and a chunk are read
  back as what was written, for every kind, every content (the empty one included) and every
  length and count; a frame that has lost bytes from its end is refused.\<close>

theorem frame_round_trip:
  "decode (encode_whole k content) = Ok (Whole k content) \<and>
   decode (encode_manifest k total_len count) = Ok (Manifest k total_len count) \<and>
   decode (encode_chunk k content) = Ok (Chunk k content) \<and>
   (0 < n \<and> n \<le> length content \<and> length content < 2 ^ 64 \<longrightarrow>
     decode (take (length (encode_whole k content) - n) (encode_whole k content)) =
       Err (LengthMismatch (of_nat (length content)) (length content - n)))"
proof (intro conjI impI)
  show "decode (encode_whole k content) = Ok (Whole k content)"
    by (rule frame_round_trip_whole)
  show "decode (encode_manifest k total_len count) = Ok (Manifest k total_len count)"
    by (rule frame_round_trip_manifest)
  show "decode (encode_chunk k content) = Ok (Chunk k content)"
    by (rule frame_round_trip_chunk)
next
  assume n: "0 < n \<and> n \<le> length content \<and> length content < 2 ^ 64"
  then have "take (length (encode_whole k content) - n) (encode_whole k content) =
      write_header k 0 (of_nat (length content)) 0 @ take (length content - n) content"
    by (auto simp: encode_whole_def)
  moreover have "(of_nat (length content) :: u64) \<noteq> of_nat (length content - n)"
  proof -
    have "(of_nat n :: u64) \<noteq> 0"
    proof
      assume "(of_nat n :: u64) = 0"
      then have "2 ^ 64 dvd n" by (simp add: word_of_nat_eq_0_iff)
      then show False using n dvd_imp_le [of "2 ^ 64" n] by linarith
    qed
    then show ?thesis using n by simp
  qed
  ultimately show "decode (take (length (encode_whole k content) - n) (encode_whole k content)) =
       Err (LengthMismatch (of_nat (length content)) (length content - n))"
    by (simp add: decode_header)
qed

theorem frame_round_trip_witness:
  "decode (take 19 (encode_whole Blob [1, 2])) = Err (LengthMismatch 2 1)"
proof -
  have h: "(0 :: nat) < 1 \<and> 1 \<le> length [1, 2 :: byte] \<and> length [1, 2 :: byte] < 2 ^ 64" by simp
  have l: "length (encode_whole Blob [1, 2]) - 1 = 19" by (simp add: encode_whole_def HEADER_LEN_def)
  show ?thesis using frame_round_trip [of Blob "[1, 2]" 0 0 1] h unfolding l by simp
qed

section \<open>Keys name their object and chunk\<close>

lemma to_hex_no_slash: "CHR ''/'' \<notin> set (to_hex x)"
proof -
  have "digit_char n \<noteq> CHR ''/''" if "n < 16" for n
    using code_digit_char [OF that] by (auto simp: code_def split: if_splits)
  moreover have "unat b div 16 < 16" for b :: byte
    using unsigned_less [of b, where ?'a = nat] by simp
  ultimately have "CHR ''/'' \<notin> set (hex_byte b)" for b :: byte
    by (metis hex_byte_def empty_iff empty_set mod_less_divisor set_ConsD zero_less_numeral)
  then show ?thesis by (auto simp: to_hex_def)
qed

lemma split_str_first:
  "c \<notin> set a \<Longrightarrow> split_once_str (c # p) (a @ (c # p) @ b) = Some (a, b)"
proof (induction a)
  case Nil
  have "strip_prefix (c # p) ((c # p) @ b) = Some b" by (rule strip_prefix_append)
  then show ?case by simp
qed auto

lemma split_str_none: "c \<notin> set s \<Longrightarrow> split_once_str (c # p) s = None"
  by (induction s) auto

lemma parse_oid_hex: "oid_wf x \<Longrightarrow> parse_oid_opt (to_hex x) = Some x"
  by (cases x) (simp add: parse_oid_opt_def oid_from_str_def oid_wf_def to_hex_def oid_HEX_LEN_def hex_chunks_hex)

lemma parse_object_key: "oid_wf x \<Longrightarrow> parse_key (object_key x) = Some (x, None)"
  unfolding parse_key_def object_key_def strip_prefix_append
  by (simp add: split_str_none to_hex_no_slash parse_oid_hex)

lemma parse_chunk_key:
  assumes "oid_wf x" shows "parse_key (chunk_key x i) = Some (x, Some i)"
proof -
  have "split_once_str ''/c/'' (to_hex x @ ''/c/'' @ show_padded 6 (unat i)) = Some (to_hex x, show_padded 6 (unat i))"
    by (rule split_str_first) (rule to_hex_no_slash)
  moreover have "parse_unsigned (2 ^ 32) (show_padded 6 (unat i)) = Some (unat i)"
    using unsigned_less [of i, where ?'a = nat] by (intro parse_show_padded) simp
  ultimately show ?thesis
    unfolding parse_key_def chunk_key_def strip_prefix_append
    by (simp only: option.case prod.case parse_oid_hex [OF assms] of_nat_unat ucast_id)
qed

text \<open>A record key names one object and at most one chunk of it. Parsing a key the
  writer makes gives back the object id and the index, for every index, so no two records of
  different objects or chunks share a key.\<close>

theorem keys_round_trip:
  assumes "oid_wf x" "oid_wf y"
  shows "parse_key (object_key x) = Some (x, None) \<and> parse_key (chunk_key x i) = Some (x, Some i) \<and>
    (object_key x = object_key y \<longleftrightarrow> x = y) \<and> (chunk_key x i = chunk_key y j \<longleftrightarrow> x = y \<and> i = j) \<and>
    object_key x \<noteq> chunk_key y j"
proof -
  note px = parse_object_key [OF assms(1)] parse_chunk_key [OF assms(1)]
  note py = parse_object_key [OF assms(2)] parse_chunk_key [OF assms(2)]
  have "object_key x = object_key y \<Longrightarrow> x = y" using px(1) py(1) by (metis option.inject prod.inject)
  moreover have "chunk_key x i = chunk_key y j \<Longrightarrow> x = y \<and> i = j"
    using px(2) [of i] py(2) [of j] by (metis option.inject prod.inject)
  moreover have "object_key x \<noteq> chunk_key y j"
    using px(1) py(2) [of j] by (metis option.distinct(1) option.inject prod.inject)
  ultimately show ?thesis using px by blast
qed

theorem keys_round_trip_witness:
  "parse_key (chunk_key oid_zero 7) = Some (oid_zero, Some 7) \<and> object_key oid_zero \<noteq> chunk_key oid_zero 7"
proof -
  have "oid_wf oid_zero" by (simp add: oid_wf_def oid_zero_def)
  from keys_round_trip [OF this this, of 7 7] show ?thesis by blast
qed

section \<open>Chunking loses nothing\<close>

lemma concat_chunks: "0 < n \<Longrightarrow> concat (chunks n xs) = xs"
proof (induction n xs rule: chunks.induct)
  case (1 n xs)
  then show ?case by (cases "xs = []") (simp_all add: chunks.simps [of n xs] chunks.simps [of n "[]"])
qed

lemma length_chunks: "0 < n \<Longrightarrow> length (chunks n xs) = (length xs + n - 1) div n"
proof (induction n xs rule: chunks.induct)
  case (1 n xs)
  show ?case
  proof (cases "xs = []")
    case False
    then have step: "length (chunks n xs) = Suc ((length (drop n xs) + n - 1) div n)"
      using 1 by (simp add: chunks.simps [of n xs])
    show ?thesis
    proof (cases "length xs \<le> n")
      case True
      with False 1(2) have "(length xs + n - 1) div n = 1"
        by (cases xs) (simp_all add: div_nat_eqI)
      with True 1(2) step show ?thesis by (simp add: div_nat_eqI)
    next
      case f: False
      then have "length xs + n - 1 = (length (drop n xs) + n - 1) + n" by simp
      with 1(2) have "(length xs + n - 1) div n = (length (drop n xs) + n - 1) div n + 1"
        by (simp only: div_add_self2)
      with step show ?thesis by simp
    qed
  qed (use 1 in \<open>simp add: chunks.simps [of n "[]"]\<close>)
qed

lemma chunks_bounded: "p \<in> set (chunks n xs) \<Longrightarrow> length p \<le> n"
proof (induction n xs rule: chunks.induct)
  case (1 n xs)
  then show ?case by (cases "xs = [] \<or> n = 0") (auto simp: chunks.simps [of n xs])
qed

lemma gather_all: "gather (map Some ps) [i..<length ps] = Ok (concat (drop i ps))"
proof (induction "length ps - i" arbitrary: i)
  case (Suc m)
  then have "[i..<length ps] = i # [Suc i..<length ps]" by (simp add: upt_conv_Cons)
  moreover have "drop i ps = ps ! i # drop (Suc i) ps" using Suc(2) by (simp add: Cons_nth_drop_Suc)
  moreover have "gather (map Some ps) [Suc i..<length ps] = Ok (concat (drop (Suc i) ps))"
    using Suc by auto
  ultimately show ?case using Suc(2) by simp
qed simp

lemma unat_object_chunk: "unat object_chunk = 4194304"
  by (simp add: object_chunk_def mib_def)

definition content_chunks :: "bytes \<Rightarrow> bytes list" where
  "content_chunks content = chunks (unat object_chunk) content"

definition is_chunked :: "bytes \<Rightarrow> bool" where
  "is_chunked content \<longleftrightarrow> unat object_chunk < length content"

lemma encode_object_cases:
  assumes "length content < 2 ^ 53"
  shows "encode_object x k content =
     (if is_chunked content then
        (object_key x, encode_manifest k (of_nat (length content)) (of_nat (length (content_chunks content))))
        # map (\<lambda>(i, part). (chunk_key x (of_nat i), encode_chunk k part)) (number_from 0 (content_chunks content))
      else [(object_key x, encode_whole k content)])"
proof -
  have "(of_nat (length content) :: byte_size) \<le> object_chunk \<longleftrightarrow> \<not> is_chunked content"
    using assms by (auto simp: is_chunked_def word_le_nat_alt unat_of_nat take_bit_eq_mod)
  then show ?thesis
    by (auto simp: encode_object_def Let_def content_chunks_def chunk_count_for_def length_chunks unat_object_chunk)
qed

lemma chunk_count_bound:
  assumes "length content < 2 ^ 53" shows "length (content_chunks content) < 2 ^ 32"
proof -
  have "(length content + 4194304 - 1) div 4194304 < 2 ^ 32" using assms by (simp add: div_less_iff_less_mult)
  then show ?thesis by (simp add: content_chunks_def length_chunks unat_object_chunk)
qed

lemma reassemble_chunks:
  assumes "length content < 2 ^ 53"
  shows "reassemble (of_nat (length content)) (of_nat (length (content_chunks content)))
    (map Some (content_chunks content)) = Ok content"
proof -
  have "unat (of_nat (length (content_chunks content)) :: u32) = length (content_chunks content)"
    using chunk_count_bound [OF assms] by (simp add: unat_of_nat take_bit_eq_mod)
  moreover have "concat (content_chunks content) = content"
    by (simp add: content_chunks_def concat_chunks unat_object_chunk)
  ultimately show ?thesis using gather_all [of "content_chunks content" 0] by (simp add: reassemble_def)
qed

text \<open>A stored object fits the wire and is whole again afterwards. Every record
  that \<open>encode_object\<close> makes carries at most one header and 4 MiB, far below the 100 MiB frame;
  the first record has the object's key; and for an object that is split, reassembling its
  parts from the manifest gives exactly its content, while a missing part is reported as such
  and never yields a shorter object.\<close>

theorem encode_object_fits:
  assumes "length content < 2 ^ 53"
  shows "list_all (\<lambda>(_, v). length v \<le> HEADER_LEN + 4 * 1024 * 1024 \<and> length v < unat max_frame)
      (encode_object x k content) \<and>
    fst (hd (encode_object x k content)) = object_key x \<and>
    reassemble (of_nat (length content)) (of_nat (length (content_chunks content)))
      (map Some (content_chunks content)) = Ok content \<and>
    (i < length (content_chunks content) \<longrightarrow>
      (\<exists>j. reassemble (of_nat (length content)) (of_nat (length (content_chunks content)))
        ((map Some (content_chunks content))[i := None]) = Err (MissingChunk j)))"
proof (intro conjI impI)
  have num: "j \<in> set (number_from i xs) \<Longrightarrow> snd j \<in> set xs" for i j and xs :: "bytes list"
    by (induction i xs rule: number_from.induct) auto
  have frame: "HEADER_LEN + 4 * 1024 * 1024 < unat max_frame"
    by (simp add: HEADER_LEN_def max_frame_def mib_def)
  have small: "length v \<le> HEADER_LEN + 4 * 1024 * 1024" if "(key, v) \<in> set (encode_object x k content)" for key v
    using that chunks_bounded [of _ "unat object_chunk" content] num
    by (force simp: encode_object_cases [OF assms] is_chunked_def unat_object_chunk encode_whole_def
        encode_manifest_def encode_chunk_def content_chunks_def split: if_splits)
  then show "list_all (\<lambda>(_, v). length v \<le> HEADER_LEN + 4 * 1024 * 1024 \<and> length v < unat max_frame)
      (encode_object x k content)"
    using frame by (fastforce simp: list_all_iff)
  show "fst (hd (encode_object x k content)) = object_key x"
    by (simp add: encode_object_cases [OF assms])
  show "reassemble (of_nat (length content)) (of_nat (length (content_chunks content)))
      (map Some (content_chunks content)) = Ok content"
    by (rule reassemble_chunks [OF assms])
next
  let ?ps = "(map Some (content_chunks content))[i := None]"
  assume i: "i < length (content_chunks content)"
  have "\<exists>j. gather ?ps is = Err (MissingChunk j)" if "i \<in> set is" "\<forall>l\<in>set is. l < length ?ps" for "is"
    using that i by (induction "is") (auto simp: nth_list_update split: option.splits)
  moreover have "unat (of_nat (length (content_chunks content)) :: u32) = length (content_chunks content)"
    using chunk_count_bound [OF assms] by (simp add: unat_of_nat take_bit_eq_mod)
  moreover have "\<exists>j. gather ?ps [0..<length (content_chunks content)] = Err (MissingChunk j)"
    using calculation(1) i by simp
  ultimately show "\<exists>j. reassemble (of_nat (length content)) (of_nat (length (content_chunks content))) ?ps
      = Err (MissingChunk j)"
    by (auto simp: reassemble_def)
qed

theorem encode_object_fits_witness:
  "fst (hd (encode_object oid_zero Blob [104, 105])) = object_key oid_zero \<and>
   reassemble 2 1 [Some [104, 105]] = Ok [104, 105] \<and> (\<exists>j. reassemble 2 1 [None] = Err (MissingChunk j))"
proof -
  have len: "length [104, 105 :: byte] < 2 ^ 53" by simp
  have parts: "content_chunks [104, 105] = [[104, 105]]"
    by (simp add: content_chunks_def unat_object_chunk chunks.simps)
  show ?thesis using encode_object_fits [OF len, of oid_zero Blob 0] by (simp add: parts)
qed

end
