(* ===== verification/Git_Cache.thy ===== *)
theory Git_Cache
  imports Git_Frame Forge_Bus
begin

text \<open>
  The disposable cache of a repository, \<open>Cache::hydrate\<close> of \<open>forge-git/src/cache.rs\<close>, and the
  writer of objects, \<open>store.rs\<close>. The bare repository on disk is modelled by the table of its
  loose objects and the stored cursor; the git process and file errors are outside. A record's
  key is its bytes: decoding them lossily changes only keys that do not parse anyway. Both hash
  maps are tables, so the order of assembly is the order in which manifests were first seen.
\<close>

section \<open>The fold over the log\<close>

record hydrate_state =
  manifests :: "(oid, kind \<times> u64 \<times> u32) table"
  partials :: "(oid, bytes option list) table"
  pending :: "(oid \<times> kind \<times> bytes) list"

definition hydrate_init :: hydrate_state where
  "hydrate_init = \<lparr>manifests = [], partials = [], pending = []\<rparr>"

definition put_chunk :: "nat \<Rightarrow> bytes \<Rightarrow> bytes option list \<Rightarrow> bytes option list" where
  "put_chunk index data slot =
     (let slot = (if length slot \<le> index then slot @ replicate (index + 1 - length slot) None else slot)
      in slot[index := Some data])"

definition hydrate_record :: "int \<times> bytes topic_record \<Rightarrow> hydrate_state \<Rightarrow> hydrate_state" where
  "hydrate_record r st = (case rec_key (snd r) of
     None \<Rightarrow> st
   | Some key \<Rightarrow> (case parse_key key of
       None \<Rightarrow> st
     | Some (x, chunk_index) \<Rightarrow> (case rec_value (snd r) of
         None \<Rightarrow> st\<lparr>manifests := tbl_del x (manifests st), partials := tbl_del x (partials st)\<rparr>
       | Some v \<Rightarrow> (case decode v of
           Err _ \<Rightarrow> st
         | Ok fr \<Rightarrow> (case (fr, chunk_index) of
             (Whole k content, None) \<Rightarrow> st\<lparr>pending := pending st @ [(x, k, content)]\<rparr>
           | (Manifest k total_len count, None) \<Rightarrow>
               st\<lparr>manifests := tbl_put x (k, total_len, count) (manifests st),
                  partials := (case tbl_get (partials st) x of
                      None \<Rightarrow> tbl_put x (replicate (unat count) None) (partials st)
                    | Some _ \<Rightarrow> partials st)\<rparr>
           | (Chunk _ data, Some index) \<Rightarrow>
               st\<lparr>partials := tbl_put x
                    (put_chunk (unat index) data
                      (case tbl_get (partials st) x of None \<Rightarrow> [] | Some slot \<Rightarrow> slot))
                    (partials st)\<rparr>
           | _ \<Rightarrow> st)))))"

section \<open>Assembly, verification and the write\<close>

definition assemble :: "hydrate_state \<Rightarrow> (oid \<times> kind \<times> bytes) list" where
  "assemble st = List.map_filter (\<lambda>(x, k, total_len, count).
     case tbl_get (partials st) x of
       None \<Rightarrow> None
     | Some parts \<Rightarrow> (case reassemble total_len count parts of
         Ok content \<Rightarrow> Some (x, k, content) | Err _ \<Rightarrow> None)) (manifests st)"

record git_cache =
  loose :: "(oid, kind \<times> bytes) table"
  cursor :: int

record hydrated =
  written :: nat
  skipped :: nat
  hy_cursor :: int

text \<open>\<open>loose::write\<close> leaves an object that is already there alone.\<close>

definition loose_write :: "oid \<Rightarrow> kind \<Rightarrow> bytes \<Rightarrow> git_cache \<Rightarrow> bool \<times> git_cache" where
  "loose_write x k content c =
     (if tbl_get (loose c) x \<noteq> None then (False, c)
      else (True, c\<lparr>loose := tbl_put x (k, content) (loose c)\<rparr>))"

fun write_pending ::
    "(bytes \<Rightarrow> bytes) \<Rightarrow> (oid \<times> kind \<times> bytes) list \<Rightarrow> hydrated \<Rightarrow> git_cache \<Rightarrow> (hydrated, frame_error) result \<times> git_cache" where
  "write_pending sha1 [] res c = (Ok res, c)"
| "write_pending sha1 ((x, k, content) # ps) res c =
     (case frame_verify sha1 x k content of
        Err e \<Rightarrow> (Err e, c)
      | Ok _ \<Rightarrow>
          (case loose_write x k content c of
             (fresh, c1) \<Rightarrow> write_pending sha1 ps
               (if fresh then res\<lparr>written := written res + 1\<rparr> else res\<lparr>skipped := skipped res + 1\<rparr>) c1))"

datatype 'e hydrate_error = ReadingLog 'e | BadFrame frame_error

definition hydrate ::
    "nat \<Rightarrow> (bytes \<Rightarrow> bytes) \<Rightarrow> (int \<Rightarrow> (bytes topic_record fetch_result, 'e) result) \<Rightarrow> git_cache
      \<Rightarrow> ((hydrated, 'e hydrate_error) result \<times> git_cache) option" where
  "hydrate fuel sha1 fetch c =
     (case replay_to_end fuel fetch hydrate_record 0 hydrate_init (open_at (cursor c)) of
        None \<Rightarrow> None
      | Some (Err e, st, t) \<Rightarrow> Some (Err (ReadingLog e), c)
      | Some (Ok _, st, t) \<Rightarrow>
          (case write_pending sha1 (pending st @ assemble st) \<lparr>written = 0, skipped = 0, hy_cursor = 0\<rparr> c of
             (Err e, c1) \<Rightarrow> Some (Err (BadFrame e), c1)
           | (Ok res, c1) \<Rightarrow>
               Some (Ok (res\<lparr>hy_cursor := tl_offset t\<rparr>), c1\<lparr>cursor := tl_offset t\<rparr>)))"

section \<open>Writing objects\<close>

record git_object =
  ob_oid :: oid
  ob_kind :: kind
  ob_content :: bytes

definition BATCH :: nat where
  "BATCH = 64"

definition object_records :: "string \<Rightarrow> git_object \<Rightarrow> bytes pending_record list" where
  "object_records topic ob = map (\<lambda>(key, v). \<lparr>pr_topic = topic, pr_key = key, pr_value = Some v, pr_headers = []\<rparr>)
     (encode_object (ob_oid ob) (ob_kind ob) (ob_content ob))"

text \<open>The records of one batch: the first object that does not hash to its id fails it.\<close>

fun batch_records ::
    "(bytes \<Rightarrow> bytes) \<Rightarrow> string \<Rightarrow> git_object list \<Rightarrow> (bytes pending_record list, frame_error) result" where
  "batch_records sha1 topic [] = Ok []"
| "batch_records sha1 topic (ob # obs) =
     and_then (frame_verify sha1 (ob_oid ob) (ob_kind ob) (ob_content ob)) (\<lambda>_.
       and_then (batch_records sha1 topic obs) (\<lambda>rest. Ok (object_records topic ob @ rest)))"

datatype store_error = StoreWrite write_error | StoreFrame frame_error

text \<open>
  \<open>put_all\<close>, one transaction per batch. The environment of each transaction is given in turn;
  the last component is what reached the log.
\<close>

fun put_groups ::
    "(bytes \<Rightarrow> bytes) \<Rightarrow> string \<Rightarrow> txn_env list \<Rightarrow> git_object list list \<Rightarrow> nat \<Rightarrow> writer
      \<Rightarrow> ((nat, store_error) result \<times> writer \<times> bytes pending_record list) option" where
  "put_groups sha1 topic envs [] n w = Some (Ok n, w, [])"
| "put_groups sha1 topic [] (g # gs) n w = None"
| "put_groups sha1 topic (env # envs) (g # gs) n w =
     (case batch_records sha1 topic g of
        Err e \<Rightarrow> Some (Err (StoreFrame e), w, [])
      | Ok rs \<Rightarrow>
          (case transact env rs w of
             (Err e, w1, landed) \<Rightarrow> Some (Err (StoreWrite e), w1, landed)
           | (Ok _, w1, landed) \<Rightarrow>
               map_option (\<lambda>(r, w2, rest). (r, w2, landed @ rest))
                 (put_groups sha1 topic envs gs (n + length g) w1)))"

definition put_all ::
    "(bytes \<Rightarrow> bytes) \<Rightarrow> repo_id \<Rightarrow> txn_env list \<Rightarrow> git_object list \<Rightarrow> writer
      \<Rightarrow> ((nat, store_error) result \<times> writer \<times> bytes pending_record list) option" where
  "put_all sha1 repo envs objs w = put_groups sha1 (repo_objects repo) envs (chunks BATCH objs) 0 w"

section \<open>The fold rebuilds what was encoded\<close>

text \<open>
  Objects as git has them: the id is the hash of the content and 20 bytes long, the content is
  shorter than 2^53 bytes, and (no collision in the list) the id determines the object.
\<close>

definition object_ok :: "(bytes \<Rightarrow> bytes) \<Rightarrow> git_object \<Rightarrow> bool" where
  "object_ok sha1 ob \<longleftrightarrow> oid_wf (ob_oid ob) \<and> compute_oid sha1 (ob_kind ob) (ob_content ob) = ob_oid ob
     \<and> length (ob_content ob) < 2 ^ 53"

definition no_collision :: "git_object list \<Rightarrow> bool" where
  "no_collision objs \<longleftrightarrow> (\<forall>a\<in>set objs. \<forall>b\<in>set objs. ob_oid a = ob_oid b \<longrightarrow> a = b)"

definition object_log :: "git_object list \<Rightarrow> bytes topic_record list" where
  "object_log objs = concat (map (\<lambda>ob. map (\<lambda>(key, v). \<lparr>rec_key = Some key, rec_value = Some v\<rparr>)
     (encode_object (ob_oid ob) (ob_kind ob) (ob_content ob))) objs)"

abbreviation step_rec :: "string \<times> bytes \<Rightarrow> hydrate_state \<Rightarrow> hydrate_state" where
  "step_rec kv \<equiv> hydrate_record (0, \<lparr>rec_key = Some (fst kv), rec_value = Some (snd kv)\<rparr>)"

lemma hydrate_record_offset: "hydrate_record (o1, r) = hydrate_record (o2, r)"
  unfolding hydrate_record_def snd_conv by (rule refl)

lemma step_whole:
  "oid_wf x \<Longrightarrow> step_rec (object_key x, encode_whole k content) st = st\<lparr>pending := pending st @ [(x, k, content)]\<rparr>"
  using frame_round_trip_whole by (simp add: hydrate_record_def parse_object_key)

lemma step_manifest:
  "oid_wf x \<Longrightarrow> step_rec (object_key x, encode_manifest k n c) st =
     st\<lparr>manifests := tbl_put x (k, n, c) (manifests st),
        partials := (case tbl_get (partials st) x of
            None \<Rightarrow> tbl_put x (replicate (unat c) None) (partials st) | Some _ \<Rightarrow> partials st)\<rparr>"
  using frame_round_trip_manifest by (simp add: hydrate_record_def parse_object_key)

lemma step_chunk:
  "oid_wf x \<Longrightarrow> step_rec (chunk_key x i, encode_chunk k part) st =
     st\<lparr>partials := tbl_put x (put_chunk (unat i) part
        (case tbl_get (partials st) x of None \<Rightarrow> [] | Some slot \<Rightarrow> slot)) (partials st)\<rparr>"
  using frame_round_trip_chunk by (simp add: hydrate_record_def parse_chunk_key)

lemma fold_chunks:
  assumes x: "oid_wf x"
  shows "i + length ps < 2 ^ 32 \<Longrightarrow> tbl_get (partials st) x = Some slot \<Longrightarrow> length slot = i + length ps \<Longrightarrow>
    foldl (\<lambda>st kv. step_rec kv st) st (map (\<lambda>(i, part). (chunk_key x (of_nat i), encode_chunk k part)) (number_from i ps))
    = st\<lparr>partials := tbl_put x (take i slot @ map Some ps) (partials st)\<rparr>"
proof (induction ps arbitrary: i st slot)
  case Nil
  then show ?case by (simp add: tbl_put_same)
next
  case (Cons p ps)
  have i: "unat (of_nat i :: u32) = i" using Cons.prems(1) by (simp add: unat_of_nat take_bit_eq_mod)
  have put: "put_chunk i p slot = slot[i := Some p]" using Cons.prems(3) by (simp add: put_chunk_def)
  let ?st = "st\<lparr>partials := tbl_put x (slot[i := Some p]) (partials st)\<rparr>"
  have one: "step_rec (chunk_key x (of_nat i), encode_chunk k p) st = ?st"
    unfolding step_chunk [OF x] using Cons.prems(2) by (simp add: i put)
  have "take (Suc i) (slot[i := Some p]) = take i slot @ [Some p]"
    using Cons.prems(3) by (simp add: take_Suc_conv_app_nth)
  with Cons.IH [of "Suc i" ?st "slot[i := Some p]"] Cons.prems one show ?case
    by (simp add: tbl_put_put)
qed

definition find_chunked :: "git_object list \<Rightarrow> oid \<Rightarrow> git_object option" where
  "find_chunked objs x = find (\<lambda>ob. ob_oid ob = x \<and> is_chunked (ob_content ob)) objs"

definition triple :: "git_object \<Rightarrow> oid \<times> kind \<times> bytes" where
  "triple ob = (ob_oid ob, ob_kind ob, ob_content ob)"

definition manifest_of :: "git_object \<Rightarrow> kind \<times> u64 \<times> u32" where
  "manifest_of ob = (ob_kind ob, of_nat (length (ob_content ob)), of_nat (length (content_chunks (ob_content ob))))"

definition folded :: "git_object list \<Rightarrow> hydrate_state \<Rightarrow> bool" where
  "folded objs st \<longleftrightarrow> tbl_wf (manifests st) \<and> tbl_wf (partials st)
     \<and> set (pending st) = triple ` {ob \<in> set objs. \<not> is_chunked (ob_content ob)}
     \<and> (\<forall>x. tbl_get (manifests st) x = map_option manifest_of (find_chunked objs x))
     \<and> (\<forall>x. tbl_get (partials st) x = map_option (\<lambda>ob. map Some (content_chunks (ob_content ob))) (find_chunked objs x))"

lemma find_chunked_snoc:
  "find_chunked (objs @ [ob]) x = (case find_chunked objs x of Some o1 \<Rightarrow> Some o1
     | None \<Rightarrow> if ob_oid ob = x \<and> is_chunked (ob_content ob) then Some ob else None)"
  unfolding find_chunked_def by (induction objs) auto

lemma find_chunked_Some: "find_chunked objs x = Some ob \<Longrightarrow> ob \<in> set objs \<and> ob_oid ob = x \<and> is_chunked (ob_content ob)"
  by (auto simp: find_chunked_def find_Some_iff)

lemma find_chunked_None: "find_chunked objs x = None \<Longrightarrow> ob \<in> set objs \<Longrightarrow> is_chunked (ob_content ob) \<Longrightarrow> ob_oid ob \<noteq> x"
  by (auto simp: find_chunked_def find_None_iff)

lemma find_chunked_again:
  "no_collision (objs @ [ob]) \<Longrightarrow> find_chunked objs (ob_oid ob) = Some o1 \<Longrightarrow> o1 = ob"
  using find_chunked_Some [of objs "ob_oid ob" o1] by (auto simp: no_collision_def)

lemma folded_object:
  assumes "folded objs st" "object_ok sha1 ob" "no_collision (objs @ [ob])"
  shows "folded (objs @ [ob]) (foldl (\<lambda>st kv. step_rec kv st) st (encode_object (ob_oid ob) (ob_kind ob) (ob_content ob)))"
proof (cases "is_chunked (ob_content ob)")
  case False
  have x: "oid_wf (ob_oid ob)" and len: "length (ob_content ob) < 2 ^ 53" using assms(2) by (auto simp: object_ok_def)
  have "foldl (\<lambda>st kv. step_rec kv st) st (encode_object (ob_oid ob) (ob_kind ob) (ob_content ob))
      = st\<lparr>pending := pending st @ [triple ob]\<rparr>"
    unfolding encode_object_cases [OF len] using False step_whole [OF x] by (simp add: triple_def)
  moreover have "find_chunked (objs @ [ob]) y = find_chunked objs y" for y
    using False by (auto simp: find_chunked_snoc split: option.splits)
  ultimately show ?thesis using assms(1) False by (auto simp: folded_def)
next
  case True
  let ?x = "ob_oid ob" and ?ps = "content_chunks (ob_content ob)" and ?m = "manifest_of ob"
  have x: "oid_wf ?x" and len: "length (ob_content ob) < 2 ^ 53" using assms(2) by (auto simp: object_ok_def)
  have cnt: "unat (of_nat (length ?ps) :: u32) = length ?ps"
    using chunk_count_bound [OF len] by (simp add: unat_of_nat take_bit_eq_mod)
  define slot where "slot = (case tbl_get (partials st) ?x of None \<Rightarrow> replicate (length ?ps) None | Some s \<Rightarrow> s)"
  define st1 where "st1 = st\<lparr>manifests := tbl_put ?x ?m (manifests st), partials := tbl_put ?x slot (partials st)\<rparr>"
  have first: "step_rec (object_key ?x, encode_manifest (ob_kind ob) (of_nat (length (ob_content ob))) (of_nat (length ?ps))) st = st1"
    unfolding step_manifest [OF x] st1_def slot_def manifest_of_def
    by (cases "tbl_get (partials st) ?x") (simp_all add: cnt tbl_put_same)
  have slot_len: "length slot = length ?ps"
    using assms(1) find_chunked_again [OF assms(3)]
    by (auto simp: slot_def folded_def split: option.splits)
  have bound: "0 + length ?ps < 2 ^ 32" using chunk_count_bound [OF len] by simp
  have get1: "tbl_get (partials st1) ?x = Some slot" by (simp add: st1_def)
  have "foldl (\<lambda>st kv. step_rec kv st) st (encode_object ?x (ob_kind ob) (ob_content ob))
      = st1\<lparr>partials := tbl_put ?x (map Some ?ps) (partials st1)\<rparr>"
    unfolding encode_object_cases [OF len] using True first
      fold_chunks [OF x bound get1, of "ob_kind ob"] slot_len by simp
  moreover have "find_chunked (objs @ [ob]) y = (if y = ?x then Some ob else find_chunked objs y)" for y
    using True find_chunked_again [OF assms(3)] by (auto simp: find_chunked_snoc split: option.splits)
  ultimately show ?thesis using assms(1) True by (auto simp: folded_def st1_def tbl_put_put)
qed

lemma folded_log:
  assumes "list_all (object_ok sha1) objs" "no_collision objs"
  shows "folded objs (foldl (\<lambda>st r. hydrate_record (0, r) st) hydrate_init (object_log objs))"
  using assms
proof (induction objs rule: rev_induct)
  case Nil
  show ?case by (simp add: folded_def hydrate_init_def object_log_def find_chunked_def)
next
  case (snoc ob objs)
  then have IH: "folded objs (foldl (\<lambda>st r. hydrate_record (0, r) st) hydrate_init (object_log objs))"
    by (simp add: no_collision_def)
  have "object_log (objs @ [ob]) = object_log objs @ map (\<lambda>(key, v). \<lparr>rec_key = Some key, rec_value = Some v\<rparr>)
      (encode_object (ob_oid ob) (ob_kind ob) (ob_content ob))"
    by (simp add: object_log_def)
  moreover have "foldl (\<lambda>st r. hydrate_record (0, r) st) s (map (\<lambda>(key, v). \<lparr>rec_key = Some key, rec_value = Some v\<rparr>) kvs)
      = foldl (\<lambda>st kv. step_rec kv st) s kvs" for s kvs
    by (induction kvs arbitrary: s) auto
  moreover have "object_ok sha1 ob" using snoc.prems(1) by simp
  ultimately show ?case using folded_object [OF IH _ snoc.prems(2), of sha1] by simp
qed

lemma set_assemble:
  assumes "folded objs st" "list_all (object_ok sha1) objs"
  shows "set (pending st @ assemble st) = triple ` {ob \<in> set objs. \<not> is_chunked (ob_content ob)}
    \<union> triple ` {ob. \<exists>x. find_chunked objs x = Some ob}"
proof -
  have entry: "(x, m) \<in> set (manifests st) \<longleftrightarrow> (\<exists>ob. find_chunked objs x = Some ob \<and> m = manifest_of ob)" for x m
    using assms(1) by (auto simp: folded_def tbl_get_in)
  have part: "(case tbl_get (partials st) x of None \<Rightarrow> None | Some parts \<Rightarrow>
      (case reassemble (of_nat (length (ob_content ob))) (of_nat (length (content_chunks (ob_content ob)))) parts of
         Ok content \<Rightarrow> Some (x, ob_kind ob, content) | Err _ \<Rightarrow> None)) = Some (triple ob)"
    if "find_chunked objs x = Some ob" for x ob
  proof -
    have "ob \<in> set objs" "ob_oid ob = x" using find_chunked_Some [OF that] by auto
    then have "length (ob_content ob) < 2 ^ 53" using assms(2) by (auto simp: list_all_iff object_ok_def)
    from reassemble_chunks [OF this] show ?thesis
      using assms(1) that \<open>ob_oid ob = x\<close> by (simp add: folded_def triple_def)
  qed
  have "set (assemble st) = triple ` {ob. \<exists>x. find_chunked objs x = Some ob}"
  proof
    show "set (assemble st) \<subseteq> triple ` {ob. \<exists>x. find_chunked objs x = Some ob}"
    proof
      fix p assume "p \<in> set (assemble st)"
      then obtain x m where xm: "(x, m) \<in> set (manifests st)" and f: "(case m of (k, n, c) \<Rightarrow>
          case tbl_get (partials st) x of None \<Rightarrow> None | Some parts \<Rightarrow>
            (case reassemble n c parts of Ok content \<Rightarrow> Some (x, k, content) | Err _ \<Rightarrow> None)) = Some p"
        by (auto simp: assemble_def set_map_filter)
      then obtain ob where ob: "find_chunked objs x = Some ob" "m = manifest_of ob" using entry by blast
      with f part [OF ob(1)] have "p = triple ob" by (simp add: manifest_of_def)
      with ob show "p \<in> triple ` {ob. \<exists>x. find_chunked objs x = Some ob}" by blast
    qed
    show "triple ` {ob. \<exists>x. find_chunked objs x = Some ob} \<subseteq> set (assemble st)"
    proof
      fix p assume "p \<in> triple ` {ob. \<exists>x. find_chunked objs x = Some ob}"
      then obtain ob x where o1: "p = triple ob" "find_chunked objs x = Some ob" by auto
      then have "(x, manifest_of ob) \<in> set (manifests st)" using entry by blast
      with part [OF o1(2)] o1(1) show "p \<in> set (assemble st)"
        unfolding assemble_def set_map_filter by (force simp: manifest_of_def)
    qed
  qed
  then show ?thesis using assms(1) by (simp add: folded_def)
qed

section \<open>What ends up in the repository\<close>

lemma write_pending_verified:
  assumes "list_all (\<lambda>(x, k, content). compute_oid sha1 k content = x) ps"
  shows "\<exists>res' l. write_pending sha1 ps res c = (Ok res', c\<lparr>loose := l\<rparr>) \<and>
    written res' + skipped res' = written res + skipped res + length ps \<and>
    (\<forall>x. tbl_get l x = (case tbl_get (loose c) x of Some v \<Rightarrow> Some v | None \<Rightarrow> map_of ps x))"
  using assms
proof (induction ps arbitrary: res c)
  case Nil
  have "c = c\<lparr>loose := loose c\<rparr>" by simp
  then show ?case
    by (intro exI [of _ res] exI [of _ "loose c"]) (simp split: option.splits)
next
  case (Cons p ps)
  obtain x k content where p: "p = (x, k, content)" by (cases p) auto
  let ?c = "snd (loose_write x k content c)"
  let ?res = "if fst (loose_write x k content c)
    then res\<lparr>written := written res + 1\<rparr> else res\<lparr>skipped := skipped res + 1\<rparr>"
  have step: "write_pending sha1 (p # ps) res c = write_pending sha1 ps ?res ?c"
    using Cons.prems by (simp add: p frame_verify_def split: prod.splits)
  have ok: "list_all (\<lambda>(x, k, content). compute_oid sha1 k content = x) ps" using Cons.prems by simp
  obtain res' l where IH: "write_pending sha1 ps ?res ?c = (Ok res', ?c\<lparr>loose := l\<rparr>)"
    "written res' + skipped res' = written ?res + skipped ?res + length ps"
    "\<forall>y. tbl_get l y = (case tbl_get (loose ?c) y of Some v \<Rightarrow> Some v | None \<Rightarrow> map_of ps y)"
    using Cons.IH [OF ok, of ?res ?c] by blast
  have "?c\<lparr>loose := l\<rparr> = c\<lparr>loose := l\<rparr>" by (simp add: loose_write_def)
  moreover have "written ?res + skipped ?res = Suc (written res + skipped res)" by simp
  moreover have "tbl_get (loose ?c) y = (case tbl_get (loose c) y of Some v \<Rightarrow> Some v
      | None \<Rightarrow> if y = x then Some (k, content) else None)" for y
    by (auto simp: loose_write_def split: option.splits)
  ultimately show ?case unfolding step
    by (intro exI [of _ res'] exI [of _ l]) (use IH in \<open>auto simp: p split: option.splits\<close>)
qed

text \<open>No log, however damaged, puts an object into the repository that does not hash to its id.\<close>

lemma write_pending_safe:
  "tbl_get (loose (snd (write_pending sha1 ps res c))) x = Some (k, content) \<Longrightarrow>
     tbl_get (loose c) x = Some (k, content) \<or> compute_oid sha1 k content = x"
proof (induction sha1 ps res c rule: write_pending.induct)
  case (2 sha1 y l d ps res c)
  show ?case
  proof (cases "compute_oid sha1 l d = y")
    case True
    then have "tbl_get (loose (snd (loose_write y l d c))) x = Some (k, content) \<or> compute_oid sha1 k content = x"
      using 2 by (auto simp: frame_verify_def split: prod.splits if_splits)
    with True show ?thesis by (auto simp: loose_write_def split: if_splits)
  qed (use 2 in \<open>simp add: frame_verify_def Let_def\<close>)
qed simp

definition as_loose :: "git_object \<Rightarrow> kind \<times> bytes" where
  "as_loose ob = (ob_kind ob, ob_content ob)"

lemma map_of_triples:
  assumes "no_collision objs" "set ps = triple ` set objs"
  shows "map_of ps x = map_option as_loose (find (\<lambda>ob. ob_oid ob = x) objs)"
proof (cases "find (\<lambda>ob. ob_oid ob = x) objs")
  case None
  then have "x \<notin> fst ` set ps" using assms(2) by (auto simp: find_None_iff triple_def)
  with None show ?thesis by (simp add: map_of_eq_None_iff)
next
  case (Some ob)
  then have ob: "ob \<in> set objs" "ob_oid ob = x" by (auto simp: find_Some_iff)
  have "v = as_loose ob" if "(x, v) \<in> set ps" for v
  proof -
    from that assms(2) obtain o1 where "o1 \<in> set objs" "(x, v) = triple o1" by auto
    with ob assms(1) show ?thesis by (auto simp: no_collision_def triple_def as_loose_def)
  qed
  moreover have "(x, as_loose ob) \<in> set ps" using assms(2) ob by (auto simp: triple_def as_loose_def)
  ultimately show ?thesis using Some by (metis map_of_SomeD not_None_eq option.simps(9) weak_map_of_SomeI)
qed

lemma hydrate_recovers:
  assumes serves: "serves fetch slots" "n \<le> length slots" "length slots - n < fuel" "cursor c = int n"
    and log: "map snd (visible (int n) (drop n slots)) = object_log objs"
    and objs: "list_all (object_ok sha1) objs" "no_collision objs"
  shows "\<exists>res c'. hydrate fuel sha1 fetch c = Some (Ok res, c') \<and>
    hy_cursor res = int (length slots) \<and> cursor c' = int (length slots) \<and>
    (\<forall>x. tbl_get (loose c') x = (case tbl_get (loose c) x of Some v \<Rightarrow> Some v
       | None \<Rightarrow> map_option as_loose (find (\<lambda>ob. ob_oid ob = x) objs)))"
proof -
  let ?vs = "visible (int n) (drop n slots)"
  let ?st = "foldl (\<lambda>st r. hydrate_record r st) hydrate_init ?vs"
  have "tl_offset (open_at (cursor c)) = int n" by (simp add: open_at_def serves(4))
  from replay_to_end_visible [OF serves(1-3) this, of hydrate_record 0 hydrate_init]
  obtain t' where run: "replay_to_end fuel fetch hydrate_record 0 hydrate_init (open_at (cursor c)) =
      Some (Ok (length ?vs), ?st, t')" and t': "tl_offset t' = int (length slots)" by auto
  have "foldl (\<lambda>st r. hydrate_record r st) s vs = foldl (\<lambda>st r. hydrate_record (0, r) st) s (map snd vs)" for s vs
  proof (induction vs arbitrary: s)
    case (Cons v vs)
    have "hydrate_record v = hydrate_record (0, snd v)" by (metis hydrate_record_offset prod.collapse)
    then show ?case by (simp only: foldl_Cons list.map Cons.IH)
  qed simp
  then have "?st = foldl (\<lambda>st r. hydrate_record (0, r) st) hydrate_init (object_log objs)" by (simp add: log)
  with folded_log [OF objs] have st: "folded objs ?st" by simp
  let ?ps = "pending ?st @ assemble ?st"
  have "triple ` {ob. \<exists>x. find_chunked objs x = Some ob} = triple ` {ob \<in> set objs. is_chunked (ob_content ob)}"
  proof -
    have "find_chunked objs (ob_oid ob) = Some ob" if "ob \<in> set objs" "is_chunked (ob_content ob)" for ob
    proof (cases "find_chunked objs (ob_oid ob)")
      case None with find_chunked_None [OF None that] show ?thesis by simp
    next
      case (Some o1)
      with find_chunked_Some [OF Some] that objs(2) show ?thesis by (auto simp: no_collision_def)
    qed
    then show ?thesis using find_chunked_Some by blast
  qed
  with set_assemble [OF st objs(1)] have ps: "set ?ps = triple ` set objs" by auto
  then have "list_all (\<lambda>(x, k, content). compute_oid sha1 k content = x) ?ps"
    using objs(1) by (auto simp: list_all_iff object_ok_def triple_def)
  from write_pending_verified [OF this, of "\<lparr>written = 0, skipped = 0, hy_cursor = 0\<rparr>" c]
  obtain res' l where w: "write_pending sha1 ?ps \<lparr>written = 0, skipped = 0, hy_cursor = 0\<rparr> c = (Ok res', c\<lparr>loose := l\<rparr>)"
    and l: "\<forall>x. tbl_get l x = (case tbl_get (loose c) x of Some v \<Rightarrow> Some v | None \<Rightarrow> map_of ?ps x)"
    by blast
  note content = l [unfolded map_of_triples [OF objs(2) ps]]
  show ?thesis by (simp add: hydrate_def run w t') (rule content)
qed

section \<open>What a successful store has written\<close>

lemma map_logged_records: "map logged (object_records topic ob) =
    map (\<lambda>(key, v). \<lparr>rec_key = Some key, rec_value = Some v\<rparr>) (encode_object (ob_oid ob) (ob_kind ob) (ob_content ob))"
  by (simp add: object_records_def logged_def split_beta comp_def)

lemma object_records_not_Nil: "object_records topic ob \<noteq> []"
  by (simp add: object_records_def encode_object_def Let_def)

lemma batch_records_Ok:
  "batch_records sha1 topic obs = Ok rs \<Longrightarrow>
     rs = concat (map (object_records topic) obs) \<and>
     list_all (\<lambda>ob. compute_oid sha1 (ob_kind ob) (ob_content ob) = ob_oid ob) obs"
  by (induction obs arbitrary: rs)
     (auto simp: and_then_Ok_iff frame_verify_def Let_def split: if_splits)

lemma put_groups_Ok:
  "put_groups sha1 topic envs gs n w = Some (Ok m, w', landed) \<Longrightarrow> list_all broker_truthful envs \<Longrightarrow>
     landed = concat (map (object_records topic) (concat gs)) \<and> m = n + length (concat gs) \<and>
     list_all (\<lambda>ob. compute_oid sha1 (ob_kind ob) (ob_content ob) = ob_oid ob) (concat gs)"
proof (induction sha1 topic envs gs n w arbitrary: landed rule: put_groups.induct)
  case (3 sha1 topic env envs g gs n w)
  from 3(2) obtain rs where rs: "batch_records sha1 topic g = Ok rs" by (auto split: sum.splits)
  obtain answer w1 l1 where t: "transact env rs w = (answer, w1, l1)" by (metis prod_cases3)
  from 3(2) rs t obtain offs rest where a: "answer = Ok offs"
    and r: "put_groups sha1 topic envs gs (n + length g) w1 = Some (Ok m, w', rest)" and l: "landed = l1 @ rest"
    by (auto split: sum.splits)
  have "l1 = rs" using transact_landed(1) [OF t _ a] 3(3) by simp
  moreover have "list_all broker_truthful envs" using 3(3) by simp
  ultimately show ?case
    using 3(1) [OF rs t [symmetric] a refl r] 3(3) batch_records_Ok [OF rs] l by simp
qed auto

text \<open>Whatever happens to the batches, what landed is in the topic of the repository.\<close>

lemma put_groups_topic:
  "put_groups sha1 topic envs gs n w = Some (r, w', landed) \<Longrightarrow> list_all (\<lambda>p. pr_topic p = topic) landed"
proof (induction sha1 topic envs gs n w arbitrary: landed rule: put_groups.induct)
  case (3 sha1 topic env envs g gs n w)
  show ?case
  proof (cases "batch_records sha1 topic g")
    case (Inl e)
    then show ?thesis using 3(2) by auto
  next
    case (Inr rs)
    obtain answer w1 l1 where t: "transact env rs w = (answer, w1, l1)" by (metis prod_cases3)
    have "list_all (\<lambda>p. pr_topic p = topic) rs"
      using batch_records_Ok [OF Inr] by (auto simp: list_all_iff object_records_def)
    then have l1: "list_all (\<lambda>p. pr_topic p = topic) l1"
      using transact_all_or_nothing [OF t] by auto
    show ?thesis
    proof (cases answer)
      case (Inl e)
      then show ?thesis using 3(2) Inr t l1 by simp
    next
      case (Inr offs)
      then obtain rest where "put_groups sha1 topic envs gs (n + length g) w1 = Some (r, w', rest)" "landed = l1 @ rest"
        using 3(2) \<open>batch_records sha1 topic g = Ok rs\<close> t by auto
      with 3(1) [OF \<open>batch_records sha1 topic g = Ok rs\<close> t [symmetric] Inr refl] l1 show ?thesis by simp
    qed
  qed
qed auto

text \<open>Property C34: what is stored is what a clone gets. When \<open>put_all\<close> reports success, hydrating
  a cache from the topic its records landed in gives back, for every object and bit for bit,
  its kind and content, whether it was written whole or in chunks and however often it was
  written; objects the cache already had stay as they were, nothing else appears, and the
  cursor is at the end of the log.\<close>

theorem stored_objects_recovered:
  assumes "put_all sha1 repo envs objs w = Some (Ok m, w', landed)" and "list_all broker_truthful envs"
    and "list_all (\<lambda>ob. oid_wf (ob_oid ob) \<and> length (ob_content ob) < 2 ^ 53) objs" and "no_collision objs"
    and "serves fetch slots" and "n \<le> length slots" and "length slots - n < fuel" and "cursor c = int n"
    and "map snd (visible (int n) (drop n slots)) = map logged landed"
  shows "m = length objs \<and> (\<exists>res c'. hydrate fuel sha1 fetch c = Some (Ok res, c') \<and>
    cursor c' = int (length slots) \<and>
    (\<forall>x. tbl_get (loose c') x = (case tbl_get (loose c) x of Some v \<Rightarrow> Some v
       | None \<Rightarrow> map_option (\<lambda>ob. (ob_kind ob, ob_content ob)) (find (\<lambda>ob. ob_oid ob = x) objs))))"
proof -
  have all: "concat (chunks BATCH objs) = objs" by (rule concat_chunks) (simp add: BATCH_def)
  have put: "landed = concat (map (object_records (repo_objects repo)) objs)" "m = length objs"
    "list_all (\<lambda>ob. compute_oid sha1 (ob_kind ob) (ob_content ob) = ob_oid ob) objs"
    using put_groups_Ok [OF assms(1) [unfolded put_all_def] assms(2)] by (simp_all add: all)
  have "map snd (visible (int n) (drop n slots)) = object_log objs"
    by (simp add: assms(9) put(1) object_log_def map_concat map_logged_records comp_def)
  moreover have "list_all (object_ok sha1) objs" using put(3) assms(3) by (simp add: list_all_iff object_ok_def)
  moreover have "(\<lambda>ob. (ob_kind ob, ob_content ob)) = as_loose" by (simp add: fun_eq_iff as_loose_def)
  ultimately show ?thesis
    using hydrate_recovers [OF assms(5-8), of objs sha1] assms(4) put(2) by (simp only:) blast
qed

definition toy_hash :: "bytes \<Rightarrow> bytes" where
  "toy_hash bs = replicate 20 (foldl (+) 0 bs)"

theorem stored_objects_witness:
  "\<exists>res c'. hydrate 3 toy_hash (whole_log_fetch (map Visible (map logged (object_records (repo_objects ''r'')
      \<lparr>ob_oid = compute_oid toy_hash Blob [104, 105], ob_kind = Blob, ob_content = [104, 105]\<rparr>)) @ [Hidden]))
      \<lparr>loose = [], cursor = 0\<rparr> = Some (Ok res, c') \<and>
    tbl_get (loose c') (compute_oid toy_hash Blob [104, 105]) = Some (Blob, [104, 105])"
proof -
  let ?ob = "\<lparr>ob_oid = compute_oid toy_hash Blob [104, 105], ob_kind = Blob, ob_content = [104, 105]\<rparr>"
  let ?env = "\<lparr>env_begin = None, env_acks = [Some (Ok 0)], env_commit = None, env_landed = True\<rparr>"
  let ?w = "\<lparr>fenced = False, aborted_process = False\<rparr>"
  let ?slots = "map Visible (map logged (object_records (repo_objects ''r'') ?ob)) @ [Hidden]"
  have rec: "object_records (repo_objects ''r'') ?ob = [\<lparr>pr_topic = repo_objects ''r'',
      pr_key = object_key (ob_oid ?ob), pr_value = Some (encode_whole Blob [104, 105]), pr_headers = []\<rparr>]"
    by (simp add: object_records_def encode_object_cases is_chunked_def unat_object_chunk)
  have put: "put_all toy_hash ''r'' [?env] [?ob] ?w = Some (Ok 1, ?w, object_records (repo_objects ''r'') ?ob)"
    by (simp add: put_all_def BATCH_def chunks.simps frame_verify_def rec transact_def)
  have truth: "list_all broker_truthful [?env]" by (simp add: broker_truthful_def)
  have ok: "list_all (\<lambda>ob. oid_wf (ob_oid ob) \<and> length (ob_content ob) < 2 ^ 53) [?ob]"
    by (simp add: oid_wf_def compute_oid_def toy_hash_def)
  have nc: "no_collision [?ob]" by (simp add: no_collision_def)
  have log: "map snd (visible (int 0) (drop 0 ?slots)) = map logged (object_records (repo_objects ''r'') ?ob)"
    by (simp add: rec visible_def List.map_filter_def)
  have fuel: "length ?slots - 0 < 3" "0 \<le> length ?slots" by (simp_all add: rec)
  from stored_objects_recovered [OF put truth ok nc whole_log_serves fuel(2,1) _ log, of "\<lparr>loose = [], cursor = 0\<rparr>"]
  show ?thesis by auto
qed

lemma hydrate_loose:
  assumes "hydrate fuel sha1 fetch c = Some (answer, c')" "tbl_get (loose c') x = Some (k, content)"
  shows "tbl_get (loose c) x = Some (k, content) \<or> compute_oid sha1 k content = x"
proof -
  obtain r st t where run: "replay_to_end fuel fetch hydrate_record 0 hydrate_init (open_at (cursor c)) = Some (r, st, t)"
    using assms(1) by (auto simp: hydrate_def split: option.splits)
  let ?w = "write_pending sha1 (pending st @ assemble st) \<lparr>written = 0, skipped = 0, hy_cursor = 0\<rparr> c"
  have "loose c' = loose (snd ?w) \<or> c' = c"
    using assms(1) run by (cases r; cases "fst ?w"; cases ?w; auto simp: hydrate_def)
  with assms(2) write_pending_safe [of sha1 _ _ c x k content] show ?thesis by auto
qed

text \<open>Property C35: no log can poison the repository. Whatever the broker returns and however the
  hydration ends, every object in the cache afterwards was there before or hashes to the id it
  is stored under; an unreadable log leaves the cache and its cursor alone.\<close>

theorem hydrate_never_poisons:
  assumes "hydrate fuel sha1 fetch c = Some (answer, c')"
  shows "(tbl_get (loose c') x = Some (k, content) \<longrightarrow>
      tbl_get (loose c) x = Some (k, content) \<or> compute_oid sha1 k content = x) \<and>
    (case answer of Err (ReadingLog e) \<Rightarrow> c' = c | Err (BadFrame e) \<Rightarrow> cursor c' = cursor c
      | Ok res \<Rightarrow> cursor c' = hy_cursor res)"
proof -
  have keep: "cursor (snd (write_pending sha1 ps res c)) = cursor c" for ps res and c :: git_cache
  proof (induction ps arbitrary: res c)
    case (Cons p ps)
    then show ?case by (cases p) (auto simp: loose_write_def split: sum.splits if_splits)
  qed simp
  obtain r st t where run: "replay_to_end fuel fetch hydrate_record 0 hydrate_init (open_at (cursor c)) = Some (r, st, t)"
    using assms by (auto simp: hydrate_def split: option.splits)
  let ?w = "write_pending sha1 (pending st @ assemble st) \<lparr>written = 0, skipped = 0, hy_cursor = 0\<rparr> c"
  have cur: "case answer of Err (ReadingLog e) \<Rightarrow> c' = c | Err (BadFrame e) \<Rightarrow> cursor c' = cursor (snd ?w)
      | Ok res \<Rightarrow> cursor c' = hy_cursor res"
    using assms run by (cases r; cases "fst ?w"; cases ?w; auto simp: hydrate_def)+
  show ?thesis
    using cur keep [of _ _ c] hydrate_loose [OF assms, of x k content]
    by (auto split: sum.splits hydrate_error.splits)
qed

theorem hydrate_never_poisons_witness:
  "\<exists>answer c'. hydrate 2 toy_hash (whole_log_fetch [Visible \<lparr>rec_key = Some (object_key oid_zero), rec_value = Some (encode_whole Blob [1])\<rparr>])
      \<lparr>loose = [], cursor = 0\<rparr> = Some (answer, c') \<and>
    (tbl_get (loose c') oid_zero = Some (Blob, [1]) \<longrightarrow> compute_oid toy_hash Blob [1] = oid_zero)"
proof -
  let ?f = "whole_log_fetch [Visible \<lparr>rec_key = Some (object_key oid_zero), rec_value = Some (encode_whole Blob [1])\<rparr>]"
  have "\<exists>answer c'. hydrate 2 toy_hash ?f \<lparr>loose = [], cursor = 0\<rparr> = Some (answer, c')"
    by (simp add: hydrate_def whole_log_fetch_def open_at_def next_batch_def numeral_2_eq_2 visible_def
        mark_applied_def split: prod.splits sum.splits)
  then obtain answer c' where h: "hydrate 2 toy_hash ?f \<lparr>loose = [], cursor = 0\<rparr> = Some (answer, c')" by blast
  with hydrate_never_poisons [OF h, of oid_zero Blob "[1]"] show ?thesis by auto
qed

end
