(* ===== verification/Command_State.thy ===== *)
theory Command_State
  imports Forge_Bus Names
begin

text \<open>
  What the command service decides against: the uniqueness catalog (\<open>catalog.rs\<close>) and the
  reference map (\<open>refs.rs\<close>) of \<open>forge-command\<close>. Both are folded from a compacted topic, so both
  interpret the locale \<open>topic_fold\<close>. JSON is serde's: the encoders and decoders are the fields of
  \<open>codec\<close>, and \<open>codec_ok\<close> is the round trip that serde documents.
\<close>

section \<open>The catalog\<close>

datatype claim = UserClaim user_id | RepoClaim repo_id | IssueCounter int

record 'j codec =
  enc_claim :: "claim \<Rightarrow> 'j"
  dec_claim :: "'j \<Rightarrow> claim option"
  enc_ref :: "oid \<Rightarrow> 'j"
  dec_ref :: "'j \<Rightarrow> oid option"
  enc_user :: "user_event envelope \<Rightarrow> 'j"
  dec_user :: "'j \<Rightarrow> user_event envelope option"
  enc_repo :: "repo_event envelope \<Rightarrow> 'j"
  dec_repo :: "'j \<Rightarrow> repo_event envelope option"
  enc_issue :: "issue_event envelope \<Rightarrow> 'j"
  dec_issue :: "'j \<Rightarrow> issue_event envelope option"
  enc_pr :: "pr_event envelope \<Rightarrow> 'j"
  dec_pr :: "'j \<Rightarrow> pr_event envelope option"
  enc_git :: "git_ref_event envelope \<Rightarrow> 'j"
  dec_git :: "'j \<Rightarrow> git_ref_event envelope option"
  fmt_time :: "int \<Rightarrow> string option"

definition codec_ok :: "'j codec \<Rightarrow> bool" where
  "codec_ok cd \<longleftrightarrow> (\<forall>c. dec_claim cd (enc_claim cd c) = Some c) \<and> (\<forall>x. dec_ref cd (enc_ref cd x) = Some x)
     \<and> (\<forall>e. dec_user cd (enc_user cd e) = Some e) \<and> (\<forall>e. dec_repo cd (enc_repo cd e) = Some e)
     \<and> (\<forall>e. dec_issue cd (enc_issue cd e) = Some e) \<and> (\<forall>e. dec_pr cd (enc_pr cd e) = Some e)
     \<and> (\<forall>e. dec_git cd (enc_git cd e) = Some e)"

lemma codec_simps:
  assumes "codec_ok cd"
  shows "dec_claim cd (enc_claim cd c) = Some c" "dec_ref cd (enc_ref cd x) = Some x"
    "dec_user cd (enc_user cd ue) = Some ue" "dec_repo cd (enc_repo cd re) = Some re"
    "dec_issue cd (enc_issue cd ie) = Some ie" "dec_pr cd (enc_pr cd pe) = Some pe"
    "dec_git cd (enc_git cd ge) = Some ge"
  using assms by (simp_all add: codec_ok_def)

definition user_key :: "string \<Rightarrow> string" where
  "user_key username_lower = ''user:'' @ username_lower"

definition repo_key :: "string \<Rightarrow> string" where
  "repo_key full_name = ''repo:'' @ full_name"

definition issue_counter_key :: "repo_id \<Rightarrow> string" where
  "issue_counter_key repo = ''issuenum:'' @ repo"

type_synonym catalog = "(string, claim) table"

definition catalog_apply :: "'j codec \<Rightarrow> catalog \<Rightarrow> string \<Rightarrow> 'j option \<Rightarrow> catalog" where
  "catalog_apply cd cat key v = (case v of
     Some j \<Rightarrow> (case dec_claim cd j of Some c \<Rightarrow> tbl_put key c cat | None \<Rightarrow> cat)
   | None \<Rightarrow> tbl_del key cat)"

definition is_claimed :: "catalog \<Rightarrow> string \<Rightarrow> bool" where
  "is_claimed cat key \<longleftrightarrow> tbl_get cat key \<noteq> None"

definition is_username_taken :: "catalog \<Rightarrow> string \<Rightarrow> bool" where
  "is_username_taken cat username_lower \<longleftrightarrow> is_claimed cat (user_key username_lower)"

definition is_repo_name_taken :: "catalog \<Rightarrow> string \<Rightarrow> bool" where
  "is_repo_name_taken cat full_name \<longleftrightarrow> is_claimed cat (repo_key full_name)"

definition next_issue_number :: "catalog \<Rightarrow> repo_id \<Rightarrow> int" where
  "next_issue_number cat repo = (case tbl_get cat (issue_counter_key repo) of
     Some (IssueCounter n) \<Rightarrow> n | _ \<Rightarrow> 1)"

lemma catalog_keys:
  "user_key a = user_key b \<longleftrightarrow> a = b" "repo_key a = repo_key b \<longleftrightarrow> a = b"
  "issue_counter_key a = issue_counter_key b \<longleftrightarrow> a = b"
  "user_key a \<noteq> repo_key b" "user_key a \<noteq> issue_counter_key b" "repo_key a \<noteq> issue_counter_key b"
  "repo_key b \<noteq> user_key a" "issue_counter_key b \<noteq> user_key a" "issue_counter_key b \<noteq> repo_key a"
  by (auto simp: user_key_def repo_key_def issue_counter_key_def)

interpretation cat: topic_fold "catalog_apply cd" tbl_get "dec_claim cd" tbl_wf "[]" for cd
  by unfold_locales (auto simp: catalog_apply_def split: option.splits)

section \<open>The reference map\<close>

definition ref_key :: "repo_id \<Rightarrow> string \<Rightarrow> string" where
  "ref_key repo name = repo @ ''/'' @ name"

record ref_update =
  ru_name :: string
  expected_old :: "oid option"
  ru_new :: "oid option"

datatype ref_rejection = Stale "oid option" "oid option" | DeletingMissing | BadName

record ref_result =
  rr_name :: string
  outcome :: "(unit, ref_rejection) result"

type_synonym ref_map = "(string, oid) table"

definition refs_apply :: "'j codec \<Rightarrow> ref_map \<Rightarrow> string \<Rightarrow> 'j option \<Rightarrow> ref_map" where
  "refs_apply cd refs key v = (case v of
     Some j \<Rightarrow> (case dec_ref cd j of Some x \<Rightarrow> tbl_put key x refs | None \<Rightarrow> refs)
   | None \<Rightarrow> tbl_del key refs)"

definition refs_get :: "ref_map \<Rightarrow> repo_id \<Rightarrow> string \<Rightarrow> oid option" where
  "refs_get refs repo name = tbl_get refs (ref_key repo name)"

definition for_repo :: "ref_map \<Rightarrow> repo_id \<Rightarrow> (string \<times> oid) list" where
  "for_repo refs repo = sort (List.map_filter
     (\<lambda>(key, x). map_option (\<lambda>name. (name, x)) (strip_prefix (repo @ ''/'') key)) refs)"

definition bad_ref_chars :: string where
  "bad_ref_chars = '' ~^:?*['' @ [CHR 0x5C, CHR 0x7F]"

definition is_valid_ref_name :: "string \<Rightarrow> bool" where
  "is_valid_ref_name name \<longleftrightarrow>
     (if \<not> starts_with ''refs/'' name \<or> length name > 255 then False
      else if contains_str ''..'' name \<or> contains_str ''//'' name \<or> ends_with ''/'' name
        \<or> ends_with ''.lock'' name then False
      else list_all (\<lambda>c. \<not> is_control c \<and> c \<notin> set bad_ref_chars) name)"

definition ref_check :: "ref_map \<Rightarrow> repo_id \<Rightarrow> ref_update \<Rightarrow> (unit, ref_rejection) result" where
  "ref_check refs repo u =
     (if \<not> is_valid_ref_name (ru_name u) then Err BadName
      else let actual = refs_get refs repo (ru_name u) in
        if actual \<noteq> expected_old u then Err (Stale (expected_old u) actual)
        else if ru_new u = None \<and> actual = None then Err DeletingMissing
        else Ok ())"

definition ref_set :: "ref_map \<Rightarrow> repo_id \<Rightarrow> string \<Rightarrow> oid option \<Rightarrow> ref_map" where
  "ref_set refs repo name target =
     (let key = ref_key repo name in
      case target of Some x \<Rightarrow> tbl_put key x refs | None \<Rightarrow> tbl_del key refs)"

interpretation refm: topic_fold "refs_apply cd" tbl_get "dec_ref cd" tbl_wf "[]" for cd
  by unfold_locales (auto simp: refs_apply_def split: option.splits)

lemma ref_check_Ok_iff:
  "ref_check refs repo u = Ok () \<longleftrightarrow> is_valid_ref_name (ru_name u) \<and>
     refs_get refs repo (ru_name u) = expected_old u \<and> (ru_new u \<noteq> None \<or> expected_old u \<noteq> None)"
  by (auto simp: ref_check_def Let_def)

lemma refs_get_set:
  "refs_get (ref_set refs repo name target) r n =
     (if ref_key r n = ref_key repo name then target else refs_get refs r n)"
  by (simp add: refs_get_def ref_set_def Let_def split: option.splits)

lemma ref_key_inject_repo: "ref_key repo a = ref_key repo b \<longleftrightarrow> a = b"
  by (simp add: ref_key_def)

lemma ref_key_inject:
  "uuid_text r \<Longrightarrow> uuid_text s \<Longrightarrow> ref_key r a = ref_key s b \<longleftrightarrow> r = s \<and> a = b"
  by (auto simp: ref_key_def uuid_text_def append_eq_append_conv)

definition compaction_codec :: "claim codec" where
  "compaction_codec = \<lparr>enc_claim = id, dec_claim = Some, enc_ref = (\<lambda>_. IssueCounter 0), dec_ref = (\<lambda>_. None),
     enc_user = (\<lambda>_. IssueCounter 0), dec_user = (\<lambda>_. None), enc_repo = (\<lambda>_. IssueCounter 0), dec_repo = (\<lambda>_. None),
     enc_issue = (\<lambda>_. IssueCounter 0), dec_issue = (\<lambda>_. None), enc_pr = (\<lambda>_. IssueCounter 0), dec_pr = (\<lambda>_. None),
     enc_git = (\<lambda>_. IssueCounter 0), dec_git = (\<lambda>_. None), fmt_time = (\<lambda>_. None)\<rparr>"

text \<open>Property C39: a state rebuilt from a compacted topic is the state that wrote it. Compaction
  may drop any record that a later one of the same key supersedes. If every record of both topics can
  be decoded, then as long as the latest record of every key is kept, replaying what is left gives the
  same catalog and the same references as replaying everything, key by key. (A record that cannot be
  decoded is passed over, so an older value would come back for its key, but only where it was not
  compacted away.)\<close>

theorem compaction_invisible:
  assumes "readable (dec_claim cd) claims" "readable (dec_claim cd) claims'" "same_latest claims claims'"
    and "readable (dec_ref cd) refs" "readable (dec_ref cd) refs'" "same_latest refs refs'"
  shows "tbl_get (replay (catalog_apply cd) [] claims) key = tbl_get (replay (catalog_apply cd) [] claims') key \<and>
    refs_get (replay (refs_apply cd) [] refs) repo name = refs_get (replay (refs_apply cd) [] refs') repo name"
  using cat.replay_compacted [OF assms(1-3)] refm.replay_compacted [OF assms(4-6)]
  by (simp add: refs_get_def)

theorem compaction_witness:
  "tbl_get (replay (catalog_apply compaction_codec) [] [\<lparr>rec_key = Some ''user:a'', rec_value = Some (IssueCounter 1)\<rparr>,
      \<lparr>rec_key = Some ''user:a'', rec_value = Some (IssueCounter 2)\<rparr>]) ''user:a'' =
   tbl_get (replay (catalog_apply compaction_codec) [] [\<lparr>rec_key = Some ''user:a'', rec_value = Some (IssueCounter 2)\<rparr>]) ''user:a''"
proof -
  let ?r = "\<lambda>n. \<lparr>rec_key = Some ''user:a'', rec_value = Some (IssueCounter n)\<rparr>"
  have r: "readable (dec_claim compaction_codec) [?r 1, ?r 2]" "readable (dec_claim compaction_codec) [?r 2]"
    by (simp_all add: readable_def compaction_codec_def)
  have l: "same_latest [?r 1, ?r 2] [?r 2]" by (simp add: same_latest_def latest_def key_text_def)
  have e: "readable (dec_ref compaction_codec) ([] :: claim topic_record list)" "same_latest ([] :: claim topic_record list) []"
    by (simp_all add: same_latest_def)
  from compaction_invisible [OF r l e(1) e] show ?thesis by blast
qed

text \<open>What the git endpoints advertise is the reference map. The list of a
  repository's references is sorted, names every reference once with its current value, and
  names no other.\<close>

theorem for_repo_exact:
  assumes "tbl_wf refs"
  shows "sorted (for_repo refs repo) \<and> distinct (map fst (for_repo refs repo)) \<and>
    ((name, x) \<in> set (for_repo refs repo) \<longleftrightarrow> refs_get refs repo name = Some x)"
proof (intro conjI)
  let ?f = "\<lambda>(key, x). map_option (\<lambda>name. (name, x)) (strip_prefix (repo @ ''/'') key)"
  let ?l = "List.map_filter ?f refs"
  have mem: "(n, y) \<in> set ?l \<longleftrightarrow> refs_get refs repo n = Some y" for n y
  proof -
    have "(n, y) \<in> set ?l \<longleftrightarrow> (ref_key repo n, y) \<in> set refs"
      by (force simp: set_map_filter ref_key_def)
    then show ?thesis using assms by (simp add: refs_get_def tbl_get_in)
  qed
  then show "(name, x) \<in> set (for_repo refs repo) \<longleftrightarrow> refs_get refs repo name = Some x"
    by (simp add: for_repo_def)
  show "sorted (for_repo refs repo)" by (simp add: for_repo_def)
  have "distinct (map fst (List.map_filter ?f rs))" if "distinct (map fst rs)" for rs :: ref_map
    using that by (induction rs) (force simp: set_map_filter split: option.splits)+
  then have d: "distinct (map fst ?l)" using assms by (simp add: tbl_wf_def)
  then have "distinct ?l" "inj_on fst (set ?l)" by (simp_all add: distinct_map)
  then show "distinct (map fst (for_repo refs repo))" by (simp add: for_repo_def distinct_map)
qed

theorem for_repo_witness:
  "map fst (for_repo [(''r/refs/heads/b'', oid_zero), (''q/refs/heads/x'', oid_zero), (''r/refs/heads/a'', oid_zero)] ''r'')
     = [''refs/heads/a'', ''refs/heads/b''] \<and>
   (''refs/heads/a'', oid_zero) \<in> set (for_repo [(''r/refs/heads/b'', oid_zero), (''q/refs/heads/x'', oid_zero), (''r/refs/heads/a'', oid_zero)] ''r'')"
proof -
  let ?t = "[(''r/refs/heads/b'', oid_zero), (''q/refs/heads/x'', oid_zero), (''r/refs/heads/a'', oid_zero)]"
  have wf: "tbl_wf ?t" by (simp add: tbl_wf_def)
  have get: "refs_get ?t ''r'' ''refs/heads/a'' = Some oid_zero" by (simp add: refs_get_def tbl_get_def ref_key_def)
  have "map fst (for_repo ?t ''r'') = [''refs/heads/a'', ''refs/heads/b'']" by code_simp
  with for_repo_exact [OF wf, of "''r''" "''refs/heads/a''" oid_zero] get show ?thesis by blast
qed

section \<open>Reference names stay inside their tree\<close>

lemma split_by_later:
  "p \<in> set (tl (split_by P s)) \<Longrightarrow>
     \<exists>a b. s = a @ p @ b \<and> a \<noteq> [] \<and> P (last a) \<and> (b = [] \<or> P (hd b))"
proof (induction P s arbitrary: p rule: split_by.induct)
  case (2 P c cs)
  show ?case
  proof (cases "P c")
    case True
    with "2.prems" have "p \<in> set (split_by P cs)" by simp
    then consider "p = hd (split_by P cs)" | "p \<in> set (tl (split_by P cs))"
      by (metis list.exhaust_sel set_ConsD split_by_not_Nil)
    then show ?thesis
    proof cases
      case 1
      let ?r = "dropWhile (\<lambda>c. \<not> P c) cs"
      have "c # cs = [c] @ p @ ?r" using 1 by (simp add: hd_split_by)
      moreover have "?r = [] \<or> P (hd ?r)" using hd_dropWhile [of "\<lambda>c. \<not> P c" cs] by blast
      ultimately show ?thesis using True by (metis last.simps not_Cons_self2)
    next
      case 2
      with "2.IH"(1) [OF True] obtain a b where "cs = a @ p @ b" "a \<noteq> []" "P (last a)" "b = [] \<or> P (hd b)" by blast
      then show ?thesis by (intro exI [of _ "c # a"] exI [of _ b]) simp
    qed
  next
    case False
    with "2.prems" have "p \<in> set (tl (split_by P cs))" by simp
    from "2.IH"(2) [OF False this] obtain a b
      where "cs = a @ p @ b" "a \<noteq> []" "P (last a)" "b = [] \<or> P (hd b)" by blast
    then show ?thesis by (intro exI [of _ "c # a"] exI [of _ b]) simp
  qed
qed simp

text \<open>An accepted reference name cannot leave its tree. It lies under \<open>refs/\<close>, has
  at most 255 bytes, and none of its path components is empty or \<open>..\<close>; it holds no control
  character, space or glob. It is not a subset of what git accepts, though: a component may be
  a single dot or start with one, which git refuses.\<close>

theorem valid_ref_names_are_safe:
  assumes "is_valid_ref_name name"
  shows "starts_with ''refs/'' name \<and> length name \<le> 255 \<and>
    list_all (\<lambda>p. p \<noteq> [] \<and> p \<noteq> ''..'') (split_by (\<lambda>c. c = CHR ''/'') name) \<and>
    list_all (\<lambda>c. \<not> is_control c \<and> c \<notin> set '' ~^:?*['') name \<and>
    is_valid_ref_name ''refs/heads/.'' \<and> is_valid_ref_name ''refs/heads/.a''"
proof -
  let ?P = "\<lambda>c. c = CHR ''/''"
  have v: "starts_with ''refs/'' name" "length name \<le> 255" "\<not> contains_str ''..'' name"
    "\<not> contains_str ''//'' name" "\<not> ends_with ''/'' name"
    "list_all (\<lambda>c. \<not> is_control c \<and> c \<notin> set bad_ref_chars) name"
    using assms by (auto simp: is_valid_ref_name_def split: if_splits)
  have "p \<noteq> [] \<and> p \<noteq> ''..''" if p: "p \<in> set (split_by ?P name)" for p
  proof -
    have "p \<noteq> ''..''" 
    proof
      assume "p = ''..''"
      moreover have "hd (split_by ?P name) = ''refs''"
        using v(1) by (auto simp: hd_split_by starts_with_iff)
      ultimately have "p \<in> set (tl (split_by ?P name))"
        using p by (cases "split_by ?P name") auto
      from split_by_later [OF this] show False using v(3) \<open>p = ''..''\<close> by (auto simp: contains_str_iff)
    qed
    moreover have "p \<noteq> []"
    proof
      assume e: "p = []"
      have "hd (split_by ?P name) = ''refs''" using v(1) by (auto simp: hd_split_by starts_with_iff)
      then have "p \<in> set (tl (split_by ?P name))"
        using p e by (cases "split_by ?P name") auto
      from split_by_later [OF this] e obtain a b
        where ab: "name = a @ b" "a \<noteq> []" "last a = CHR ''/''" "b = [] \<or> hd b = CHR ''/''" by auto
      then obtain a' where a: "a = a' @ ''/''" by (metis append_butlast_last_id)
      show False
      proof (cases b)
        case Nil
        with ab a v(5) show False by (simp add: ends_with_iff)
      next
        case (Cons d ds)
        with ab a have "name = a' @ ''//'' @ ds" by simp
        with v(4) show False unfolding contains_str_iff by blast
      qed
    qed
    ultimately show ?thesis by blast
  qed
  then have "list_all (\<lambda>p. p \<noteq> [] \<and> p \<noteq> ''..'') (split_by ?P name)" by (simp add: list_all_iff)
  moreover have "list_all (\<lambda>c. \<not> is_control c \<and> c \<notin> set '' ~^:?*['') name"
    using v(6) by (auto simp: list_all_iff bad_ref_chars_def)
  moreover have "is_valid_ref_name ''refs/heads/.''" "is_valid_ref_name ''refs/heads/.a''"
    by code_simp+
  ultimately show ?thesis using v(1,2) by blast
qed

theorem valid_ref_names_witness:
  "is_valid_ref_name ''refs/heads/main'' \<and>
   list_all (\<lambda>p. p \<noteq> [] \<and> p \<noteq> ''..'') (split_by (\<lambda>c. c = CHR ''/'') ''refs/heads/main'')"
proof -
  have "is_valid_ref_name ''refs/heads/main''" by code_simp
  with valid_ref_names_are_safe [OF this] show ?thesis by blast
qed

section \<open>A concrete codec\<close>

text \<open>An instance of the parameters, which shows that what is assumed of them can hold.\<close>

datatype wire = WClaim claim | WRef oid | WUser "user_event envelope" | WRepo "repo_event envelope"
  | WIssue "issue_event envelope" | WPr "pr_event envelope" | WGit "git_ref_event envelope"

definition wire_codec :: "wire codec" where
  "wire_codec =
     \<lparr>enc_claim = WClaim, dec_claim = (\<lambda>w. case w of WClaim c \<Rightarrow> Some c | _ \<Rightarrow> None),
      enc_ref = WRef, dec_ref = (\<lambda>w. case w of WRef x \<Rightarrow> Some x | _ \<Rightarrow> None),
      enc_user = WUser, dec_user = (\<lambda>w. case w of WUser e \<Rightarrow> Some e | _ \<Rightarrow> None),
      enc_repo = WRepo, dec_repo = (\<lambda>w. case w of WRepo e \<Rightarrow> Some e | _ \<Rightarrow> None),
      enc_issue = WIssue, dec_issue = (\<lambda>w. case w of WIssue e \<Rightarrow> Some e | _ \<Rightarrow> None),
      enc_pr = WPr, dec_pr = (\<lambda>w. case w of WPr e \<Rightarrow> Some e | _ \<Rightarrow> None),
      enc_git = WGit, dec_git = (\<lambda>w. case w of WGit e \<Rightarrow> Some e | _ \<Rightarrow> None),
      fmt_time = (\<lambda>_. Some ''now'')\<rparr>"

lemma wire_codec_ok: "codec_ok wire_codec"
  by (simp add: codec_ok_def wire_codec_def)

end
