(* ===== verification/Command_Service.thy ===== *)
theory Command_Service
  imports Command_State Topic_Manifest
begin

text \<open>
  The command service, \<open>forge-command/src/lib.rs\<close> and \<open>pulls.rs\<close>: every command as a function of
  the service's state and of what is outside it (the ids and clock readings it is given, the
  outcome of its transaction, the answer of the admin client). A command answers, leaves a new
  state, and says which records reached the log. The state's mutex makes a command one step;
  the commands that take no lock do not touch the state.
\<close>

section \<open>State, environment and errors\<close>

record cmd_env =
  fresh_id :: string
  event_meta :: "nat \<Rightarrow> string \<times> int"
  txn :: txn_env
  create_topics :: "topic_spec list \<Rightarrow> (create_outcome list, string) result"

record service =
  sv_writer :: writer
  sv_catalog :: catalog
  sv_refs :: ref_map
  sv_replicas :: int

datatype command_error =
    UsernameTaken
  | RepoExists
  | InvalidName invalid_name
  | UnknownUser
  | UnknownIssue
  | EmptyField string
  | FieldTooLong string nat
  | BadRequest string
  | StaleMerge string "string option"
  | TopicFailed topic_error
  | WriteFailed write_error
  | ReplayFailed string

type_synonym ('a, 'j) answer = "('a, command_error) result \<times> service \<times> 'j pending_record list"

definition MAX_TITLE :: nat where "MAX_TITLE = 255"
definition MAX_BODY :: nat where "MAX_BODY = 64 * 1024"

definition validated :: "string \<Rightarrow> string \<Rightarrow> nat \<Rightarrow> (string, command_error) result" where
  "validated t field max_chars =
     (let trimmed = trim t in
      if trimmed = [] then Err (EmptyField field)
      else if chars_count trimmed > max_chars then Err (FieldTooLong field max_chars)
      else Ok trimmed)"

definition non_blank :: "string option \<Rightarrow> string option" where
  "non_blank b = (case b of Some s \<Rightarrow> if trim s \<noteq> [] then Some s else None | None \<Rightarrow> None)"

definition event_env :: "('p \<Rightarrow> string) \<Rightarrow> ('p \<Rightarrow> string) \<Rightarrow> cmd_env \<Rightarrow> nat \<Rightarrow> 'p \<Rightarrow> user_id option \<Rightarrow> 'p envelope" where
  "event_env ev_type agg env i e who =
     envelope_new ev_type agg (fst (event_meta env i)) (snd (event_meta env i)) e who"

definition user_record :: "'j codec \<Rightarrow> cmd_env \<Rightarrow> nat \<Rightarrow> user_event \<Rightarrow> user_id option \<Rightarrow> 'j pending_record" where
  "user_record cd env i e who = pending_event user_event_topic (enc_user cd) (fmt_time cd)
     (event_env user_event_type user_event_aggregate_id env i e who)"

definition repo_record :: "'j codec \<Rightarrow> cmd_env \<Rightarrow> nat \<Rightarrow> repo_event \<Rightarrow> user_id option \<Rightarrow> 'j pending_record" where
  "repo_record cd env i e who = pending_event repo_event_topic (enc_repo cd) (fmt_time cd)
     (event_env repo_event_type repo_event_aggregate_id env i e who)"

definition issue_record :: "'j codec \<Rightarrow> cmd_env \<Rightarrow> nat \<Rightarrow> issue_event \<Rightarrow> user_id option \<Rightarrow> 'j pending_record" where
  "issue_record cd env i e who = pending_event issue_event_topic (enc_issue cd) (fmt_time cd)
     (event_env issue_event_type issue_event_aggregate_id env i e who)"

definition pr_record :: "'j codec \<Rightarrow> cmd_env \<Rightarrow> nat \<Rightarrow> pr_event \<Rightarrow> user_id option \<Rightarrow> 'j pending_record" where
  "pr_record cd env i e who = pending_event pr_event_topic (enc_pr cd) (fmt_time cd)
     (event_env pr_event_type pr_event_aggregate_id env i e who)"

definition git_record :: "'j codec \<Rightarrow> cmd_env \<Rightarrow> nat \<Rightarrow> git_ref_event \<Rightarrow> user_id option \<Rightarrow> 'j pending_record" where
  "git_record cd env i e who = pending_event git_ref_event_topic (enc_git cd) (fmt_time cd)
     (event_env git_ref_event_type git_ref_event_aggregate_id env i e who)"

text \<open>
  The tail every command shares: the transaction, then (only when it committed) the change of
  the decision state, then the answer.
\<close>

definition commit ::
    "cmd_env \<Rightarrow> 'j pending_record list \<Rightarrow> (service \<Rightarrow> service) \<Rightarrow> 'a \<Rightarrow> service \<Rightarrow> ('a \<times> committed, 'j) answer" where
  "commit env rs upd ident svc = (case transact (txn env) rs (sv_writer svc) of
     (Err e, w, landed) \<Rightarrow> (Err (WriteFailed e), svc\<lparr>sv_writer := w\<rparr>, landed)
   | (Ok c, w, landed) \<Rightarrow> (Ok (ident, c), upd (svc\<lparr>sv_writer := w\<rparr>), landed))"

definition claim_it :: "'j codec \<Rightarrow> string \<Rightarrow> claim \<Rightarrow> service \<Rightarrow> service" where
  "claim_it cd key c svc = svc\<lparr>sv_catalog := catalog_apply cd (sv_catalog svc) key (Some (enc_claim cd c))\<rparr>"

section \<open>Starting\<close>

definition replay_step :: "('s \<Rightarrow> string \<Rightarrow> 'j option \<Rightarrow> 's) \<Rightarrow> int \<times> 'j topic_record \<Rightarrow> 's \<Rightarrow> 's" where
  "replay_step app r s = app s (key_text (snd r)) (rec_value (snd r))"

definition start_replicated ::
    "'j codec \<Rightarrow> nat \<Rightarrow> (int \<Rightarrow> ('j topic_record fetch_result, string) result)
      \<Rightarrow> (int \<Rightarrow> ('j topic_record fetch_result, string) result) \<Rightarrow> int \<Rightarrow> ((service, command_error) result) option" where
  "start_replicated cd fuel fetch_catalog fetch_refs n =
     (case replay_to_end fuel fetch_catalog (replay_step (catalog_apply cd)) 0 [] (open_at 0) of
        None \<Rightarrow> None
      | Some (Err e, _, _) \<Rightarrow> Some (Err (ReplayFailed e))
      | Some (Ok _, cat, _) \<Rightarrow>
          (case replay_to_end fuel fetch_refs (replay_step (refs_apply cd)) 0 [] (open_at 0) of
             None \<Rightarrow> None
           | Some (Err e, _, _) \<Rightarrow> Some (Err (ReplayFailed e))
           | Some (Ok _, refs, _) \<Rightarrow>
               Some (Ok \<lparr>sv_writer = \<lparr>fenced = False, aborted_process = False\<rparr>,
                 sv_catalog = cat, sv_refs = refs, sv_replicas = n\<rparr>)))"

section \<open>Users, repositories and issues\<close>

definition register_user ::
    "'j codec \<Rightarrow> cmd_env \<Rightarrow> string \<Rightarrow> string \<Rightarrow> string \<Rightarrow> service \<Rightarrow> (user_id \<times> committed, 'j) answer" where
  "register_user cd env name email password_hash svc =
     (case username_parse name of
        Err e \<Rightarrow> (Err (InvalidName e), svc, [])
      | Ok u \<Rightarrow>
          if is_username_taken (sv_catalog svc) (user_lower u) then (Err UsernameTaken, svc, [])
          else
            let user_id = fresh_id env;
                event = UserRegistered user_id (user_raw u) (user_lower u) email password_hash;
                key = user_key (user_lower u);
                c = UserClaim user_id
            in commit env [user_record cd env 0 event (Some user_id), pending_state META_CATALOG key (enc_claim cd c)]
                 (claim_it cd key c) user_id svc)"

definition create_repo ::
    "'j codec \<Rightarrow> cmd_env \<Rightarrow> user_id \<Rightarrow> username \<Rightarrow> string \<Rightarrow> string option \<Rightarrow> visibility \<Rightarrow> service
      \<Rightarrow> (repo_id \<times> committed, 'j) answer" where
  "create_repo cd env owner owner_name name_text description vis svc =
     (case repo_name_parse name_text of
        Err e \<Rightarrow> (Err (InvalidName e), svc, [])
      | Ok name \<Rightarrow>
          let full_name = full_name_lower owner_name name in
          if is_repo_name_taken (sv_catalog svc) full_name then (Err RepoExists, svc, [])
          else
            let repo_id = fresh_id env in
            (case ensure_repo_replicated (create_topics env) repo_id (sv_replicas svc) of
               Err e \<Rightarrow> (Err (TopicFailed e), svc, [])
             | Ok _ \<Rightarrow>
                 let event = RepoCreated repo_id owner (user_raw owner_name) (repo_raw name) full_name
                       description ''main'' vis;
                     key = repo_key full_name;
                     c = RepoClaim repo_id
                 in commit env [repo_record cd env 0 event (Some owner), pending_state META_CATALOG key (enc_claim cd c)]
                      (claim_it cd key c) repo_id svc))"

definition open_issue ::
    "'j codec \<Rightarrow> cmd_env \<Rightarrow> repo_id \<Rightarrow> user_id \<Rightarrow> string \<Rightarrow> string \<Rightarrow> string option \<Rightarrow> service
      \<Rightarrow> (issue_id \<times> committed, 'j) answer" where
  "open_issue cd env repo author author_name title_text body svc =
     (case validated title_text ''title'' MAX_TITLE of
        Err e \<Rightarrow> (Err e, svc, [])
      | Ok title \<Rightarrow>
          let number = next_issue_number (sv_catalog svc) repo;
              issue_id = fresh_id env;
              event = IssueOpened issue_id repo number title (non_blank body) author author_name;
              key = issue_counter_key repo;
              c = IssueCounter (number + 1)
          in commit env [issue_record cd env 0 event (Some author), pending_state META_CATALOG key (enc_claim cd c)]
               (claim_it cd key c) issue_id svc)"

definition comment_on_issue ::
    "'j codec \<Rightarrow> cmd_env \<Rightarrow> repo_id \<Rightarrow> issue_id \<Rightarrow> user_id \<Rightarrow> string \<Rightarrow> string \<Rightarrow> service
      \<Rightarrow> (comment_id \<times> committed, 'j) answer" where
  "comment_on_issue cd env repo issue author author_name body_text svc =
     (case validated body_text ''comment'' MAX_BODY of
        Err e \<Rightarrow> (Err e, svc, [])
      | Ok body \<Rightarrow>
          let comment_id = fresh_id env;
              event = IssueCommented comment_id issue repo author author_name body
          in commit env [issue_record cd env 0 event (Some author)] id comment_id svc)"

definition set_issue_state ::
    "'j codec \<Rightarrow> cmd_env \<Rightarrow> repo_id \<Rightarrow> issue_id \<Rightarrow> user_id \<Rightarrow> bool \<Rightarrow> service \<Rightarrow> (issue_id \<times> committed, 'j) answer" where
  "set_issue_state cd env repo issue who open_it svc =
     (let event = (if open_it then IssueReopened issue repo who else IssueClosed issue repo who)
      in commit env [issue_record cd env 0 event (Some who)] id issue svc)"

section \<open>References\<close>

definition refs_for :: "repo_id \<Rightarrow> service \<Rightarrow> (string \<times> oid) list" where
  "refs_for repo svc = for_repo (sv_refs svc) repo"

definition check_all :: "ref_map \<Rightarrow> repo_id \<Rightarrow> ref_update list \<Rightarrow> ref_result list" where
  "check_all refs repo us = map (\<lambda>u. \<lparr>rr_name = ru_name u, outcome = ref_check refs repo u\<rparr>) us"

definition rejected :: "ref_result list \<Rightarrow> bool" where
  "rejected results \<longleftrightarrow> list_ex (\<lambda>r. outcome r \<noteq> Ok ()) results"

fun update_records :: "'j codec \<Rightarrow> cmd_env \<Rightarrow> repo_id \<Rightarrow> user_id \<Rightarrow> nat \<Rightarrow> ref_update list \<Rightarrow> 'j pending_record list" where
  "update_records cd env repo pusher i [] = []"
| "update_records cd env repo pusher i (u # us) =
     git_record cd env i (RefUpdated repo (ru_name u) (expected_old u) (ru_new u) pusher False) (Some pusher)
     # (case ru_new u of
          Some x \<Rightarrow> pending_state GIT_REFS (ref_key repo (ru_name u)) (enc_ref cd x)
        | None \<Rightarrow> pending_tombstone GIT_REFS (ref_key repo (ru_name u)))
     # update_records cd env repo pusher (Suc i) us"

definition set_refs :: "repo_id \<Rightarrow> ref_update list \<Rightarrow> service \<Rightarrow> service" where
  "set_refs repo us svc = svc\<lparr>sv_refs := foldl (\<lambda>m u. ref_set m repo (ru_name u) (ru_new u)) (sv_refs svc) us\<rparr>"

definition update_refs ::
    "'j codec \<Rightarrow> cmd_env \<Rightarrow> repo_id \<Rightarrow> ref_update list \<Rightarrow> user_id \<Rightarrow> service \<Rightarrow> (ref_result list, 'j) answer" where
  "update_refs cd env repo us pusher svc =
     (if us = [] then (Ok [], svc, [])
      else
        let results = check_all (sv_refs svc) repo us in
        if rejected results then (Ok results, svc, [])
        else (case commit env (update_records cd env repo pusher 0 us) (set_refs repo us) results svc of
                (Err e, svc', landed) \<Rightarrow> (Err e, svc', landed)
              | (Ok (rs, _), svc', landed) \<Rightarrow> (Ok rs, svc', landed)))"

section \<open>Pull requests\<close>

record open_pull_request =
  op_repo :: repo_id
  op_author :: user_id
  op_author_name :: string
  op_title :: string
  op_body :: "string option"
  op_source_branch :: string
  op_target_branch :: string
  op_head_oid :: oid
  op_base_oid :: oid

record merge_pull_request =
  mp_repo :: repo_id
  mp_pr :: pr_id
  mp_target_branch :: string
  mp_expected_base :: oid
  mp_expected_head :: oid
  mp_merge_commit :: oid
  mp_merged_by :: user_id
  mp_merged_by_name :: string

definition open_pull ::
    "'j codec \<Rightarrow> cmd_env \<Rightarrow> open_pull_request \<Rightarrow> service \<Rightarrow> (pr_id \<times> committed, 'j) answer" where
  "open_pull cd env req svc =
     (case validated (op_title req) ''title'' MAX_TITLE of
        Err e \<Rightarrow> (Err e, svc, [])
      | Ok title \<Rightarrow>
          if op_source_branch req = op_target_branch req
          then (Err (BadRequest ''a branch cannot be merged into itself''), svc, [])
          else
            let number = next_issue_number (sv_catalog svc) (op_repo req);
                pr_id = fresh_id env;
                event = PrOpened pr_id (op_repo req) number title (non_blank (op_body req)) (op_author req)
                  (op_author_name req) (op_source_branch req) (op_target_branch req) (op_head_oid req) (op_base_oid req);
                key = issue_counter_key (op_repo req);
                c = IssueCounter (number + 1)
            in commit env [pr_record cd env 0 event (Some (op_author req)), pending_state META_CATALOG key (enc_claim cd c)]
                 (claim_it cd key c) pr_id svc)"

definition review_pull ::
    "'j codec \<Rightarrow> cmd_env \<Rightarrow> repo_id \<Rightarrow> pr_id \<Rightarrow> user_id \<Rightarrow> string \<Rightarrow> review_verdict \<Rightarrow> string option \<Rightarrow> service
      \<Rightarrow> (comment_id \<times> committed, 'j) answer" where
  "review_pull cd env repo pr reviewer reviewer_name verdict body svc =
     (let review_id = fresh_id env;
          event = PrReviewed review_id pr repo reviewer reviewer_name verdict (non_blank body)
      in commit env [pr_record cd env 0 event (Some reviewer)] id review_id svc)"

definition record_mergeability ::
    "'j codec \<Rightarrow> cmd_env \<Rightarrow> repo_id \<Rightarrow> pr_id \<Rightarrow> oid \<Rightarrow> oid \<Rightarrow> bool \<Rightarrow> string list \<Rightarrow> service
      \<Rightarrow> (pr_id \<times> committed, 'j) answer" where
  "record_mergeability cd env repo pr head_oid base_oid mergeable conflicts svc =
     commit env [pr_record cd env 0 (PrMergeabilityComputed pr repo head_oid base_oid mergeable conflicts) None] id pr svc"

definition synchronize_pull ::
    "'j codec \<Rightarrow> cmd_env \<Rightarrow> repo_id \<Rightarrow> pr_id \<Rightarrow> oid \<Rightarrow> oid \<Rightarrow> service \<Rightarrow> (pr_id \<times> committed, 'j) answer" where
  "synchronize_pull cd env repo pr head_oid base_oid svc =
     commit env [pr_record cd env 0 (PrSynchronized pr repo head_oid base_oid) None] id pr svc"

definition merge_pull ::
    "'j codec \<Rightarrow> cmd_env \<Rightarrow> merge_pull_request \<Rightarrow> service \<Rightarrow> (pr_id \<times> committed, 'j) answer" where
  "merge_pull cd env req svc =
     (let target = ''refs/heads/'' @ mp_target_branch req;
          current = refs_get (sv_refs svc) (mp_repo req) target
      in if current \<noteq> Some (mp_expected_base req)
         then (Err (StaleMerge (to_hex (mp_expected_base req)) (map_option to_hex current)), svc, [])
         else
           let merged = PrMerged (mp_pr req) (mp_repo req) (mp_merge_commit req) (mp_merged_by req) (mp_merged_by_name req);
               ref_moved = RefUpdated (mp_repo req) target (Some (mp_expected_base req)) (Some (mp_merge_commit req))
                 (mp_merged_by req) False
           in commit env
                [pr_record cd env 0 merged (Some (mp_merged_by req)),
                 git_record cd env 1 ref_moved (Some (mp_merged_by req)),
                 pending_state GIT_REFS (ref_key (mp_repo req) target) (enc_ref cd (mp_merge_commit req))]
                (\<lambda>s. s\<lparr>sv_refs := ref_set (sv_refs s) (mp_repo req) target (Some (mp_merge_commit req))\<rparr>)
                (mp_pr req) svc)"

definition set_pull_state ::
    "'j codec \<Rightarrow> cmd_env \<Rightarrow> repo_id \<Rightarrow> pr_id \<Rightarrow> user_id \<Rightarrow> bool \<Rightarrow> service \<Rightarrow> (pr_id \<times> committed, 'j) answer" where
  "set_pull_state cd env repo pr who open_it svc =
     (let event = (if open_it then PrReopened pr repo who else PrClosed pr repo who)
      in commit env [pr_record cd env 0 event (Some who)] id pr svc)"

end
