(* ===== verification/Command_Safety.thy ===== *)
theory Command_Safety
  imports Command_Service
begin

text \<open>
  What the command service guarantees over its whole life: the system of a log and the service
  that writes it, with commands, failed and unknown transactions, process deaths and restarts
  from a compacted log as steps, and the invariants of every reachable system.
\<close>

section \<open>Commands and their effect\<close>

datatype command =
    CRegister string string string
  | CCreateRepo user_id username string "string option" visibility
  | COpenIssue repo_id user_id string string "string option"
  | CComment repo_id issue_id user_id string string
  | CSetIssue repo_id issue_id user_id bool
  | CUpdateRefs repo_id "ref_update list" user_id
  | COpenPull open_pull_request
  | CReview repo_id pr_id user_id string review_verdict "string option"
  | CMergeability repo_id pr_id oid oid bool "string list"
  | CSynchronize repo_id pr_id oid oid
  | CMerge merge_pull_request
  | CSetPull repo_id pr_id user_id bool

definition exec :: "'j codec \<Rightarrow> cmd_env \<Rightarrow> command \<Rightarrow> service \<Rightarrow> service \<times> 'j pending_record list" where
  "exec cd env cmd svc = (case cmd of
     CRegister n e h \<Rightarrow> snd (register_user cd env n e h svc)
   | CCreateRepo own own_name n d v \<Rightarrow> snd (create_repo cd env own own_name n d v svc)
   | COpenIssue r a an t b \<Rightarrow> snd (open_issue cd env r a an t b svc)
   | CComment r i a an b \<Rightarrow> snd (comment_on_issue cd env r i a an b svc)
   | CSetIssue r i a on \<Rightarrow> snd (set_issue_state cd env r i a on svc)
   | CUpdateRefs r us p \<Rightarrow> snd (update_refs cd env r us p svc)
   | COpenPull req \<Rightarrow> snd (open_pull cd env req svc)
   | CReview r p u un v b \<Rightarrow> snd (review_pull cd env r p u un v b svc)
   | CMergeability r p h b m cs \<Rightarrow> snd (record_mergeability cd env r p h b m cs svc)
   | CSynchronize r p h b \<Rightarrow> snd (synchronize_pull cd env r p h b svc)
   | CMerge req \<Rightarrow> snd (merge_pull cd env req svc)
   | CSetPull r p u on \<Rightarrow> snd (set_pull_state cd env r p u on svc))"

definition topic_records :: "string \<Rightarrow> 'j pending_record list \<Rightarrow> 'j topic_record list" where
  "topic_records t ps = map logged (filter (\<lambda>p. pr_topic p = t) ps)"

text \<open>
  The transactions a command can attempt: the records, and the change of the decision state
  that goes with them.
\<close>

inductive attempt :: "'j codec \<Rightarrow> cmd_env \<Rightarrow> service \<Rightarrow> 'j pending_record list \<Rightarrow> (service \<Rightarrow> service) \<Rightarrow> bool"
  for cd env svc where
    att_issue: "(\<And>i r n t b a an. e \<noteq> IssueOpened i r n t b a an) \<Longrightarrow> attempt cd env svc [issue_record cd env 0 e who] id"
  | att_pr: "(\<And>p r n t b a an sb tb h bo. e \<noteq> PrOpened p r n t b a an sb tb h bo) \<Longrightarrow>
      (\<And>p r m u un. e \<noteq> PrMerged p r m u un) \<Longrightarrow> attempt cd env svc [pr_record cd env 0 e who] id"
  | att_register: "\<not> is_username_taken (sv_catalog svc) l \<Longrightarrow>
      attempt cd env svc [user_record cd env 0 (UserRegistered uid raw l email hash) who,
        pending_state META_CATALOG (user_key l) (enc_claim cd (UserClaim uid))] (claim_it cd (user_key l) (UserClaim uid))"
  | att_create: "\<not> is_repo_name_taken (sv_catalog svc) full \<Longrightarrow>
      attempt cd env svc [repo_record cd env 0 (RepoCreated rid own own_name nm full d b v) who,
        pending_state META_CATALOG (repo_key full) (enc_claim cd (RepoClaim rid))] (claim_it cd (repo_key full) (RepoClaim rid))"
  | att_open_issue: "n = next_issue_number (sv_catalog svc) r \<Longrightarrow>
      attempt cd env svc [issue_record cd env 0 (IssueOpened i r n t b a an) who,
        pending_state META_CATALOG (issue_counter_key r) (enc_claim cd (IssueCounter (n + 1)))]
        (claim_it cd (issue_counter_key r) (IssueCounter (n + 1)))"
  | att_open_pull: "n = next_issue_number (sv_catalog svc) r \<Longrightarrow>
      attempt cd env svc [pr_record cd env 0 (PrOpened p r n t b a an sb tb h bo) who,
        pending_state META_CATALOG (issue_counter_key r) (enc_claim cd (IssueCounter (n + 1)))]
        (claim_it cd (issue_counter_key r) (IssueCounter (n + 1)))"
  | att_refs: "us \<noteq> [] \<Longrightarrow> \<forall>u\<in>set us. ref_check (sv_refs svc) r u = Ok () \<Longrightarrow>
      attempt cd env svc (update_records cd env r pusher 0 us) (set_refs r us)"
  | att_merge: "refs_get (sv_refs svc) r target = Some base \<Longrightarrow>
      attempt cd env svc [pr_record cd env 0 (PrMerged p r m u un) who,
        git_record cd env 1 (RefUpdated r target (Some base) (Some m) u False) who,
        pending_state GIT_REFS (ref_key r target) (enc_ref cd m)]
        (\<lambda>s. s\<lparr>sv_refs := ref_set (sv_refs s) r target (Some m)\<rparr>)"

lemma rejected_iff: "rejected (check_all refs r us) \<longleftrightarrow> \<not> (\<forall>u\<in>set us. ref_check refs r u = Ok ())"
  by (auto simp: rejected_def check_all_def list_ex_iff)

definition effect :: "cmd_env \<Rightarrow> 'j pending_record list \<Rightarrow> (service \<Rightarrow> service) \<Rightarrow> service \<Rightarrow> service \<times> 'j pending_record list" where
  "effect env rs upd svc = snd (commit env rs upd () svc)"

text \<open>Every command either leaves everything as it is or attempts one of these transactions.\<close>

lemma exec_attempt:
  "exec cd env cmd svc = (svc, []) \<or>
   (\<exists>rs upd. attempt cd env svc rs upd \<and> exec cd env cmd svc = effect env rs upd svc)"
proof -
  have ident: "snd (commit env rs upd x svc) = effect env rs upd svc" for rs upd and x :: string
    by (simp add: effect_def commit_def split: prod.splits sum.splits)
  show ?thesis
  proof (cases cmd)
    case (CRegister n e h)
    then show ?thesis
      by (auto simp: exec_def register_user_def Let_def ident intro!: attempt.intros split: sum.splits if_splits)
  next
    case (CCreateRepo own own_name n d v)
    then show ?thesis
      by (auto simp: exec_def create_repo_def Let_def ident intro!: attempt.intros split: sum.splits if_splits)
  next
    case (COpenIssue r a an t b)
    then show ?thesis
      by (auto simp: exec_def open_issue_def Let_def ident intro!: attempt.intros split: sum.splits if_splits)
  next
    case (CComment r i a an b)
    then show ?thesis
      by (auto simp: exec_def comment_on_issue_def Let_def ident intro!: attempt.intros split: sum.splits if_splits)
  next
    case (CSetIssue r i a on)
    then show ?thesis
      by (auto simp: exec_def set_issue_state_def Let_def ident intro!: attempt.intros)
  next
    case (CUpdateRefs r us p)
    let ?rs = "check_all (sv_refs svc) r us"
    show ?thesis
    proof (cases "us = [] \<or> rejected ?rs")
      case True
      then show ?thesis by (auto simp: CUpdateRefs exec_def update_refs_def Let_def)
    next
      case False
      then have "attempt cd env svc (update_records cd env r p 0 us) (set_refs r us)"
        by (auto simp: rejected_iff intro: attempt.att_refs)
      moreover have "exec cd env cmd svc = effect env (update_records cd env r p 0 us) (set_refs r us) svc"
        using False by (simp add: CUpdateRefs exec_def update_refs_def Let_def effect_def commit_def
            split: prod.splits sum.splits)
      ultimately show ?thesis by blast
    qed
  next
    case (COpenPull req)
    then show ?thesis
      by (auto simp: exec_def open_pull_def Let_def ident intro!: attempt.intros split: sum.splits if_splits)
  next
    case (CReview r p u un v b)
    then show ?thesis by (auto simp: exec_def review_pull_def Let_def ident intro!: attempt.intros)
  next
    case (CMergeability r p h b m cs)
    then show ?thesis by (auto simp: exec_def record_mergeability_def Let_def ident intro!: attempt.intros)
  next
    case (CSynchronize r p h b)
    then show ?thesis by (auto simp: exec_def synchronize_pull_def Let_def ident intro!: attempt.intros)
  next
    case (CMerge req)
    let ?t = "''refs/heads/'' @ mp_target_branch req"
    show ?thesis
    proof (cases "refs_get (sv_refs svc) (mp_repo req) ?t = Some (mp_expected_base req)")
      case True
      show ?thesis
        using attempt.att_merge [OF True, of cd env "mp_pr req" "mp_merge_commit req" "mp_merged_by req"
            "mp_merged_by_name req" "Some (mp_merged_by req)"]
        by (simp only: CMerge exec_def command.case merge_pull_def Let_def True simp_thms if_False ident) blast
    next
      case False
      then show ?thesis unfolding CMerge exec_def command.case merge_pull_def Let_def by simp
    qed
  next
    case (CSetPull r p u on)
    then show ?thesis by (auto simp: exec_def set_pull_state_def Let_def ident intro!: attempt.intros)
  qed
qed

section \<open>The decision state follows the log\<close>

lemma topic_differ [simp]:
  "EVENTS_USERS \<noteq> META_CATALOG" "EVENTS_REPOS \<noteq> META_CATALOG" "EVENTS_ISSUES \<noteq> META_CATALOG"
  "EVENTS_PRS \<noteq> META_CATALOG" "EVENTS_GIT_REFS \<noteq> META_CATALOG" "GIT_REFS \<noteq> META_CATALOG"
  "EVENTS_USERS \<noteq> GIT_REFS" "EVENTS_REPOS \<noteq> GIT_REFS" "EVENTS_ISSUES \<noteq> GIT_REFS"
  "EVENTS_PRS \<noteq> GIT_REFS" "EVENTS_GIT_REFS \<noteq> GIT_REFS" "META_CATALOG \<noteq> GIT_REFS"
  "EVENTS_REPOS \<noteq> EVENTS_USERS" "EVENTS_ISSUES \<noteq> EVENTS_USERS" "EVENTS_PRS \<noteq> EVENTS_USERS"
  "EVENTS_GIT_REFS \<noteq> EVENTS_USERS" "META_CATALOG \<noteq> EVENTS_USERS" "GIT_REFS \<noteq> EVENTS_USERS"
  "EVENTS_USERS \<noteq> EVENTS_REPOS" "EVENTS_ISSUES \<noteq> EVENTS_REPOS" "EVENTS_PRS \<noteq> EVENTS_REPOS"
  "EVENTS_GIT_REFS \<noteq> EVENTS_REPOS" "META_CATALOG \<noteq> EVENTS_REPOS" "GIT_REFS \<noteq> EVENTS_REPOS"
  "EVENTS_USERS \<noteq> EVENTS_ISSUES" "EVENTS_REPOS \<noteq> EVENTS_ISSUES" "EVENTS_PRS \<noteq> EVENTS_ISSUES"
  "EVENTS_GIT_REFS \<noteq> EVENTS_ISSUES" "META_CATALOG \<noteq> EVENTS_ISSUES" "GIT_REFS \<noteq> EVENTS_ISSUES"
  "EVENTS_USERS \<noteq> EVENTS_PRS" "EVENTS_REPOS \<noteq> EVENTS_PRS" "EVENTS_ISSUES \<noteq> EVENTS_PRS"
  "EVENTS_GIT_REFS \<noteq> EVENTS_PRS" "META_CATALOG \<noteq> EVENTS_PRS" "GIT_REFS \<noteq> EVENTS_PRS"
  "EVENTS_USERS \<noteq> EVENTS_GIT_REFS" "EVENTS_REPOS \<noteq> EVENTS_GIT_REFS" "EVENTS_ISSUES \<noteq> EVENTS_GIT_REFS"
  "EVENTS_PRS \<noteq> EVENTS_GIT_REFS" "META_CATALOG \<noteq> EVENTS_GIT_REFS" "GIT_REFS \<noteq> EVENTS_GIT_REFS"
  by (simp_all add: topic_defs)

lemma payload_event_env [simp]: "payload (event_env ty agg env i e who) = e"
  by (simp add: event_env_def envelope_new_def)

lemma record_fields [simp]:
  "pr_topic (user_record cd env i ue who) = EVENTS_USERS" "pr_topic (repo_record cd env i re who) = EVENTS_REPOS"
  "pr_topic (issue_record cd env i ie who) = EVENTS_ISSUES" "pr_topic (pr_record cd env i pe who) = EVENTS_PRS"
  "pr_topic (git_record cd env i ge who) = EVENTS_GIT_REFS"
  "pr_topic (pending_state t k v) = t" "pr_topic (pending_tombstone t k :: 'j pending_record) = t"
  "pr_key (pending_state t k v) = k" "pr_key (pending_tombstone t k :: 'j pending_record) = k"
  "pr_value (pending_state t k v) = Some v" "pr_value (pending_tombstone t k :: 'j pending_record) = None"
  by (simp_all add: user_record_def repo_record_def issue_record_def pr_record_def git_record_def
      pending_event_def pending_state_def pending_tombstone_def user_event_topic_def repo_event_topic_def
      issue_event_topic_def pr_event_topic_def git_ref_event_topic_def)

lemma topic_records_simps [simp]:
  "topic_records t [] = []"
  "topic_records t (p # ps) = (if pr_topic p = t then logged p # topic_records t ps else topic_records t ps)"
  "topic_records t (ps @ qs) = topic_records t ps @ topic_records t qs"
  by (simp_all add: topic_records_def)

lemma logged_fields [simp]: "key_text (logged p) = pr_key p" "rec_value (logged p) = pr_value p"
  by (simp_all add: logged_def key_text_def)

lemma update_records_meta [simp]: "topic_records META_CATALOG (update_records cd env r pusher i us) = []"
  by (induction us arbitrary: i) (simp_all split: option.splits)

lemma update_records_refs:
  "codec_ok cd \<Longrightarrow> replay (refs_apply cd) m (topic_records GIT_REFS (update_records cd env r pusher i us)) =
     foldl (\<lambda>m u. ref_set m r (ru_name u) (ru_new u)) m us"
  by (induction us arbitrary: i m)
     (simp_all add: refs_apply_def ref_set_def codec_simps Let_def split: option.splits)

definition follows :: "'j codec \<Rightarrow> service \<Rightarrow> 'j pending_record list \<Rightarrow> service \<Rightarrow> bool" where
  "follows cd svc rs svc' \<longleftrightarrow>
     sv_catalog svc' = replay (catalog_apply cd) (sv_catalog svc) (topic_records META_CATALOG rs) \<and>
     sv_refs svc' = replay (refs_apply cd) (sv_refs svc) (topic_records GIT_REFS rs)"

lemma attempt_follows:
  assumes "codec_ok cd" "attempt cd env svc rs upd"
  shows "follows cd svc rs (upd (svc\<lparr>sv_writer := w\<rparr>))"
  using assms(2)
  by cases
     (simp_all add: assms(1) follows_def claim_it_def set_refs_def update_records_refs refs_apply_def ref_set_def codec_simps Let_def)

lemma attempt_keeps_writer:
  "attempt cd env svc rs upd \<Longrightarrow> sv_writer (upd s) = sv_writer s"
  by (induction rule: attempt.induct) (simp_all add: claim_it_def set_refs_def)

lemma transact_landed_cases:
  "transact env rs w = (answer, w', landed) \<Longrightarrow> landed = [] \<or> landed = rs"
  by (auto simp: transact_def split: if_splits option.splits sum.splits prod.splits)

text \<open>What a step does: nothing reaches the log, or the records of one whole attempt do; and
  unless the process died over an unknown outcome, the state is the old one with exactly the
  landed records applied.\<close>

definition alive :: "service \<Rightarrow> bool" where
  "alive svc \<longleftrightarrow> \<not> aborted_process (sv_writer svc)"

lemma exec_step:
  assumes "codec_ok cd" "broker_truthful (txn env)" "exec cd env cmd svc = (svc', landed)"
  shows "(landed = [] \<or> (\<exists>upd. attempt cd env svc landed upd)) \<and> (alive svc' \<longrightarrow> follows cd svc landed svc')"
proof (cases "exec cd env cmd svc = (svc, [])")
  case True
  with assms(3) show ?thesis by (simp add: follows_def)
next
  case False
  then obtain rs upd where att: "attempt cd env svc rs upd" and eff: "effect env rs upd svc = (svc', landed)"
    using exec_attempt [of cd env cmd svc] assms(3) by auto
  obtain answer w l where t: "transact (txn env) rs (sv_writer svc) = (answer, w, l)" by (metis prod_cases3)
  with eff have l: "l = landed" by (auto simp: effect_def commit_def split: sum.splits)
  have none: "follows cd svc [] (svc\<lparr>sv_writer := w\<rparr>)" by (simp add: follows_def)
  show ?thesis
  proof (cases answer)
    case (Inl e)
    with t eff have "svc' = svc\<lparr>sv_writer := w\<rparr>" by (simp add: effect_def commit_def)
    with transact_landed(2) [OF t assms(2) Inl] transact_landed_cases [OF t] att none l
    show ?thesis by (auto simp: alive_def)
  next
    case (Inr c)
    with t eff have "svc' = upd (svc\<lparr>sv_writer := w\<rparr>)" by (simp add: effect_def commit_def)
    with transact_landed(1) [OF t assms(2) Inr] att attempt_follows [OF assms(1) att] l
    show ?thesis by auto
  qed
qed

lemma ref_set_wf: "tbl_wf m \<Longrightarrow> tbl_wf (ref_set m r nm target)"
  by (simp add: ref_set_def Let_def split: option.splits)

lemma attempt_wf:
  assumes "attempt cd env svc rs upd" "tbl_wf (sv_catalog s)" "tbl_wf (sv_refs s)"
  shows "tbl_wf (sv_catalog (upd s)) \<and> tbl_wf (sv_refs (upd s))"
proof -
  have fold: "tbl_wf m \<Longrightarrow> tbl_wf (foldl (\<lambda>m u. ref_set m r (ru_name u) (ru_new u)) m us)" for m r us
    by (induction us arbitrary: m) (simp_all add: ref_set_wf)
  from assms show ?thesis
    by cases (simp_all add: claim_it_def set_refs_def ref_set_wf cat.app_wf fold)
qed

lemma exec_wf:
  assumes "exec cd env cmd svc = (svc', landed)" "tbl_wf (sv_catalog svc)" "tbl_wf (sv_refs svc)"
  shows "tbl_wf (sv_catalog svc') \<and> tbl_wf (sv_refs svc')"
proof (cases "exec cd env cmd svc = (svc, [])")
  case True
  with assms show ?thesis by simp
next
  case False
  then obtain rs upd where att: "attempt cd env svc rs upd" and eff: "effect env rs upd svc = (svc', landed)"
    using exec_attempt [of cd env cmd svc] assms(1) by auto
  from eff obtain w where w: "svc' = svc\<lparr>sv_writer := w\<rparr> \<or> svc' = upd (svc\<lparr>sv_writer := w\<rparr>)"
    unfolding effect_def commit_def by (cases "transact (txn env) rs (sv_writer svc)") (auto split: sum.splits)
  have "tbl_wf (sv_catalog (svc\<lparr>sv_writer := w\<rparr>))" "tbl_wf (sv_refs (svc\<lparr>sv_writer := w\<rparr>))" using assms(2,3) by simp_all
  with w attempt_wf [OF att this] show ?thesis by auto
qed

section \<open>The system and its reachable states\<close>

record 'j system =
  sy_log :: "'j pending_record list"
  sy_svc :: service

definition fresh_service :: "int \<Rightarrow> service" where
  "fresh_service n = \<lparr>sv_writer = \<lparr>fenced = False, aborted_process = False\<rparr>, sv_catalog = [], sv_refs = [], sv_replicas = n\<rparr>"

text \<open>
  From an empty log: a command of the running service, with any outcome of its transaction that
  a truthful broker gives; or a new process, which replays what compaction has left of the two
  state topics (the gaps are slots no reader sees) and takes over. A process that has died over
  an unknown outcome runs no command.
\<close>

inductive reachable :: "'j codec \<Rightarrow> 'j system \<Rightarrow> bool" for cd where
  reach_boot: "reachable cd \<lparr>sy_log = [], sy_svc = fresh_service n\<rparr>"
| reach_exec: "reachable cd s \<Longrightarrow> alive (sy_svc s) \<Longrightarrow> broker_truthful (txn env) \<Longrightarrow>
    exec cd env cmd (sy_svc s) = (svc', landed) \<Longrightarrow> reachable cd \<lparr>sy_log = sy_log s @ landed, sy_svc = svc'\<rparr>"
| reach_restart: "reachable cd s \<Longrightarrow>
    compacted (topic_records META_CATALOG (sy_log s)) (map snd (visible 0 slots1)) \<Longrightarrow> serves fetch1 slots1 \<Longrightarrow>
    compacted (topic_records GIT_REFS (sy_log s)) (map snd (visible 0 slots2)) \<Longrightarrow> serves fetch2 slots2 \<Longrightarrow>
    length slots1 < fuel \<Longrightarrow> length slots2 < fuel \<Longrightarrow>
    start_replicated cd fuel fetch1 fetch2 n = Some (Ok svc') \<Longrightarrow> reachable cd \<lparr>sy_log = sy_log s, sy_svc = svc'\<rparr>"

definition claims_of :: "'j codec \<Rightarrow> 'j pending_record list \<Rightarrow> catalog" where
  "claims_of cd log = replay (catalog_apply cd) [] (topic_records META_CATALOG log)"

definition refs_of :: "'j codec \<Rightarrow> 'j pending_record list \<Rightarrow> ref_map" where
  "refs_of cd log = replay (refs_apply cd) [] (topic_records GIT_REFS log)"

definition in_step :: "'j codec \<Rightarrow> 'j system \<Rightarrow> bool" where
  "in_step cd s \<longleftrightarrow> readable (dec_claim cd) (topic_records META_CATALOG (sy_log s)) \<and>
     readable (dec_ref cd) (topic_records GIT_REFS (sy_log s)) \<and>
     tbl_wf (sv_catalog (sy_svc s)) \<and> tbl_wf (sv_refs (sy_svc s)) \<and>
     (alive (sy_svc s) \<longrightarrow> tbl_get (sv_catalog (sy_svc s)) = tbl_get (claims_of cd (sy_log s)) \<and>
        tbl_get (sv_refs (sy_svc s)) = tbl_get (refs_of cd (sy_log s)))"

lemma claims_of_append: "claims_of cd (log @ rs) = replay (catalog_apply cd) (claims_of cd log) (topic_records META_CATALOG rs)"
  by (simp add: claims_of_def replay_append)

lemma refs_of_append: "refs_of cd (log @ rs) = replay (refs_apply cd) (refs_of cd log) (topic_records GIT_REFS rs)"
  by (simp add: refs_of_def replay_append)

lemma attempt_readable:
  assumes "codec_ok cd" "attempt cd env svc rs upd"
  shows "readable (dec_claim cd) (topic_records META_CATALOG rs)" "readable (dec_ref cd) (topic_records GIT_REFS rs)"
proof -
  have us: "readable (dec_ref cd) (topic_records GIT_REFS (update_records cd env r p i us))" for r p i us
    by (induction us arbitrary: i) (auto simp: readable_def codec_simps [OF assms(1)] split: option.splits)
  from assms(2) show "readable (dec_claim cd) (topic_records META_CATALOG rs)"
    by cases (simp_all add: readable_def codec_simps [OF assms(1)])
  from assms(2) show "readable (dec_ref cd) (topic_records GIT_REFS rs)"
    by cases (simp_all add: us [unfolded readable_def] readable_def codec_simps [OF assms(1)])
qed

lemma replay_step_fold:
  "foldl (\<lambda>s r. replay_step app r s) s vs = replay app s (map snd vs)"
  by (induction vs arbitrary: s) (simp_all add: replay_step_def)

lemma start_replays:
  assumes "serves fetch1 slots1" "serves fetch2 slots2" "length slots1 < fuel" "length slots2 < fuel"
  shows "start_replicated cd fuel fetch1 fetch2 n = Some (Ok \<lparr>sv_writer = \<lparr>fenced = False, aborted_process = False\<rparr>,
     sv_catalog = replay (catalog_apply cd) [] (map snd (visible 0 slots1)),
     sv_refs = replay (refs_apply cd) [] (map snd (visible 0 slots2)), sv_replicas = n\<rparr>)"
proof -
  have o0: "tl_offset (open_at 0) = int 0" by (simp add: open_at_def)
  obtain t1 where 1: "replay_to_end fuel fetch1 (replay_step (catalog_apply cd)) 0 [] (open_at 0) =
      Some (Ok (length (visible 0 slots1)), replay (catalog_apply cd) [] (map snd (visible 0 slots1)), t1)"
    using replay_to_end_visible [OF assms(1) _ _ o0, of fuel "replay_step (catalog_apply cd)" 0 "[]"] assms(3)
    by (auto simp: replay_step_fold)
  obtain t2 where 2: "replay_to_end fuel fetch2 (replay_step (refs_apply cd)) 0 [] (open_at 0) =
      Some (Ok (length (visible 0 slots2)), replay (refs_apply cd) [] (map snd (visible 0 slots2)), t2)"
    using replay_to_end_visible [OF assms(2) _ _ o0, of fuel "replay_step (refs_apply cd)" 0 "[]"] assms(4)
    by (auto simp: replay_step_fold)
  from 1 2 show ?thesis by (simp add: start_replicated_def)
qed

lemma compacted_readable: "compacted rs rs' \<Longrightarrow> readable dec rs \<Longrightarrow> readable dec rs' \<and> same_latest rs rs'"
  by (auto simp: compacted_def readable_def)

lemma reachable_in_step: "codec_ok cd \<Longrightarrow> reachable cd s \<Longrightarrow> in_step cd s"
proof (rotate_tac, induction rule: reachable.induct)
  case (reach_boot n)
  show ?case by (simp add: in_step_def fresh_service_def claims_of_def refs_of_def)
next
  case (reach_exec s env cmd svc' landed)
  then have st: "in_step cd s" by simp
  from exec_step [OF reach_exec.prems reach_exec.hyps(3,4)]
  have land: "landed = [] \<or> (\<exists>upd. attempt cd env (sy_svc s) landed upd)"
    and fol: "alive svc' \<longrightarrow> follows cd (sy_svc s) landed svc'" by auto
  have wf: "tbl_wf (sv_catalog svc')" "tbl_wf (sv_refs svc')"
    using exec_wf [OF reach_exec.hyps(4)] st by (auto simp: in_step_def)
  have "readable (dec_claim cd) (topic_records META_CATALOG landed)" "readable (dec_ref cd) (topic_records GIT_REFS landed)"
    using land attempt_readable [OF reach_exec.prems] by (auto simp: readable_def)
  moreover have "tbl_get (sv_catalog svc') = tbl_get (claims_of cd (sy_log s @ landed))"
    "tbl_get (sv_refs svc') = tbl_get (refs_of cd (sy_log s @ landed))" if "alive svc'"
    using that fol st reach_exec.hyps(2) cat.replay_cong [of "sv_catalog (sy_svc s)" "claims_of cd (sy_log s)"]
      refm.replay_cong [of "sv_refs (sy_svc s)" "refs_of cd (sy_log s)"]
    by (auto simp: in_step_def follows_def claims_of_append refs_of_append)
  ultimately show ?case using st wf by (auto simp: in_step_def)
next
  case (reach_restart s slots1 fetch1 slots2 fetch2 fuel n svc')
  then have st: "in_step cd s" by simp
  have svc: "sv_catalog svc' = replay (catalog_apply cd) [] (map snd (visible 0 slots1))"
    "sv_refs svc' = replay (refs_apply cd) [] (map snd (visible 0 slots2))"
    using start_replays [OF reach_restart.hyps(3,5,6,7), of cd n] reach_restart.hyps(8) by auto
  from st compacted_readable reach_restart.hyps(2,4) cat.replay_compacted refm.replay_compacted
  have "tbl_get (sv_catalog svc') = tbl_get (claims_of cd (sy_log s))"
    "tbl_get (sv_refs svc') = tbl_get (refs_of cd (sy_log s))"
    unfolding svc claims_of_def refs_of_def in_step_def by metis+
  then show ?case using st by (auto simp: in_step_def svc intro: cat.replay_wf refm.replay_wf)
qed

end
