(* ===== verification/Command_History.thy ===== *)
theory Command_History
  imports Command_Safety
begin

text \<open>
  What the log of a reachable system says: unique names, consecutive numbers, a reflog that
  agrees with the references, merges that moved their branch. The log is read back through
  the decoders of the codec.
\<close>

section \<open>Reading the log\<close>

definition registration_of :: "'j codec \<Rightarrow> 'j pending_record \<Rightarrow> (string \<times> user_id) option" where
  "registration_of cd p = (if pr_topic p = EVENTS_USERS then
     (case Option.bind (pr_value p) (dec_user cd) of
        Some env \<Rightarrow> (case payload env of UserRegistered uid _ l _ _ \<Rightarrow> Some (l, uid) | _ \<Rightarrow> None)
      | None \<Rightarrow> None) else None)"

definition creation_of :: "'j codec \<Rightarrow> 'j pending_record \<Rightarrow> (string \<times> repo_id) option" where
  "creation_of cd p = (if pr_topic p = EVENTS_REPOS then
     (case Option.bind (pr_value p) (dec_repo cd) of
        Some env \<Rightarrow> (case payload env of RepoCreated rid _ _ _ full _ _ _ \<Rightarrow> Some (full, rid) | _ \<Rightarrow> None)
      | None \<Rightarrow> None) else None)"

definition number_of :: "'j codec \<Rightarrow> repo_id \<Rightarrow> 'j pending_record \<Rightarrow> int option" where
  "number_of cd r p =
     (if pr_topic p = EVENTS_ISSUES then
        (case Option.bind (pr_value p) (dec_issue cd) of
           Some env \<Rightarrow> (case payload env of IssueOpened _ r' n _ _ _ _ \<Rightarrow> (if r' = r then Some n else None) | _ \<Rightarrow> None)
         | None \<Rightarrow> None)
      else if pr_topic p = EVENTS_PRS then
        (case Option.bind (pr_value p) (dec_pr cd) of
           Some env \<Rightarrow> (case payload env of PrOpened _ r' n _ _ _ _ _ _ _ _ \<Rightarrow> (if r' = r then Some n else None) | _ \<Rightarrow> None)
         | None \<Rightarrow> None)
      else None)"

definition ref_event_of :: "'j codec \<Rightarrow> 'j pending_record \<Rightarrow> git_ref_event option" where
  "ref_event_of cd p = (if pr_topic p = EVENTS_GIT_REFS then
     map_option payload (Option.bind (pr_value p) (dec_git cd)) else None)"

definition merge_of :: "'j codec \<Rightarrow> 'j pending_record \<Rightarrow> (repo_id \<times> oid) option" where
  "merge_of cd p = (if pr_topic p = EVENTS_PRS then
     (case Option.bind (pr_value p) (dec_pr cd) of
        Some env \<Rightarrow> (case payload env of PrMerged _ r m _ _ \<Rightarrow> Some (r, m) | _ \<Rightarrow> None)
      | None \<Rightarrow> None) else None)"

definition registrations :: "'j codec \<Rightarrow> 'j pending_record list \<Rightarrow> (string \<times> user_id) list" where
  "registrations cd log = List.map_filter (registration_of cd) log"

definition creations :: "'j codec \<Rightarrow> 'j pending_record list \<Rightarrow> (string \<times> repo_id) list" where
  "creations cd log = List.map_filter (creation_of cd) log"

definition numbers :: "'j codec \<Rightarrow> repo_id \<Rightarrow> 'j pending_record list \<Rightarrow> int list" where
  "numbers cd r log = List.map_filter (number_of cd r) log"

definition ref_events :: "'j codec \<Rightarrow> 'j pending_record list \<Rightarrow> git_ref_event list" where
  "ref_events cd log = List.map_filter (ref_event_of cd) log"

text \<open>What a reflog says about a reference: the new value of its last entry.\<close>

definition last_new :: "string \<Rightarrow> git_ref_event list \<Rightarrow> oid option" where
  "last_new key es = foldl (\<lambda>cur e. if ref_key (ge_repo e) (ge_ref e) = key then ge_new e else cur) None es"

text \<open>Every merge in the log is followed at once by the move of a branch of its repository to the merge commit.\<close>

fun merges_moved :: "'j codec \<Rightarrow> 'j pending_record list \<Rightarrow> bool" where
  "merges_moved cd [] = True"
| "merges_moved cd (p # ps) =
     ((case merge_of cd p of
         None \<Rightarrow> True
       | Some (r, m) \<Rightarrow> (case ps of [] \<Rightarrow> False
           | q # _ \<Rightarrow> (case ref_event_of cd q of
               Some e \<Rightarrow> ge_repo e = r \<and> ge_new e = Some m \<and> ge_old e \<noteq> None | None \<Rightarrow> False)))
      \<and> merges_moved cd ps)"

lemmas projections = registration_of_def creation_of_def number_of_def ref_event_of_def merge_of_def

lemma record_values [simp]:
  "pr_value (user_record cd env i ue who) = Some (enc_user cd (event_env user_event_type user_event_aggregate_id env i ue who))"
  "pr_value (repo_record cd env i re who) = Some (enc_repo cd (event_env repo_event_type repo_event_aggregate_id env i re who))"
  "pr_value (issue_record cd env i ie who) = Some (enc_issue cd (event_env issue_event_type issue_event_aggregate_id env i ie who))"
  "pr_value (pr_record cd env i pe who) = Some (enc_pr cd (event_env pr_event_type pr_event_aggregate_id env i pe who))"
  "pr_value (git_record cd env i ge who) = Some (enc_git cd (event_env git_ref_event_type git_ref_event_aggregate_id env i ge who))"
  by (simp_all add: user_record_def repo_record_def issue_record_def pr_record_def git_record_def pending_event_def)

lemma update_records_other:
  assumes "codec_ok cd"
  shows "registrations cd (update_records cd env r p i us) = []" "creations cd (update_records cd env r p i us) = []"
    "numbers cd q (update_records cd env r p i us) = []" "merges_moved cd (update_records cd env r p i us)"
  by (induction us arbitrary: i)
     (simp_all add: registrations_def creations_def numbers_def projections codec_simps [OF assms] split: option.splits)

lemma update_records_events:
  assumes "codec_ok cd"
  shows "ref_events cd (update_records cd env r p i us) =
    map (\<lambda>u. RefUpdated r (ru_name u) (expected_old u) (ru_new u) p False) us"
  by (induction us arbitrary: i)
     (simp_all add: ref_events_def projections codec_simps [OF assms] split: option.splits)

section \<open>One transaction at a time\<close>

lemma projections_append [simp]:
  "registrations cd (xs @ ys) = registrations cd xs @ registrations cd ys"
  "creations cd (xs @ ys) = creations cd xs @ creations cd ys"
  "numbers cd r (xs @ ys) = numbers cd r xs @ numbers cd r ys"
  "ref_events cd (xs @ ys) = ref_events cd xs @ ref_events cd ys"
  by (simp_all add: registrations_def creations_def numbers_def ref_events_def map_filter_append)

lemma merges_moved_append: "merges_moved cd xs \<Longrightarrow> merges_moved cd ys \<Longrightarrow> merges_moved cd (xs @ ys)"
proof (induction xs)
  case (Cons p xs)
  then show ?case by (cases xs) (auto split: option.splits)
qed simp

definition names_agree :: "'j codec \<Rightarrow> 'j pending_record list \<Rightarrow> bool" where
  "names_agree cd log \<longleftrightarrow>
     (\<forall>l uid. (l, uid) \<in> set (registrations cd log) \<longleftrightarrow> tbl_get (claims_of cd log) (user_key l) = Some (UserClaim uid)) \<and>
     (\<forall>n rid. (n, rid) \<in> set (creations cd log) \<longleftrightarrow> tbl_get (claims_of cd log) (repo_key n) = Some (RepoClaim rid)) \<and>
     distinct (map fst (registrations cd log)) \<and> distinct (map fst (creations cd log))"

definition counts_up :: "int list \<Rightarrow> bool" where
  "counts_up xs \<longleftrightarrow> xs = map int [1..<Suc (length xs)]"

lemma counts_up_simps [simp]:
  "counts_up []" "counts_up (xs @ [n]) \<longleftrightarrow> counts_up xs \<and> n = int (length xs) + 1"
  by (auto simp: counts_up_def)

definition numbers_run :: "'j codec \<Rightarrow> 'j pending_record list \<Rightarrow> bool" where
  "numbers_run cd log \<longleftrightarrow> (\<forall>r. counts_up (numbers cd r log) \<and>
     next_issue_number (claims_of cd log) r = int (length (numbers cd r log)) + 1)"

definition reflog_agrees :: "'j codec \<Rightarrow> 'j pending_record list \<Rightarrow> bool" where
  "reflog_agrees cd log \<longleftrightarrow>
     refs_of cd log = foldl (\<lambda>m e. ref_set m (ge_repo e) (ge_ref e) (ge_new e)) [] (ref_events cd log)"

definition history_ok :: "'j codec \<Rightarrow> 'j pending_record list \<Rightarrow> bool" where
  "history_ok cd log \<longleftrightarrow> names_agree cd log \<and> numbers_run cd log \<and> reflog_agrees cd log \<and> merges_moved cd log"

text \<open>The claims a transaction adds, read off its catalog records.\<close>

lemma claims_of_one:
  "codec_ok cd \<Longrightarrow> claims_of cd (log @ [e, pending_state META_CATALOG key (enc_claim cd c)]) =
     tbl_put key c (replay (catalog_apply cd) (claims_of cd log) (topic_records META_CATALOG [e]))"
  by (simp add: claims_of_append catalog_apply_def codec_simps)

lemma claims_of_same: "topic_records META_CATALOG rs = [] \<Longrightarrow> claims_of cd (log @ rs) = claims_of cd log"
  by (simp add: claims_of_append)

lemma refs_of_same: "topic_records GIT_REFS rs = [] \<Longrightarrow> refs_of cd (log @ rs) = refs_of cd log"
  by (simp add: refs_of_append)

definition silent :: "'j codec \<Rightarrow> 'j pending_record list \<Rightarrow> bool" where
  "silent cd rs \<longleftrightarrow> registrations cd rs = [] \<and> creations cd rs = [] \<and> (\<forall>r. numbers cd r rs = [])
     \<and> topic_records META_CATALOG rs = []"

lemma silent_names: "silent cd rs \<Longrightarrow> names_agree cd log \<Longrightarrow> numbers_run cd log \<Longrightarrow>
    names_agree cd (log @ rs) \<and> numbers_run cd (log @ rs)"
  by (simp add: silent_def names_agree_def numbers_run_def claims_of_same)

lemma quiet_refs:
  "topic_records GIT_REFS rs = [] \<Longrightarrow> ref_events cd rs = [] \<Longrightarrow> merges_moved cd rs \<Longrightarrow>
   reflog_agrees cd log \<Longrightarrow> merges_moved cd log \<Longrightarrow> reflog_agrees cd (log @ rs) \<and> merges_moved cd (log @ rs)"
  by (simp add: reflog_agrees_def refs_of_same merges_moved_append)

lemma moved_refs:
  assumes "codec_ok cd" "reflog_agrees cd log"
    and "topic_records GIT_REFS rs = topic_records GIT_REFS (update_records cd env r p i us)"
    and "ref_events cd rs = ref_events cd (update_records cd env r p i us)"
  shows "reflog_agrees cd (log @ rs)"
proof -
  have "foldl (\<lambda>m e. ref_set m (ge_repo e) (ge_ref e) (ge_new e)) m (map (\<lambda>u. RefUpdated r (ru_name u) (expected_old u) (ru_new u) p False) us)
      = foldl (\<lambda>m u. ref_set m r (ru_name u) (ru_new u)) m us" for m
    by (induction us arbitrary: m) simp_all
  then show ?thesis using assms(2)
    by (simp add: reflog_agrees_def refs_of_append assms(3,4) update_records_refs [OF assms(1)]
        update_records_events [OF assms(1)])
qed

lemma name_added:
  assumes ok: "codec_ok cd" and names: "names_agree cd log" "numbers_run cd log"
  shows "tbl_get (claims_of cd log) (user_key l) = None \<Longrightarrow>
      rs = [user_record cd env 0 (UserRegistered uid raw l email hash) who, pending_state META_CATALOG (user_key l) (enc_claim cd (UserClaim uid))] \<Longrightarrow>
      names_agree cd (log @ rs) \<and> numbers_run cd (log @ rs)"
    and "tbl_get (claims_of cd log) (repo_key full) = None \<Longrightarrow>
      rs = [repo_record cd env 0 (RepoCreated rid own own_name nm full d b v) who, pending_state META_CATALOG (repo_key full) (enc_claim cd (RepoClaim rid))] \<Longrightarrow>
      names_agree cd (log @ rs) \<and> numbers_run cd (log @ rs)"
proof -
  assume free: "tbl_get (claims_of cd log) (user_key l) = None"
    and rs: "rs = [user_record cd env 0 (UserRegistered uid raw l email hash) who, pending_state META_CATALOG (user_key l) (enc_claim cd (UserClaim uid))]"
  have p: "registrations cd rs = [(l, uid)]" "creations cd rs = []" "numbers cd r rs = []" for r
    by (simp_all add: rs registrations_def creations_def numbers_def projections codec_simps [OF ok])
  have c: "claims_of cd (log @ rs) = tbl_put (user_key l) (UserClaim uid) (claims_of cd log)"
    using claims_of_one [OF ok] by (simp add: rs)
  have "l \<notin> fst ` set (registrations cd log)" using names(1) free by (force simp: names_agree_def)
  then show "names_agree cd (log @ rs) \<and> numbers_run cd (log @ rs)"
    using names free by (auto simp: names_agree_def numbers_run_def p c catalog_keys next_issue_number_def)
next
  assume free: "tbl_get (claims_of cd log) (repo_key full) = None"
    and rs: "rs = [repo_record cd env 0 (RepoCreated rid own own_name nm full d b v) who, pending_state META_CATALOG (repo_key full) (enc_claim cd (RepoClaim rid))]"
  have p: "registrations cd rs = []" "creations cd rs = [(full, rid)]" "numbers cd r rs = []" for r
    by (simp_all add: rs registrations_def creations_def numbers_def projections codec_simps [OF ok])
  have c: "claims_of cd (log @ rs) = tbl_put (repo_key full) (RepoClaim rid) (claims_of cd log)"
    using claims_of_one [OF ok] by (simp add: rs)
  have "full \<notin> fst ` set (creations cd log)" using names(1) free by (force simp: names_agree_def)
  then show "names_agree cd (log @ rs) \<and> numbers_run cd (log @ rs)"
    using names free by (auto simp: names_agree_def numbers_run_def p c catalog_keys next_issue_number_def)
qed

lemma number_added:
  assumes ok: "codec_ok cd" and names: "names_agree cd log" "numbers_run cd log"
    and n: "n = next_issue_number (claims_of cd log) r"
    and rs: "rs = [e, pending_state META_CATALOG (issue_counter_key r) (enc_claim cd (IssueCounter (n + 1)))]"
    and e: "registration_of cd e = None" "creation_of cd e = None" "\<And>q. number_of cd q e = (if q = r then Some n else None)"
      "pr_topic e \<noteq> META_CATALOG"
  shows "names_agree cd (log @ rs) \<and> numbers_run cd (log @ rs)"
proof -
  have p: "registrations cd rs = []" "creations cd rs = []" "numbers cd q rs = (if q = r then [n] else [])" for q
    by (simp_all add: rs registrations_def creations_def numbers_def e) (simp_all add: projections)
  have c: "claims_of cd (log @ rs) = tbl_put (issue_counter_key r) (IssueCounter (n + 1)) (claims_of cd log)"
    using claims_of_one [OF ok, of log e] e(4) by (simp add: rs)
  have run: "counts_up (numbers cd q log)" "next_issue_number (claims_of cd log) q = int (length (numbers cd q log)) + 1" for q
    using names(2) by (simp_all add: numbers_run_def)
  have "next_issue_number (claims_of cd (log @ rs)) q = (if q = r then n + 1 else next_issue_number (claims_of cd log) q)" for q
    by (simp add: c next_issue_number_def catalog_keys)
  with run n have "numbers_run cd (log @ rs)" by (simp add: numbers_run_def p)
  moreover have "names_agree cd (log @ rs)" using names(1) by (simp add: names_agree_def p c catalog_keys)
  ultimately show ?thesis by simp
qed

lemma single_event:
  assumes "codec_ok cd"
  shows "(\<And>i r n t b a an. ie \<noteq> IssueOpened i r n t b a an) \<Longrightarrow> silent cd [issue_record cd env 0 ie who]"
    and "(\<And>p r n t b a an sb tb h bo. pe \<noteq> PrOpened p r n t b a an sb tb h bo) \<Longrightarrow> silent cd [pr_record cd env 0 pe who]"
    and "(\<And>p r m u un. pe \<noteq> PrMerged p r m u un) \<Longrightarrow> merges_moved cd [pr_record cd env 0 pe who]"
  by (auto simp: silent_def registrations_def creations_def numbers_def projections codec_simps [OF assms]
      split: issue_event.splits pr_event.splits)

lemma attempt_history:
  assumes ok: "codec_ok cd" and att: "attempt cd env svc rs upd"
    and get: "tbl_get (sv_catalog svc) = tbl_get (claims_of cd log)" and hist: "history_ok cd log"
  shows "history_ok cd (log @ rs)"
proof -
  have next_eq: "next_issue_number (sv_catalog svc) r = next_issue_number (claims_of cd log) r" for r
    by (simp add: next_issue_number_def get)
  note h = hist [unfolded history_ok_def]
  have quiet: "reflog_agrees cd (log @ rs) \<and> merges_moved cd (log @ rs)"
    if "topic_records GIT_REFS rs = []" "ref_events cd rs = []" "merges_moved cd rs"
    using quiet_refs [OF that] h by blast
  show ?thesis using att
  proof cases
    case (att_issue e who)
    have "silent cd rs" unfolding att_issue(1) by (rule single_event(1) [OF ok att_issue(3)])
    with silent_names h have "names_agree cd (log @ rs) \<and> numbers_run cd (log @ rs)" by blast
    moreover have "merges_moved cd rs" by (simp add: att_issue projections)
    ultimately show ?thesis using quiet att_issue(1)
      by (simp add: history_ok_def ref_events_def projections)
  next
    case (att_pr e who)
    have "silent cd rs" unfolding att_pr(1) by (rule single_event(2) [OF ok att_pr(3)])
    with silent_names h have "names_agree cd (log @ rs) \<and> numbers_run cd (log @ rs)" by blast
    moreover have "merges_moved cd rs" unfolding att_pr(1) by (rule single_event(3) [OF ok att_pr(4)])
    ultimately show ?thesis using quiet att_pr(1)
      by (simp add: history_ok_def ref_events_def projections)
  next
    case (att_register l uid raw email hash who)
    then have "tbl_get (claims_of cd log) (user_key l) = None"
      by (simp add: is_username_taken_def is_claimed_def get)
    with att_register name_added(1) [OF ok] h quiet show ?thesis
      by (simp add: history_ok_def ref_events_def projections)
  next
    case (att_create full rid own own_name nm d b v who)
    then have "tbl_get (claims_of cd log) (repo_key full) = None"
      by (simp add: is_repo_name_taken_def is_claimed_def get)
    with att_create name_added(2) [OF ok] h quiet show ?thesis
      by (simp add: history_ok_def ref_events_def projections)
  next
    case (att_open_issue n r i t b a an who)
    then have "names_agree cd (log @ rs) \<and> numbers_run cd (log @ rs)"
      using h by (intro number_added [OF ok _ _ _ att_open_issue(1)])
        (auto simp: next_eq projections codec_simps [OF ok])
    with att_open_issue quiet show ?thesis by (simp add: history_ok_def ref_events_def projections)
  next
    case (att_open_pull n r p t b a an sb tb hd bo who)
    then have "names_agree cd (log @ rs) \<and> numbers_run cd (log @ rs)"
      using h by (intro number_added [OF ok _ _ _ att_open_pull(1)])
        (auto simp: next_eq projections codec_simps [OF ok])
    with att_open_pull quiet show ?thesis
      by (simp add: history_ok_def ref_events_def projections codec_simps [OF ok])
  next
    case (att_refs us r pusher)
    then have "silent cd rs" by (simp add: silent_def update_records_other [OF ok])
    moreover have "reflog_agrees cd (log @ rs)"
      using moved_refs [OF ok, of log rs env r pusher 0 us] h att_refs by simp
    moreover have "merges_moved cd (log @ rs)"
      using h att_refs by (simp add: merges_moved_append update_records_other [OF ok])
    ultimately show ?thesis using silent_names [of cd rs log] h unfolding history_ok_def by blast
  next
    case (att_merge r target base p m u un who)
    let ?us = "[\<lparr>ru_name = target, expected_old = Some base, ru_new = Some m\<rparr>]"
    have "silent cd rs"
      by (simp add: att_merge silent_def registrations_def creations_def numbers_def projections codec_simps [OF ok])
    moreover have "reflog_agrees cd (log @ rs)"
      using h by (intro moved_refs [OF ok, of log rs env r u 0 ?us])
        (simp_all add: att_merge ref_events_def projections codec_simps [OF ok])
    moreover have "merges_moved cd rs" by (simp add: att_merge projections codec_simps [OF ok])
    ultimately show ?thesis using silent_names [of cd rs log] merges_moved_append [of cd log rs] h
      unfolding history_ok_def by blast
  qed
qed

lemma reachable_history: "codec_ok cd \<Longrightarrow> reachable cd s \<Longrightarrow> history_ok cd (sy_log s)"
proof (rotate_tac, induction rule: reachable.induct)
  case (reach_boot n)
  show ?case
    by (simp add: history_ok_def names_agree_def numbers_run_def reflog_agrees_def registrations_def
        creations_def numbers_def ref_events_def claims_of_def refs_of_def next_issue_number_def)
next
  case (reach_exec s env cmd svc' landed)
  then have hist: "history_ok cd (sy_log s)" by simp
  have "tbl_get (sv_catalog (sy_svc s)) = tbl_get (claims_of cd (sy_log s))"
    using reachable_in_step [OF reach_exec.prems reach_exec.hyps(1)] reach_exec.hyps(2) by (simp add: in_step_def)
  with exec_step [OF reach_exec.prems reach_exec.hyps(3,4)] attempt_history [OF reach_exec.prems _ _ hist] hist
  show ?case by auto
qed simp

section \<open>A reachable system\<close>

text \<open>A short life, for the witnesses: two users, a repository, an issue, a push, a pull request
  and its merge.\<close>

definition demo_env :: "string \<Rightarrow> cmd_env" where
  "demo_env fresh = \<lparr>fresh_id = fresh, event_meta = (\<lambda>i. (''ev'', int i)),
     txn = \<lparr>env_begin = None, env_acks = replicate 8 (Some (Ok 0)), env_commit = None, env_landed = True\<rparr>,
     create_topics = (\<lambda>_. Ok [])\<rparr>"

definition demo_step :: "string \<Rightarrow> command \<Rightarrow> wire system \<Rightarrow> wire system" where
  "demo_step fresh cmd s = (case exec wire_codec (demo_env fresh) cmd (sy_svc s) of
     (svc', landed) \<Rightarrow> \<lparr>sy_log = sy_log s @ landed, sy_svc = svc'\<rparr>)"

definition demo_oid :: "byte \<Rightarrow> oid" where
  "demo_oid b = Oid (replicate 20 b)"

definition demo_users :: "wire system" where
  "demo_users = demo_step ''u2'' (CRegister ''hubot'' ''h@x'' ''hash'') (demo_step ''u1'' (CRegister ''Octo'' ''o@x'' ''hash'')
     \<lparr>sy_log = [], sy_svc = fresh_service 1\<rparr>)"

definition demo_push :: "wire system" where
  "demo_push = demo_step ''x'' (CUpdateRefs ''r1'' [\<lparr>ru_name = ''refs/heads/main'', expected_old = None, ru_new = Some (demo_oid 1)\<rparr>] ''u1'')
     (demo_step ''i1'' (COpenIssue ''r1'' ''u1'' ''Octo'' '' broken '' None)
       (demo_step ''r1'' (CCreateRepo ''u1'' \<lparr>user_raw = ''Octo'', user_lower = ''octo''\<rparr> ''Hello'' None Public) demo_users))"

definition demo :: "wire system" where
  "demo = demo_step ''x'' (CMerge \<lparr>mp_repo = ''r1'', mp_pr = ''p1'', mp_target_branch = ''main'', mp_expected_base = demo_oid 1,
       mp_expected_head = demo_oid 2, mp_merge_commit = demo_oid 3, mp_merged_by = ''u1'', mp_merged_by_name = ''Octo''\<rparr>)
     (demo_step ''p1'' (COpenPull \<lparr>op_repo = ''r1'', op_author = ''u2'', op_author_name = ''hubot'', op_title = ''fix'', op_body = None,
       op_source_branch = ''fix'', op_target_branch = ''main'', op_head_oid = demo_oid 2, op_base_oid = demo_oid 1\<rparr>) demo_push)"

lemma demo_step_reachable:
  "reachable wire_codec s \<Longrightarrow> alive (sy_svc s) \<Longrightarrow> reachable wire_codec (demo_step fresh cmd s)"
  unfolding demo_step_def
  by (auto intro!: reach_exec [of wire_codec s "demo_env fresh" cmd] simp: demo_env_def broker_truthful_def split: prod.splits)

lemma collect_no_error: "collect_acks ts (replicate n (Some (Ok 0))) offs \<noteq> Err (Some e)"
proof (induction ts arbitrary: n offs)
  case (Cons a ts)
  then show ?case by (cases n) simp_all
qed simp

lemma demo_step_alive: "alive (sy_svc s) \<Longrightarrow> alive (sy_svc (demo_step fresh cmd s))"
proof -
  assume a: "alive (sy_svc s)"
  have keep: "aborted_process w' = aborted_process w" if "transact (txn (demo_env fresh)) rs w = (r, w', l)"
    for rs :: "wire pending_record list" and w r w' l
    using that collect_no_error by (fastforce simp: transact_def demo_env_def split: if_splits sum.splits option.splits prod.splits)
  show ?thesis
  proof (cases "exec wire_codec (demo_env fresh) cmd (sy_svc s) = (sy_svc s, [])")
    case False
    then obtain rs upd where att: "attempt wire_codec (demo_env fresh) (sy_svc s) rs upd"
      and "exec wire_codec (demo_env fresh) cmd (sy_svc s) = effect (demo_env fresh) rs upd (sy_svc s)"
      using exec_attempt by blast
    with a keep show ?thesis
      by (auto simp: demo_step_def effect_def commit_def alive_def attempt_keeps_writer [OF att]
          split: sum.splits prod.splits)
  qed (use a in \<open>simp add: demo_step_def\<close>)
qed

lemma demo_reachable: "reachable wire_codec demo" "alive (sy_svc demo)"
proof -
  have boot: "reachable wire_codec \<lparr>sy_log = [], sy_svc = fresh_service 1\<rparr>" "alive (fresh_service 1)"
    by (rule reach_boot) (simp add: alive_def fresh_service_def)
  then show "reachable wire_codec demo" "alive (sy_svc demo)"
    unfolding demo_def demo_push_def demo_users_def
    by (intro demo_step_reachable demo_step_alive; simp)+
qed

section \<open>The guarantees\<close>

lemma last_new_fold:
  "refs_get (foldl (\<lambda>m e. ref_set m (ge_repo e) (ge_ref e) (ge_new e)) [] es) r n = last_new (ref_key r n) es"
proof (induction es rule: rev_induct)
  case Nil
  show ?case by (simp add: refs_get_def last_new_def)
next
  case (snoc e es)
  have "refs_get (ref_set m (ge_repo e) (ge_ref e) (ge_new e)) r n =
      (if ref_key (ge_repo e) (ge_ref e) = ref_key r n then ge_new e else refs_get m r n)" for m
    by (auto simp: refs_get_set)
  with snoc show ?case by (simp add: last_new_def)
qed

text \<open>What the little history comes to, worked out once.\<close>

definition history_facts :: "wire system \<Rightarrow> bool" where
  "history_facts s \<longleftrightarrow>
     tbl_get (sv_catalog (sy_svc s)) (user_key ''octo'') = Some (UserClaim ''u1'') \<and>
     registrations wire_codec (sy_log s) = [(''octo'', ''u1''), (''hubot'', ''u2'')] \<and>
     numbers wire_codec ''r1'' (sy_log s) = [1, 2] \<and>
     refs_get (sv_refs (sy_svc s)) ''r1'' ''refs/heads/main'' = Some (demo_oid 3)"

lemma demo_history: "history_facts demo"
  by code_simp

text \<open>Property C1: the decision state is the log. In every reachable system whose process is
  alive, after any sequence of commands, failed transactions, crashes and restarts from a
  compacted log, the catalog and the references in memory are what replaying the two state
  topics from the beginning gives.\<close>

theorem decision_state_is_log:
  assumes "codec_ok cd" and "reachable cd s" and "alive (sy_svc s)"
  shows "tbl_get (sv_catalog (sy_svc s)) key =
      tbl_get (replay (catalog_apply cd) [] (topic_records META_CATALOG (sy_log s))) key \<and>
    refs_get (sv_refs (sy_svc s)) repo name =
      refs_get (replay (refs_apply cd) [] (topic_records GIT_REFS (sy_log s))) repo name"
  using reachable_in_step [OF assms(1,2)] assms(3)
  by (simp add: in_step_def claims_of_def refs_of_def refs_get_def)

theorem decision_state_witness:
  "tbl_get (replay (catalog_apply wire_codec) [] (topic_records META_CATALOG (sy_log demo))) (user_key ''octo'')
     = tbl_get (sv_catalog (sy_svc demo)) (user_key ''octo'') \<and>
   tbl_get (sv_catalog (sy_svc demo)) (user_key ''octo'') = Some (UserClaim ''u1'')"
proof -
  have "tbl_get (sv_catalog (sy_svc demo)) (user_key ''octo'') = Some (UserClaim ''u1'')"
    using demo_history by (simp add: history_facts_def)
  with decision_state_is_log [OF wire_codec_ok demo_reachable, of "user_key ''octo''"] show ?thesis by metis
qed

text \<open>Property C2: names are unique for the life of the forge. In the log of every reachable
  system no two registrations have the same lower-case username and no two repositories the
  same lower-case full name, and the catalog claims a name exactly when an event in the log
  took it, for the user or repository of that event.\<close>

theorem names_unique:
  assumes "codec_ok cd" and "reachable cd s"
  shows "distinct (map fst (registrations cd (sy_log s))) \<and> distinct (map fst (creations cd (sy_log s))) \<and>
    ((l, uid) \<in> set (registrations cd (sy_log s)) \<longleftrightarrow> tbl_get (claims_of cd (sy_log s)) (user_key l) = Some (UserClaim uid)) \<and>
    ((n, rid) \<in> set (creations cd (sy_log s)) \<longleftrightarrow> tbl_get (claims_of cd (sy_log s)) (repo_key n) = Some (RepoClaim rid))"
  using reachable_history [OF assms] by (simp add: history_ok_def names_agree_def)

theorem names_unique_witness:
  "registrations wire_codec (sy_log demo) = [(''octo'', ''u1''), (''hubot'', ''u2'')] \<and>
   tbl_get (claims_of wire_codec (sy_log demo)) (user_key ''hubot'') = Some (UserClaim ''u2'')"
proof -
  have "registrations wire_codec (sy_log demo) = [(''octo'', ''u1''), (''hubot'', ''u2'')]"
    using demo_history by (simp add: history_facts_def)
  with names_unique [OF wire_codec_ok demo_reachable(1), of "''hubot''" "''u2''"] show ?thesis by simp
qed

text \<open>Property C3: issue and pull request numbers count up without gaps. The numbers handed out in
  a repository, to issues and pull requests together and in the order of the log, are 1, 2, 3
  and so on; the next one is one more, across failures and restarts.\<close>

theorem numbers_consecutive:
  assumes "codec_ok cd" and "reachable cd s"
  shows "numbers cd repo (sy_log s) = map int [1..<Suc (length (numbers cd repo (sy_log s)))] \<and>
    next_issue_number (claims_of cd (sy_log s)) repo = int (length (numbers cd repo (sy_log s))) + 1"
  using reachable_history [OF assms] by (simp add: history_ok_def numbers_run_def counts_up_def del: upt_Suc)

theorem numbers_consecutive_witness:
  "numbers wire_codec ''r1'' (sy_log demo) = [1, 2] \<and> next_issue_number (claims_of wire_codec (sy_log demo)) ''r1'' = 3"
proof -
  have "numbers wire_codec ''r1'' (sy_log demo) = [1, 2]" using demo_history by (simp add: history_facts_def)
  with numbers_consecutive [OF wire_codec_ok demo_reachable(1), of "''r1''"] show ?thesis by simp
qed

text \<open>Property C4: the reflog never disagrees with where a branch points, and a merge is never
  recorded without its branch moving. In every reachable system with a live process, a
  reference has the new value of the last reflog entry for it; and every merge event in the
  log is followed at once, in the same transaction, by the entry that moves an existing branch
  of its repository to the merge commit.\<close>

theorem reflog_is_truth:
  assumes "codec_ok cd" and "reachable cd s" and "alive (sy_svc s)"
  shows "refs_get (sv_refs (sy_svc s)) repo name = last_new (ref_key repo name) (ref_events cd (sy_log s)) \<and>
    merges_moved cd (sy_log s)"
proof -
  have h: "reflog_agrees cd (sy_log s)" "merges_moved cd (sy_log s)"
    using reachable_history [OF assms(1,2)] by (simp_all add: history_ok_def)
  have "refs_get (sv_refs (sy_svc s)) repo name = refs_get (refs_of cd (sy_log s)) repo name"
    using reachable_in_step [OF assms(1,2)] assms(3) by (simp add: in_step_def refs_get_def)
  with h show ?thesis by (simp add: reflog_agrees_def last_new_fold)
qed

theorem reflog_is_truth_witness:
  "last_new (ref_key ''r1'' ''refs/heads/main'') (ref_events wire_codec (sy_log demo)) = Some (demo_oid 3) \<and>
   merges_moved wire_codec (sy_log demo)"
proof -
  have "refs_get (sv_refs (sy_svc demo)) ''r1'' ''refs/heads/main'' = Some (demo_oid 3)"
    using demo_history by (simp add: history_facts_def)
  with reflog_is_truth [OF wire_codec_ok demo_reachable, of "''r1''" "''refs/heads/main''"] show ?thesis by metis
qed

lemma commit_cases:
  assumes "broker_truthful (txn env)" "commit env rs upd ident svc = (answer, svc', landed)"
  shows "case answer of
      Ok (x, c) \<Rightarrow> x = ident \<and> landed = rs \<and> (\<exists>w. svc' = upd (svc\<lparr>sv_writer := w\<rparr>))
    | Err e \<Rightarrow> (\<exists>w. svc' = svc\<lparr>sv_writer := w\<rparr>) \<and> (landed = [] \<or> \<not> alive svc')"
proof -
  obtain a w l where t: "transact (txn env) rs (sv_writer svc) = (a, w, l)" by (metis prod_cases3)
  show ?thesis
  proof (cases a)
    case (Inl e)
    with t assms(2) transact_landed(2) [OF t assms(1) Inl] show ?thesis
      by (auto simp: commit_def alive_def)
  next
    case (Inr c)
    with t assms(2) transact_landed(1) [OF t assms(1) Inr] show ?thesis by (auto simp: commit_def)
  qed
qed

lemma refs_after_updates:
  "refs_get (foldl (\<lambda>m u. ref_set m r (ru_name u) (ru_new u)) m us) r n =
     (case find (\<lambda>u. ru_name u = n) (rev us) of Some u \<Rightarrow> ru_new u | None \<Rightarrow> refs_get m r n)"
  by (induction us rule: rev_induct) (auto simp: refs_get_set ref_key_inject_repo)

lemma ref_key_no_slash:
  assumes "CHR ''/'' \<notin> set r" "CHR ''/'' \<notin> set q"
  shows "ref_key r a = ref_key q b \<longleftrightarrow> r = q \<and> a = b"
  using assms by (auto simp: ref_key_def append_eq_append_conv2 append_eq_Cons_conv Cons_eq_append_conv)

lemma refs_elsewhere:
  assumes "CHR ''/'' \<notin> set r" "CHR ''/'' \<notin> set q" "q \<noteq> r"
  shows "refs_get (foldl (\<lambda>m u. ref_set m r (ru_name u) (ru_new u)) m us) q n = refs_get m q n"
  using assms by (induction us rule: rev_induct) (auto simp: refs_get_set ref_key_no_slash)

lemma update_records_states:
  "topic_records GIT_REFS (update_records cd env r p i us) =
     map (\<lambda>u. \<lparr>rec_key = Some (ref_key r (ru_name u)), rec_value = map_option (enc_ref cd) (ru_new u)\<rparr>) us"
  "length (update_records cd env r p i us) = 2 * length us"
  by (induction us arbitrary: i) (auto simp: topic_records_def logged_def split: option.splits)

text \<open>The two commands that move references, by outcome.\<close>

lemma update_refs_cases:
  assumes "broker_truthful (txn env)" and "update_refs cd env r us pusher svc = (answer, svc', landed)"
  shows "if list_all (\<lambda>u. ref_check (sv_refs svc) r u = Ok ()) us
    then case answer of
        Ok results \<Rightarrow> landed = update_records cd env r pusher 0 us \<and> list_all (\<lambda>x. outcome x = Ok ()) results \<and>
          results = map (\<lambda>u. \<lparr>rr_name = ru_name u, outcome = Ok ()\<rparr>) us \<and>
          (\<exists>w. svc' = set_refs r us (svc\<lparr>sv_writer := w\<rparr>))
      | Err e \<Rightarrow> sv_refs svc' = sv_refs svc \<and> (landed = [] \<or> \<not> alive svc')
    else answer = Ok (check_all (sv_refs svc) r us) \<and> svc' = svc \<and> landed = []"
proof (cases "us = [] \<or> \<not> list_all (\<lambda>u. ref_check (sv_refs svc) r u = Ok ()) us")
  case True
  show ?thesis
  proof (cases "us = []")
    case True
    have "\<exists>w. svc = svc\<lparr>sv_writer := w\<rparr>" by (rule exI [of _ "sv_writer svc"]) simp
    with True assms(2) show ?thesis by (auto simp: update_refs_def set_refs_def)
  next
    case False
    with True have bad: "\<not> list_all (\<lambda>u. ref_check (sv_refs svc) r u = Ok ()) us" by simp
    then have "rejected (check_all (sv_refs svc) r us)" by (auto simp: rejected_iff list_all_iff)
    with False bad assms(2) show ?thesis by (auto simp: update_refs_def Let_def)
  qed
next
  case False
  then have nr: "\<not> rejected (check_all (sv_refs svc) r us)" by (auto simp: rejected_iff list_all_iff)
  obtain a s l where c: "commit env (update_records cd env r pusher 0 us) (set_refs r us) (check_all (sv_refs svc) r us) svc = (a, s, l)"
    by (metis prod_cases3)
  have out: "svc' = s" "landed = l" "answer = (case a of Err e \<Rightarrow> Err e | Ok (rs, _) \<Rightarrow> Ok rs)"
    using assms(2) False nr c by (auto simp: update_refs_def Let_def split: sum.splits)
  show ?thesis
    using commit_cases [OF assms(1) c] False out
    by (cases a) (auto simp: check_all_def list_all_iff)
qed

text \<open>What a merge writes: an event that says the pull request is merged, by whom and into which
  commit; an event that says its target branch has moved from the expected base to the merge
  commit; and the merge commit as the value of the reference. Events lie under the key of the
  repository.\<close>

definition merge_told :: "'j codec \<Rightarrow> merge_pull_request \<Rightarrow> 'j pending_record list \<Rightarrow> bool" where
  "merge_told cd req rs \<longleftrightarrow> (\<exists>told moved. map pr_topic rs = [EVENTS_PRS, EVENTS_GIT_REFS, GIT_REFS] \<and>
     map pr_key rs = [mp_repo req, mp_repo req, mp_repo req @ ''/refs/heads/'' @ mp_target_branch req] \<and>
     map pr_value rs = [Some (enc_pr cd told), Some (enc_git cd moved), Some (enc_ref cd (mp_merge_commit req))] \<and>
     payload told = PrMerged (mp_pr req) (mp_repo req) (mp_merge_commit req) (mp_merged_by req) (mp_merged_by_name req) \<and>
     payload moved = RefUpdated (mp_repo req) (''refs/heads/'' @ mp_target_branch req)
       (Some (mp_expected_base req)) (Some (mp_merge_commit req)) (mp_merged_by req) False)"

lemma merge_pull_cases:
  assumes "broker_truthful (txn env)" and "merge_pull cd env req svc = (answer, svc', landed)"
  shows "if refs_get (sv_refs svc) (mp_repo req) (''refs/heads/'' @ mp_target_branch req) = Some (mp_expected_base req)
    then case answer of
        Ok (pr, _) \<Rightarrow> pr = mp_pr req \<and> length landed = 3 \<and> merge_told cd req landed \<and>
          (\<exists>w. svc' = svc\<lparr>sv_writer := w, sv_refs := ref_set (sv_refs svc) (mp_repo req)
             (''refs/heads/'' @ mp_target_branch req) (Some (mp_merge_commit req))\<rparr>)
      | Err e \<Rightarrow> sv_refs svc' = sv_refs svc \<and> (landed = [] \<or> \<not> alive svc')
    else answer = Err (StaleMerge (to_hex (mp_expected_base req))
        (map_option to_hex (refs_get (sv_refs svc) (mp_repo req) (''refs/heads/'' @ mp_target_branch req)))) \<and>
      svc' = svc \<and> landed = []"
proof (cases "refs_get (sv_refs svc) (mp_repo req) (''refs/heads/'' @ mp_target_branch req) = Some (mp_expected_base req)")
  case True
  define target where "target = ''refs/heads/'' @ mp_target_branch req"
  define rs where "rs = [pr_record cd env 0 (PrMerged (mp_pr req) (mp_repo req) (mp_merge_commit req) (mp_merged_by req)
        (mp_merged_by_name req)) (Some (mp_merged_by req)),
      git_record cd env 1 (RefUpdated (mp_repo req) target (Some (mp_expected_base req)) (Some (mp_merge_commit req))
        (mp_merged_by req) False) (Some (mp_merged_by req)),
      pending_state GIT_REFS (ref_key (mp_repo req) target) (enc_ref cd (mp_merge_commit req))]"
  define upd where "upd = (\<lambda>s :: service. s\<lparr>sv_refs := ref_set (sv_refs s) (mp_repo req) target (Some (mp_merge_commit req))\<rparr>)"
  have "commit env rs upd (mp_pr req) svc = (answer, svc', landed)"
    unfolding assms(2) [symmetric] merge_pull_def Let_def target_def [symmetric] rs_def upd_def
    by (simp only: True [folded target_def] simp_thms if_False)
  note landing = commit_cases [OF assms(1) this]
  have told: "merge_told cd req rs"
    unfolding merge_told_def rs_def target_def
    by (rule exI [of _ "event_env pr_event_type pr_event_aggregate_id env 0 (PrMerged (mp_pr req) (mp_repo req)
          (mp_merge_commit req) (mp_merged_by req) (mp_merged_by_name req)) (Some (mp_merged_by req))"],
        rule exI [of _ "event_env git_ref_event_type git_ref_event_aggregate_id env 1 (RefUpdated (mp_repo req)
          (''refs/heads/'' @ mp_target_branch req) (Some (mp_expected_base req)) (Some (mp_merge_commit req))
          (mp_merged_by req) False) (Some (mp_merged_by req))"])
       (simp add: ref_key_def pending_state_def pr_record_def git_record_def pending_event_def event_env_def envelope_new_def
        pr_event_topic_def git_ref_event_topic_def pr_event_aggregate_id_def git_ref_event_aggregate_id_def)
  from landing told show ?thesis unfolding target_def [symmetric]
    using True [folded target_def] by (cases answer) (auto simp: rs_def upd_def)
next
  case False
  with assms(2) show ?thesis unfolding merge_pull_def Let_def by auto
qed

text \<open>Property C5: a push is all or nothing, and each of its updates is a compare-and-swap. If any
  update fails its check, every update gets the outcome of its own check and nothing is written
  or changed. Otherwise every update saw the current value, and either all of it is committed or,
  when the transaction fails, no reference moves and nothing reaches the log while the process
  lives. Committed means: for each update, in order, the log has a reflog entry with the old and
  the new value and the new value (or a deletion) under the key of the reference; a reference
  named by the push has the value its last update gave it (updates that name one reference twice
  are all accepted, and the last one counts), and every other reference, of this repository or
  of another, and the catalog are as before. Ids of repositories hold no slash, which a UUID
  never does.\<close>

theorem update_refs_atomic:
  assumes "broker_truthful (txn env)" "codec_ok cd" and "us \<noteq> []"
    and "CHR ''/'' \<notin> set r" "CHR ''/'' \<notin> set q"
    and "update_refs cd env r us pusher svc = (answer, svc', landed)"
  shows "if list_all (\<lambda>u. ref_check (sv_refs svc) r u = Ok ()) us
    then list_all (\<lambda>u. refs_get (sv_refs svc) r (ru_name u) = expected_old u) us \<and>
      (case answer of
         Ok results \<Rightarrow> results = map (\<lambda>u. \<lparr>rr_name = ru_name u, outcome = Ok ()\<rparr>) us \<and> length landed = 2 * length us \<and>
           ref_events cd landed = map (\<lambda>u. RefUpdated r (ru_name u) (expected_old u) (ru_new u) pusher False) us \<and>
           topic_records GIT_REFS landed = map (\<lambda>u. \<lparr>rec_key = Some (r @ ''/'' @ ru_name u),
             rec_value = map_option (enc_ref cd) (ru_new u)\<rparr>) us \<and>
           refs_get (sv_refs svc') r n = (case find (\<lambda>u. ru_name u = n) (rev us) of
             Some u \<Rightarrow> ru_new u | None \<Rightarrow> refs_get (sv_refs svc) r n) \<and>
           (q \<noteq> r \<longrightarrow> refs_get (sv_refs svc') q n = refs_get (sv_refs svc) q n) \<and> sv_catalog svc' = sv_catalog svc
       | Err e \<Rightarrow> sv_refs svc' = sv_refs svc \<and> (landed = [] \<or> \<not> alive svc'))
    else answer = Ok (map (\<lambda>u. \<lparr>rr_name = ru_name u, outcome = ref_check (sv_refs svc) r u\<rparr>) us) \<and>
      svc' = svc \<and> landed = []"
proof (cases "list_all (\<lambda>u. ref_check (sv_refs svc) r u = Ok ()) us")
  case False
  with update_refs_cases [OF assms(1,6)] show ?thesis by (simp add: check_all_def)
next
  case True
  then have cas: "list_all (\<lambda>u. refs_get (sv_refs svc) r (ru_name u) = expected_old u) us"
    by (auto simp: list_all_iff ref_check_Ok_iff)
  show ?thesis
  proof (cases answer)
    case (Inl e)
    with update_refs_cases [OF assms(1,6)] True cas show ?thesis by auto
  next
    case (Inr results)
    with update_refs_cases [OF assms(1,6)] True obtain w where s: "svc' = set_refs r us (svc\<lparr>sv_writer := w\<rparr>)"
      and l: "landed = update_records cd env r pusher 0 us"
      and res: "results = map (\<lambda>u. \<lparr>rr_name = ru_name u, outcome = Ok ()\<rparr>) us" by auto
    show ?thesis
      using True cas Inr res update_records_states [of cd env r pusher 0 us] update_records_events [OF assms(2)] refs_elsewhere [OF assms(4,5)]
      by (cases "q = r") (simp_all add: s l set_refs_def refs_after_updates ref_key_def)
  qed
qed

definition demo_updates :: "ref_update list" where
  "demo_updates = [\<lparr>ru_name = ''refs/heads/main'', expected_old = Some (demo_oid 1), ru_new = Some (demo_oid 9)\<rparr>,
     \<lparr>ru_name = ''refs/heads/new'', expected_old = None, ru_new = Some (demo_oid 9)\<rparr>]"

definition push_facts :: "wire system \<Rightarrow> bool" where
  "push_facts s \<longleftrightarrow> list_all (\<lambda>u. ref_check (sv_refs (sy_svc s)) ''r1'' u = Ok ()) demo_updates \<and>
     (case fst (update_refs wire_codec (demo_env ''x'') ''r1'' demo_updates ''u1'' (sy_svc s)) of Ok _ \<Rightarrow> True | Err _ \<Rightarrow> False) \<and>
     refs_get (sv_refs (sy_svc s)) ''r1'' ''refs/heads/main'' = Some (demo_oid 1)"

lemma demo_push_facts: "push_facts demo_push"
  by code_simp

theorem update_refs_atomic_witness:
  "\<exists>results svc' landed. update_refs wire_codec (demo_env ''x'') ''r1''
      [\<lparr>ru_name = ''refs/heads/main'', expected_old = Some (demo_oid 1), ru_new = Some (demo_oid 9)\<rparr>,
       \<lparr>ru_name = ''refs/heads/new'', expected_old = None, ru_new = Some (demo_oid 9)\<rparr>] ''u1'' (sy_svc demo_push)
      = (Ok results, svc', landed) \<and>
    refs_get (sv_refs svc') ''r1'' ''refs/heads/main'' = Some (demo_oid 9) \<and>
    refs_get (sv_refs svc') ''r2'' ''refs/heads/main'' = refs_get (sv_refs (sy_svc demo_push)) ''r2'' ''refs/heads/main''"
proof -
  let ?us = "[\<lparr>ru_name = ''refs/heads/main'', expected_old = Some (demo_oid 1), ru_new = Some (demo_oid 9)\<rparr>,
       \<lparr>ru_name = ''refs/heads/new'', expected_old = None, ru_new = Some (demo_oid 9)\<rparr>]"
  have truth: "broker_truthful (txn (demo_env ''x''))" by (simp add: broker_truthful_def demo_env_def)
  have ok: "list_all (\<lambda>u. ref_check (sv_refs (sy_svc demo_push)) ''r1'' u = Ok ()) ?us"
    using demo_push_facts by (simp add: push_facts_def demo_updates_def)
  have ans: "(case fst (update_refs wire_codec (demo_env ''x'') ''r1'' ?us ''u1'' (sy_svc demo_push)) of
      Ok _ \<Rightarrow> True | Err _ \<Rightarrow> False)" using demo_push_facts by (simp add: push_facts_def demo_updates_def)
  obtain a svc' landed where run: "update_refs wire_codec (demo_env ''x'') ''r1'' ?us ''u1'' (sy_svc demo_push) = (a, svc', landed)"
    by (metis prod_cases3)
  with ans obtain results where a: "a = Ok results" by (cases a) auto
  have ids: "CHR ''/'' \<notin> set ''r1''" "CHR ''/'' \<notin> set ''r2''" by simp_all
  from update_refs_atomic [OF truth wire_codec_ok _ ids run, of "''refs/heads/main''"] ok a run show ?thesis by auto
qed

text \<open>Property C6: a merge lands only on the base the reviewer saw. When the target branch is not
  at the expected base the merge is refused with both values and nothing changes; otherwise it
  is committed as a whole or not at all. Committed means: the log says, in this order, that the
  pull request was merged (by whom, into which commit), that the target branch moved from the
  expected base to the merge commit, and that the reference now is the merge commit; the branch
  is there, and every other reference, of this repository or of another, and the catalog are as
  before. The expected head the request carries plays no part in the decision. Ids of
  repositories hold no slash.\<close>

theorem merge_pull_cas:
  assumes "broker_truthful (txn env)" and "CHR ''/'' \<notin> set (mp_repo req)" "CHR ''/'' \<notin> set q"
    and "merge_pull cd env req svc = (answer, svc', landed)"
  shows "(if refs_get (sv_refs svc) (mp_repo req) (''refs/heads/'' @ mp_target_branch req) = Some (mp_expected_base req)
    then (case answer of
        Ok (pr, _) \<Rightarrow> pr = mp_pr req \<and> merge_told cd req landed \<and> sv_catalog svc' = sv_catalog svc \<and>
          refs_get (sv_refs svc') q n =
            (if q = mp_repo req \<and> n = ''refs/heads/'' @ mp_target_branch req then Some (mp_merge_commit req)
             else refs_get (sv_refs svc) q n)
      | Err e \<Rightarrow> sv_refs svc' = sv_refs svc \<and> (landed = [] \<or> \<not> alive svc'))
    else answer = Err (StaleMerge (to_hex (mp_expected_base req))
        (map_option to_hex (refs_get (sv_refs svc) (mp_repo req) (''refs/heads/'' @ mp_target_branch req)))) \<and>
      svc' = svc \<and> landed = []) \<and>
    merge_pull cd env (req\<lparr>mp_expected_head := h\<rparr>) svc = (answer, svc', landed)"
proof -
  have "merge_pull cd env (req\<lparr>mp_expected_head := h\<rparr>) svc = merge_pull cd env req svc"
    by (simp add: merge_pull_def Let_def cong: if_cong)
  with merge_pull_cases [OF assms(1,4)] assms(4) show ?thesis
    by (cases answer) (auto simp: refs_get_set ref_key_no_slash [OF assms(3,2)] split: if_splits)
qed

definition demo_merge_req :: "oid \<Rightarrow> merge_pull_request" where
  "demo_merge_req base = \<lparr>mp_repo = ''r1'', mp_pr = ''p1'', mp_target_branch = ''main'', mp_expected_base = base,
     mp_expected_head = demo_oid 2, mp_merge_commit = demo_oid 3, mp_merged_by = ''u1'', mp_merged_by_name = ''Octo''\<rparr>"

definition merge_facts :: "wire system \<Rightarrow> bool" where
  "merge_facts s \<longleftrightarrow> refs_get (sv_refs (sy_svc s)) ''r1'' ''refs/heads/main'' = Some (demo_oid 1) \<and>
     (case fst (merge_pull wire_codec (demo_env ''x'') (demo_merge_req (demo_oid 1)) (sy_svc s)) of Ok _ \<Rightarrow> True | Err _ \<Rightarrow> False)"

lemma demo_merge_facts: "merge_facts demo_push"
  by code_simp

theorem merge_pull_witness:
  "(\<exists>k svc' landed. merge_pull wire_codec (demo_env ''x'') (demo_merge_req (demo_oid 1)) (sy_svc demo_push) = (Ok (''p1'', k), svc', landed) \<and>
      merge_told wire_codec (demo_merge_req (demo_oid 1)) landed \<and>
      refs_get (sv_refs svc') ''r1'' ''refs/heads/main'' = Some (demo_oid 3)) \<and>
    fst (merge_pull wire_codec (demo_env ''x'') (demo_merge_req (demo_oid 7)) (sy_svc demo_push)) =
      Err (StaleMerge (to_hex (demo_oid 7)) (Some (to_hex (demo_oid 1))))"
proof -
  have truth: "broker_truthful (txn (demo_env ''x''))" by (simp add: broker_truthful_def demo_env_def)
  have ids: "CHR ''/'' \<notin> set (mp_repo (demo_merge_req b))" "CHR ''/'' \<notin> set ''r1''" for b by (simp_all add: demo_merge_req_def)
  obtain a svc' landed where run: "merge_pull wire_codec (demo_env ''x'') (demo_merge_req (demo_oid 1)) (sy_svc demo_push) = (a, svc', landed)"
    by (metis prod_cases3)
  obtain a' svc'' landed' where run': "merge_pull wire_codec (demo_env ''x'') (demo_merge_req (demo_oid 7)) (sy_svc demo_push) = (a', svc'', landed')"
    by (metis prod_cases3)
  have cur: "refs_get (sv_refs (sy_svc demo_push)) ''r1'' ''refs/heads/main'' = Some (demo_oid 1)"
    and ans: "case a of Ok _ \<Rightarrow> True | Err _ \<Rightarrow> False" using demo_merge_facts run by (simp_all add: merge_facts_def)
  have diff: "demo_oid 1 \<noteq> demo_oid 7" by (simp add: demo_oid_def)
  from ans obtain p k where a: "a = Ok (p, k)" by (cases a) auto
  show ?thesis
    using merge_pull_cas [OF truth ids run, of "''refs/heads/main''"] a run cur
      merge_pull_cas [OF truth ids run'] run' diff
    by (simp add: demo_merge_req_def)
qed

section \<open>Observations\<close>

text \<open>Two updates of one reference in a push are both compared with the value before the push, so
  both are accepted and the second reflog entry does not start where the first one ended.\<close>

definition double_update :: "ref_update list" where
  "double_update = [\<lparr>ru_name = ''refs/heads/b'', expected_old = None, ru_new = Some (demo_oid 5)\<rparr>,
     \<lparr>ru_name = ''refs/heads/b'', expected_old = None, ru_new = Some (demo_oid 6)\<rparr>]"

lemma double_update_accepted:
  "case update_refs wire_codec (demo_env ''x'') ''r1'' double_update ''u1'' (fresh_service 1) of
     (Ok _, svc', landed) \<Rightarrow> map ge_old (ref_events wire_codec landed) = [None, None] \<and>
       map ge_new (ref_events wire_codec landed) = [Some (demo_oid 5), Some (demo_oid 6)] \<and>
       refs_get (sv_refs svc') ''r1'' ''refs/heads/b'' = Some (demo_oid 6)
   | _ \<Rightarrow> False"
  by code_simp

text \<open>The body of an issue is only tested for being blank: the limit for bodies is not applied.\<close>

lemma issue_body_unbounded:
  assumes "trim body \<noteq> []"
  shows "open_issue cd env repo author author_name title (Some body) svc =
    (case validated title ''title'' MAX_TITLE of Err e \<Rightarrow> (Err e, svc, []) | Ok t \<Rightarrow>
      (let n = next_issue_number (sv_catalog svc) repo in
       commit env [issue_record cd env 0 (IssueOpened (fresh_id env) repo n t (Some body) author author_name) (Some author),
           pending_state META_CATALOG (issue_counter_key repo) (enc_claim cd (IssueCounter (n + 1)))]
         (claim_it cd (issue_counter_key repo) (IssueCounter (n + 1))) (fresh_id env) svc))"
  using assms by (simp add: open_issue_def non_blank_def Let_def split: sum.splits)

end
