(* ===== verification/Read_Tables.thy ===== *)
theory Read_Tables
  imports Keyed_Table Value_Types
begin

text \<open>
  How the read model uses SQL (\<open>forge-store/src/lib.rs\<close> and the statements of the other files of
  that crate): a table is a map from its primary key, \<open>INSERT .. ON CONFLICT (key) DO UPDATE SET\<close>
  overwrites the listed columns and keeps the rest, a \<open>UNIQUE\<close> constraint (from
  \<open>migrations/0001_schema.sql\<close>) refuses the statement, and a listing is a filter, an order and a
  limit. The tables the projector owns share the contract of the locale \<open>upserted\<close>.
\<close>

section \<open>Statements\<close>

datatype sql_error = Sql string

type_synonym timestamp = int

definition clash :: "('r \<Rightarrow> 'u) \<Rightarrow> 'k \<Rightarrow> 'r \<Rightarrow> ('k, 'r) table \<Rightarrow> bool" where
  "clash uniq k row t \<longleftrightarrow> list_ex (\<lambda>(k', r). k' \<noteq> k \<and> uniq r = uniq row) t"

text \<open>The row an upsert leaves: the new one, or the old one with the listed columns taken from it.\<close>

definition stored_row :: "('r \<Rightarrow> 'k) \<Rightarrow> ('r \<Rightarrow> 'r \<Rightarrow> 'r) \<Rightarrow> 'r \<Rightarrow> ('k, 'r) table \<Rightarrow> 'r" where
  "stored_row pk set_cols excluded t =
     (case tbl_get t (pk excluded) of None \<Rightarrow> excluded | Some old \<Rightarrow> set_cols old excluded)"

definition upsert_row ::
    "string \<Rightarrow> ('r \<Rightarrow> 'k) \<Rightarrow> ('r \<Rightarrow> 'u) \<Rightarrow> ('r \<Rightarrow> 'r \<Rightarrow> 'r) \<Rightarrow> 'r \<Rightarrow> ('k, 'r) table \<Rightarrow>
      (('k, 'r) table, sql_error) result" where
  "upsert_row name pk uniq set_cols excluded t =
     (let row = stored_row pk set_cols excluded t in
      if clash uniq (pk excluded) row t then Err (Sql name) else Ok (tbl_put (pk excluded) row t))"

text \<open>Read, modify, write, as the projector updates one row; a row that is not there is skipped.\<close>

definition modify_row ::
    "string \<Rightarrow> ('r \<Rightarrow> 'k) \<Rightarrow> ('r \<Rightarrow> 'u) \<Rightarrow> ('r \<Rightarrow> 'r \<Rightarrow> 'r) \<Rightarrow> 'k \<Rightarrow> ('r \<Rightarrow> 'r) \<Rightarrow> ('k, 'r) table \<Rightarrow>
      (('k, 'r) table, sql_error) result" where
  "modify_row name pk uniq set_cols k f t = (case tbl_get t k of
     None \<Rightarrow> Ok t
   | Some r \<Rightarrow> upsert_row name pk uniq set_cols (f r) t)"

text \<open>\<open>ON CONFLICT DO NOTHING\<close>.\<close>

definition insert_new :: "('r \<Rightarrow> 'k) \<Rightarrow> 'r \<Rightarrow> ('k, 'r) table \<Rightarrow> ('k, 'r) table" where
  "insert_new pk row t = (case tbl_get t (pk row) of None \<Rightarrow> tbl_put (pk row) row t | Some _ \<Rightarrow> t)"

text \<open>\<open>UPDATE .. WHERE key = .. AND condition\<close>; the flag is whether a row was updated.\<close>

definition update_where ::
    "'k \<Rightarrow> ('r \<Rightarrow> bool) \<Rightarrow> ('r \<Rightarrow> 'r) \<Rightarrow> ('k, 'r) table \<Rightarrow> bool \<times> ('k, 'r) table" where
  "update_where k cond f t = (case tbl_get t k of
     Some r \<Rightarrow> if cond r then (True, tbl_put k (f r) t) else (False, t)
   | None \<Rightarrow> (False, t))"

definition MAX_PAGE_SIZE :: int where
  "MAX_PAGE_SIZE = 100"

definition page_size :: "int \<Rightarrow> nat" where
  "page_size requested = nat (max 1 (min MAX_PAGE_SIZE requested))"

definition rows_where :: "('r \<Rightarrow> bool) \<Rightarrow> ('k, 'r) table \<Rightarrow> 'r list" where
  "rows_where P t = filter P (map snd t)"

definition asc_by :: "('r \<Rightarrow> 'o::linorder) \<Rightarrow> 'r list \<Rightarrow> 'r list" where
  "asc_by f rs = sort_key f rs"

definition desc_by :: "('r \<Rightarrow> 'o::linorder) \<Rightarrow> 'r list \<Rightarrow> 'r list" where
  "desc_by f rs = rev (sort_key f rs)"

lemma page_size_bounds: "1 \<le> page_size n \<and> page_size n \<le> 100"
  by (auto simp: page_size_def MAX_PAGE_SIZE_def)

lemma tbl_ball: "tbl_wf t \<Longrightarrow> (\<forall>x\<in>set t. P x) \<longleftrightarrow> (\<forall>k r. tbl_get t k = Some r \<longrightarrow> P (k, r))"
  by (simp add: tbl_get_in [symmetric]) auto

lemma tbl_bex: "tbl_wf t \<Longrightarrow> (\<exists>x\<in>set t. P x) \<longleftrightarrow> (\<exists>k r. tbl_get t k = Some r \<and> P (k, r))"
  by (simp add: tbl_get_in [symmetric]) auto

lemma set_rows_where: "tbl_wf t \<Longrightarrow> set (rows_where P t) = {r. P r \<and> (\<exists>k. tbl_get t k = Some r)}"
  by (simp add: rows_where_def tbl_get_in [symmetric]) force

lemma update_where_get:
  "update_where k cond f t = (b, t') \<Longrightarrow>
     tbl_get t' k' = (if b \<and> k' = k then map_option f (tbl_get t k) else tbl_get t k')"
  by (auto simp: update_where_def split: option.splits if_splits)

lemma update_where_hit:
  "update_where k cond f t = (b, t') \<Longrightarrow> b = (case tbl_get t k of Some r \<Rightarrow> cond r | None \<Rightarrow> False)"
  "update_where k cond f t = (b, t') \<Longrightarrow> \<not> b \<Longrightarrow> t' = t"
  by (auto simp: update_where_def split: option.splits if_splits)

lemma update_where_wf: "update_where k cond f t = (b, t') \<Longrightarrow> tbl_wf t \<Longrightarrow> tbl_wf t'"
  by (auto simp: update_where_def split: option.splits if_splits)

lemma update_where_twice:
  assumes "update_where k cond f t = (b, t')" "\<And>r. cond r \<Longrightarrow> cond (f r)" "\<And>r. f (f r) = f r"
  shows "update_where k cond f t' = (b, t')"
proof (cases "tbl_get t k")
  case (Some r)
  then show ?thesis
    using assms by (cases "cond r") (auto simp: update_where_def tbl_put_idem)
qed (use assms(1) in \<open>auto simp: update_where_def\<close>)

lemma insert_new_get:
  "tbl_get (insert_new pk row t) k =
     (if k = pk row \<and> tbl_get t k = None then Some row else tbl_get t k)"
  by (auto simp: insert_new_def split: option.splits)

lemma insert_new_wf [simp]: "tbl_wf t \<Longrightarrow> tbl_wf (insert_new pk row t)"
  by (simp add: insert_new_def split: option.splits)

lemma insert_new_twice [simp]: "insert_new pk row (insert_new pk row t) = insert_new pk row t"
proof (cases "tbl_get t (pk row)")
  case None
  then have "tbl_get (insert_new pk row t) (pk row) = Some row"
    by (simp add: insert_new_get)
  then show ?thesis by (simp add: insert_new_def [of pk row "insert_new pk row t"])
qed (simp add: insert_new_def)

section \<open>Upserted tables\<close>

text \<open>A table is sound when every row is stored under its own key and no two rows share the
  unique columns.\<close>

definition rows_ok :: "('r \<Rightarrow> 'k) \<Rightarrow> ('r \<Rightarrow> 'u) \<Rightarrow> ('k, 'r) table \<Rightarrow> bool" where
  "rows_ok pk uniq t \<longleftrightarrow> tbl_wf t \<and> list_all (\<lambda>(k, r). pk r = k) t \<and>
     list_all (\<lambda>(k, r). \<not> clash uniq k r t) t"

lemma rows_ok_Nil [simp]: "rows_ok pk uniq []"
  by (simp add: rows_ok_def)

lemma clash_iff: "tbl_wf t \<Longrightarrow> clash uniq k row t \<longleftrightarrow>
    (\<exists>k' r. tbl_get t k' = Some r \<and> k' \<noteq> k \<and> uniq r = uniq row)"
  by (simp add: clash_def list_ex_iff tbl_bex)

lemma rows_ok_iff: "rows_ok pk uniq t \<longleftrightarrow> tbl_wf t \<and>
    (\<forall>k r. tbl_get t k = Some r \<longrightarrow> pk r = k) \<and>
    (\<forall>k k' r r'. tbl_get t k = Some r \<longrightarrow> tbl_get t k' = Some r' \<longrightarrow> uniq r = uniq r' \<longrightarrow> k = k')"
proof (cases "tbl_wf t")
  case True
  have "list_all (\<lambda>(k, r). pk r = k) t \<longleftrightarrow> (\<forall>k r. tbl_get t k = Some r \<longrightarrow> pk r = k)"
    using True by (simp add: list_all_iff tbl_ball)
  moreover have "list_all (\<lambda>(k, r). \<not> clash uniq k r t) t \<longleftrightarrow>
      (\<forall>k k' r r'. tbl_get t k = Some r \<longrightarrow> tbl_get t k' = Some r' \<longrightarrow> uniq r = uniq r' \<longrightarrow> k = k')"
    using True by (simp add: list_all_iff tbl_ball clash_iff) metis
  ultimately show ?thesis using True by (simp add: rows_ok_def)
qed (simp add: rows_ok_def)

lemma rows_ok_wf [simp]: "rows_ok pk uniq t \<Longrightarrow> tbl_wf t"
  by (simp add: rows_ok_def)

lemma rows_ok_pk: "rows_ok pk uniq t \<Longrightarrow> tbl_get t k = Some r \<Longrightarrow> pk r = k"
  by (simp add: rows_ok_iff)

text \<open>An update that keeps the key and the unique columns keeps the table sound.\<close>

lemma rows_ok_update:
  assumes "update_where k cond f t = (b, t')" "rows_ok pk uniq t"
    and keeps: "\<And>r. pk (f r) = pk r" "\<And>r. uniq (f r) = uniq r"
  shows "rows_ok pk uniq t'"
proof -
  have get: "tbl_get t' k' = (if b \<and> k' = k then map_option f (tbl_get t k) else tbl_get t k')" for k'
    using assms(1) by (rule update_where_get)
  have origin: "\<exists>r0. tbl_get t k' = Some r0 \<and> pk r = pk r0 \<and> uniq r = uniq r0"
    if "tbl_get t' k' = Some r" for k' r
    using that keeps by (auto simp: get split: if_splits)
  show ?thesis unfolding rows_ok_iff
  proof (intro conjI allI impI)
    show "tbl_wf t'" using assms(1,2) by (auto intro: update_where_wf)
    show "pk r = k'" if "tbl_get t' k' = Some r" for k' r
      using origin [OF that] assms(2) by (auto dest: rows_ok_pk)
    show "k1 = k2" if "tbl_get t' k1 = Some r" "tbl_get t' k2 = Some r'" "uniq r = uniq r'" for k1 k2 r r'
      using origin [OF that(1)] origin [OF that(2)] that(3) assms(2) unfolding rows_ok_iff by metis
  qed
qed


lemma clash_put [simp]: "clash uniq k row (tbl_put k r t) = clash uniq k row t"
  unfolding tbl_put_def by (induction t) (auto simp: clash_def)

locale upserted =
  fixes pk :: "'r \<Rightarrow> 'k"
    and uniq :: "'r \<Rightarrow> 'u"
    and set_cols :: "'r \<Rightarrow> 'r \<Rightarrow> 'r"
  assumes pk_set: "pk (set_cols old new) = pk old"
    and set_set: "set_cols (set_cols a b) c = set_cols a c"
    and set_self: "set_cols r r = r"
    and uniq_set: "uniq (set_cols old new) = uniq new \<or> uniq (set_cols old new) = uniq old"
begin

abbreviation (input) stored where
  "stored \<equiv> stored_row pk set_cols"

lemma upsert_eq:
  "upsert_row name pk uniq set_cols new t =
     (if clash uniq (pk new) (stored new t) t then Err (Sql name)
      else Ok (tbl_put (pk new) (stored new t) t))"
  by (simp add: upsert_row_def Let_def)

lemma upsert_get:
  "upsert_row name pk uniq set_cols new t = Ok t' \<Longrightarrow>
     tbl_get t' k = (if k = pk new then Some (stored new t) else tbl_get t k)"
  by (auto simp: upsert_eq split: if_splits)

lemma pk_stored: "rows_ok pk uniq t \<Longrightarrow> pk (stored new t) = pk new"
  by (auto simp: stored_row_def pk_set dest: rows_ok_pk split: option.splits)

lemma upsert_rows_ok:
  assumes "upsert_row name pk uniq set_cols new t = Ok t'" "rows_ok pk uniq t"
  shows "rows_ok pk uniq t'"
proof -
  have t': "t' = tbl_put (pk new) (stored new t) t" and free: "\<not> clash uniq (pk new) (stored new t) t"
    using assms(1) by (auto simp: upsert_eq split: if_splits)
  have wf: "tbl_wf t" using assms(2) by simp
  have other: "k = pk new" if "tbl_get t k = Some r" "uniq r = uniq (stored new t)" for k r
    using free that unfolding clash_iff [OF wf] by blast
  show ?thesis unfolding rows_ok_iff t'
  proof (intro conjI allI impI)
    show "tbl_wf (tbl_put (pk new) (stored new t) t)" using wf by simp
    show "pk r = k" if "tbl_get (tbl_put (pk new) (stored new t) t) k = Some r" for k r
      using that assms(2) by (auto simp: pk_stored dest: rows_ok_pk split: if_splits)
    show "k = k'" if "tbl_get (tbl_put (pk new) (stored new t) t) k = Some r"
        "tbl_get (tbl_put (pk new) (stored new t) t) k' = Some r'" "uniq r = uniq r'" for k k' r r'
      using that assms(2) other [of k r] other [of k' r'] unfolding rows_ok_iff
      by (auto split: if_splits)
  qed
qed

text \<open>Applying a statement again changes nothing.\<close>

lemma stored_again: "tbl_get t (pk new) = Some (stored new t0) \<Longrightarrow> stored new t = stored new t0"
  by (auto simp: stored_row_def set_set set_self split: option.splits)

lemma upsert_twice:
  assumes "upsert_row name pk uniq set_cols new t = Ok t'"
  shows "upsert_row name pk uniq set_cols new t' = Ok t'"
proof -
  have t': "t' = tbl_put (pk new) (stored new t) t" and free: "\<not> clash uniq (pk new) (stored new t) t"
    using assms by (auto simp: upsert_eq split: if_splits)
  have "stored new t' = stored new t"
    by (rule stored_again) (simp add: t')
  then show ?thesis using free by (simp add: upsert_eq t' tbl_put_idem)
qed

text \<open>Read, modify, write: the row that is written is the modified one, except for the columns
  an update does not list.\<close>

lemma stored_modify: "tbl_get t (pk new) = Some old \<Longrightarrow> stored new t = set_cols old new"
  by (simp add: stored_row_def)

text \<open>A change of one row that keeps its insert-only columns, made twice at the same instant.\<close>

lemma modify_row_get:
  assumes "rows_ok pk uniq t" "\<And>r. pk (f r) = pk r" "\<And>r. set_cols r (f r) = f r"
    and "modify_row name pk uniq set_cols k f t = Ok t'"
  shows "rows_ok pk uniq t' \<and> tbl_get t' k' = (if k' = k then map_option f (tbl_get t k) else tbl_get t k')"
proof (cases "tbl_get t k")
  case None
  then show ?thesis using assms(1,4) by (auto simp: modify_row_def)
next
  case (Some r)
  have up: "upsert_row name pk uniq set_cols (f r) t = Ok t'"
    using assms(4) by (simp add: modify_row_def Some)
  have "pk (f r) = k" using assms(1,2) Some rows_ok_pk by metis
  then show ?thesis
    using upsert_get [OF up, of k'] upsert_rows_ok [OF up assms(1)] assms(3)
    by (simp add: stored_row_def Some)
qed

lemma modify_row_twice:
  assumes "rows_ok pk uniq t" "\<And>r. pk (f r) = pk r" "\<And>r. set_cols r (f r) = f r"
    and "\<And>r. f (f r) = f r" "modify_row name pk uniq set_cols k f t = Ok t'"
  shows "rows_ok pk uniq t' \<and> modify_row name pk uniq set_cols k f t' = Ok t'"
proof (cases "tbl_get t k")
  case None
  then show ?thesis using assms(1,5) by (auto simp: modify_row_def)
next
  case (Some r)
  have up: "upsert_row name pk uniq set_cols (f r) t = Ok t'"
    using assms(5) by (simp add: modify_row_def Some)
  have get: "tbl_get t' k = Some (f r)"
    using modify_row_get [OF assms(1-3,5), of k] Some by simp
  show ?thesis
    using upsert_twice [OF up] upsert_rows_ok [OF up assms(1)]
    by (simp add: modify_row_def get assms(4))
qed

lemma upsert_fails:
  assumes "upsert_row name pk uniq set_cols new t = Err e" "tbl_wf t"
  shows "\<exists>k' r'. k' \<noteq> pk new \<and> tbl_get t k' = Some r' \<and> uniq r' = uniq (stored new t)"
  using assms by (auto simp: upsert_eq clash_iff split: if_splits)

lemma modify_row_fails:
  assumes "rows_ok pk uniq t" "\<And>r. pk (f r) = pk r" "\<And>r. set_cols r (f r) = f r"
    and "modify_row name pk uniq set_cols k f t = Err e"
  shows "\<exists>r k' r'. tbl_get t k = Some r \<and> k' \<noteq> k \<and> tbl_get t k' = Some r' \<and> uniq r' = uniq (f r)"
proof (cases "tbl_get t k")
  case None
  then show ?thesis using assms(4) by (simp add: modify_row_def)
next
  case (Some r)
  have up: "upsert_row name pk uniq set_cols (f r) t = Err e"
    using assms(4) by (simp add: modify_row_def Some)
  have "pk (f r) = k" using assms(1,2) Some rows_ok_pk by metis
  then show ?thesis
    using upsert_fails [OF up] assms(1,3) Some by (auto simp: stored_row_def)
qed

text \<open>A statement that writes back what is there is a no-op.\<close>

lemma upsert_noop:
  assumes "rows_ok pk uniq t" "tbl_get t (pk new) = Some r" "set_cols r new = r"
  shows "upsert_row name pk uniq set_cols new t = Ok t"
proof -
  have row: "stored new t = r" using assms(2,3) by (simp add: stored_row_def)
  have "\<not> clash uniq (pk new) r t"
  proof
    assume "clash uniq (pk new) r t"
    then obtain k' r' where "tbl_get t k' = Some r'" "k' \<noteq> pk new" "uniq r' = uniq r"
      using assms(1) by (auto simp: clash_iff)
    then show False using assms(1,2) unfolding rows_ok_iff by blast
  qed
  then show ?thesis using assms(2) by (simp add: upsert_eq row tbl_put_same)
qed

end

section \<open>Listings\<close>

text \<open>A listing whose order is strict: the rows after the last one of a page are exactly those
  below its key, so a page that starts below a cursor neither repeats nor skips a row.\<close>

lemma sorted_strict: "sorted_wrt (<) (map f rs) \<longleftrightarrow> sorted (map f rs) \<and> distinct (map f rs)"
  by (rule strict_sorted_iff)

lemma desc_by_strict:
  assumes "distinct rs" "inj_on f (set rs)"
  shows "sorted_wrt (\<lambda>a b. f b < f a) (desc_by f rs)"
proof -
  have "distinct (map f (sort_key f rs))" using assms by (simp add: distinct_map)
  moreover have "sorted (map f (sort_key f rs))" by simp
  ultimately have "sorted_wrt (<) (map f (sort_key f rs))"
    by (simp add: strict_sorted_iff)
  then show ?thesis by (simp add: desc_by_def sorted_wrt_rev sorted_wrt_map)
qed

lemma desc_page:
  assumes "sorted_wrt (\<lambda>a b. f b < (f a :: 'o::linorder)) (p @ q)" "p \<noteq> []"
  shows "filter (\<lambda>r. f r < f (last p)) (p @ q) = q"
proof -
  obtain p' l where p: "p = p' @ [l]" using assms(2) by (cases p rule: rev_cases) auto
  have "\<forall>r\<in>set p'. \<not> f r < f l" "\<forall>r\<in>set q. f r < f l"
    using assms(1) by (auto simp: p sorted_wrt_append)
  then show ?thesis by (simp add: p filter_empty_conv)
qed

lemma filter_desc: "filter P (desc_by f rs) = desc_by f (filter P rs)"
  by (simp add: desc_by_def rev_filter [symmetric] filter_sort)

lemma set_desc_by [simp]: "set (desc_by f rs) = set rs"
  by (simp add: desc_by_def)

lemma length_desc_by [simp]: "length (desc_by f rs) = length rs"
  by (simp add: desc_by_def)

lemma distinct_rows: "tbl_wf t \<Longrightarrow> (\<And>k r. tbl_get t k = Some r \<Longrightarrow> pk r = k) \<Longrightarrow> distinct (rows_where P t)"
proof -
  assume wf: "tbl_wf t" and key: "\<And>k r. tbl_get t k = Some r \<Longrightarrow> pk r = k"
  have keys: "map fst t = map pk (map snd t)"
    using wf key by (auto simp: tbl_get_in)
  have "distinct (map fst t)" using wf by (simp add: tbl_wf_def)
  then have "distinct (map snd t)"
    unfolding keys distinct_map by blast
  then show ?thesis by (simp add: rows_where_def)
qed

lemma rows_where_filter: "filter Q (rows_where P t) = rows_where (\<lambda>r. P r \<and> Q r) t"
  by (simp add: rows_where_def conj_commute)

lemma length_rows_where: "length (rows_where P t) \<le> length t"
  unfolding rows_where_def using length_filter_le [of P "map snd t"] by simp

end
