(* ===== verification/Read_Model.thy ===== *)
theory Read_Model
  imports Read_Tables "HOL-Library.Multiset"
begin

text \<open>
  The projection tables and the statements of \<open>forge-store\<close>: \<open>users.rs\<close>, \<open>repos.rs\<close>,
  \<open>issues.rs\<close>, \<open>pulls.rs\<close>, \<open>ci.rs\<close>, \<open>hooks.rs\<close>. Columns are those of the source's row structs,
  timestamps are instants in microseconds, and a \<open>jsonb\<close> merge check is the value it encodes.
  Every upserted table is an interpretation of the contract \<open>upserted\<close>.
\<close>

section \<open>Users and repositories\<close>

record user_row =
  ur_user_id :: user_id
  ur_username :: string
  ur_username_lower :: string
  ur_email :: string
  ur_password_hash :: string
  ur_display_name :: "string option"
  ur_bio :: "string option"
  ur_state :: string
  ur_created_at :: timestamp
  ur_updated_at :: timestamp

definition users_set :: "user_row \<Rightarrow> user_row \<Rightarrow> user_row" where
  "users_set old excluded = old\<lparr>
     ur_username := ur_username excluded, ur_username_lower := ur_username_lower excluded,
     ur_email := ur_email excluded, ur_password_hash := ur_password_hash excluded,
     ur_display_name := ur_display_name excluded, ur_bio := ur_bio excluded,
     ur_state := ur_state excluded, ur_updated_at := ur_updated_at excluded\<rparr>"

type_synonym users_table = "(user_id, user_row) table"

definition users_upsert :: "user_row \<Rightarrow> users_table \<Rightarrow> (users_table, sql_error) result" where
  "users_upsert = upsert_row ''users'' ur_user_id ur_username_lower users_set"

definition user_by_username_lower :: "string \<Rightarrow> users_table \<Rightarrow> user_row option" where
  "user_by_username_lower lower t =
     map_option snd (List.find (\<lambda>(_, r). ur_username_lower r = lower) t)"

interpretation users: upserted ur_user_id ur_username_lower users_set
  by unfold_locales (auto simp: users_set_def)

record repo_row =
  rp_repo_id :: repo_id
  rp_owner_id :: user_id
  rp_owner_name :: string
  rp_name :: string
  rp_full_name_lower :: string
  rp_description :: "string option"
  rp_default_branch :: string
  rp_visibility :: string
  rp_created_at :: timestamp
  rp_updated_at :: timestamp
  rp_deleted :: bool

definition repos_set :: "repo_row \<Rightarrow> repo_row \<Rightarrow> repo_row" where
  "repos_set old excluded = old\<lparr>
     rp_owner_id := rp_owner_id excluded, rp_owner_name := rp_owner_name excluded,
     rp_name := rp_name excluded, rp_full_name_lower := rp_full_name_lower excluded,
     rp_description := rp_description excluded, rp_default_branch := rp_default_branch excluded,
     rp_visibility := rp_visibility excluded, rp_updated_at := rp_updated_at excluded,
     rp_deleted := rp_deleted excluded\<rparr>"

type_synonym repos_table = "(repo_id, repo_row) table"

definition repos_upsert :: "repo_row \<Rightarrow> repos_table \<Rightarrow> (repos_table, sql_error) result" where
  "repos_upsert = upsert_row ''repos'' rp_repo_id rp_full_name_lower repos_set"

definition repo_by_full_name :: "string \<Rightarrow> repos_table \<Rightarrow> repo_row option" where
  "repo_by_full_name lower t =
     map_option snd (List.find (\<lambda>(_, r). rp_full_name_lower r = lower) t)"

text \<open>A user's repositories, newest first: keyset paging on the id.\<close>

definition repos_for_owner :: "user_id \<Rightarrow> repo_id option \<Rightarrow> nat \<Rightarrow> repos_table \<Rightarrow> repo_row list" where
  "repos_for_owner owner before limit t = take limit (desc_by rp_repo_id (rows_where (\<lambda>r.
     rp_owner_id r = owner \<and> \<not> rp_deleted r \<and>
     (case before of Some cursor \<Rightarrow> rp_repo_id r < cursor | None \<Rightarrow> True)) t))"

interpretation repos: upserted rp_repo_id rp_full_name_lower repos_set
  by unfold_locales (auto simp: repos_set_def)

section \<open>Issues\<close>

record issue_row =
  ir_issue_id :: issue_id
  ir_repo_id :: repo_id
  ir_number :: int
  ir_title :: string
  ir_body :: "string option"
  ir_author_id :: user_id
  ir_author_name :: string
  ir_state :: string
  ir_comment_count :: int
  ir_created_at :: timestamp
  ir_updated_at :: timestamp
  ir_closed_at :: "timestamp option"

definition issue_is_open :: "issue_row \<Rightarrow> bool" where
  "issue_is_open r \<longleftrightarrow> ir_state r = ''open''"

definition issues_set :: "issue_row \<Rightarrow> issue_row \<Rightarrow> issue_row" where
  "issues_set old excluded = old\<lparr>
     ir_title := ir_title excluded, ir_body := ir_body excluded, ir_state := ir_state excluded,
     ir_comment_count := ir_comment_count excluded, ir_updated_at := ir_updated_at excluded,
     ir_closed_at := ir_closed_at excluded\<rparr>"

type_synonym issues_table = "(issue_id, issue_row) table"

definition issue_number :: "issue_row \<Rightarrow> repo_id \<times> int" where
  "issue_number r = (ir_repo_id r, ir_number r)"

definition issues_upsert :: "issue_row \<Rightarrow> issues_table \<Rightarrow> (issues_table, sql_error) result" where
  "issues_upsert = upsert_row ''issues'' ir_issue_id issue_number issues_set"

definition issue_by_number :: "repo_id \<Rightarrow> int \<Rightarrow> issues_table \<Rightarrow> issue_row option" where
  "issue_by_number repo n t = map_option snd (List.find (\<lambda>(_, r). issue_number r = (repo, n)) t)"

definition issues_list :: "repo_id \<Rightarrow> bool \<Rightarrow> int option \<Rightarrow> nat \<Rightarrow> issues_table \<Rightarrow> issue_row list" where
  "issues_list repo open_ones before limit t =
     (let state = (if open_ones then ''open'' else ''closed'') in
      take limit (desc_by ir_number (rows_where (\<lambda>r.
        ir_repo_id r = repo \<and> ir_state r = state \<and>
        (case before of Some cursor \<Rightarrow> ir_number r < cursor | None \<Rightarrow> True)) t)))"

interpretation issues: upserted ir_issue_id issue_number issues_set
  by unfold_locales (auto simp: issues_set_def issue_number_def)

record comment_row =
  cr_comment_id :: comment_id
  cr_issue_id :: issue_id
  cr_repo_id :: repo_id
  cr_author_id :: user_id
  cr_author_name :: string
  cr_body :: string
  cr_created_at :: timestamp
  cr_updated_at :: timestamp

type_synonym comments_table = "(comment_id, comment_row) table"

definition insert_comment :: "comment_row \<Rightarrow> comments_table \<Rightarrow> comments_table" where
  "insert_comment = insert_new cr_comment_id"

definition comments_of :: "issue_id \<Rightarrow> nat \<Rightarrow> comments_table \<Rightarrow> comment_row list" where
  "comments_of issue limit t =
     take limit (asc_by cr_comment_id (rows_where (\<lambda>r. cr_issue_id r = issue) t))"

record counters =
  open_issues :: int
  closed_issues :: int

definition counters_default :: counters where
  "counters_default = \<lparr>open_issues = 0, closed_issues = 0\<rparr>"

type_synonym counters_table = "(repo_id, counters) table"

definition counters_of :: "repo_id \<Rightarrow> counters_table \<Rightarrow> counters" where
  "counters_of repo t = (case tbl_get t repo of None \<Rightarrow> counters_default | Some c \<Rightarrow> c)"

definition count_state :: "repo_id \<Rightarrow> string \<Rightarrow> issues_table \<Rightarrow> int" where
  "count_state repo state t =
     int (length (rows_where (\<lambda>r. ir_repo_id r = repo \<and> ir_state r = state) t))"

definition refresh_counters :: "repo_id \<Rightarrow> issues_table \<Rightarrow> counters_table \<Rightarrow> counters_table" where
  "refresh_counters repo issues t =
     tbl_put repo \<lparr>open_issues = count_state repo ''open'' issues,
                   closed_issues = count_state repo ''closed'' issues\<rparr> t"

section \<open>Pull requests\<close>

datatype mergeable = Unknown | Clean | Conflict

definition mergeable_as_str :: "mergeable \<Rightarrow> string" where
  "mergeable_as_str m = (case m of Unknown \<Rightarrow> ''unknown'' | Clean \<Rightarrow> ''clean'' | Conflict \<Rightarrow> ''conflict'')"

definition mergeable_parse :: "string \<Rightarrow> mergeable" where
  "mergeable_parse s = (if s = ''clean'' then Clean else if s = ''conflict'' then Conflict else Unknown)"

record merge_check =
  mc_verdict :: string
  mc_head :: string
  mc_base :: string
  mc_paths :: "string list"

definition merge_check_clean :: "string \<Rightarrow> string \<Rightarrow> merge_check" where
  "merge_check_clean head base =
     \<lparr>mc_verdict = mergeable_as_str Clean, mc_head = head, mc_base = base, mc_paths = []\<rparr>"

definition merge_check_conflict :: "string \<Rightarrow> string \<Rightarrow> string list \<Rightarrow> merge_check" where
  "merge_check_conflict head base paths =
     \<lparr>mc_verdict = mergeable_as_str Conflict, mc_head = head, mc_base = base, mc_paths = paths\<rparr>"

record pull_row =
  pl_pr_id :: pr_id
  pl_repo_id :: repo_id
  pl_number :: int
  pl_title :: string
  pl_body :: "string option"
  pl_author_id :: user_id
  pl_author_name :: string
  pl_state :: string
  pl_source_branch :: string
  pl_target_branch :: string
  pl_head_oid :: string
  pl_base_oid :: string
  pl_merge_check :: "merge_check option"
  pl_merge_commit_oid :: "string option"
  pl_merged_by_name :: "string option"
  pl_comment_count :: int
  pl_created_at :: timestamp
  pl_updated_at :: timestamp
  pl_merged_at :: "timestamp option"
  pl_closed_at :: "timestamp option"

definition pull_is_open :: "pull_row \<Rightarrow> bool" where
  "pull_is_open r \<longleftrightarrow> pl_state r = ''open''"

definition pull_is_merged :: "pull_row \<Rightarrow> bool" where
  "pull_is_merged r \<longleftrightarrow> pl_state r = ''merged''"

definition mergeability :: "pull_row \<Rightarrow> mergeable" where
  "mergeability r = (case pl_merge_check r of
     Some check \<Rightarrow> if mc_head check = pl_head_oid r \<and> mc_base check = pl_base_oid r
       then mergeable_parse (mc_verdict check) else Unknown
   | None \<Rightarrow> Unknown)"

definition conflicts :: "pull_row \<Rightarrow> string list" where
  "conflicts r = (case pl_merge_check r of
     Some check \<Rightarrow> if mc_head check = pl_head_oid r \<and> mc_base check = pl_base_oid r
       then mc_paths check else []
   | None \<Rightarrow> [])"

definition can_merge :: "pull_row \<Rightarrow> bool" where
  "can_merge r \<longleftrightarrow> pull_is_open r \<and> mergeability r = Clean"

definition pulls_set :: "pull_row \<Rightarrow> pull_row \<Rightarrow> pull_row" where
  "pulls_set old excluded = old\<lparr>
     pl_title := pl_title excluded, pl_body := pl_body excluded, pl_state := pl_state excluded,
     pl_head_oid := pl_head_oid excluded, pl_base_oid := pl_base_oid excluded,
     pl_merge_check := pl_merge_check excluded,
     pl_merge_commit_oid := pl_merge_commit_oid excluded,
     pl_merged_by_name := pl_merged_by_name excluded,
     pl_comment_count := pl_comment_count excluded, pl_updated_at := pl_updated_at excluded,
     pl_merged_at := pl_merged_at excluded, pl_closed_at := pl_closed_at excluded\<rparr>"

type_synonym pulls_table = "(pr_id, pull_row) table"

definition pull_number :: "pull_row \<Rightarrow> repo_id \<times> int" where
  "pull_number r = (pl_repo_id r, pl_number r)"

definition pulls_upsert :: "pull_row \<Rightarrow> pulls_table \<Rightarrow> (pulls_table, sql_error) result" where
  "pulls_upsert = upsert_row ''pulls'' pl_pr_id pull_number pulls_set"

definition pull_by_number :: "repo_id \<Rightarrow> int \<Rightarrow> pulls_table \<Rightarrow> pull_row option" where
  "pull_by_number repo n t = map_option snd (List.find (\<lambda>(_, r). pull_number r = (repo, n)) t)"

definition pulls_list :: "repo_id \<Rightarrow> bool \<Rightarrow> nat \<Rightarrow> pulls_table \<Rightarrow> pull_row list" where
  "pulls_list repo open_ones limit t =
     take limit (desc_by pl_number (rows_where (\<lambda>r.
       pl_repo_id r = repo \<and> (if open_ones then pl_state r = ''open'' else pl_state r \<noteq> ''open'')) t))"

definition open_targeting :: "repo_id \<Rightarrow> string \<Rightarrow> pulls_table \<Rightarrow> pull_row list" where
  "open_targeting repo branch t = rows_where (\<lambda>r.
     pl_repo_id r = repo \<and> pl_state r = ''open'' \<and> pl_target_branch r = branch) t"

definition open_from :: "repo_id \<Rightarrow> string \<Rightarrow> pulls_table \<Rightarrow> pull_row list" where
  "open_from repo branch t = rows_where (\<lambda>r.
     pl_repo_id r = repo \<and> pl_state r = ''open'' \<and> pl_source_branch r = branch) t"

definition record_check :: "pr_id \<Rightarrow> merge_check \<Rightarrow> timestamp \<Rightarrow> pulls_table \<Rightarrow> bool \<times> pulls_table" where
  "record_check pr check at = update_where pr
     (\<lambda>r. pl_head_oid r = mc_head check \<and> pl_base_oid r = mc_base check)
     (\<lambda>r. r\<lparr>pl_merge_check := Some check, pl_updated_at := at\<rparr>)"

interpretation pulls: upserted pl_pr_id pull_number pulls_set
  by unfold_locales (auto simp: pulls_set_def pull_number_def)

record review_row =
  rv_review_id :: comment_id
  rv_pr_id :: pr_id
  rv_repo_id :: repo_id
  rv_reviewer_id :: user_id
  rv_reviewer_name :: string
  rv_verdict :: string
  rv_body :: "string option"
  rv_created_at :: timestamp

type_synonym reviews_table = "(comment_id, review_row) table"

definition insert_review :: "review_row \<Rightarrow> reviews_table \<Rightarrow> reviews_table" where
  "insert_review = insert_new rv_review_id"

definition reviews_of :: "pr_id \<Rightarrow> reviews_table \<Rightarrow> review_row list" where
  "reviews_of pr t = asc_by rv_review_id (rows_where (\<lambda>r. rv_pr_id r = pr) t)"

section \<open>Runs and jobs\<close>

record run_row =
  rn_run_id :: run_id
  rn_repo_id :: repo_id
  rn_number :: int
  rn_workflow :: string
  rn_event :: string
  rn_head_oid :: string
  rn_ref_name :: string
  rn_actor_name :: string
  rn_status :: string
  rn_created_at :: timestamp
  rn_updated_at :: timestamp
  rn_started_at :: "timestamp option"
  rn_finished_at :: "timestamp option"

definition run_is_finished :: "run_row \<Rightarrow> bool" where
  "run_is_finished r \<longleftrightarrow> rn_status r \<in> {''success'', ''failed'', ''cancelled''}"

definition runs_set :: "run_row \<Rightarrow> run_row \<Rightarrow> run_row" where
  "runs_set old excluded = old\<lparr>
     rn_status := rn_status excluded, rn_updated_at := rn_updated_at excluded,
     rn_started_at := rn_started_at excluded, rn_finished_at := rn_finished_at excluded\<rparr>"

type_synonym runs_table = "(run_id, run_row) table"

definition run_number :: "run_row \<Rightarrow> repo_id \<times> int" where
  "run_number r = (rn_repo_id r, rn_number r)"

definition upsert_run :: "run_row \<Rightarrow> runs_table \<Rightarrow> (runs_table, sql_error) result" where
  "upsert_run = upsert_row ''ci_runs'' rn_run_id run_number runs_set"

interpretation runs: upserted rn_run_id run_number runs_set
  by unfold_locales (auto simp: runs_set_def run_number_def)

record job_row =
  jb_job_id :: job_id
  jb_run_id :: run_id
  jb_repo_id :: repo_id
  jb_name :: string
  jb_image :: string
  jb_status :: string
  jb_attempt :: int
  jb_exit_code :: "int option"
  jb_log_offset :: "int option"
  jb_created_at :: timestamp
  jb_updated_at :: timestamp
  jb_started_at :: "timestamp option"
  jb_finished_at :: "timestamp option"

definition job_is_finished :: "job_row \<Rightarrow> bool" where
  "job_is_finished r \<longleftrightarrow>
     jb_status r \<in> {''success'', ''failed'', ''timed_out'', ''infra_failed'', ''cancelled''}"

definition jobs_set :: "job_row \<Rightarrow> job_row \<Rightarrow> job_row" where
  "jobs_set old excluded = old\<lparr>
     jb_status := jb_status excluded, jb_attempt := jb_attempt excluded,
     jb_exit_code := jb_exit_code excluded, jb_log_offset := jb_log_offset excluded,
     jb_updated_at := jb_updated_at excluded, jb_started_at := jb_started_at excluded,
     jb_finished_at := jb_finished_at excluded\<rparr>"

type_synonym jobs_table = "(job_id, job_row) table"

definition job_slot :: "job_row \<Rightarrow> run_id \<times> string" where
  "job_slot r = (jb_run_id r, jb_name r)"

definition upsert_job :: "job_row \<Rightarrow> jobs_table \<Rightarrow> (jobs_table, sql_error) result" where
  "upsert_job = upsert_row ''ci_jobs'' jb_job_id job_slot jobs_set"

interpretation jobs: upserted jb_job_id job_slot jobs_set
  by unfold_locales (auto simp: jobs_set_def job_slot_def)

definition claim_job :: "job_id \<Rightarrow> int \<Rightarrow> int \<Rightarrow> timestamp \<Rightarrow> jobs_table \<Rightarrow> bool \<times> jobs_table" where
  "claim_job job attempt log_offset at = update_where job
     (\<lambda>r. jb_status r = ''queued'')
     (\<lambda>r. r\<lparr>jb_status := ''running'', jb_attempt := attempt, jb_log_offset := Some log_offset,
           jb_started_at := Some at, jb_updated_at := at\<rparr>)"

definition finish_job ::
    "job_id \<Rightarrow> int \<Rightarrow> string \<Rightarrow> int option \<Rightarrow> timestamp \<Rightarrow> jobs_table \<Rightarrow> bool \<times> jobs_table" where
  "finish_job job attempt status exit_code at = update_where job
     (\<lambda>r. jb_attempt r = attempt)
     (\<lambda>r. r\<lparr>jb_status := status, jb_exit_code := exit_code, jb_finished_at := Some at,
           jb_updated_at := at\<rparr>)"

definition next_run_number :: "repo_id \<Rightarrow> runs_table \<Rightarrow> int" where
  "next_run_number repo t =
     (case take 1 (desc_by rn_number (rows_where (\<lambda>r. rn_repo_id r = repo) t)) of
        [] \<Rightarrow> 0 | r # _ \<Rightarrow> rn_number r) + 1"

definition queued_jobs :: "jobs_table \<Rightarrow> int" where
  "queued_jobs t = int (length (rows_where (\<lambda>r. jb_status r = ''queued'') t))"

definition jobs_of :: "run_id \<Rightarrow> jobs_table \<Rightarrow> job_row list" where
  "jobs_of run t = asc_by jb_name (rows_where (\<lambda>r. jb_run_id r = run) t)"

definition runs_for_repo :: "repo_id \<Rightarrow> nat \<Rightarrow> runs_table \<Rightarrow> run_row list" where
  "runs_for_repo repo limit t = take limit (desc_by rn_run_id (rows_where (\<lambda>r. rn_repo_id r = repo) t))"

definition runs_for_commit :: "string \<Rightarrow> nat \<Rightarrow> runs_table \<Rightarrow> run_row list" where
  "runs_for_commit head limit t = take limit (desc_by rn_run_id (rows_where (\<lambda>r. rn_head_oid r = head) t))"

section \<open>Webhooks\<close>

record webhook_row =
  wh_webhook_id :: string
  wh_repo_id :: repo_id
  wh_url :: string
  wh_secret :: string
  wh_events :: "string list"
  wh_active :: bool
  wh_created_at :: timestamp
  wh_updated_at :: timestamp

text \<open>The slice of \<open>prefix_matches\<close> cuts at the length of a prefix, so it is what is left of it.\<close>

definition prefix_matches :: "string \<Rightarrow> string \<Rightarrow> bool" where
  "prefix_matches pattern event_ty = (case strip_suffix ''.*'' pattern of
     None \<Rightarrow> False
   | Some prefix \<Rightarrow> starts_with prefix event_ty \<and> starts_with ''.'' (drop (length prefix) event_ty))"

definition wants :: "webhook_row \<Rightarrow> string \<Rightarrow> bool" where
  "wants h event_ty \<longleftrightarrow> wh_active h \<and>
     list_ex (\<lambda>w. w = ''*'' \<or> w = event_ty \<or> prefix_matches w event_ty) (wh_events h)"

definition webhooks_set :: "webhook_row \<Rightarrow> webhook_row \<Rightarrow> webhook_row" where
  "webhooks_set old excluded = old\<lparr>
     wh_url := wh_url excluded, wh_secret := wh_secret excluded, wh_events := wh_events excluded,
     wh_active := wh_active excluded, wh_updated_at := wh_updated_at excluded\<rparr>"

type_synonym webhooks_table = "(string, webhook_row) table"

text \<open>The table has no unique columns beside its key.\<close>

definition webhooks_upsert :: "webhook_row \<Rightarrow> webhooks_table \<Rightarrow> (webhooks_table, sql_error) result" where
  "webhooks_upsert = upsert_row ''webhooks'' wh_webhook_id wh_webhook_id webhooks_set"

interpretation webhooks: upserted wh_webhook_id wh_webhook_id webhooks_set
  by unfold_locales (auto simp: webhooks_set_def)

definition webhooks_for_repo :: "repo_id \<Rightarrow> webhooks_table \<Rightarrow> webhook_row list" where
  "webhooks_for_repo repo t = rows_where (\<lambda>r. wh_repo_id r = repo) t"

record delivery_row =
  dl_delivery_id :: string
  dl_webhook_id :: string
  dl_repo_id :: repo_id
  dl_event_type :: string
  dl_event_id :: string
  dl_attempt :: int
  dl_status :: string
  dl_status_code :: "int option"
  dl_error :: "string option"
  dl_duration_ms :: "int option"
  dl_created_at :: timestamp

type_synonym deliveries_table = "(string, delivery_row) table"

definition record_attempt :: "delivery_row \<Rightarrow> deliveries_table \<Rightarrow> (deliveries_table, sql_error) result" where
  "record_attempt d t = (case tbl_get t (dl_delivery_id d) of
     Some _ \<Rightarrow> Err (Sql ''webhook_deliveries'')
   | None \<Rightarrow> Ok (tbl_put (dl_delivery_id d) d t))"

definition recent_deliveries :: "string \<Rightarrow> nat \<Rightarrow> deliveries_table \<Rightarrow> delivery_row list" where
  "recent_deliveries hook limit t =
     take limit (desc_by dl_delivery_id (rows_where (\<lambda>d. dl_webhook_id d = hook) t))"

section \<open>Cursors\<close>

definition PROJECTOR :: string where "PROJECTOR = ''projector''"
definition WEBHOOK_MATCHER :: string where "WEBHOOK_MATCHER = ''webhook-matcher''"
definition WEBHOOK_WORKER :: string where "WEBHOOK_WORKER = ''webhook-worker''"
definition CI_ORCHESTRATOR :: string where "CI_ORCHESTRATOR = ''ci-orchestrator''"

type_synonym cursors_table = "(string \<times> string \<times> int, int) table"

definition applied_offset_for :: "string \<Rightarrow> string \<Rightarrow> int \<Rightarrow> cursors_table \<Rightarrow> int" where
  "applied_offset_for reader topic part t =
     (case tbl_get t (reader, topic, part) of None \<Rightarrow> 0 | Some offset \<Rightarrow> offset)"

definition applied_offset :: "string \<Rightarrow> string \<Rightarrow> cursors_table \<Rightarrow> int" where
  "applied_offset reader topic t = applied_offset_for reader topic 0 t"

definition set_applied_offset_for :: "string \<Rightarrow> string \<Rightarrow> int \<Rightarrow> int \<Rightarrow> cursors_table \<Rightarrow> cursors_table" where
  "set_applied_offset_for reader topic part offset t = tbl_put (reader, topic, part) offset t"

definition set_applied_offset :: "string \<Rightarrow> string \<Rightarrow> int \<Rightarrow> cursors_table \<Rightarrow> cursors_table" where
  "set_applied_offset reader topic offset t = set_applied_offset_for reader topic 0 offset t"

lemma applied_offset_set:
  "applied_offset r tp (set_applied_offset r' tp' n t) =
     (if r = r' \<and> tp = tp' then n else applied_offset r tp t)"
  by (simp add: applied_offset_def applied_offset_for_def set_applied_offset_def set_applied_offset_for_def)

section \<open>The whole read model\<close>

record read_model =
  rm_users :: users_table
  rm_repos :: repos_table
  rm_issues :: issues_table
  rm_comments :: comments_table
  rm_counters :: counters_table
  rm_pulls :: pulls_table
  rm_reviews :: reviews_table
  rm_runs :: runs_table
  rm_jobs :: jobs_table
  rm_cursors :: cursors_table

definition empty_model :: read_model where
  "empty_model = \<lparr>rm_users = [], rm_repos = [], rm_issues = [], rm_comments = [], rm_counters = [],
     rm_pulls = [], rm_reviews = [], rm_runs = [], rm_jobs = [], rm_cursors = []\<rparr>"

text \<open>Every table with a unique constraint is sound.\<close>

definition model_ok :: "read_model \<Rightarrow> bool" where
  "model_ok m \<longleftrightarrow>
     rows_ok ur_user_id ur_username_lower (rm_users m) \<and>
     rows_ok rp_repo_id rp_full_name_lower (rm_repos m) \<and>
     rows_ok ir_issue_id issue_number (rm_issues m) \<and> tbl_wf (rm_comments m) \<and>
     rows_ok pl_pr_id pull_number (rm_pulls m) \<and>
     rows_ok rn_run_id run_number (rm_runs m) \<and> rows_ok jb_job_id job_slot (rm_jobs m)"

lemma model_ok_empty [simp]: "model_ok empty_model"
  by (simp add: model_ok_def empty_model_def)

section \<open>What the statements promise\<close>

text \<open>Reading the issue list page by page, each page starting below the last number of the one
  before; the fuel is a bound on the number of pages.\<close>

fun issue_pages :: "nat \<Rightarrow> repo_id \<Rightarrow> bool \<Rightarrow> int option \<Rightarrow> nat \<Rightarrow> issues_table \<Rightarrow> issue_row list" where
  "issue_pages 0 repo open_ones before limit t = []"
| "issue_pages (Suc n) repo open_ones before limit t =
     (let page = issues_list repo open_ones before limit t in
      if page = [] then []
      else page @ issue_pages n repo open_ones (Some (ir_number (last page))) limit t)"

definition matching_issues :: "repo_id \<Rightarrow> bool \<Rightarrow> issues_table \<Rightarrow> issue_row list" where
  "matching_issues repo open_ones t =
     rows_where (\<lambda>r. ir_repo_id r = repo \<and> ir_state r = (if open_ones then ''open'' else ''closed'')) t"

lemma issues_list_filter:
  "issues_list repo open_ones before limit t = take limit
     (filter (\<lambda>r. case before of Some cursor \<Rightarrow> ir_number r < cursor | None \<Rightarrow> True)
       (desc_by ir_number (matching_issues repo open_ones t)))"
  by (simp add: issues_list_def matching_issues_def filter_desc rows_where_filter conj_assoc Let_def)

lemma matching_strict:
  assumes "rows_ok ir_issue_id issue_number t"
  shows "sorted_wrt (\<lambda>a b. ir_number b < ir_number a) (desc_by ir_number (matching_issues repo open_ones t))"
proof (rule desc_by_strict)
  have "tbl_wf t" using assms by simp
  then show "distinct (matching_issues repo open_ones t)"
    unfolding matching_issues_def
    using rows_ok_pk [OF assms] by (rule distinct_rows)
  show "inj_on ir_number (set (matching_issues repo open_ones t))"
  proof (rule inj_onI)
    fix a b assume "a \<in> set (matching_issues repo open_ones t)" "b \<in> set (matching_issues repo open_ones t)"
      and num: "ir_number a = ir_number b"
    then obtain k l where ab: "tbl_get t k = Some a" "tbl_get t l = Some b"
      and "ir_repo_id a = repo" "ir_repo_id b = repo"
      using \<open>tbl_wf t\<close> by (auto simp: matching_issues_def set_rows_where)
    with num have "issue_number a = issue_number b" by (simp add: issue_number_def)
    with assms ab have "k = l" unfolding rows_ok_iff by blast
    with ab show "a = b" by simp
  qed
qed

lemma pages_suffix:
  assumes ok: "rows_ok ir_issue_id issue_number t" and "0 < limit"
    and "desc_by ir_number (matching_issues repo open_ones t) = p @ q"
    and "(before = None \<and> p = []) \<or> (p \<noteq> [] \<and> before = Some (ir_number (last p)))"
    and "length q < n"
  shows "issue_pages n repo open_ones before limit t = q"
  using assms(3-5)
proof (induction n arbitrary: before p q)
  case (Suc n)
  let ?page = "take limit q"
  have strict: "sorted_wrt (\<lambda>a b. ir_number b < ir_number a) (p @ q)"
    using matching_strict [OF ok] Suc.prems(1) by metis
  have rest: "filter (\<lambda>r. case before of Some cursor \<Rightarrow> ir_number r < cursor | None \<Rightarrow> True) (p @ q) = q"
    using Suc.prems(2) desc_page [OF strict] by auto
  have page: "issues_list repo open_ones before limit t = ?page"
    by (simp only: issues_list_filter Suc.prems(1) rest)
  show ?case
  proof (cases "q = []")
    case True
    then show ?thesis by (simp add: page)
  next
    case False
    then have ne: "?page \<noteq> []" using assms(2) by simp
    have "desc_by ir_number (matching_issues repo open_ones t) = (p @ ?page) @ drop limit q"
      by (simp add: Suc.prems(1))
    moreover have "Some (ir_number (last ?page)) = Some (ir_number (last (p @ ?page)))"
      using ne by simp
    moreover have "length (drop limit q) < n"
      using Suc.prems(3) assms(2) False by (cases q) auto
    ultimately have "issue_pages n repo open_ones (Some (ir_number (last ?page))) limit t = drop limit q"
      using Suc.IH [of "p @ ?page" "drop limit q"] ne by simp
    then show ?thesis using ne by (simp add: page Let_def)
  qed
qed simp

text \<open>Reading a repository's issues page by page, with the last number of a page as
  the cursor of the next, gives every issue in that state exactly once and newest first,
  whatever the page size; more pages than there are rows are never needed.\<close>

theorem issue_pages_exact:
  assumes "rows_ok ir_issue_id issue_number t" and "length t < n"
  shows "issue_pages n repo open_ones None (page_size requested) t =
      desc_by ir_number (matching_issues repo open_ones t) \<and>
    mset (issue_pages n repo open_ones None (page_size requested) t) =
      mset (matching_issues repo open_ones t) \<and>
    sorted_wrt (\<lambda>a b. ir_number b < ir_number a)
      (issue_pages n repo open_ones None (page_size requested) t)"
proof -
  have "0 < page_size requested" using page_size_bounds [of requested] by simp
  moreover have "length (desc_by ir_number (matching_issues repo open_ones t)) < n"
    unfolding length_desc_by matching_issues_def
    using length_rows_where assms(2) by (rule le_less_trans)
  ultimately have "issue_pages n repo open_ones None (page_size requested) t =
      desc_by ir_number (matching_issues repo open_ones t)"
    using pages_suffix [OF assms(1), of "page_size requested" repo open_ones "[]"] by simp
  then show ?thesis using matching_strict [OF assms(1)] by (simp add: desc_by_def)
qed

definition demo_issue :: "string \<Rightarrow> int \<Rightarrow> string \<Rightarrow> issue_row" where
  "demo_issue i n st = \<lparr>ir_issue_id = i, ir_repo_id = ''r'', ir_number = n, ir_title = ''t'',
     ir_body = None, ir_author_id = ''u'', ir_author_name = ''ann'', ir_state = st,
     ir_comment_count = 0, ir_created_at = 0, ir_updated_at = 0, ir_closed_at = None\<rparr>"

definition demo_issues :: issues_table where
  "demo_issues = map (\<lambda>r. (ir_issue_id r, r))
     [demo_issue ''a'' 1 ''open'', demo_issue ''b'' 2 ''closed'', demo_issue ''c'' 3 ''open'']"

lemma issue_pages_witness:
  "map ir_number (issue_pages 4 ''r'' True None (page_size 0) demo_issues) = [3, 1]"
proof -
  have "rows_ok ir_issue_id issue_number demo_issues" "length demo_issues < 4" by code_simp+
  from issue_pages_exact [OF this, of "''r''" True 0]
  have "issue_pages 4 ''r'' True None (page_size 0) demo_issues =
      desc_by ir_number (matching_issues ''r'' True demo_issues)" by (rule conjunct1)
  also have "map ir_number \<dots> = [3, 1]" by code_simp
  finally show ?thesis .
qed

text \<open>A webhook hears about an event exactly when it is active and one of its
  subscriptions is the star, the event's own type, or a family \<open>prefix.*\<close> with the type in it.
  A family never covers a longer name that only starts the same way.\<close>

theorem wants_exactly:
  "wants h ty \<longleftrightarrow> wh_active h \<and>
     (''*'' \<in> set (wh_events h) \<or> ty \<in> set (wh_events h) \<or>
      (\<exists>family rest. family @ ''.*'' \<in> set (wh_events h) \<and> ty = family @ ''.'' @ rest))"
proof -
  have "prefix_matches w ty \<longleftrightarrow> (\<exists>family rest. w = family @ ''.*'' \<and> ty = family @ ''.'' @ rest)" for w
    unfolding prefix_matches_def starts_with_iff
    by (cases "strip_suffix ''.*'' w") (auto simp: starts_with_iff)
  then show ?thesis by (auto simp: wants_def list_ex_iff)
qed

text \<open>The number the orchestrator takes for a new run is above every number the
  repository has, so planning a run cannot fail on the unique constraint while its identifier is
  new.\<close>

theorem next_run_number_fresh:
  assumes "rows_ok rn_run_id run_number t" "tbl_get t (rn_run_id r) = None"
    "rn_number r = next_run_number (rn_repo_id r) t"
  shows "upsert_run r t = Ok (tbl_put (rn_run_id r) r t) \<and>
    list_all (\<lambda>(_, old). rn_repo_id old = rn_repo_id r \<longrightarrow> rn_number old < rn_number r) t"
proof -
  let ?rows = "rows_where (\<lambda>x. rn_repo_id x = rn_repo_id r) t"
  have wf: "tbl_wf t" using assms(1) by simp
  have top: "rn_number x < rn_number r" if "x \<in> set ?rows" for x
  proof -
    have "x \<in> set (desc_by rn_number ?rows)" using that by simp
    then obtain y ys where ys: "desc_by rn_number ?rows = y # ys"
      by (cases "desc_by rn_number ?rows") simp_all
    then have snoc: "sort_key rn_number ?rows = rev ys @ [y]" by (simp add: desc_by_def rev_swap)
    have "sorted (map rn_number (sort_key rn_number ?rows))" by simp
    then have le: "\<forall>z\<in>set ys. rn_number z \<le> rn_number y"
      unfolding snoc by (auto simp: sorted_append)
    have "x \<in> set (y # ys)" using that by (simp flip: ys)
    with le have "rn_number x \<le> rn_number y" by auto
    then show ?thesis using assms(3) ys by (simp add: next_run_number_def)
  qed
  then have all: "rn_number x < rn_number r"
    if "tbl_get t k = Some x" "rn_repo_id x = rn_repo_id r" for k x
    using that wf by (auto simp: set_rows_where)
  have "\<not> clash run_number (rn_run_id r) r t"
    using all unfolding clash_iff [OF wf] by (fastforce simp: run_number_def)
  then show ?thesis
    using assms(2) all wf
    by (auto simp: upsert_run_def runs.upsert_eq stored_row_def list_all_iff tbl_get_in)
qed

definition demo_run :: "string \<Rightarrow> int \<Rightarrow> run_row" where
  "demo_run i n = \<lparr>rn_run_id = i, rn_repo_id = ''r'', rn_number = n, rn_workflow = ''w'',
     rn_event = ''push'', rn_head_oid = ''h'', rn_ref_name = ''refs/heads/main'', rn_actor_name = ''ann'',
     rn_status = ''queued'', rn_created_at = 0, rn_updated_at = 0, rn_started_at = None,
     rn_finished_at = None\<rparr>"

lemma next_run_number_witness:
  "upsert_run (demo_run ''b'' 8) [(''a'', demo_run ''a'' 7)] =
     Ok [(''a'', demo_run ''a'' 7), (''b'', demo_run ''b'' 8)]"
proof -
  have "rows_ok rn_run_id run_number [(''a'', demo_run ''a'' 7)]"
    "tbl_get [(''a'', demo_run ''a'' 7)] (rn_run_id (demo_run ''b'' 8)) = None"
    "rn_number (demo_run ''b'' 8) = next_run_number (rn_repo_id (demo_run ''b'' 8)) [(''a'', demo_run ''a'' 7)]"
    by code_simp+
  from next_run_number_fresh [OF this]
  have "upsert_run (demo_run ''b'' 8) [(''a'', demo_run ''a'' 7)] =
      Ok (tbl_put (rn_run_id (demo_run ''b'' 8)) (demo_run ''b'' 8) [(''a'', demo_run ''a'' 7)])"
    by (rule conjunct1)
  also have "\<dots> = Ok [(''a'', demo_run ''a'' 7), (''b'', demo_run ''b'' 8)]" by code_simp
  finally show ?thesis .
qed

end
