(* ===== verification/Row_Replay.thy ===== *)
theory Row_Replay
  imports Read_Tables
begin

text \<open>
  A table projected from a topic, row by row. The contract of the locale \<open>projected\<close> is what the
  projector's functions keep for each table: an event either creates the row of one key, keeping
  the insert-only columns of a row that is already there, or changes rows that exist. From it
  follow the two facts the recovery procedure relies on: every row is the fold of its own events,
  and replaying the whole history over the tables it produced changes nothing.
\<close>

fun apply_all :: "('e \<Rightarrow> 't \<Rightarrow> ('t, 'x) result) \<Rightarrow> 'e list \<Rightarrow> 't \<Rightarrow> ('t, 'x) result" where
  "apply_all app [] t = Ok t"
| "apply_all app (e # es) t = and_then (app e t) (apply_all app es)"

lemma apply_all_append:
  "apply_all app (es @ fs) t = and_then (apply_all app es t) (apply_all app fs)"
proof (induction es arbitrary: t)
  case (Cons e es)
  then show ?case by (cases "app e t") simp_all
qed simp

text \<open>One event on the row of one key.\<close>

definition row_step ::
    "('e \<Rightarrow> 'r option) \<Rightarrow> ('k \<Rightarrow> 'e \<Rightarrow> 'r \<Rightarrow> 'r) \<Rightarrow> ('r \<Rightarrow> 'k) \<Rightarrow> ('r \<Rightarrow> 'r \<Rightarrow> 'r) \<Rightarrow> 'k \<Rightarrow> 'e \<Rightarrow>
      'r option \<Rightarrow> 'r option" where
  "row_step create change pk set_cols k e v =
     (case create e of
        Some new \<Rightarrow> if pk new = k then Some (case v of None \<Rightarrow> new | Some old \<Rightarrow> set_cols old new) else v
      | None \<Rightarrow> map_option (change k e) v)"

lemma row_step_Some: "\<exists>r'. row_step create change pk set_cols k e (Some r) = Some r'"
  by (auto simp: row_step_def split: option.splits)

locale projected = upserted pk uniq set_cols
  for pk :: "'r \<Rightarrow> 'k" and uniq :: "'r \<Rightarrow> 'u" and set_cols +
  fixes app :: "'e \<Rightarrow> ('k, 'r) table \<Rightarrow> (('k, 'r) table, sql_error) result"
    and create :: "'e \<Rightarrow> 'r option"
    and change :: "'k \<Rightarrow> 'e \<Rightarrow> 'r \<Rightarrow> 'r"
  assumes app_get: "rows_ok pk uniq t \<Longrightarrow> app e t = Ok t' \<Longrightarrow>
      tbl_get t' k = row_step create change pk set_cols k e (tbl_get t k)"
    and app_rows_ok: "rows_ok pk uniq t \<Longrightarrow> app e t = Ok t' \<Longrightarrow> rows_ok pk uniq t'"
    and app_fails: "rows_ok pk uniq t \<Longrightarrow> app e t = Err x \<Longrightarrow>
      \<exists>k k' r r'. k \<noteq> k' \<and> row_step create change pk set_cols k e (tbl_get t k) = Some r \<and>
        tbl_get t k' = Some r' \<and> uniq r = uniq r'"
    and change_keeps: "set_cols (change k e r) n = set_cols r n"
begin

abbreviation (input) one where
  "one \<equiv> row_step create change pk set_cols"

abbreviation (input) history where
  "history k es v \<equiv> fold (one k) es v"

lemma all_get:
  "rows_ok pk uniq t \<Longrightarrow> apply_all app es t = Ok t' \<Longrightarrow>
     rows_ok pk uniq t' \<and> tbl_get t' k = history k es (tbl_get t k)"
proof (induction es arbitrary: t)
  case (Cons e es)
  from Cons.prems(2) obtain t1 where t1: "app e t = Ok t1" "apply_all app es t1 = Ok t'"
    by (auto simp: and_then_Ok_iff)
  have "rows_ok pk uniq t1" using Cons.prems(1) t1(1) by (rule app_rows_ok)
  then show ?case
    using Cons.IH [OF _ t1(2)] app_get [OF Cons.prems(1) t1(1)] by simp
qed simp

text \<open>Replaying a key's history over the row it produced gives that row again.\<close>

lemma history_keeps:
  "history k es (Some r) = Some r' \<Longrightarrow> set_cols r' n = set_cols r n"
proof (induction es arbitrary: r)
  case (Cons e es)
  obtain r1 where one: "one k e (Some r) = Some r1"
    using row_step_Some [of create change pk set_cols k e r] by blast
  with Cons.prems have r1: "one k e (Some r) = Some r1" "history k es (Some r1) = Some r'"
    by simp_all
  have "set_cols r1 n = set_cols r n"
    using r1(1) by (auto simp: row_step_def set_set change_keeps split: option.splits if_splits)
  with Cons.IH [OF r1(2)] show ?case by simp
qed simp

lemma history_Some: "\<exists>r'. history k es (Some r) = Some r'"
proof (induction es arbitrary: r)
  case (Cons e es)
  obtain r1 where "one k e (Some r) = Some r1"
    using row_step_Some [of create change pk set_cols k e r] by blast
  then show ?case using Cons.IH by simp
qed simp

lemma history_twice: "history k es (history k es None) = history k es None"
proof (cases "\<exists>e n. e \<in> set es \<and> create e = Some n \<and> pk n = k")
  case False
  then have "history k es None = None"
    by (induction es) (auto simp: row_step_def split: option.splits)
  then show ?thesis by simp
next
  case True
  then have "\<exists>e\<in>set es. \<exists>n. create e = Some n \<and> pk n = k" by blast
  then obtain pre e post n where es: "es = pre @ e # post" and n: "create e = Some n" "pk n = k"
    and pre: "\<forall>x\<in>set pre. \<not> (\<exists>n. create x = Some n \<and> pk n = k)"
    using split_list_first_prop [of es "\<lambda>e. \<exists>n. create e = Some n \<and> pk n = k"] by auto
  have none: "history k pre None = None"
    using pre by (induction pre) (auto simp: row_step_def split: option.splits)
  have first: "history k es None = history k post (Some n)"
    by (simp add: es none row_step_def n)
  obtain r where r: "history k post (Some n) = Some r"
    using history_Some [of k post n] by blast
  obtain r0 where r0: "history k pre (Some r) = Some r0"
    using history_Some [of k pre r] by blast
  have "set_cols r0 n = set_cols n n"
    using history_keeps [OF r0, of n] history_keeps [OF r, of n] by simp
  then have "one k e (Some r0) = Some n"
    by (simp add: row_step_def n set_self)
  then show ?thesis unfolding first unfolding r
    by (simp add: es r0 r)
qed

end

section \<open>Histories that cannot clash\<close>

text \<open>
  When the unique columns of a row are fixed by its key, and different keys have different ones,
  no event can violate the constraint.
\<close>

definition settled ::
    "('e \<Rightarrow> 'r option) \<Rightarrow> ('k \<Rightarrow> 'e \<Rightarrow> 'r \<Rightarrow> 'r) \<Rightarrow> ('r \<Rightarrow> 'k) \<Rightarrow> ('r \<Rightarrow> 'u) \<Rightarrow> 'e list \<Rightarrow> bool" where
  "settled create change pk uniq es \<longleftrightarrow>
     (\<forall>e\<in>set es. \<forall>f\<in>set es. \<forall>n m. create e = Some n \<longrightarrow> create f = Some m \<longrightarrow>
        (pk n = pk m \<longleftrightarrow> uniq n = uniq m)) \<and>
     (\<forall>e\<in>set es. \<forall>k r. uniq (change k e r) = uniq r)"

definition within :: "('e \<Rightarrow> 'r option) \<Rightarrow> ('r \<Rightarrow> 'k) \<Rightarrow> ('r \<Rightarrow> 'u) \<Rightarrow> 'e list \<Rightarrow> ('k, 'r) table \<Rightarrow> bool" where
  "within create pk uniq es t \<longleftrightarrow> rows_ok pk uniq t \<and>
     (\<forall>k r. tbl_get t k = Some r \<longrightarrow> (\<exists>e\<in>set es. \<exists>n. create e = Some n \<and> pk n = k \<and> uniq r = uniq n))"

context projected
begin

abbreviation (input) inside where
  "inside \<equiv> within create pk uniq"

lemma settled_step:
  assumes "settled create change pk uniq es" "inside es t" "e \<in> set es"
  shows "\<exists>t'. app e t = Ok t' \<and> inside es t'"
proof -
  have row: "\<exists>f\<in>set es. \<exists>n. create f = Some n \<and> pk n = k \<and> uniq r = uniq n"
    if "one k e (tbl_get t k) = Some r" for k r
  proof (cases "create e")
    case None
    with that obtain r0 where "tbl_get t k = Some r0" "r = change k e r0"
      by (auto simp: row_step_def)
    then show ?thesis using assms(1-3) by (auto simp: settled_def within_def)
  next
    case (Some n)
    show ?thesis
    proof (cases "pk n = k")
      case True
      have "uniq r = uniq n"
      proof (cases "tbl_get t k")
        case None
        then show ?thesis using that Some True by (simp add: row_step_def)
      next
        case (Some old)
        then obtain f m where "f \<in> set es" "create f = Some m" "pk m = k" "uniq old = uniq m"
          using assms(2) unfolding within_def by blast
        then have "uniq old = uniq n"
          using assms(1,3) \<open>create e = Some n\<close> True by (auto simp: settled_def)
        then show ?thesis
          using that Some \<open>create e = Some n\<close> True uniq_set [of old n] by (auto simp: row_step_def)
      qed
      then show ?thesis using assms(3) Some True by blast
    next
      case False
      then have "tbl_get t k = Some r" using that Some by (simp add: row_step_def)
      then show ?thesis using assms(2) by (auto simp: within_def)
    qed
  qed
  have ok: "rows_ok pk uniq t" using assms(2) by (simp add: within_def)
  show ?thesis
  proof (cases "app e t")
    case (Inl x)
    from app_fails [OF ok this] obtain k k' r r' where clash: "k \<noteq> k'"
      "one k e (tbl_get t k) = Some r" "tbl_get t k' = Some r'" "uniq r = uniq r'"
      by blast
    from row [OF clash(2)] obtain f n where f: "f \<in> set es" "create f = Some n" "pk n = k" "uniq r = uniq n"
      by blast
    from assms(2) clash(3) obtain g m where g: "g \<in> set es" "create g = Some m" "pk m = k'" "uniq r' = uniq m"
      unfolding within_def by blast
    have "pk n = pk m" using assms(1) f g clash(4) by (auto simp: settled_def)
    with clash(1) f(3) g(3) have False by simp
    then show ?thesis ..
  next
    case (Inr t')
    have "inside es t'"
      using app_rows_ok [OF ok Inr] app_get [OF ok Inr] row by (simp add: within_def)
    then show ?thesis using Inr by blast
  qed
qed

lemma settled_all:
  assumes "settled create change pk uniq es" "inside es t" "set fs \<subseteq> set es"
  shows "\<exists>t'. apply_all app fs t = Ok t' \<and> inside es t'"
  using assms(2,3)
proof (induction fs arbitrary: t)
  case (Cons f fs)
  from settled_step [OF assms(1) Cons.prems(1)] Cons.prems(2)
  obtain t1 where t1: "app f t = Ok t1" "inside es t1" by auto
  from Cons.IH [OF t1(2)] Cons.prems(2) show ?case by (simp add: t1(1))
qed simp

text \<open>The recovery procedure: a settled history projects without an error, every row is the fold
  of its own events, and projecting the whole history again leaves every row as it was.\<close>

lemma rebuild:
  assumes "settled create change pk uniq es"
  shows "\<exists>t t'. apply_all app es [] = Ok t \<and> apply_all app es t = Ok t' \<and>
    (\<forall>k. tbl_get t k = history k es None \<and> tbl_get t' k = tbl_get t k) \<and> rows_ok pk uniq t"
proof -
  have "inside es []" by (simp add: within_def)
  from settled_all [OF assms this subset_refl]
  obtain t where t: "apply_all app es [] = Ok t" "inside es t" by blast
  from settled_all [OF assms t(2) subset_refl]
  obtain t' where t': "apply_all app es t = Ok t'" by blast
  have ok: "rows_ok pk uniq t" using t(2) by (simp add: within_def)
  have "tbl_get t k = history k es None" for k
    using all_get [OF _ t(1), of k] by simp
  moreover have "tbl_get t' k = history k es (tbl_get t k)" for k
    using all_get [OF ok t', of k] by simp
  ultimately show ?thesis using t(1) t' ok by (simp add: history_twice)
qed

end

section \<open>Events as statements\<close>

text \<open>
  Everything the projector does to one table is one of four statements. A table whose events are
  given by such statements, each keeping the key and the insert-only columns of the row it
  changes, is \<open>projected\<close>.
\<close>

datatype ('k, 'r) statement =
    Upsert 'r
  | Modify 'k "'r \<Rightarrow> 'r"
  | Patch 'k "'r \<Rightarrow> bool" "'r \<Rightarrow> 'r"
  | Skip

definition run_statement ::
    "string \<Rightarrow> ('r \<Rightarrow> 'k) \<Rightarrow> ('r \<Rightarrow> 'u) \<Rightarrow> ('r \<Rightarrow> 'r \<Rightarrow> 'r) \<Rightarrow> ('k, 'r) statement \<Rightarrow> ('k, 'r) table \<Rightarrow>
      (('k, 'r) table, sql_error) result" where
  "run_statement name pk uniq set_cols s t = (case s of
     Upsert r \<Rightarrow> upsert_row name pk uniq set_cols r t
   | Modify k f \<Rightarrow> modify_row name pk uniq set_cols k f t
   | Patch k c f \<Rightarrow> Ok (snd (update_where k c f t))
   | Skip \<Rightarrow> Ok t)"

definition created_by :: "('k, 'r) statement \<Rightarrow> 'r option" where
  "created_by s = (case s of Upsert r \<Rightarrow> Some r | _ \<Rightarrow> None)"

definition changed_by :: "'k \<Rightarrow> ('k, 'r) statement \<Rightarrow> 'r \<Rightarrow> 'r" where
  "changed_by k s r = (case s of
     Modify k' f \<Rightarrow> if k' = k then f r else r
   | Patch k' c f \<Rightarrow> if k' = k \<and> c r then f r else r
   | _ \<Rightarrow> r)"

definition changes_well :: "('r \<Rightarrow> 'k) \<Rightarrow> ('r \<Rightarrow> 'u) \<Rightarrow> ('r \<Rightarrow> 'r \<Rightarrow> 'r) \<Rightarrow> ('k, 'r) statement \<Rightarrow> bool" where
  "changes_well pk uniq set_cols s = (case s of
     Modify k f \<Rightarrow> \<forall>r. pk (f r) = pk r \<and> set_cols r (f r) = f r
   | Patch k c f \<Rightarrow> \<forall>r. pk (f r) = pk r \<and> set_cols r (f r) = f r \<and> uniq (f r) = uniq r
   | _ \<Rightarrow> True)"

locale statement_table = upserted pk uniq set_cols
  for pk :: "'r \<Rightarrow> 'k" and uniq :: "'r \<Rightarrow> 'u" and set_cols +
  fixes name :: string and stmt :: "'e \<Rightarrow> ('k, 'r) statement"
  assumes well: "changes_well pk uniq set_cols (stmt e)"
begin

abbreviation (input) run where
  "run e \<equiv> run_statement name pk uniq set_cols (stmt e)"

abbreviation (input) row where
  "row k e \<equiv> row_step (\<lambda>e. created_by (stmt e)) (\<lambda>k e. changed_by k (stmt e)) pk set_cols k e"

lemmas stmt_defs = run_statement_def row_step_def created_by_def changed_by_def

lemma run_get:
  assumes "rows_ok pk uniq t" "run e t = Ok t'"
  shows "rows_ok pk uniq t' \<and> tbl_get t' k = row k e (tbl_get t k)"
proof (cases "stmt e")
  case (Upsert n)
  then have up: "upsert_row name pk uniq set_cols n t = Ok t'" using assms(2) by (simp add: stmt_defs)
  show ?thesis
    using upsert_get [OF up, of k] upsert_rows_ok [OF up assms(1)]
    by (simp add: stmt_defs Upsert stored_row_def)
next
  case (Modify j f)
  then have m: "modify_row name pk uniq set_cols j f t = Ok t'" using assms(2) by (simp add: stmt_defs)
  have "\<And>r. pk (f r) = pk r" "\<And>r. set_cols r (f r) = f r"
    using well [of e] Modify by (simp_all add: changes_well_def)
  from modify_row_get [OF assms(1) this m, of k] show ?thesis
    by (cases "tbl_get t k") (auto simp: stmt_defs Modify)
next
  case (Patch j c f)
  then obtain hit where u: "update_where j c f t = (hit, t')"
    using assms(2) by (cases "update_where j c f t") (simp add: stmt_defs)
  have "rows_ok pk uniq t'"
    using u assms(1) by (rule rows_ok_update) (use well [of e] Patch in \<open>simp_all add: changes_well_def\<close>)
  then show ?thesis
    using u by (cases "tbl_get t k") (auto simp: stmt_defs Patch update_where_def split: option.splits if_splits)
next
  case Skip
  then show ?thesis
    using assms by (cases "tbl_get t k") (simp_all add: stmt_defs)
qed

lemma run_fails:
  assumes "rows_ok pk uniq t" "run e t = Err x"
  shows "\<exists>k k' r r'. k \<noteq> k' \<and> row k e (tbl_get t k) = Some r \<and> tbl_get t k' = Some r' \<and> uniq r = uniq r'"
proof (cases "stmt e")
  case (Upsert n)
  then have up: "upsert_row name pk uniq set_cols n t = Err x" using assms(2) by (simp add: stmt_defs)
  from upsert_fails [OF up] assms(1) obtain k' r' where
    "k' \<noteq> pk n" "tbl_get t k' = Some r'" "uniq r' = uniq (stored_row pk set_cols n t)" by auto
  moreover have "row (pk n) e (tbl_get t (pk n)) = Some (stored_row pk set_cols n t)"
    by (simp add: stmt_defs Upsert stored_row_def)
  ultimately show ?thesis by metis
next
  case (Modify j f)
  then have m: "modify_row name pk uniq set_cols j f t = Err x" using assms(2) by (simp add: stmt_defs)
  have "\<And>r. pk (f r) = pk r" "\<And>r. set_cols r (f r) = f r"
    using well [of e] Modify by (simp_all add: changes_well_def)
  from modify_row_fails [OF assms(1) this m] obtain r k' r' where
    r: "tbl_get t j = Some r" "k' \<noteq> j" "tbl_get t k' = Some r'" "uniq r' = uniq (f r)" by blast
  have "row j e (tbl_get t j) = Some (f r)" by (simp add: stmt_defs Modify r(1))
  with r show ?thesis by metis
qed (use assms in \<open>simp_all add: stmt_defs\<close>)

lemma changed_keeps: "set_cols (changed_by k (stmt e) r) n = set_cols r n"
proof -
  have "set_cols (f r) n = set_cols r n" if "set_cols r (f r) = f r" for f
    using that set_set [of r "f r" n] by simp
  then show ?thesis
    using well [of e] by (auto simp: changed_by_def changes_well_def split: statement.splits)
qed

end

sublocale statement_table \<subseteq> rows: projected pk uniq set_cols
    "\<lambda>e. run_statement name pk uniq set_cols (stmt e)" "\<lambda>e. created_by (stmt e)" "\<lambda>k e. changed_by k (stmt e)"
  by unfold_locales (use run_get run_fails changed_keeps in blast)+

end
