(* ===== verification/Projector_Apply.thy ===== *)
theory Projector_Apply
  imports Read_Model Row_Replay Forge_Events
begin

text \<open>
  Turning events into rows: \<open>forge-projector/src/apply.rs\<close>, with the record constructors of
  \<open>forge-projector/src/lib.rs\<close>. A function of the source that gets the whole store works here on
  the whole read model; a failing statement is the error of the call. The timestamp is the one
  of the event's envelope.
\<close>

section \<open>Statements on one table of the model\<close>

definition with_users where
  "with_users f m = and_then (f (rm_users m)) (\<lambda>t. Ok (m\<lparr>rm_users := t\<rparr>))"

definition with_repos where
  "with_repos f m = and_then (f (rm_repos m)) (\<lambda>t. Ok (m\<lparr>rm_repos := t\<rparr>))"

definition with_issues where
  "with_issues f m = and_then (f (rm_issues m)) (\<lambda>t. Ok (m\<lparr>rm_issues := t\<rparr>))"

definition with_pulls where
  "with_pulls f m = and_then (f (rm_pulls m)) (\<lambda>t. Ok (m\<lparr>rm_pulls := t\<rparr>))"

definition with_runs where
  "with_runs f m = and_then (f (rm_runs m)) (\<lambda>t. Ok (m\<lparr>rm_runs := t\<rparr>))"

definition with_jobs where
  "with_jobs f m = and_then (f (rm_jobs m)) (\<lambda>t. Ok (m\<lparr>rm_jobs := t\<rparr>))"

lemmas with_defs = with_users_def with_repos_def with_issues_def with_pulls_def with_runs_def
  with_jobs_def

section \<open>Users\<close>

definition user_record :: "user_id \<Rightarrow> string \<Rightarrow> string \<Rightarrow> string \<Rightarrow> string \<Rightarrow> timestamp \<Rightarrow> user_row" where
  "user_record user_id username username_lower email password_hash at =
     \<lparr>ur_user_id = user_id, ur_username = username, ur_username_lower = username_lower,
      ur_email = email, ur_password_hash = password_hash, ur_display_name = None, ur_bio = None,
      ur_state = ''active'', ur_created_at = at, ur_updated_at = at\<rparr>"

definition apply_user_rows :: "user_event \<Rightarrow> timestamp \<Rightarrow> users_table \<Rightarrow> (users_table, sql_error) result" where
  "apply_user_rows event at t = (case event of
     UserRegistered user username username_lower email password_hash \<Rightarrow>
       users_upsert (user_record user username username_lower email password_hash at) t
   | UserProfileUpdated user display_name bio \<Rightarrow>
       modify_row ''users'' ur_user_id ur_username_lower users_set user (\<lambda>existing. existing\<lparr>
         ur_display_name := display_name, ur_bio := bio, ur_updated_at := at\<rparr>) t
   | UserDeactivated user \<Rightarrow>
       modify_row ''users'' ur_user_id ur_username_lower users_set user (\<lambda>existing. existing\<lparr>
         ur_state := ''deactivated'', ur_updated_at := at\<rparr>) t)"

definition apply_user_event :: "user_event \<Rightarrow> timestamp \<Rightarrow> read_model \<Rightarrow> (read_model, sql_error) result" where
  "apply_user_event event at m = with_users (apply_user_rows event at) m"

section \<open>Repositories\<close>

definition repo_record_defaults :: "repo_id \<Rightarrow> timestamp \<Rightarrow> repo_row" where
  "repo_record_defaults repo at =
     \<lparr>rp_repo_id = repo, rp_owner_id = [], rp_owner_name = [], rp_name = [], rp_full_name_lower = [],
      rp_description = None, rp_default_branch = ''main'', rp_visibility = ''public'',
      rp_created_at = at, rp_updated_at = at, rp_deleted = False\<rparr>"

definition update_repo ::
    "repo_id \<Rightarrow> timestamp \<Rightarrow> (repo_row \<Rightarrow> repo_row) \<Rightarrow> repos_table \<Rightarrow> (repos_table, sql_error) result" where
  "update_repo repo at mutate =
     modify_row ''repos'' rp_repo_id rp_full_name_lower repos_set repo (\<lambda>r. (mutate r)\<lparr>rp_updated_at := at\<rparr>)"

definition apply_repo_rows :: "repo_event \<Rightarrow> timestamp \<Rightarrow> repos_table \<Rightarrow> (repos_table, sql_error) result" where
  "apply_repo_rows event at t = (case event of
     RepoCreated repo owner owner_name name full_name_lower description default_branch visibility \<Rightarrow>
       repos_upsert ((repo_record_defaults repo at)\<lparr>rp_owner_id := owner, rp_owner_name := owner_name,
         rp_name := name, rp_full_name_lower := full_name_lower, rp_description := description,
         rp_default_branch := default_branch, rp_visibility := visibility_display visibility\<rparr>) t
   | RepoRenamed repo name full_name_lower \<Rightarrow>
       update_repo repo at (\<lambda>r. r\<lparr>rp_name := name, rp_full_name_lower := full_name_lower\<rparr>) t
   | RepoDescriptionChanged repo description \<Rightarrow>
       update_repo repo at (\<lambda>r. r\<lparr>rp_description := description\<rparr>) t
   | RepoVisibilityChanged repo visibility \<Rightarrow>
       update_repo repo at (\<lambda>r. r\<lparr>rp_visibility := visibility_display visibility\<rparr>) t
   | RepoDefaultBranchChanged repo default_branch \<Rightarrow>
       update_repo repo at (\<lambda>r. r\<lparr>rp_default_branch := default_branch\<rparr>) t
   | RepoDeleted repo \<Rightarrow> update_repo repo at (\<lambda>r. r\<lparr>rp_deleted := True\<rparr>) t
   | RepoCollaboratorAdded _ _ _ _ \<Rightarrow> Ok t
   | RepoCollaboratorRemoved _ _ \<Rightarrow> Ok t)"

definition apply_repo_event :: "repo_event \<Rightarrow> timestamp \<Rightarrow> read_model \<Rightarrow> (read_model, sql_error) result" where
  "apply_repo_event event at m = with_repos (apply_repo_rows event at) m"

section \<open>Issues\<close>

definition update_issue ::
    "issue_id \<Rightarrow> timestamp \<Rightarrow> (issue_row \<Rightarrow> issue_row) \<Rightarrow> issues_table \<Rightarrow> (issues_table, sql_error) result" where
  "update_issue issue at mutate =
     modify_row ''issues'' ir_issue_id issue_number issues_set issue (\<lambda>r. (mutate r)\<lparr>ir_updated_at := at\<rparr>)"

definition refresh :: "repo_id \<Rightarrow> read_model \<Rightarrow> (read_model, sql_error) result" where
  "refresh repo m = Ok (m\<lparr>rm_counters := refresh_counters repo (rm_issues m) (rm_counters m)\<rparr>)"

definition apply_issue_event :: "issue_event \<Rightarrow> timestamp \<Rightarrow> read_model \<Rightarrow> (read_model, sql_error) result" where
  "apply_issue_event event at m = (case event of
     IssueOpened issue repo number title body author author_name \<Rightarrow>
       and_then (with_issues (issues_upsert
         \<lparr>ir_issue_id = issue, ir_repo_id = repo, ir_number = number, ir_title = title, ir_body = body,
          ir_author_id = author, ir_author_name = author_name, ir_state = ''open'',
          ir_comment_count = 0, ir_created_at = at, ir_updated_at = at, ir_closed_at = None\<rparr>) m)
         (refresh repo)
   | IssueCommented comment issue repo author author_name body \<Rightarrow>
       (let m = m\<lparr>rm_comments := insert_comment
          \<lparr>cr_comment_id = comment, cr_issue_id = issue, cr_repo_id = repo, cr_author_id = author,
           cr_author_name = author_name, cr_body = body, cr_created_at = at, cr_updated_at = at\<rparr>
          (rm_comments m)\<rparr> in
        case tbl_get (rm_issues m) issue of
          None \<Rightarrow> Ok m
        | Some r \<Rightarrow> with_issues (issues_upsert (r\<lparr>
            ir_comment_count := int (length (comments_of issue (page_size 100) (rm_comments m))),
            ir_updated_at := at\<rparr>)) m)
   | IssueTitleChanged issue _ title \<Rightarrow>
       with_issues (update_issue issue at (\<lambda>r. r\<lparr>ir_title := title\<rparr>)) m
   | IssueClosed issue repo _ \<Rightarrow>
       and_then (with_issues (update_issue issue at
         (\<lambda>r. r\<lparr>ir_state := ''closed'', ir_closed_at := Some at\<rparr>)) m) (refresh repo)
   | IssueReopened issue repo _ \<Rightarrow>
       and_then (with_issues (update_issue issue at
         (\<lambda>r. r\<lparr>ir_state := ''open'', ir_closed_at := None\<rparr>)) m) (refresh repo))"

section \<open>Pull requests\<close>

definition update_pull ::
    "pr_id \<Rightarrow> timestamp \<Rightarrow> (pull_row \<Rightarrow> pull_row) \<Rightarrow> pulls_table \<Rightarrow> (pulls_table, sql_error) result" where
  "update_pull pr at mutate =
     modify_row ''pulls'' pl_pr_id pull_number pulls_set pr (\<lambda>r. (mutate r)\<lparr>pl_updated_at := at\<rparr>)"

definition opened_pull :: "pr_event \<Rightarrow> timestamp \<Rightarrow> pull_row option" where
  "opened_pull event at = (case event of
     PrOpened pr repo number title body author author_name source_branch target_branch head base \<Rightarrow>
       Some \<lparr>pl_pr_id = pr, pl_repo_id = repo, pl_number = number, pl_title = title, pl_body = body,
         pl_author_id = author, pl_author_name = author_name, pl_state = ''open'',
         pl_source_branch = source_branch, pl_target_branch = target_branch,
         pl_head_oid = to_hex head, pl_base_oid = to_hex base, pl_merge_check = None,
         pl_merge_commit_oid = None, pl_merged_by_name = None, pl_comment_count = 0,
         pl_created_at = at, pl_updated_at = at, pl_merged_at = None, pl_closed_at = None\<rparr>
   | _ \<Rightarrow> None)"

definition close_pull :: "timestamp \<Rightarrow> pull_row \<Rightarrow> pull_row" where
  "close_pull at r =
     (if pl_state r \<noteq> ''merged'' then r\<lparr>pl_state := ''closed'', pl_closed_at := Some at\<rparr> else r)"

definition reopen_pull :: "pull_row \<Rightarrow> pull_row" where
  "reopen_pull r =
     (if pl_state r \<noteq> ''merged''
      then r\<lparr>pl_state := ''open'', pl_closed_at := None, pl_merge_check := None\<rparr> else r)"

definition apply_pull_rows :: "pr_event \<Rightarrow> timestamp \<Rightarrow> pulls_table \<Rightarrow> (pulls_table, sql_error) result" where
  "apply_pull_rows event at t = (case opened_pull event at of
     Some record \<Rightarrow> pulls_upsert record t
   | None \<Rightarrow> (case event of
       PrSynchronized pr _ head base \<Rightarrow>
         update_pull pr at (\<lambda>r. r\<lparr>pl_head_oid := to_hex head, pl_base_oid := to_hex base\<rparr>) t
     | PrMergeabilityComputed pr _ head base is_mergeable paths \<Rightarrow>
         Ok (snd (record_check pr
           (if is_mergeable then merge_check_clean (to_hex head) (to_hex base)
            else merge_check_conflict (to_hex head) (to_hex base) paths) at t))
     | PrMerged pr _ merge_commit _ merged_by_name \<Rightarrow>
         update_pull pr at (\<lambda>r. r\<lparr>pl_state := ''merged'', pl_merge_commit_oid := Some (to_hex merge_commit),
           pl_merged_by_name := Some merged_by_name, pl_merged_at := Some at, pl_closed_at := Some at\<rparr>) t
     | PrClosed pr _ _ \<Rightarrow> update_pull pr at (close_pull at) t
     | PrReopened pr _ _ \<Rightarrow> update_pull pr at reopen_pull t
     | _ \<Rightarrow> Ok t))"

definition apply_pr_event :: "pr_event \<Rightarrow> timestamp \<Rightarrow> read_model \<Rightarrow> (read_model, sql_error) result" where
  "apply_pr_event event at m = (case event of
     PrReviewed review pr repo reviewer reviewer_name verdict body \<Rightarrow>
       Ok (m\<lparr>rm_reviews := insert_review
         \<lparr>rv_review_id = review, rv_pr_id = pr, rv_repo_id = repo, rv_reviewer_id = reviewer,
          rv_reviewer_name = reviewer_name, rv_verdict = review_verdict_as_str verdict,
          rv_body = body, rv_created_at = at\<rparr> (rm_reviews m)\<rparr>)
   | _ \<Rightarrow> with_pulls (apply_pull_rows event at) m)"

section \<open>Runs and jobs\<close>

definition queued_run :: "ci_event \<Rightarrow> timestamp \<Rightarrow> run_row" where
  "queued_run event at =
     \<lparr>rn_run_id = ce_run event, rn_repo_id = ce_repo event, rn_number = ce_number event,
      rn_workflow = ce_workflow event, rn_event = ce_event event,
      rn_head_oid = to_hex (ce_head_oid event), rn_ref_name = ce_ref_name event,
      rn_actor_name = ce_actor_name event, rn_status = ''queued'', rn_created_at = at,
      rn_updated_at = at, rn_started_at = None, rn_finished_at = None\<rparr>"

definition queued_job_row :: "run_id \<Rightarrow> repo_id \<Rightarrow> timestamp \<Rightarrow> planned_job_spec \<Rightarrow> job_row" where
  "queued_job_row run repo at spec =
     \<lparr>jb_job_id = pj_job_id spec, jb_run_id = run, jb_repo_id = repo, jb_name = pj_name spec,
      jb_image = pj_image spec, jb_status = ''queued'', jb_attempt = 0, jb_exit_code = None,
      jb_log_offset = None, jb_created_at = at, jb_updated_at = at, jb_started_at = None,
      jb_finished_at = None\<rparr>"

definition mark_run_running :: "run_id \<Rightarrow> timestamp \<Rightarrow> read_model \<Rightarrow> (read_model, sql_error) result" where
  "mark_run_running run at m = (case tbl_get (rm_runs m) run of
     None \<Rightarrow> Ok m
   | Some r \<Rightarrow> if rn_status r \<noteq> ''queued'' then Ok m
       else with_runs (upsert_run (r\<lparr>rn_status := ''running'', rn_updated_at := at,
         rn_started_at := Some at\<rparr>)) m)"

definition conclusion_of :: "job_row \<Rightarrow> job_conclusion" where
  "conclusion_of job =
     (if jb_status job = ''success'' then JobSuccess
      else if jb_status job = ''timed_out'' then JobTimedOut
      else if jb_status job = ''infra_failed'' then JobInfraFailed
      else if jb_status job = ''cancelled'' then JobCancelled else JobFailed)"

definition run_conclusion_row :: "run_id \<Rightarrow> jobs_table \<Rightarrow> run_conclusion option" where
  "run_conclusion_row run t =
     (let jobs = jobs_of run t in
      if jobs = [] \<or> \<not> list_all job_is_finished jobs then None
      else Some (from_jobs (map conclusion_of jobs)))"

definition end_run :: "run_conclusion \<Rightarrow> timestamp \<Rightarrow> run_row \<Rightarrow> run_row" where
  "end_run conclusion at r = r\<lparr>rn_status := run_conclusion_as_str conclusion, rn_updated_at := at,
     rn_finished_at := Some at\<rparr>"

definition apply_ci_event :: "ci_event \<Rightarrow> timestamp \<Rightarrow> read_model \<Rightarrow> (read_model, sql_error) result" where
  "apply_ci_event event at m = (case event of
     RunQueued run repo _ _ _ _ _ _ _ jobs \<Rightarrow>
       and_then (with_runs (upsert_run (queued_run event at)) m)
         (with_jobs (apply_all (\<lambda>spec. upsert_job (queued_job_row run repo at spec)) jobs))
   | JobStarted job run _ attempt log_offset \<Rightarrow>
       (case claim_job job attempt log_offset at (rm_jobs m) of
          (False, _) \<Rightarrow> Ok m
        | (True, jobs) \<Rightarrow> mark_run_running run at (m\<lparr>rm_jobs := jobs\<rparr>))
   | JobFinished job run _ attempt conclusion exit_code \<Rightarrow>
       (case finish_job job attempt (job_conclusion_as_str conclusion) exit_code at (rm_jobs m) of
          (False, _) \<Rightarrow> Ok m
        | (True, jobs) \<Rightarrow>
            (let m = m\<lparr>rm_jobs := jobs\<rparr> in
             case run_conclusion_row run (rm_jobs m) of
               None \<Rightarrow> Ok m
             | Some c \<Rightarrow> (case tbl_get (rm_runs m) run of
                 None \<Rightarrow> Ok m
               | Some r \<Rightarrow> if run_is_finished r then Ok m
                   else with_runs (upsert_run (end_run c at r)) m)))
   | RunFinished run _ conclusion \<Rightarrow>
       (case tbl_get (rm_runs m) run of
          None \<Rightarrow> Ok m
        | Some r \<Rightarrow> with_runs (upsert_run (end_run conclusion at r)) m))"

end
