(* ===== verification/Projector_Safety.thy ===== *)
theory Projector_Safety
  imports Projector_Apply
begin

text \<open>
  Applying an event keeps the tables sound, and applying it again changes nothing: the rule at the
  head of \<open>apply.rs\<close>, for every event of every topic the projector reads.
\<close>

section \<open>The events of the five topics\<close>

datatype any_event =
    UserEv user_event
  | RepoEv repo_event
  | IssueEv issue_event
  | PrEv pr_event
  | CiEv ci_event

definition apply_event :: "any_event \<Rightarrow> timestamp \<Rightarrow> read_model \<Rightarrow> (read_model, sql_error) result" where
  "apply_event ev at m = (case ev of
     UserEv e \<Rightarrow> apply_user_event e at m
   | RepoEv e \<Rightarrow> apply_repo_event e at m
   | IssueEv e \<Rightarrow> apply_issue_event e at m
   | PrEv e \<Rightarrow> apply_pr_event e at m
   | CiEv e \<Rightarrow> apply_ci_event e at m)"

abbreviation users_ok where "users_ok \<equiv> rows_ok ur_user_id ur_username_lower"
abbreviation repos_ok where "repos_ok \<equiv> rows_ok rp_repo_id rp_full_name_lower"
abbreviation issues_ok where "issues_ok \<equiv> rows_ok ir_issue_id issue_number"
abbreviation pulls_ok where "pulls_ok \<equiv> rows_ok pl_pr_id pull_number"
abbreviation runs_ok where "runs_ok \<equiv> rows_ok rn_run_id run_number"
abbreviation jobs_ok where "jobs_ok \<equiv> rows_ok jb_job_id job_slot"

named_theorems row_cols \<open>What an update of one row does to its columns\<close>

lemmas set_defs [row_cols] = users_set_def repos_set_def issues_set_def pulls_set_def runs_set_def
  jobs_set_def

section \<open>Users, repositories, issues and pull requests\<close>

lemma user_rows_twice:
  assumes "users_ok t" "apply_user_rows e at t = Ok t'"
  shows "users_ok t' \<and> apply_user_rows e at t' = Ok t'"
proof (cases e)
  case (UserRegistered u n l em h)
  with assms show ?thesis
    using users.upsert_twice users.upsert_rows_ok
    by (simp add: apply_user_rows_def users_upsert_def)
next
  case (UserProfileUpdated u dn b)
  with assms show ?thesis
    unfolding apply_user_rows_def
    by (simp only: user_event.case) (erule users.modify_row_twice [rotated 4], simp_all add: users_set_def)
next
  case (UserDeactivated u)
  with assms show ?thesis
    unfolding apply_user_rows_def
    by (simp only: user_event.case) (erule users.modify_row_twice [rotated 4], simp_all add: users_set_def)
qed

lemma update_repo_twice:
  assumes "repos_ok t" "update_repo repo at mutate t = Ok t'"
    and "\<And>r. rp_repo_id (mutate r) = rp_repo_id r"
    and "\<And>r. repos_set r ((mutate r)\<lparr>rp_updated_at := at\<rparr>) = (mutate r)\<lparr>rp_updated_at := at\<rparr>"
    and "\<And>r. (mutate ((mutate r)\<lparr>rp_updated_at := at\<rparr>))\<lparr>rp_updated_at := at\<rparr> = (mutate r)\<lparr>rp_updated_at := at\<rparr>"
  shows "repos_ok t' \<and> update_repo repo at mutate t' = Ok t'"
  using assms(2) unfolding update_repo_def
  by (rule repos.modify_row_twice [OF assms(1), rotated 3]) (simp_all add: assms(3-5))

lemma update_issue_twice:
  assumes "issues_ok t" "update_issue issue at mutate t = Ok t'"
    and "\<And>r. ir_issue_id (mutate r) = ir_issue_id r"
    and "\<And>r. issues_set r ((mutate r)\<lparr>ir_updated_at := at\<rparr>) = (mutate r)\<lparr>ir_updated_at := at\<rparr>"
    and "\<And>r. (mutate ((mutate r)\<lparr>ir_updated_at := at\<rparr>))\<lparr>ir_updated_at := at\<rparr> = (mutate r)\<lparr>ir_updated_at := at\<rparr>"
  shows "issues_ok t' \<and> update_issue issue at mutate t' = Ok t'"
  using assms(2) unfolding update_issue_def
  by (rule issues.modify_row_twice [OF assms(1), rotated 3]) (simp_all add: assms(3-5))

lemma update_pull_twice:
  assumes "pulls_ok t" "update_pull pr at mutate t = Ok t'"
    and "\<And>r. pl_pr_id (mutate r) = pl_pr_id r"
    and "\<And>r. pulls_set r ((mutate r)\<lparr>pl_updated_at := at\<rparr>) = (mutate r)\<lparr>pl_updated_at := at\<rparr>"
    and "\<And>r. (mutate ((mutate r)\<lparr>pl_updated_at := at\<rparr>))\<lparr>pl_updated_at := at\<rparr> = (mutate r)\<lparr>pl_updated_at := at\<rparr>"
  shows "pulls_ok t' \<and> update_pull pr at mutate t' = Ok t'"
  using assms(2) unfolding update_pull_def
  by (rule pulls.modify_row_twice [OF assms(1), rotated 3]) (simp_all add: assms(3-5))

lemma repo_rows_twice:
  assumes "repos_ok t" "apply_repo_rows e at t = Ok t'"
  shows "repos_ok t' \<and> apply_repo_rows e at t' = Ok t'"
proof (cases e)
  case (RepoCreated a b c d f g h i)
  with assms show ?thesis
    using repos.upsert_twice repos.upsert_rows_ok
    by (simp add: apply_repo_rows_def repos_upsert_def)
next
  case (RepoRenamed repo name full_name_lower)
  with assms show ?thesis
    by (simp add: apply_repo_rows_def) (rule update_repo_twice, simp_all add: repos_set_def)
next
  case (RepoDescriptionChanged repo description)
  with assms show ?thesis
    by (simp add: apply_repo_rows_def) (rule update_repo_twice, simp_all add: repos_set_def)
next
  case (RepoVisibilityChanged repo visibility)
  with assms show ?thesis
    by (simp add: apply_repo_rows_def) (rule update_repo_twice, simp_all add: repos_set_def)
next
  case (RepoDefaultBranchChanged repo default_branch)
  with assms show ?thesis
    by (simp add: apply_repo_rows_def) (rule update_repo_twice, simp_all add: repos_set_def)
next
  case (RepoDeleted repo)
  with assms show ?thesis
    by (simp add: apply_repo_rows_def) (rule update_repo_twice, simp_all add: repos_set_def)
qed (use assms in \<open>simp_all add: apply_repo_rows_def\<close>)

lemma pull_rows_twice:
  assumes "pulls_ok t" "apply_pull_rows e at t = Ok t'"
  shows "pulls_ok t' \<and> apply_pull_rows e at t' = Ok t'"
proof (cases e)
  case (PrOpened a b c d f g h i j k l)
  with assms show ?thesis
    using pulls.upsert_twice pulls.upsert_rows_ok
    by (simp add: apply_pull_rows_def opened_pull_def pulls_upsert_def)
next
  case (PrSynchronized pr b head base)
  with assms show ?thesis
    by (simp add: apply_pull_rows_def opened_pull_def)
       (rule update_pull_twice, simp_all add: pulls_set_def)
next
  case (PrMerged pr b c d f)
  with assms show ?thesis
    by (simp add: apply_pull_rows_def opened_pull_def)
       (rule update_pull_twice, simp_all add: pulls_set_def)
next
  case (PrClosed pr b c)
  with assms show ?thesis
    by (simp add: apply_pull_rows_def opened_pull_def)
       (rule update_pull_twice, simp_all add: pulls_set_def close_pull_def)
next
  case (PrReopened pr b c)
  with assms show ?thesis
    by (simp add: apply_pull_rows_def opened_pull_def)
       (rule update_pull_twice, simp_all add: pulls_set_def reopen_pull_def)
next
  case (PrMergeabilityComputed pr b head base ok paths)
  define check where "check = (if ok then merge_check_clean (to_hex head) (to_hex base)
    else merge_check_conflict (to_hex head) (to_hex base) paths)"
  obtain hit t1 where rc: "record_check pr check at t = (hit, t1)" by fastforce
  have t': "t' = t1" using assms(2) PrMergeabilityComputed rc
    by (simp add: apply_pull_rows_def opened_pull_def check_def)
  have "pulls_ok t1"
    using rc assms(1) unfolding record_check_def
    by (rule rows_ok_update) (simp_all add: pull_number_def)
  moreover have "snd (record_check pr check at t1) = t1"
    using update_where_twice [OF rc [unfolded record_check_def]] by (simp add: record_check_def)
  ultimately show ?thesis
    using PrMergeabilityComputed by (simp add: apply_pull_rows_def opened_pull_def check_def t')
qed (use assms in \<open>simp_all add: apply_pull_rows_def opened_pull_def\<close>)

section \<open>Runs and jobs\<close>

lemma claim_again:
  assumes "claim_job job attempt log at t = (True, t')"
  shows "claim_job job attempt' log' at' t' = (False, t')"
  using assms by (auto simp: claim_job_def update_where_def split: option.splits if_splits)

lemma finish_again:
  assumes "finish_job job attempt status ec at t = (True, t')"
  shows "finish_job job attempt status ec at t' = (True, t')"
  using assms unfolding finish_job_def by (rule update_where_twice) simp_all

lemma claim_jobs_ok: "claim_job job attempt log at t = (b, t') \<Longrightarrow> jobs_ok t \<Longrightarrow> jobs_ok t'"
  unfolding claim_job_def by (erule rows_ok_update) (auto simp: job_slot_def)

lemma finish_jobs_ok: "finish_job job attempt status ec at t = (b, t') \<Longrightarrow> jobs_ok t \<Longrightarrow> jobs_ok t'"
  unfolding finish_job_def by (erule rows_ok_update) (auto simp: job_slot_def)

definition just_queued :: "timestamp \<Rightarrow> job_row \<Rightarrow> bool" where
  "just_queued at r \<longleftrightarrow> jb_status r = ''queued'' \<and> jb_attempt r = 0 \<and> jb_exit_code r = None \<and>
     jb_log_offset r = None \<and> jb_updated_at r = at \<and> jb_started_at r = None \<and> jb_finished_at r = None"

lemma just_queued_set: "just_queued at r \<longleftrightarrow> jobs_set r (queued_job_row run repo at spec) = r"
  by (cases r) (auto simp: just_queued_def jobs_set_def queued_job_row_def)

lemma just_queued_new [simp]:
  "just_queued at (queued_job_row run repo at spec)" "just_queued at (jobs_set r (queued_job_row run repo at spec))"
  by (simp_all add: just_queued_def queued_job_row_def jobs_set_def)

lemma queue_one:
  assumes "upsert_job (queued_job_row run repo at spec) t = Ok t'" "jobs_ok t"
  shows "jobs_ok t' \<and> (\<exists>r. tbl_get t' (pj_job_id spec) = Some r \<and> just_queued at r) \<and>
    (\<forall>k r. tbl_get t k = Some r \<longrightarrow> just_queued at r \<longrightarrow> (\<exists>r'. tbl_get t' k = Some r' \<and> just_queued at r'))"
proof -
  have id: "jb_job_id (queued_job_row run repo at spec) = pj_job_id spec" by (simp add: queued_job_row_def)
  note up = assms(1) [unfolded upsert_job_def]
  have "just_queued at (stored_row jb_job_id jobs_set (queued_job_row run repo at spec) t)"
    by (simp add: stored_row_def split: option.splits)
  then show ?thesis
    using jobs.upsert_rows_ok [OF up assms(2)] jobs.upsert_get [OF up] by (simp add: id)
qed

lemma queue_all:
  assumes "apply_all (\<lambda>spec. upsert_job (queued_job_row run repo at spec)) specs t = Ok t'" "jobs_ok t"
  shows "jobs_ok t' \<and> (\<forall>spec\<in>set specs. \<exists>r. tbl_get t' (pj_job_id spec) = Some r \<and> just_queued at r) \<and>
    (\<forall>k r. tbl_get t k = Some r \<longrightarrow> just_queued at r \<longrightarrow> (\<exists>r'. tbl_get t' k = Some r' \<and> just_queued at r'))"
  using assms
proof (induction specs arbitrary: t)
  case (Cons spec specs)
  from Cons.prems(1) obtain t1 where t1: "upsert_job (queued_job_row run repo at spec) t = Ok t1"
    "apply_all (\<lambda>spec. upsert_job (queued_job_row run repo at spec)) specs t1 = Ok t'"
    by (auto simp: and_then_Ok_iff)
  note one = queue_one [OF t1(1) Cons.prems(2)]
  have IH: "jobs_ok t' \<and> (\<forall>spec\<in>set specs. \<exists>r. tbl_get t' (pj_job_id spec) = Some r \<and> just_queued at r) \<and>
    (\<forall>k r. tbl_get t1 k = Some r \<longrightarrow> just_queued at r \<longrightarrow> (\<exists>r'. tbl_get t' k = Some r' \<and> just_queued at r'))"
    using Cons.IH [OF t1(2)] one by blast
  from one obtain r where "tbl_get t1 (pj_job_id spec) = Some r" "just_queued at r" by blast
  with IH have "\<exists>r. tbl_get t' (pj_job_id spec) = Some r \<and> just_queued at r" by blast
  moreover have "\<exists>r'. tbl_get t' k = Some r' \<and> just_queued at r'"
    if "tbl_get t k = Some r" "just_queued at r" for k r
    using that one IH by meson
  ultimately show ?case using IH by simp
qed simp

lemma queue_noop:
  assumes "jobs_ok t" "\<forall>spec\<in>set specs. \<exists>r. tbl_get t (pj_job_id spec) = Some r \<and> just_queued at r"
  shows "apply_all (\<lambda>spec. upsert_job (queued_job_row run repo at spec)) specs t = Ok t"
  using assms(2)
proof (induction specs)
  case (Cons spec specs)
  then obtain r where r: "tbl_get t (pj_job_id spec) = Some r" "just_queued at r" by auto
  have "upsert_job (queued_job_row run repo at spec) t = Ok t"
    unfolding upsert_job_def using assms(1)
  proof (rule jobs.upsert_noop)
    show "tbl_get t (jb_job_id (queued_job_row run repo at spec)) = Some r"
      using r(1) by (simp add: queued_job_row_def)
    show "jobs_set r (queued_job_row run repo at spec) = r"
      using r(2) just_queued_set by blast
  qed
  with Cons show ?case by simp
qed simp

lemma upsert_run_twice:
  assumes "upsert_run r t = Ok t'" "runs_ok t"
  shows "runs_ok t' \<and> upsert_run r t' = Ok t'"
  using runs.upsert_twice [OF assms(1) [unfolded upsert_run_def]]
    runs.upsert_rows_ok [OF assms(1) [unfolded upsert_run_def] assms(2)]
  by (simp add: upsert_run_def)

text \<open>Read, modify, write of a run.\<close>

lemma modify_run:
  assumes "runs_ok t" "tbl_get t run = Some r" "upsert_run (f r) t = Ok t'"
    and "rn_run_id (f r) = rn_run_id r" "runs_set r (f r) = f r"
  shows "runs_ok t' \<and> tbl_get t' run = Some (f r)"
proof -
  have "rn_run_id (f r) = run" using assms(1,2,4) rows_ok_pk by metis
  then show ?thesis
    using runs.upsert_get [OF assms(3) [unfolded upsert_run_def], of run]
      upsert_run_twice [OF assms(3,1)] assms(2,5)
    by (simp add: stored_row_def)
qed

lemma end_run_cols:
  "rn_run_id (end_run c at r) = rn_run_id r" "runs_set r (end_run c at r) = end_run c at r"
  "end_run c at (end_run c at r) = end_run c at r" "run_is_finished (end_run c at r)"
  by (simp_all add: end_run_def runs_set_def run_is_finished_def run_conclusion_as_str_def
      split: run_conclusion.splits)

lemma mark_running_ok:
  assumes "mark_run_running run at m = Ok m'" "runs_ok (rm_runs m)"
  shows "rm_jobs m' = rm_jobs m \<and> runs_ok (rm_runs m')"
proof (cases "tbl_get (rm_runs m) run")
  case None
  then show ?thesis using assms by (simp add: mark_run_running_def)
next
  case (Some r)
  show ?thesis
  proof (cases "rn_status r = ''queued''")
    case True
    then obtain t where t: "upsert_run (r\<lparr>rn_status := ''running'', rn_updated_at := at,
        rn_started_at := Some at\<rparr>) (rm_runs m) = Ok t" and m': "m' = m\<lparr>rm_runs := t\<rparr>"
      using assms(1) Some by (auto simp: mark_run_running_def with_defs and_then_Ok_iff)
    show ?thesis using upsert_run_twice [OF t assms(2)] by (simp add: m')
  qed (use assms Some in \<open>simp add: mark_run_running_def\<close>)
qed

lemma ci_event_twice:
  assumes runs: "runs_ok (rm_runs m)" and jobs: "jobs_ok (rm_jobs m)"
    and app: "apply_ci_event e at m = Ok m'"
  shows "runs_ok (rm_runs m') \<and> jobs_ok (rm_jobs m') \<and> apply_ci_event e at m' = Ok m'"
proof (cases e)
  case (RunQueued run repo n w nm ev h rf ac specs)
  then obtain t1 t2 where t1: "upsert_run (queued_run e at) (rm_runs m) = Ok t1"
    and t2: "apply_all (\<lambda>spec. upsert_job (queued_job_row run repo at spec)) specs (rm_jobs m) = Ok t2"
    and m': "m' = m\<lparr>rm_runs := t1, rm_jobs := t2\<rparr>"
    using app by (auto simp: apply_ci_event_def with_defs and_then_Ok_iff)
  note q = queue_all [OF t2 jobs]
  have "apply_all (\<lambda>spec. upsert_job (queued_job_row run repo at spec)) specs t2 = Ok t2"
    using q by (intro queue_noop) blast+
  then show ?thesis
    using upsert_run_twice [OF t1 runs] q RunQueued by (simp add: apply_ci_event_def with_defs m')
next
  case (JobStarted job run repo attempt log)
  show ?thesis
  proof (cases "claim_job job attempt log at (rm_jobs m)")
    case (Pair b t)
    show ?thesis
    proof (cases b)
      case False
      with Pair JobStarted app runs jobs show ?thesis by (auto simp: apply_ci_event_def)
    next
      case True
      then have mark: "mark_run_running run at (m\<lparr>rm_jobs := t\<rparr>) = Ok m'"
        using Pair JobStarted app by (simp add: apply_ci_event_def)
      have m': "rm_jobs m' = t \<and> runs_ok (rm_runs m')"
        using mark_running_ok [OF mark] runs by simp
      have "claim_job job attempt log at t = (False, t)"
        using claim_again [of job attempt log at "rm_jobs m" t] Pair True by simp
      then show ?thesis
        using m' claim_jobs_ok [OF Pair jobs] JobStarted by (simp add: apply_ci_event_def)
    qed
  qed
next
  case (JobFinished job run repo attempt c ec)
  show ?thesis
  proof (cases "finish_job job attempt (job_conclusion_as_str c) ec at (rm_jobs m)")
    case (Pair b t)
    show ?thesis
    proof (cases b)
      case False
      with Pair JobFinished app runs jobs show ?thesis by (auto simp: apply_ci_event_def)
    next
      case True
      have again: "finish_job job attempt (job_conclusion_as_str c) ec at t = (True, t)"
        using finish_again [of job attempt _ ec at "rm_jobs m" t] Pair True by simp
      have jok: "jobs_ok t" using finish_jobs_ok [OF Pair jobs] .
      show ?thesis
      proof (cases "\<exists>rc r. run_conclusion_row run t = Some rc \<and> tbl_get (rm_runs m) run = Some r \<and>
          \<not> run_is_finished r")
        case True
        then obtain rc r where rc: "run_conclusion_row run t = Some rc"
          and r: "tbl_get (rm_runs m) run = Some r" "\<not> run_is_finished r" by blast
        then obtain t2 where t2: "upsert_run (end_run rc at r) (rm_runs m) = Ok t2"
          and m': "m' = m\<lparr>rm_jobs := t, rm_runs := t2\<rparr>"
          using app Pair \<open>b\<close> JobFinished by (auto simp: apply_ci_event_def with_defs and_then_Ok_iff)
        note mod = modify_run [OF runs r(1), of "end_run rc at", OF t2 end_run_cols(1,2)]
        then show ?thesis
          using JobFinished jok again rc by (simp add: m' apply_ci_event_def end_run_cols)
      next
        case False
        then have "m' = m\<lparr>rm_jobs := t\<rparr>"
          using app Pair \<open>b\<close> JobFinished by (auto simp: apply_ci_event_def Let_def split: option.splits if_splits)
        then show ?thesis
          using JobFinished jok again runs False
          by (auto simp: apply_ci_event_def Let_def split: option.splits)
      qed
    qed
  qed
next
  case (RunFinished run repo c)
  show ?thesis
  proof (cases "tbl_get (rm_runs m) run")
    case None
    with RunFinished app runs jobs show ?thesis by (auto simp: apply_ci_event_def)
  next
    case (Some r)
    then obtain t where t: "upsert_run (end_run c at r) (rm_runs m) = Ok t" and m': "m' = m\<lparr>rm_runs := t\<rparr>"
      using app RunFinished by (auto simp: apply_ci_event_def with_defs and_then_Ok_iff)
    note mod = modify_run [OF runs Some, of "end_run c at", OF t end_run_cols(1,2)]
    have "upsert_run (end_run c at r) t = Ok t" using upsert_run_twice [OF t runs] by blast
    with mod show ?thesis
      using RunFinished jobs by (simp add: m' apply_ci_event_def with_defs end_run_cols)
  qed
qed

section \<open>Issues\<close>

lemma refresh_twice: "refresh repo m = Ok m' \<Longrightarrow> refresh repo m' = Ok m' \<and> rm_issues m' = rm_issues m \<and> rm_comments m' = rm_comments m"
  by (auto simp: refresh_def refresh_counters_def tbl_put_idem)

lemma issue_event_twice:
  assumes ok: "issues_ok (rm_issues m)" "tbl_wf (rm_comments m)"
    and app: "apply_issue_event e at m = Ok m'"
  shows "issues_ok (rm_issues m') \<and> tbl_wf (rm_comments m') \<and> apply_issue_event e at m' = Ok m'"
proof (cases e)
  case (IssueOpened i r n t b a an)
  let ?row = "\<lparr>ir_issue_id = i, ir_repo_id = r, ir_number = n, ir_title = t, ir_body = b,
     ir_author_id = a, ir_author_name = an, ir_state = ''open'', ir_comment_count = 0,
     ir_created_at = at, ir_updated_at = at, ir_closed_at = None\<rparr>"
  obtain t1 where t1: "issues_upsert ?row (rm_issues m) = Ok t1"
    and ref: "refresh r (m\<lparr>rm_issues := t1\<rparr>) = Ok m'"
    using app IssueOpened by (auto simp: apply_issue_event_def with_defs and_then_Ok_iff)
  have m'': "m'\<lparr>rm_issues := t1\<rparr> = m'" using refresh_twice [OF ref] by simp
  show ?thesis
    using issues.upsert_twice [OF t1 [unfolded issues_upsert_def]]
      issues.upsert_rows_ok [OF t1 [unfolded issues_upsert_def] ok(1)] refresh_twice [OF ref] ok(2)
    by (simp add: IssueOpened apply_issue_event_def with_defs issues_upsert_def m'')
next
  case (IssueTitleChanged i r t)
  obtain t1 where t1: "update_issue i at (\<lambda>x. x\<lparr>ir_title := t\<rparr>) (rm_issues m) = Ok t1"
    and m': "m' = m\<lparr>rm_issues := t1\<rparr>"
    using app IssueTitleChanged by (auto simp: apply_issue_event_def with_defs and_then_Ok_iff)
  from update_issue_twice [OF ok(1) t1] show ?thesis
    using ok(2) by (simp add: IssueTitleChanged apply_issue_event_def with_defs m' issues_set_def)
next
  case (IssueClosed i r w)
  obtain t1 where t1: "update_issue i at (\<lambda>x. x\<lparr>ir_state := ''closed'', ir_closed_at := Some at\<rparr>) (rm_issues m) = Ok t1"
    and ref: "refresh r (m\<lparr>rm_issues := t1\<rparr>) = Ok m'"
    using app IssueClosed by (auto simp: apply_issue_event_def with_defs and_then_Ok_iff)
  have m'': "m'\<lparr>rm_issues := t1\<rparr> = m'" using refresh_twice [OF ref] by simp
  from update_issue_twice [OF ok(1) t1] show ?thesis
    using ok(2) refresh_twice [OF ref]
    by (simp add: IssueClosed apply_issue_event_def with_defs m'' issues_set_def)
next
  case (IssueReopened i r w)
  obtain t1 where t1: "update_issue i at (\<lambda>x. x\<lparr>ir_state := ''open'', ir_closed_at := None\<rparr>) (rm_issues m) = Ok t1"
    and ref: "refresh r (m\<lparr>rm_issues := t1\<rparr>) = Ok m'"
    using app IssueReopened by (auto simp: apply_issue_event_def with_defs and_then_Ok_iff)
  have m'': "m'\<lparr>rm_issues := t1\<rparr> = m'" using refresh_twice [OF ref] by simp
  from update_issue_twice [OF ok(1) t1] show ?thesis
    using ok(2) refresh_twice [OF ref]
    by (simp add: IssueReopened apply_issue_event_def with_defs m'' issues_set_def)
next
  case (IssueCommented c i r a an b)
  let ?row = "\<lparr>cr_comment_id = c, cr_issue_id = i, cr_repo_id = r, cr_author_id = a,
    cr_author_name = an, cr_body = b, cr_created_at = at, cr_updated_at = at\<rparr>"
  define cs where "cs = insert_comment ?row (rm_comments m)"
  define f where "f x = x\<lparr>ir_comment_count := int (length (comments_of i (page_size 100) cs)),
    ir_updated_at := at\<rparr>" for x :: issue_row
  have again: "insert_comment ?row cs = cs" and wf: "tbl_wf cs"
    using ok(2) by (simp_all add: cs_def insert_comment_def)
  have app': "apply_issue_event e at m0 = and_then (modify_row ''issues'' ir_issue_id issue_number issues_set i f
      (rm_issues m0)) (\<lambda>t. Ok (m0\<lparr>rm_comments := cs, rm_issues := t\<rparr>))"
    if "insert_comment ?row (rm_comments m0) = cs" for m0
    using that
    by (simp add: IssueCommented apply_issue_event_def with_defs modify_row_def issues_upsert_def f_def Let_def
        split: option.split)
  obtain t1 where t1: "modify_row ''issues'' ir_issue_id issue_number issues_set i f (rm_issues m) = Ok t1"
    and m': "m' = m\<lparr>rm_comments := cs, rm_issues := t1\<rparr>"
    using app app' [of m] by (auto simp: cs_def and_then_Ok_iff)
  have "issues_ok t1 \<and> modify_row ''issues'' ir_issue_id issue_number issues_set i f t1 = Ok t1"
    by (rule issues.modify_row_twice [OF ok(1) _ _ _ t1]) (simp_all add: f_def issues_set_def)
  then show ?thesis using app' [of m'] again wf by (simp add: m')
qed

section \<open>Every event\<close>

lemma with_cases:
  "with_users f m = Ok m' \<Longrightarrow> \<exists>t. f (rm_users m) = Ok t \<and> m' = m\<lparr>rm_users := t\<rparr>"
  "with_repos g m = Ok m' \<Longrightarrow> \<exists>t. g (rm_repos m) = Ok t \<and> m' = m\<lparr>rm_repos := t\<rparr>"
  "with_pulls h m = Ok m' \<Longrightarrow> \<exists>t. h (rm_pulls m) = Ok t \<and> m' = m\<lparr>rm_pulls := t\<rparr>"
  by (auto simp: with_defs and_then_Ok_iff)

lemma issue_event_frame:
  assumes "apply_issue_event e at m = Ok m'"
  shows "rm_users m' = rm_users m" "rm_repos m' = rm_repos m" "rm_pulls m' = rm_pulls m"
    "rm_runs m' = rm_runs m" "rm_jobs m' = rm_jobs m" "rm_cursors m' = rm_cursors m"
    "rm_reviews m' = rm_reviews m"
  using assms
  by (cases e; auto simp: apply_issue_event_def with_defs and_then_Ok_iff refresh_def Let_def
      split: option.splits)+

lemma ci_event_frame:
  assumes "apply_ci_event e at m = Ok m'"
  shows "rm_users m' = rm_users m" "rm_repos m' = rm_repos m" "rm_pulls m' = rm_pulls m"
    "rm_issues m' = rm_issues m" "rm_comments m' = rm_comments m" "rm_cursors m' = rm_cursors m"
    "rm_reviews m' = rm_reviews m" "rm_counters m' = rm_counters m"
  using assms
  by (cases e; auto simp: apply_ci_event_def mark_run_running_def with_defs and_then_Ok_iff Let_def
      split: option.splits if_splits prod.splits bool.splits)+

lemma pr_event_frame:
  assumes "apply_pr_event e at m = Ok m'"
  shows "rm_users m' = rm_users m" "rm_repos m' = rm_repos m" "rm_issues m' = rm_issues m"
    "rm_comments m' = rm_comments m" "rm_runs m' = rm_runs m" "rm_jobs m' = rm_jobs m"
    "rm_cursors m' = rm_cursors m" "rm_counters m' = rm_counters m"
  using assms by (cases e; auto simp: apply_pr_event_def with_defs and_then_Ok_iff)+

lemma pr_event_twice:
  assumes "pulls_ok (rm_pulls m)" "apply_pr_event e at m = Ok m'"
  shows "pulls_ok (rm_pulls m') \<and> apply_pr_event e at m' = Ok m'"
proof (cases "\<exists>a b c d f g h. e = PrReviewed a b c d f g h")
  case True
  then show ?thesis
    using assms by (auto simp: apply_pr_event_def insert_review_def)
next
  case False
  have app: "apply_pr_event e at m0 = with_pulls (apply_pull_rows e at) m0" for m0
    using False by (cases e) (auto simp: apply_pr_event_def)
  obtain t where t: "apply_pull_rows e at (rm_pulls m) = Ok t" and m': "m' = m\<lparr>rm_pulls := t\<rparr>"
    using with_cases(3) [of "apply_pull_rows e at" m m'] assms(2) unfolding app by blast
  from pull_rows_twice [OF assms(1) t] show ?thesis
    by (auto simp: app with_defs m')
qed

text \<open>Property C23: applying an event twice is applying it once. Whatever the tables hold, as long
  as their keys and unique columns are sound, every event of the five topics that applies leaves
  them sound, and applying it again at once succeeds and changes no table.\<close>

theorem apply_event_idempotent:
  assumes "model_ok m" "apply_event ev at m = Ok m'"
  shows "model_ok m' \<and> apply_event ev at m' = Ok m'"
proof (cases ev)
  case (UserEv e)
  then obtain t where t: "apply_user_rows e at (rm_users m) = Ok t" and m': "m' = m\<lparr>rm_users := t\<rparr>"
    using with_cases(1) [of "apply_user_rows e at" m m'] assms(2) by (auto simp: apply_event_def apply_user_event_def)
  show ?thesis
    using user_rows_twice [OF _ t] assms(1)
    by (simp add: model_ok_def UserEv apply_event_def apply_user_event_def with_defs m')
next
  case (RepoEv e)
  then obtain t where t: "apply_repo_rows e at (rm_repos m) = Ok t" and m': "m' = m\<lparr>rm_repos := t\<rparr>"
    using with_cases(2) [of "apply_repo_rows e at" m m'] assms(2) by (auto simp: apply_event_def apply_repo_event_def)
  show ?thesis
    using repo_rows_twice [OF _ t] assms(1)
    by (simp add: model_ok_def RepoEv apply_event_def apply_repo_event_def with_defs m')
next
  case (IssueEv e)
  with assms(2) have app: "apply_issue_event e at m = Ok m'" by (simp add: apply_event_def)
  show ?thesis
    using issue_event_twice [OF _ _ app] issue_event_frame [OF app] assms(1)
    by (simp add: model_ok_def IssueEv apply_event_def)
next
  case (PrEv e)
  with assms(2) have app: "apply_pr_event e at m = Ok m'" by (simp add: apply_event_def)
  show ?thesis
    using pr_event_twice [OF _ app] pr_event_frame [OF app] assms(1)
    by (auto simp: model_ok_def PrEv apply_event_def)
next
  case (CiEv e)
  with assms(2) have app: "apply_ci_event e at m = Ok m'" by (simp add: apply_event_def)
  show ?thesis
    using ci_event_twice [OF _ _ app] ci_event_frame [OF app] assms(1)
    by (simp add: model_ok_def CiEv apply_event_def)
qed

text \<open>A run with two jobs is queued and one of them starts; the second delivery of the start finds
  the job taken.\<close>

definition demo_queued :: any_event where
  "demo_queued = CiEv (RunQueued ''run'' ''repo'' 1 ''ci.yml'' ''CI'' ''push'' oid_zero ''refs/heads/main'' ''ann''
     [\<lparr>pj_job_id = ''j1'', pj_name = ''test'', pj_image = ''rust''\<rparr>,
      \<lparr>pj_job_id = ''j2'', pj_name = ''lint'', pj_image = ''rust''\<rparr>])"

definition demo_started :: any_event where
  "demo_started = CiEv (JobStarted ''j1'' ''run'' ''repo'' 1 40)"

definition demo_model :: read_model where
  "demo_model = (case apply_event demo_queued 5 empty_model of Ok m \<Rightarrow> m | Err _ \<Rightarrow> empty_model)"

definition demo_running :: read_model where
  "demo_running = (case apply_event demo_started 6 demo_model of Ok m \<Rightarrow> m | Err _ \<Rightarrow> empty_model)"

lemma apply_event_witness:
  "apply_event demo_started 6 demo_running = Ok demo_running \<and>
   map_option rn_status (tbl_get (rm_runs demo_running) ''run'') = Some ''running''"
proof -
  have "model_ok demo_model" "apply_event demo_started 6 demo_model = Ok demo_running" by code_simp+
  from apply_event_idempotent [OF this] show ?thesis by (rule conjE) (intro conjI, assumption, code_simp)
qed

end
