(* ===== verification/Projector_History.thy ===== *)
theory Projector_History
  imports Projector_Safety
begin

text \<open>
  What a whole history of events leaves in the tables. The user, repository and pull request
  tables are interpretations of \<open>statement_table\<close>: each row is the fold of its own events, and
  replaying the history over its own result changes nothing. The rest is what the rows mean
  afterwards: a merged pull request stays merged, and the merge button needs a check of the
  commits the request is at now.
\<close>

section \<open>The events of each table as statements\<close>

definition user_stmt :: "user_event \<times> timestamp \<Rightarrow> (user_id, user_row) statement" where
  "user_stmt = (\<lambda>(e, at). case e of
     UserRegistered u n l em h \<Rightarrow> Upsert (user_record u n l em h at)
   | UserProfileUpdated u dn b \<Rightarrow>
       Modify u (\<lambda>r. r\<lparr>ur_display_name := dn, ur_bio := b, ur_updated_at := at\<rparr>)
   | UserDeactivated u \<Rightarrow> Modify u (\<lambda>r. r\<lparr>ur_state := ''deactivated'', ur_updated_at := at\<rparr>))"

lemma user_rows_stmt:
  "apply_user_rows e at t = run_statement ''users'' ur_user_id ur_username_lower users_set (user_stmt (e, at)) t"
  by (cases e) (simp_all add: apply_user_rows_def user_stmt_def run_statement_def users_upsert_def)

interpretation user_table: statement_table ur_user_id ur_username_lower users_set "''users''" user_stmt
  by unfold_locales
     (auto simp: user_stmt_def changes_well_def users_set_def split: user_event.splits)

definition repo_stmt :: "repo_event \<times> timestamp \<Rightarrow> (repo_id, repo_row) statement" where
  "repo_stmt = (\<lambda>(e, at). case e of
     RepoCreated repo owner owner_name name full_name_lower description default_branch visibility \<Rightarrow>
       Upsert ((repo_record_defaults repo at)\<lparr>rp_owner_id := owner, rp_owner_name := owner_name,
         rp_name := name, rp_full_name_lower := full_name_lower, rp_description := description,
         rp_default_branch := default_branch, rp_visibility := visibility_display visibility\<rparr>)
   | RepoRenamed repo name full_name_lower \<Rightarrow>
       Modify repo (\<lambda>r. r\<lparr>rp_name := name, rp_full_name_lower := full_name_lower, rp_updated_at := at\<rparr>)
   | RepoDescriptionChanged repo description \<Rightarrow>
       Modify repo (\<lambda>r. r\<lparr>rp_description := description, rp_updated_at := at\<rparr>)
   | RepoVisibilityChanged repo visibility \<Rightarrow>
       Modify repo (\<lambda>r. r\<lparr>rp_visibility := visibility_display visibility, rp_updated_at := at\<rparr>)
   | RepoDefaultBranchChanged repo default_branch \<Rightarrow>
       Modify repo (\<lambda>r. r\<lparr>rp_default_branch := default_branch, rp_updated_at := at\<rparr>)
   | RepoDeleted repo \<Rightarrow> Modify repo (\<lambda>r. r\<lparr>rp_deleted := True, rp_updated_at := at\<rparr>)
   | _ \<Rightarrow> Skip)"

lemma repo_rows_stmt:
  "apply_repo_rows e at t = run_statement ''repos'' rp_repo_id rp_full_name_lower repos_set (repo_stmt (e, at)) t"
  by (cases e) (simp_all add: apply_repo_rows_def repo_stmt_def run_statement_def repos_upsert_def update_repo_def)

interpretation repo_table: statement_table rp_repo_id rp_full_name_lower repos_set "''repos''" repo_stmt
  by unfold_locales
     (auto simp: repo_stmt_def changes_well_def repos_set_def split: repo_event.splits)

definition pull_stmt :: "pr_event \<times> timestamp \<Rightarrow> (pr_id, pull_row) statement" where
  "pull_stmt = (\<lambda>(e, at). case opened_pull e at of
     Some record \<Rightarrow> Upsert record
   | None \<Rightarrow> (case e of
       PrSynchronized pr _ head base \<Rightarrow>
         Modify pr (\<lambda>r. r\<lparr>pl_head_oid := to_hex head, pl_base_oid := to_hex base, pl_updated_at := at\<rparr>)
     | PrMergeabilityComputed pr _ head base is_mergeable paths \<Rightarrow>
         Patch pr (\<lambda>r. pl_head_oid r = to_hex head \<and> pl_base_oid r = to_hex base)
           (\<lambda>r. r\<lparr>pl_merge_check := Some (if is_mergeable then merge_check_clean (to_hex head) (to_hex base)
                else merge_check_conflict (to_hex head) (to_hex base) paths), pl_updated_at := at\<rparr>)
     | PrMerged pr _ merge_commit _ merged_by_name \<Rightarrow>
         Modify pr (\<lambda>r. r\<lparr>pl_state := ''merged'', pl_merge_commit_oid := Some (to_hex merge_commit),
           pl_merged_by_name := Some merged_by_name, pl_merged_at := Some at, pl_closed_at := Some at,
           pl_updated_at := at\<rparr>)
     | PrClosed pr _ _ \<Rightarrow> Modify pr (\<lambda>r. (close_pull at r)\<lparr>pl_updated_at := at\<rparr>)
     | PrReopened pr _ _ \<Rightarrow> Modify pr (\<lambda>r. (reopen_pull r)\<lparr>pl_updated_at := at\<rparr>)
     | _ \<Rightarrow> Skip))"

lemma check_commits [simp]:
  "mc_head (if b then merge_check_clean h c else merge_check_conflict h c ps) = h"
  "mc_base (if b then merge_check_clean h c else merge_check_conflict h c ps) = c"
  by (simp_all add: merge_check_clean_def merge_check_conflict_def)

lemma pull_rows_stmt:
  "apply_pull_rows e at t = run_statement ''pulls'' pl_pr_id pull_number pulls_set (pull_stmt (e, at)) t"
  by (cases e) (simp_all add: apply_pull_rows_def pull_stmt_def run_statement_def pulls_upsert_def
      update_pull_def opened_pull_def record_check_def)

interpretation pull_table: statement_table pl_pr_id pull_number pulls_set "''pulls''" pull_stmt
  by unfold_locales
     (auto simp: pull_stmt_def opened_pull_def changes_well_def pulls_set_def pull_number_def
       close_pull_def reopen_pull_def split: pr_event.splits)

section \<open>Rebuilding the pull requests\<close>

definition project_pulls :: "(pr_event \<times> timestamp) list \<Rightarrow> pulls_table \<Rightarrow> (pulls_table, sql_error) result" where
  "project_pulls es t = apply_all (\<lambda>(e, at). apply_pull_rows e at) es t"

definition pull_history :: "pr_id \<Rightarrow> (pr_event \<times> timestamp) list \<Rightarrow> pull_row option \<Rightarrow> pull_row option" where
  "pull_history k es v = fold (row_step (\<lambda>e. created_by (pull_stmt e))
     (\<lambda>k e. changed_by k (pull_stmt e)) pl_pr_id pulls_set k) es v"

text \<open>Two openings are of the same pull request exactly when they carry the same number of the
  same repository.\<close>

definition pr_numbers_settled :: "(pr_event \<times> timestamp) list \<Rightarrow> bool" where
  "pr_numbers_settled es \<longleftrightarrow> list_all (\<lambda>(e, _). list_all (\<lambda>(f, _).
     case (opened_pull e 0, opened_pull f 0) of
       (Some n, Some m) \<Rightarrow> (pl_pr_id n = pl_pr_id m) = (pull_number n = pull_number m)
     | _ \<Rightarrow> True) es) es"

lemma project_pulls_stmt:
  "project_pulls es t = apply_all (\<lambda>e. run_statement ''pulls'' pl_pr_id pull_number pulls_set (pull_stmt e)) es t"
proof -
  have "(\<lambda>(e, at). apply_pull_rows e at) = (\<lambda>e. run_statement ''pulls'' pl_pr_id pull_number pulls_set (pull_stmt e))"
    by (intro ext) (simp add: pull_rows_stmt split: prod.split)
  then show ?thesis by (simp add: project_pulls_def)
qed

lemma created_pull: "created_by (pull_stmt (e, at)) = opened_pull e at"
  by (cases e) (simp_all add: pull_stmt_def created_by_def opened_pull_def)

lemma opened_pull_key:
  "opened_pull e at = Some n \<Longrightarrow> opened_pull e 0 = Some m \<Longrightarrow> pl_pr_id n = pl_pr_id m \<and> pull_number n = pull_number m"
  "opened_pull e at = Some n \<Longrightarrow> \<exists>m. opened_pull e 0 = Some m"
  by (cases e; auto simp: opened_pull_def pull_number_def)+

lemma pulls_settled:
  "pr_numbers_settled es \<Longrightarrow>
     settled (\<lambda>e. created_by (pull_stmt e)) (\<lambda>k e. changed_by k (pull_stmt e)) pl_pr_id pull_number es"
  unfolding settled_def
proof (intro conjI ballI allI impI)
  fix e f n m assume ok: "pr_numbers_settled es" and ef: "e \<in> set es" "f \<in> set es"
    and "created_by (pull_stmt e) = Some n" "created_by (pull_stmt f) = Some m"
  then have nm: "opened_pull (fst e) (snd e) = Some n" "opened_pull (fst f) (snd f) = Some m"
    using created_pull [of "fst e" "snd e"] created_pull [of "fst f" "snd f"] by simp_all
  obtain n0 m0 where nm0: "opened_pull (fst e) 0 = Some n0" "opened_pull (fst f) 0 = Some m0"
    using opened_pull_key(2) nm by blast
  have "(pl_pr_id n0 = pl_pr_id m0) = (pull_number n0 = pull_number m0)"
    using ok ef nm0 by (force simp: pr_numbers_settled_def list_all_iff)
  then show "(pl_pr_id n = pl_pr_id m) = (pull_number n = pull_number m)"
    using opened_pull_key(1) nm nm0 by metis
next
  fix e k r
  show "pull_number (changed_by k (pull_stmt e) r) = pull_number r"
  proof (cases e)
    case (Pair ev at)
    then show ?thesis
      by (cases ev) (simp_all add: changed_by_def pull_stmt_def opened_pull_def pull_number_def
          close_pull_def reopen_pull_def)
  qed
qed

text \<open>Property C22: the recovery drill for pull requests. When no two pull requests share a number,
  projecting their whole history onto an empty table succeeds; every row is the fold of its own
  events, in order, and of no other's; and projecting the same history again onto the table it
  produced succeeds and leaves every row as it was.\<close>

theorem pulls_rebuild:
  assumes "pr_numbers_settled es"
  shows "\<exists>t t'. project_pulls es [] = Ok t \<and> project_pulls es t = Ok t' \<and> pulls_ok t \<and>
    (\<forall>k. tbl_get t k = pull_history k es None) \<and> (\<forall>k. tbl_get t' k = tbl_get t k)"
  using pull_table.rows.rebuild [OF pulls_settled [OF assms]]
  unfolding project_pulls_stmt pull_history_def by blast

section \<open>What the rows mean\<close>

lemma project_pulls_get:
  assumes "project_pulls es t = Ok t'" "pulls_ok t"
  shows "pulls_ok t' \<and> tbl_get t' k = pull_history k es (tbl_get t k)"
  using pull_table.rows.all_get [OF assms(2) assms(1) [unfolded project_pulls_stmt], of k]
  unfolding pull_history_def .

text \<open>One event on one row, written out.\<close>

lemma pull_history_Cons:
  "pull_history k ((e, at) # es) v = pull_history k es (case opened_pull e at of
     Some new \<Rightarrow> if pl_pr_id new = k then Some (case v of None \<Rightarrow> new | Some old \<Rightarrow> pulls_set old new) else v
   | None \<Rightarrow> map_option (changed_by k (pull_stmt (e, at))) v)"
  by (simp add: pull_history_def row_step_def created_pull)

definition opens :: "pr_id \<Rightarrow> pr_event \<Rightarrow> bool" where
  "opens k e \<longleftrightarrow> (case opened_pull e 0 of Some r \<Rightarrow> pl_pr_id r = k | None \<Rightarrow> False)"

lemma merged_step:
  "\<not> opens k e \<Longrightarrow> opened_pull e at = None \<Longrightarrow> pull_is_merged r \<Longrightarrow>
     pull_is_merged (changed_by k (pull_stmt (e, at)) r)"
  by (cases e) (auto simp: opened_pull_def changed_by_def pull_stmt_def pull_is_merged_def
      close_pull_def reopen_pull_def)

lemma merged_history:
  assumes "list_all (\<lambda>(e, _). \<not> opens k e) es" "pull_is_merged r"
  shows "\<exists>r'. pull_history k es (Some r) = Some r' \<and> pull_is_merged r'"
  using assms
proof (induction es arbitrary: r)
  case (Cons x es)
  obtain e at where x: "x = (e, at)" by (cases x)
  have no: "\<not> opens k e" using Cons.prems(1) by (simp add: x)
  show ?case
  proof (cases "opened_pull e at")
    case None
    then show ?thesis
      using Cons.IH [OF _ merged_step [OF no None Cons.prems(2)]] Cons.prems(1)
      by (simp add: x pull_history_Cons)
  next
    case (Some n)
    then obtain m where "opened_pull e 0 = Some m" "pl_pr_id n = pl_pr_id m"
      using opened_pull_key by blast
    then have "pl_pr_id n \<noteq> k" using no by (simp add: opens_def)
    then show ?thesis using Cons by (simp add: x pull_history_Cons Some)
  qed
qed (simp add: pull_history_def)

text \<open>A merged pull request stays merged. Whatever events follow, closing, reopening,
  pushes, checks and reviews included, short of opening the same request again, its row still
  says merged and the merge button is never offered.\<close>

theorem merged_stays_merged:
  assumes "project_pulls es t = Ok t'" "pulls_ok t"
    and "tbl_get t k = Some r" "pull_is_merged r" "list_all (\<lambda>(e, _). \<not> opens k e) es"
  shows "\<exists>r'. tbl_get t' k = Some r' \<and> pull_is_merged r' \<and> \<not> can_merge r'"
  using project_pulls_get [OF assms(1,2), of k] merged_history [OF assms(5,4)] assms(3)
  by (auto simp: pull_is_merged_def can_merge_def pull_is_open_def)

text \<open>A stored check is one that some event reported for this request.\<close>

definition reported :: "(pr_event \<times> timestamp) list \<Rightarrow> pr_id \<Rightarrow> merge_check \<Rightarrow> bool" where
  "reported es k c \<longleftrightarrow> (\<exists>(e, at)\<in>set es. \<exists>repo head base clean paths.
     e = PrMergeabilityComputed k repo head base clean paths \<and>
     c = (if clean then merge_check_clean (to_hex head) (to_hex base)
          else merge_check_conflict (to_hex head) (to_hex base) paths))"

lemma reportedI:
  "(PrMergeabilityComputed k repo head base clean paths, at) \<in> set es \<Longrightarrow>
     reported es k (if clean then merge_check_clean (to_hex head) (to_hex base)
       else merge_check_conflict (to_hex head) (to_hex base) paths)"
  unfolding reported_def by blast

lemma changed_check:
  "pl_merge_check (changed_by k (pull_stmt (e, at)) r) = Some c \<Longrightarrow>
     pl_merge_check r = Some c \<or> (\<exists>repo head base clean paths.
       e = PrMergeabilityComputed k repo head base clean paths \<and>
       c = (if clean then merge_check_clean (to_hex head) (to_hex base)
            else merge_check_conflict (to_hex head) (to_hex base) paths))"
  by (cases e) (auto simp: changed_by_def pull_stmt_def opened_pull_def close_pull_def reopen_pull_def
      split: if_splits)

lemma reported_history:
  assumes "set es \<subseteq> set all"
    and "\<forall>r c. v = Some r \<longrightarrow> pl_merge_check r = Some c \<longrightarrow> reported all k c"
    and "pull_history k es v = Some r" "pl_merge_check r = Some c"
  shows "reported all k c"
  using assms
proof (induction es arbitrary: v)
  case (Cons x es)
  obtain e at where x: "x = (e, at)" by (cases x)
  have mem: "(e, at) \<in> set all" using Cons.prems(1) by (simp add: x)
  have change: "reported all k c1"
    if "v = Some r0" "pl_merge_check (changed_by k (pull_stmt (e, at)) r0) = Some c1" for r0 c1
    using changed_check [OF that(2)] Cons.prems(2) that(1) mem by (auto intro: reportedI)
  have fresh: "pl_merge_check n = None" if "opened_pull e at = Some n" for n
    using that by (cases e) (auto simp: opened_pull_def)
  show ?case
  proof (cases "opened_pull e at")
    case None
    show ?thesis
    proof (rule Cons.IH)
      show "set es \<subseteq> set all" using Cons.prems(1) by simp
      show "pull_history k es (map_option (changed_by k (pull_stmt (e, at))) v) = Some r"
        using Cons.prems(3) None by (simp add: x pull_history_Cons)
    qed (use change Cons.prems(4) in auto)
  next
    case (Some n)
    show ?thesis
    proof (rule Cons.IH)
      show "set es \<subseteq> set all" using Cons.prems(1) by simp
      show "pull_history k es (if pl_pr_id n = k
          then Some (case v of None \<Rightarrow> n | Some old \<Rightarrow> pulls_set old n) else v) = Some r"
        using Cons.prems(3) Some by (simp add: x pull_history_Cons)
    qed (use fresh [OF Some] Cons.prems(2,4) in \<open>auto simp: pulls_set_def split: option.splits if_splits\<close>)
  qed
qed (simp add: pull_history_def)

text \<open>The merge button is never offered on stale news. When a row of the projected
  history says that a request can be merged, it is open, and some event of that history reported
  a clean trial merge of this very request at exactly the head and the base the row has now.\<close>

theorem can_merge_is_current:
  assumes "project_pulls es [] = Ok t" "tbl_get t k = Some r" "can_merge r"
  shows "pull_is_open r \<and> (\<exists>(e, at)\<in>set es. \<exists>repo head base paths.
    e = PrMergeabilityComputed k repo head base True paths \<and>
    pl_head_oid r = to_hex head \<and> pl_base_oid r = to_hex base)"
proof -
  have row: "pull_history k es None = Some r"
    using project_pulls_get [OF assms(1), of k] assms(2) by simp
  obtain c where c: "pl_merge_check r = Some c" "mc_head c = pl_head_oid r" "mc_base c = pl_base_oid r"
    "mergeable_parse (mc_verdict c) = Clean"
    using assms(3) by (auto simp: can_merge_def mergeability_def split: option.splits if_splits)
  have "reported es k c"
    by (rule reported_history [OF subset_refl _ row c(1)]) simp
  then obtain e at repo head base clean paths where e: "(e, at) \<in> set es"
      "e = PrMergeabilityComputed k repo head base clean paths"
      "c = (if clean then merge_check_clean (to_hex head) (to_hex base)
        else merge_check_conflict (to_hex head) (to_hex base) paths)"
    unfolding reported_def by blast
  have "clean"
    using c(4) e(3) by (auto simp: merge_check_conflict_def mergeable_parse_def mergeable_as_str_def split: if_splits)
  with e c have "e = PrMergeabilityComputed k repo head base True paths"
    "pl_head_oid r = to_hex head" "pl_base_oid r = to_hex base"
    by (auto simp: merge_check_clean_def split: if_splits)
  then show ?thesis using e(1) assms(3) unfolding can_merge_def by blast
qed

section \<open>A small history\<close>

definition demo_opened :: "(pr_event \<times> timestamp) list" where
  "demo_opened =
     [(PrOpened ''p'' ''r'' 1 ''t'' None ''u'' ''ann'' ''topic'' ''main'' oid_zero oid_zero, 1),
      (PrMergeabilityComputed ''p'' ''r'' oid_zero oid_zero True [], 2)]"

definition demo_merged :: "(pr_event \<times> timestamp) list" where
  "demo_merged = demo_opened @ [(PrMerged ''p'' ''r'' oid_zero ''u'' ''ann'', 3)]"

definition demo_after :: "(pr_event \<times> timestamp) list" where
  "demo_after = [(PrReopened ''p'' ''r'' ''u'', 4), (PrClosed ''p'' ''r'' ''u'', 5)]"

definition projected_pulls :: "(pr_event \<times> timestamp) list \<Rightarrow> pulls_table" where
  "projected_pulls es = (case project_pulls es [] of Ok t \<Rightarrow> t | Err _ \<Rightarrow> [])"

lemma pulls_rebuild_witness:
  "\<exists>t. project_pulls demo_merged [] = Ok t \<and>
     (\<exists>t'. project_pulls demo_merged t = Ok t' \<and> tbl_get t' ''p'' = tbl_get t ''p'')"
proof -
  have "pr_numbers_settled demo_merged" by code_simp
  from pulls_rebuild [OF this] show ?thesis by blast
qed

lemma merged_stays_witness:
  "\<exists>t'. project_pulls demo_after (projected_pulls demo_merged) = Ok t' \<and>
     (\<exists>r'. tbl_get t' ''p'' = Some r' \<and> pull_is_merged r' \<and> \<not> can_merge r')"
proof -
  let ?t = "projected_pulls demo_merged"
  let ?t' = "case project_pulls demo_after ?t of Ok t \<Rightarrow> t | Err _ \<Rightarrow> []"
  have "project_pulls demo_after ?t = Ok ?t'" "pulls_ok ?t"
    "tbl_get ?t ''p'' = Some (the (tbl_get ?t ''p''))" "pull_is_merged (the (tbl_get ?t ''p''))"
    "list_all (\<lambda>(e, _). \<not> opens ''p'' e) demo_after"
    by code_simp+
  from merged_stays_merged [OF this] this(1) show ?thesis by blast
qed

lemma can_merge_witness:
  "\<exists>(e, at)\<in>set demo_opened. \<exists>repo head base paths.
     e = PrMergeabilityComputed ''p'' repo head base True paths"
proof -
  let ?t = "projected_pulls demo_opened"
  have "project_pulls demo_opened [] = Ok ?t" "tbl_get ?t ''p'' = Some (the (tbl_get ?t ''p''))"
    "can_merge (the (tbl_get ?t ''p''))"
    by code_simp+
  from can_merge_is_current [OF this] show ?thesis by blast
qed

end
