(* ===== verification/Projector_Ci.thy ===== *)
theory Projector_Ci
  imports Projector_History
begin

text \<open>
  What the projection promises about runs, jobs and issue counters: the first start in the log
  owns a job for good, a run ends exactly with its last job and is never green over a failure,
  and the counters are the counts of the rows. Three observations at the end show where the
  projection falls short of what its comments say.
\<close>

section \<open>Claiming a job\<close>

definition apply_ci_all :: "(ci_event \<times> timestamp) list \<Rightarrow> read_model \<Rightarrow> (read_model, sql_error) result" where
  "apply_ci_all es m = apply_all (\<lambda>(e, at). apply_ci_event e at) es m"

text \<open>Whether an event plans the job (again).\<close>

definition plans :: "job_id \<Rightarrow> ci_event \<Rightarrow> bool" where
  "plans j e = (case e of
     RunQueued _ _ _ _ _ _ _ _ _ specs \<Rightarrow> list_ex (\<lambda>spec. pj_job_id spec = j) specs | _ \<Rightarrow> False)"

definition owned_by :: "int \<Rightarrow> int \<Rightarrow> job_row \<Rightarrow> bool" where
  "owned_by attempt log_offset r \<longleftrightarrow>
     jb_status r \<noteq> ''queued'' \<and> jb_attempt r = attempt \<and> jb_log_offset r = Some log_offset"

lemma queue_other:
  assumes "apply_all (\<lambda>spec. upsert_job (queued_job_row run repo at spec)) specs t = Ok t'"
    and "\<not> list_ex (\<lambda>spec. pj_job_id spec = j) specs"
  shows "tbl_get t' j = tbl_get t j"
  using assms
proof (induction specs arbitrary: t)
  case (Cons spec specs)
  from Cons.prems(1) obtain t1 where t1: "upsert_job (queued_job_row run repo at spec) t = Ok t1"
    "apply_all (\<lambda>spec. upsert_job (queued_job_row run repo at spec)) specs t1 = Ok t'"
    by (auto simp: and_then_Ok_iff)
  have "tbl_get t1 j = tbl_get t j"
    using jobs.upsert_get [OF t1(1) [unfolded upsert_job_def], of j] Cons.prems(2)
    by (auto simp: queued_job_row_def)
  then show ?case using Cons.IH [OF t1(2)] Cons.prems(2) by simp
qed simp

lemma conclusion_not_queued: "job_conclusion_as_str c \<noteq> ''queued''"
  by (cases c) (simp_all add: job_conclusion_as_str_def)

lemma mark_running_jobs: "mark_run_running run at m = Ok m' \<Longrightarrow> rm_jobs m' = rm_jobs m"
  by (auto simp: mark_run_running_def with_defs and_then_Ok_iff split: option.splits if_splits)

text \<open>What one event does to the row of one job.\<close>

lemma ci_event_job:
  assumes "apply_ci_event e at m = Ok m'" "\<not> plans j e" "tbl_get (rm_jobs m) j = Some r"
  shows "tbl_get (rm_jobs m') j = Some (case e of
     JobStarted job _ _ attempt log \<Rightarrow>
       if job = j \<and> jb_status r = ''queued''
       then r\<lparr>jb_status := ''running'', jb_attempt := attempt, jb_log_offset := Some log,
         jb_started_at := Some at, jb_updated_at := at\<rparr> else r
   | JobFinished job _ _ attempt c ec \<Rightarrow>
       if job = j \<and> jb_attempt r = attempt
       then r\<lparr>jb_status := job_conclusion_as_str c, jb_exit_code := ec, jb_finished_at := Some at,
         jb_updated_at := at\<rparr> else r
   | _ \<Rightarrow> r)"
proof (cases e)
  case (RunQueued run repo n w nm ev h rf ac specs)
  then obtain t1 t2 where "apply_all (\<lambda>spec. upsert_job (queued_job_row run repo at spec)) specs (rm_jobs m) = Ok t2"
    and "m' = m\<lparr>rm_runs := t1, rm_jobs := t2\<rparr>"
    using assms(1) by (auto simp: apply_ci_event_def with_defs and_then_Ok_iff)
  then show ?thesis using queue_other assms(2,3) RunQueued by (simp add: plans_def)
next
  case (JobStarted job run repo attempt log)
  obtain b t where cl: "claim_job job attempt log at (rm_jobs m) = (b, t)" by fastforce
  have "rm_jobs m' = (if b then t else rm_jobs m)"
    using assms(1) cl JobStarted mark_running_jobs [of run at "m\<lparr>rm_jobs := t\<rparr>" m']
    by (cases b) (auto simp: apply_ci_event_def)
  then show ?thesis
    using update_where_hit [OF cl [unfolded claim_job_def]] update_where_get [OF cl [unfolded claim_job_def], of j]
      assms(3) JobStarted by auto
next
  case (JobFinished job run repo attempt c ec)
  obtain b t where fin: "finish_job job attempt (job_conclusion_as_str c) ec at (rm_jobs m) = (b, t)"
    by fastforce
  have "rm_jobs m' = (if b then t else rm_jobs m)"
    using assms(1) fin JobFinished
    by (cases b) (auto simp: apply_ci_event_def with_defs and_then_Ok_iff Let_def split: option.splits if_splits)
  then show ?thesis
    using update_where_hit [OF fin [unfolded finish_job_def]] update_where_get [OF fin [unfolded finish_job_def], of j]
      assms(3) JobFinished by auto
next
  case (RunFinished run repo c)
  then show ?thesis
    using assms(1,3)
    by (auto simp: apply_ci_event_def with_defs and_then_Ok_iff split: option.splits)
qed

lemma owned_step:
  assumes "apply_ci_event e at m = Ok m'" "\<not> plans j e" "tbl_get (rm_jobs m) j = Some r" "owned_by a l r"
  shows "\<exists>r'. tbl_get (rm_jobs m') j = Some r' \<and> owned_by a l r'"
  using ci_event_job [OF assms(1-3)] assms(4)
  by (auto simp: owned_by_def conclusion_not_queued split: ci_event.splits)

lemma owned_all:
  assumes "apply_ci_all es m = Ok m'" "list_all (\<lambda>(e, _). \<not> plans j e) es"
    and "tbl_get (rm_jobs m) j = Some r" "owned_by a l r"
  shows "\<exists>r'. tbl_get (rm_jobs m') j = Some r' \<and> owned_by a l r'"
  using assms
proof (induction es arbitrary: m r)
  case (Cons x es)
  obtain e at where x: "x = (e, at)" by (cases x)
  from Cons.prems(1) obtain m1 where m1: "apply_ci_event e at m = Ok m1" "apply_ci_all es m1 = Ok m'"
    by (auto simp: apply_ci_all_def and_then_Ok_iff x)
  obtain r1 where "tbl_get (rm_jobs m1) j = Some r1" "owned_by a l r1"
    using owned_step [OF m1(1) _ Cons.prems(3,4)] Cons.prems(2) x by auto
  from Cons.IH [OF m1(2) _ this] Cons.prems(2) show ?case by simp
qed (auto simp: apply_ci_all_def)

text \<open>Property C24: a job is run once. When a queued job's start is applied, the attempt it names
  owns the job: whatever starts and reports follow, from however many runners, the row keeps
  that attempt and the place of its log, and never goes back to the queue, unless the job is
  planned again.\<close>

theorem claim_is_exclusive:
  assumes "apply_ci_all ((JobStarted j run repo attempt log, at) # es) m = Ok m'"
    and "tbl_get (rm_jobs m) j = Some r" "jb_status r = ''queued''"
    and "list_all (\<lambda>(e, _). \<not> plans j e) es"
  shows "\<exists>r'. tbl_get (rm_jobs m') j = Some r' \<and> owned_by attempt log r'"
proof -
  from assms(1) obtain m1 where m1: "apply_ci_event (JobStarted j run repo attempt log) at m = Ok m1"
    "apply_ci_all es m1 = Ok m'"
    by (auto simp: apply_ci_all_def and_then_Ok_iff)
  have "\<exists>r1. tbl_get (rm_jobs m1) j = Some r1 \<and> owned_by attempt log r1"
    using ci_event_job [OF m1(1) _ assms(2)] assms(3) by (simp add: plans_def owned_by_def)
  then show ?thesis using owned_all [OF m1(2) assms(4)] by blast
qed

section \<open>Ending a run\<close>

lemma set_jobs_of: "set (jobs_of run t) = {r \<in> snd ` set t. jb_run_id r = run}"
  by (auto simp: jobs_of_def asc_by_def rows_where_def)

lemma conclusion_of_success [simp]:
  "conclusion_of r = JobSuccess \<longleftrightarrow> jb_status r = ''success''"
  "conclusion_of r = JobCancelled \<longleftrightarrow> jb_status r = ''cancelled''"
  "JobSuccess = conclusion_of r \<longleftrightarrow> jb_status r = ''success''"
  by (auto simp: conclusion_of_def)

lemma from_jobs_cases:
  "from_jobs cs = (if list_ex (\<lambda>c. c \<notin> {JobSuccess, JobCancelled}) cs then RunFailed
     else if cs \<noteq> [] \<and> JobSuccess \<notin> set cs then RunCancelled else RunSuccess)"
  by (simp add: from_jobs_def from_jobs_loop_spec)

lemma finish_run:
  assumes "apply_ci_event (JobFinished job run repo attempt c ec) at m = Ok m'" "runs_ok (rm_runs m)"
    and "tbl_get (rm_jobs m) job = Some r" "jb_attempt r = attempt"
    and "tbl_get (rm_runs m) run = Some rn" "\<not> run_is_finished rn"
  shows "tbl_get (rm_runs m') run = Some (case run_conclusion_row run (rm_jobs m') of
     None \<Rightarrow> rn | Some rc \<Rightarrow> end_run rc at rn)"
proof -
  obtain b t where fin: "finish_job job attempt (job_conclusion_as_str c) ec at (rm_jobs m) = (b, t)"
    by fastforce
  then have b using update_where_hit(1) [OF fin [unfolded finish_job_def]] assms(3,4) by simp
  show ?thesis
  proof (cases "run_conclusion_row run t")
    case None
    then have "m' = m\<lparr>rm_jobs := t\<rparr>" using assms(1) fin \<open>b\<close> by (simp add: apply_ci_event_def Let_def)
    then show ?thesis using None assms(5) by simp
  next
    case (Some rc)
    then obtain t2 where t2: "upsert_run (end_run rc at rn) (rm_runs m) = Ok t2"
      and m': "m' = m\<lparr>rm_jobs := t, rm_runs := t2\<rparr>"
      using assms(1,5,6) fin \<open>b\<close> by (auto simp: apply_ci_event_def with_defs and_then_Ok_iff)
    from modify_run [OF assms(2,5), of "end_run rc at", OF t2 end_run_cols(1,2)]
    show ?thesis by (simp add: m' Some)
  qed
qed

text \<open>Property C25: a run ends with its last job and as its jobs did. When a job's report is applied
  to a run that is not over, the run stays as it was while a job of it is unfinished; once all
  are finished it is over. It is then green only if every job succeeded or was cancelled and at
  least one succeeded, and red as soon as one job failed, timed out or never ran.\<close>

theorem run_ends_with_its_jobs:
  assumes "apply_ci_event (JobFinished job run repo attempt c ec) at m = Ok m'" "runs_ok (rm_runs m)"
    and "tbl_get (rm_jobs m) job = Some r" "jb_attempt r = attempt"
    and "tbl_get (rm_runs m) run = Some rn" "\<not> run_is_finished rn"
  shows "\<exists>rn'. tbl_get (rm_runs m') run = Some rn' \<and>
    (if jobs_of run (rm_jobs m') \<noteq> [] \<and> list_all job_is_finished (jobs_of run (rm_jobs m'))
     then run_is_finished rn' \<and>
       (rn_status rn' = ''success'' \<longleftrightarrow>
          list_all (\<lambda>j. jb_status j \<in> {''success'', ''cancelled''}) (jobs_of run (rm_jobs m')) \<and>
          list_ex (\<lambda>j. jb_status j = ''success'') (jobs_of run (rm_jobs m'))) \<and>
       (rn_status rn' = ''failed'' \<longleftrightarrow>
          list_ex (\<lambda>j. jb_status j \<notin> {''success'', ''cancelled''}) (jobs_of run (rm_jobs m')))
     else rn' = rn)"
proof -
  let ?js = "jobs_of run (rm_jobs m')"
  note row = finish_run [OF assms]
  show ?thesis
  proof (cases "?js \<noteq> [] \<and> list_all job_is_finished ?js")
    case False
    then have "run_conclusion_row run (rm_jobs m') = None"
      by (auto simp: run_conclusion_row_def)
    then show ?thesis using row False by auto
  next
    case True
    define rc where "rc = from_jobs (map conclusion_of ?js)"
    have "run_conclusion_row run (rm_jobs m') = Some rc"
      using True by (simp add: run_conclusion_row_def rc_def)
    with row have rn': "tbl_get (rm_runs m') run = Some (end_run rc at rn)" by simp
    have status: "rn_status (end_run rc at rn) = run_conclusion_as_str rc" by (simp add: end_run_def)
    have ex: "list_ex (\<lambda>c. c \<notin> {JobSuccess, JobCancelled}) (map conclusion_of ?js) \<longleftrightarrow>
        list_ex (\<lambda>j. jb_status j \<notin> {''success'', ''cancelled''}) ?js"
      by (simp add: list_ex_iff)
    have "(run_conclusion_as_str rc = ''success'') = (rc = RunSuccess)"
      "(run_conclusion_as_str rc = ''failed'') = (rc = RunFailed)"
      by (cases rc; simp add: run_conclusion_as_str_def)+
    moreover have "rc = RunFailed \<longleftrightarrow> list_ex (\<lambda>j. jb_status j \<notin> {''success'', ''cancelled''}) ?js"
      unfolding rc_def from_jobs_cases ex by simp
    moreover have "rc = RunSuccess \<longleftrightarrow>
        list_all (\<lambda>j. jb_status j \<in> {''success'', ''cancelled''}) ?js \<and>
        list_ex (\<lambda>j. jb_status j = ''success'') ?js"
      unfolding rc_def from_jobs_cases ex using True
      by (auto simp: list_ex_iff list_all_iff image_iff)
    ultimately show ?thesis
      using rn' status True end_run_cols(4) by auto
  qed
qed

section \<open>Issue counters\<close>

text \<open>The number of rows with a property is the number of keys whose row has it.\<close>

lemma length_rows_card:
  assumes "tbl_wf t"
  shows "length (rows_where P t) = card {k. \<exists>r. tbl_get t k = Some r \<and> P r}"
proof -
  have "length (rows_where P t) = length (filter (P \<circ> snd) t)"
    by (simp add: rows_where_def filter_map)
  also have "\<dots> = length (map fst (filter (P \<circ> snd) t))" by simp
  also have "\<dots> = card (set (map fst (filter (P \<circ> snd) t)))"
    using assms by (intro distinct_card [symmetric]) (simp add: tbl_wf_def distinct_map_filter)
  also have "set (map fst (filter (P \<circ> snd) t)) = {k. \<exists>r. tbl_get t k = Some r \<and> P r}"
    using assms by (force simp: tbl_get_in [symmetric])
  finally show ?thesis .
qed

lemma count_state_cong:
  assumes "tbl_wf t" "tbl_wf t'"
    and "\<And>k. map_option (\<lambda>r. (ir_repo_id r, ir_state r) = (repo, st)) (tbl_get t' k) = Some True \<longleftrightarrow>
      map_option (\<lambda>r. (ir_repo_id r, ir_state r) = (repo, st)) (tbl_get t k) = Some True"
  shows "count_state repo st t' = count_state repo st t"
proof -
  have "{k. \<exists>r. tbl_get t' k = Some r \<and> ir_repo_id r = repo \<and> ir_state r = st} =
      {k. \<exists>r. tbl_get t k = Some r \<and> ir_repo_id r = repo \<and> ir_state r = st}"
    using assms(3) by auto
  then show ?thesis using assms(1,2) by (simp add: count_state_def length_rows_card)
qed

text \<open>The counters of a repository are right when they count its open and closed rows.\<close>

definition counted :: "read_model \<Rightarrow> repo_id \<Rightarrow> bool" where
  "counted m repo \<longleftrightarrow> counters_of repo (rm_counters m) =
     \<lparr>open_issues = count_state repo ''open'' (rm_issues m),
      closed_issues = count_state repo ''closed'' (rm_issues m)\<rparr>"

lemma counted_refresh:
  assumes "refresh repo m = Ok m'"
  shows "counted m' repo" "repo' \<noteq> repo \<Longrightarrow> counted m' repo' = counted m repo'"
  using assms by (auto simp: refresh_def refresh_counters_def counted_def counters_of_def)

definition moves :: "issue_event \<Rightarrow> bool" where
  "moves e = (case e of IssueCommented _ _ _ _ _ _ \<Rightarrow> False | IssueTitleChanged _ _ _ \<Rightarrow> False | _ \<Rightarrow> True)"

text \<open>What one event does to the issue rows: it touches its own issue, never moves it to another
  repository, and refreshes the counters exactly when it can change a state.\<close>

lemma modified_issue:
  assumes "modify_row ''issues'' ir_issue_id issue_number issues_set i f t = Ok t'" "issues_ok t"
    and "\<And>r. ir_issue_id (f r) = ir_issue_id r" "\<And>r. issues_set r (f r) = f r"
  shows "tbl_get t' k = (if k = i then map_option f (tbl_get t i) else tbl_get t k)"
  using issues.modify_row_get [OF assms(2-4,1), of k] by simp

lemma issue_event_rows:
  assumes "apply_issue_event e at m = Ok m'" "issues_ok (rm_issues m)"
  shows "(k \<noteq> ie_issue e \<longrightarrow> tbl_get (rm_issues m') k = tbl_get (rm_issues m) k) \<and>
    (case tbl_get (rm_issues m) (ie_issue e) of
       Some r \<Rightarrow> \<exists>r'. tbl_get (rm_issues m') (ie_issue e) = Some r' \<and> ir_repo_id r' = ir_repo_id r \<and>
         (\<not> moves e \<longrightarrow> ir_state r' = ir_state r)
     | None \<Rightarrow> \<forall>r'. tbl_get (rm_issues m') (ie_issue e) = Some r' \<longrightarrow> ir_repo_id r' = ie_repo e \<and> moves e) \<and>
    rm_counters m' = (if moves e then refresh_counters (ie_repo e) (rm_issues m') (rm_counters m)
      else rm_counters m)"
proof (cases e)
  case (IssueOpened i r n t b a an)
  then obtain t1 where t1: "issues_upsert
      \<lparr>ir_issue_id = i, ir_repo_id = r, ir_number = n, ir_title = t, ir_body = b,
        ir_author_id = a, ir_author_name = an, ir_state = ''open'', ir_comment_count = 0,
        ir_created_at = at, ir_updated_at = at, ir_closed_at = None\<rparr> (rm_issues m) = Ok t1"
    and m': "m' = m\<lparr>rm_issues := t1, rm_counters := refresh_counters r t1 (rm_counters m)\<rparr>"
    using assms(1) by (auto simp: apply_issue_event_def with_defs and_then_Ok_iff refresh_def)
  show ?thesis
    using issues.upsert_get [OF t1 [unfolded issues_upsert_def]] IssueOpened
    by (auto simp: m' moves_def stored_row_def issues_set_def split: option.splits)
next
  case (IssueCommented c i r a an b)
  show ?thesis
  proof (cases "tbl_get (rm_issues m) i")
    case None
    then show ?thesis using assms(1) IssueCommented by (auto simp: apply_issue_event_def moves_def Let_def)
  next
    case (Some row)
    then obtain f t1 where "modify_row ''issues'' ir_issue_id issue_number issues_set i
        (\<lambda>x. x\<lparr>ir_comment_count := f, ir_updated_at := at\<rparr>) (rm_issues m) = Ok t1"
      and m': "rm_issues m' = t1" "rm_counters m' = rm_counters m"
      using assms(1) IssueCommented
      by (auto simp: apply_issue_event_def with_defs and_then_Ok_iff Let_def modify_row_def issues_upsert_def)
    from modified_issue [OF this(1) assms(2)] show ?thesis
      using Some IssueCommented by (simp add: m' moves_def issues_set_def)
  qed
next
  case (IssueTitleChanged i r t)
  then obtain t1 where t1: "update_issue i at (\<lambda>x. x\<lparr>ir_title := t\<rparr>) (rm_issues m) = Ok t1"
    and m': "m' = m\<lparr>rm_issues := t1\<rparr>"
    using assms(1) by (auto simp: apply_issue_event_def with_defs and_then_Ok_iff)
  from modified_issue [OF t1 [unfolded update_issue_def] assms(2)] show ?thesis
    using IssueTitleChanged by (auto simp: m' moves_def issues_set_def split: option.splits)
next
  case (IssueClosed i r w)
  then obtain t1 where t1: "update_issue i at (\<lambda>x. x\<lparr>ir_state := ''closed'', ir_closed_at := Some at\<rparr>)
      (rm_issues m) = Ok t1"
    and m': "m' = m\<lparr>rm_issues := t1, rm_counters := refresh_counters r t1 (rm_counters m)\<rparr>"
    using assms(1) by (auto simp: apply_issue_event_def with_defs and_then_Ok_iff refresh_def)
  from modified_issue [OF t1 [unfolded update_issue_def] assms(2)] show ?thesis
    using IssueClosed by (auto simp: m' moves_def issues_set_def split: option.splits)
next
  case (IssueReopened i r w)
  then obtain t1 where t1: "update_issue i at (\<lambda>x. x\<lparr>ir_state := ''open'', ir_closed_at := None\<rparr>)
      (rm_issues m) = Ok t1"
    and m': "m' = m\<lparr>rm_issues := t1, rm_counters := refresh_counters r t1 (rm_counters m)\<rparr>"
    using assms(1) by (auto simp: apply_issue_event_def with_defs and_then_Ok_iff refresh_def)
  from modified_issue [OF t1 [unfolded update_issue_def] assms(2)] show ?thesis
    using IssueReopened by (auto simp: m' moves_def issues_set_def split: option.splits)
qed

definition issue_repos_agree :: "(issue_event \<times> timestamp) list \<Rightarrow> bool" where
  "issue_repos_agree es \<longleftrightarrow> list_all (\<lambda>(e, _). list_all (\<lambda>(f, _).
     ie_issue e = ie_issue f \<longrightarrow> ie_repo e = ie_repo f) es) es"

definition apply_issue_all :: "(issue_event \<times> timestamp) list \<Rightarrow> read_model \<Rightarrow> (read_model, sql_error) result" where
  "apply_issue_all es m = apply_all (\<lambda>(e, at). apply_issue_event e at) es m"

definition counters_inv :: "(issue_event \<times> timestamp) list \<Rightarrow> read_model \<Rightarrow> bool" where
  "counters_inv es m \<longleftrightarrow> issues_ok (rm_issues m) \<and> tbl_wf (rm_comments m) \<and> (\<forall>repo. counted m repo) \<and>
     (\<forall>k r. tbl_get (rm_issues m) k = Some r \<longrightarrow>
        (\<exists>(f, _)\<in>set es. ie_issue f = k \<and> ie_repo f = ir_repo_id r))"

lemma counters_step:
  assumes "counters_inv es m" "issue_repos_agree es" "(e, at) \<in> set es" "apply_issue_event e at m = Ok m'"
  shows "counters_inv es m'"
proof -
  have ok: "issues_ok (rm_issues m)" "tbl_wf (rm_comments m)" and cnt: "\<And>repo. counted m repo"
    and old: "\<And>k r. tbl_get (rm_issues m) k = Some r \<Longrightarrow> \<exists>(f, _)\<in>set es. ie_issue f = k \<and> ie_repo f = ir_repo_id r"
    using assms(1) by (auto simp: counters_inv_def)
  note rows = issue_event_rows [OF assms(4) ok(1), of "ie_issue e"]
  have ok': "issues_ok (rm_issues m')" "tbl_wf (rm_comments m')"
    using issue_event_twice [OF ok assms(4)] by auto
  have own: "ir_repo_id r = ie_repo e" if "tbl_get (rm_issues m) (ie_issue e) = Some r" for r
    using old [OF that] assms(2,3) by (fastforce simp: issue_repos_agree_def list_all_iff)
  have own': "ir_repo_id r' = ie_repo e" if "tbl_get (rm_issues m') (ie_issue e) = Some r'" for r'
    using rows own that by (cases "tbl_get (rm_issues m) (ie_issue e)") auto
  have other: "tbl_get (rm_issues m') k = tbl_get (rm_issues m) k" if "k \<noteq> ie_issue e" for k
    using issue_event_rows [OF assms(4) ok(1), of k] that by blast
  have origin: "\<exists>(f, _)\<in>set es. ie_issue f = k \<and> ie_repo f = ir_repo_id r"
    if "tbl_get (rm_issues m') k = Some r" for k r
  proof (cases "k = ie_issue e")
    case True
    then show ?thesis using own' that assms(3) by fastforce
  next
    case False
    then show ?thesis using other old that by simp
  qed
  have same: "count_state repo st (rm_issues m') = count_state repo st (rm_issues m)"
    if "repo \<noteq> ie_repo e \<or> \<not> moves e" for repo st
  proof (rule count_state_cong)
    fix k
    show "(map_option (\<lambda>r. (ir_repo_id r, ir_state r) = (repo, st)) (tbl_get (rm_issues m') k) = Some True) =
      (map_option (\<lambda>r. (ir_repo_id r, ir_state r) = (repo, st)) (tbl_get (rm_issues m) k) = Some True)"
    proof (cases "k = ie_issue e")
      case True
      then show ?thesis
        using that rows own own' by (cases "tbl_get (rm_issues m) (ie_issue e)") auto
    qed (simp add: other)
  qed (use ok ok' in auto)
  have "counted m' repo" for repo
  proof (cases "moves e \<and> repo = ie_repo e")
    case True
    then show ?thesis using rows by (simp add: counted_def refresh_counters_def counters_of_def)
  next
    case False
    have "counters_of repo (rm_counters m') = counters_of repo (rm_counters m)"
      using rows False by (simp add: refresh_counters_def counters_of_def)
    moreover have "repo \<noteq> ie_repo e \<or> \<not> moves e" using False by blast
    ultimately show ?thesis using cnt [of repo] same by (simp add: counted_def)
  qed
  then show ?thesis using ok' origin by (simp add: counters_inv_def)
qed

lemma counters_all:
  assumes "counters_inv es m" "apply_issue_all fs m = Ok m'" "set fs \<subseteq> set es" "issue_repos_agree es"
  shows "counters_inv es m'"
  using assms(1-3)
proof (induction fs arbitrary: m)
  case (Cons x fs)
  obtain e at where x: "x = (e, at)" by (cases x)
  from Cons.prems(2) obtain m1 where m1: "apply_issue_event e at m = Ok m1" "apply_issue_all fs m1 = Ok m'"
    by (auto simp: apply_issue_all_def and_then_Ok_iff x)
  have "counters_inv es m1"
    using counters_step [OF Cons.prems(1) assms(4) _ m1(1)] Cons.prems(3) x by simp
  from Cons.IH [OF this m1(2)] Cons.prems(3) show ?case by simp
qed (simp add: apply_issue_all_def)

text \<open>The tab badges count the issues. After any history of issue events in which
  every event of an issue names the same repository, the open and closed counters of every
  repository are exactly the numbers of its open and closed issues.\<close>

theorem counters_exact:
  assumes "apply_issue_all es empty_model = Ok m" "issue_repos_agree es"
  shows "counters_of repo (rm_counters m) =
    \<lparr>open_issues = count_state repo ''open'' (rm_issues m),
     closed_issues = count_state repo ''closed'' (rm_issues m)\<rparr>"
proof -
  have "counters_inv es empty_model"
    by (simp add: counters_inv_def empty_model_def counted_def counters_of_def counters_default_def
        count_state_def rows_where_def)
  from counters_all [OF this assms(1) subset_refl assms(2)] show ?thesis
    by (simp add: counters_inv_def counted_def)
qed

section \<open>A small run\<close>

definition demo_plan :: "(ci_event \<times> timestamp) list" where
  "demo_plan = [(RunQueued ''run'' ''repo'' 1 ''ci.yml'' ''CI'' ''push'' oid_zero ''refs/heads/main'' ''ann''
     [\<lparr>pj_job_id = ''j1'', pj_name = ''test'', pj_image = ''rust''\<rparr>], 5)]"

definition ci_after :: "(ci_event \<times> timestamp) list \<Rightarrow> read_model" where
  "ci_after es = (case apply_ci_all es empty_model of Ok m \<Rightarrow> m | Err _ \<Rightarrow> empty_model)"

definition demo_race :: "(ci_event \<times> timestamp) list" where
  "demo_race = [(JobStarted ''j1'' ''run'' ''repo'' 2 90, 7),
     (JobFinished ''j1'' ''run'' ''repo'' 2 JobFailed (Some 1), 8),
     (JobFinished ''j1'' ''run'' ''repo'' 1 JobSuccess (Some 0), 9)]"

lemma claim_is_exclusive_witness:
  "\<exists>m'. apply_ci_all ((JobStarted ''j1'' ''run'' ''repo'' 1 40, 6) # demo_race) (ci_after demo_plan) = Ok m' \<and>
     (\<exists>r. tbl_get (rm_jobs m') ''j1'' = Some r \<and> owned_by 1 40 r)"
proof -
  let ?es = "(JobStarted ''j1'' ''run'' ''repo'' 1 40, 6) # demo_race"
  let ?m' = "case apply_ci_all ?es (ci_after demo_plan) of Ok m \<Rightarrow> m | Err _ \<Rightarrow> empty_model"
  let ?r = "the (tbl_get (rm_jobs (ci_after demo_plan)) ''j1'')"
  have app: "apply_ci_all ?es (ci_after demo_plan) = Ok ?m'"
    and rest: "tbl_get (rm_jobs (ci_after demo_plan)) ''j1'' = Some ?r" "jb_status ?r = ''queued''"
    "list_all (\<lambda>(e, _). \<not> plans ''j1'' e) demo_race"
    by code_simp+
  from claim_is_exclusive [OF app rest] app show ?thesis by blast
qed

definition demo_started_run :: "(ci_event \<times> timestamp) list" where
  "demo_started_run = demo_plan @ [(JobStarted ''j1'' ''run'' ''repo'' 1 40, 6)]"

definition demo_report :: ci_event where
  "demo_report = JobFinished ''j1'' ''run'' ''repo'' 1 JobTimedOut None"

definition demo_reported :: read_model where
  "demo_reported = (case apply_ci_event demo_report 9 (ci_after demo_started_run) of
     Ok m \<Rightarrow> m | Err _ \<Rightarrow> empty_model)"

lemma run_ends_witness:
  "\<exists>rn. tbl_get (rm_runs demo_reported) ''run'' = Some rn \<and> rn_status rn = ''failed''"
proof -
  obtain m r rn where m: "m = ci_after demo_started_run" and r: "r = the (tbl_get (rm_jobs m) ''j1'')"
    and rn: "rn = the (tbl_get (rm_runs m) ''run'')" by blast
  have "apply_ci_event (JobFinished ''j1'' ''run'' ''repo'' 1 JobTimedOut None) 9 m = Ok demo_reported"
    "runs_ok (rm_runs m)" "tbl_get (rm_jobs m) ''j1'' = Some r" "jb_attempt r = 1"
    "tbl_get (rm_runs m) ''run'' = Some rn" "\<not> run_is_finished rn"
    unfolding r rn unfolding m by code_simp+
  from run_ends_with_its_jobs [OF this]
  obtain rn' where "tbl_get (rm_runs demo_reported) ''run'' = Some rn'"
    and rest: "if jobs_of ''run'' (rm_jobs demo_reported) \<noteq> [] \<and>
        list_all job_is_finished (jobs_of ''run'' (rm_jobs demo_reported))
      then run_is_finished rn' \<and>
       (rn_status rn' = ''success'' \<longleftrightarrow>
          list_all (\<lambda>j. jb_status j \<in> {''success'', ''cancelled''}) (jobs_of ''run'' (rm_jobs demo_reported)) \<and>
          list_ex (\<lambda>j. jb_status j = ''success'') (jobs_of ''run'' (rm_jobs demo_reported))) \<and>
       (rn_status rn' = ''failed'' \<longleftrightarrow>
          list_ex (\<lambda>j. jb_status j \<notin> {''success'', ''cancelled''}) (jobs_of ''run'' (rm_jobs demo_reported)))
      else rn' = rn" by blast
  have over: "jobs_of ''run'' (rm_jobs demo_reported) \<noteq> [] \<and>
      list_all job_is_finished (jobs_of ''run'' (rm_jobs demo_reported))"
    and bad: "list_ex (\<lambda>j. jb_status j \<notin> {''success'', ''cancelled''}) (jobs_of ''run'' (rm_jobs demo_reported))"
    by code_simp+
  from rest have "rn_status rn' = ''failed''"
    unfolding if_P [OF over] using bad by (elim conjE) (drule iffD2, assumption+)
  then show ?thesis using \<open>tbl_get (rm_runs demo_reported) ''run'' = Some rn'\<close> by blast
qed

definition demo_issue_events :: "(issue_event \<times> timestamp) list" where
  "demo_issue_events = [(IssueOpened ''i1'' ''r'' 1 ''a'' None ''u'' ''ann'', 1),
     (IssueOpened ''i2'' ''r'' 2 ''b'' None ''u'' ''ann'', 2),
     (IssueCommented ''c1'' ''i1'' ''r'' ''u'' ''ann'' ''hi'', 3), (IssueClosed ''i1'' ''r'' ''u'', 4)]"

lemma counters_exact_witness:
  "\<exists>m. apply_issue_all demo_issue_events empty_model = Ok m \<and>
     counters_of ''r'' (rm_counters m) = \<lparr>open_issues = 1, closed_issues = 1\<rparr>"
proof -
  let ?m = "case apply_issue_all demo_issue_events empty_model of Ok m \<Rightarrow> m | Err _ \<Rightarrow> empty_model"
  have app: "apply_issue_all demo_issue_events empty_model = Ok ?m" "issue_repos_agree demo_issue_events"
    by code_simp+
  have "count_state ''r'' ''open'' (rm_issues ?m) = 1" "count_state ''r'' ''closed'' (rm_issues ?m) = 1"
    by code_simp+
  with counters_exact [OF app, of "''r''"] app(1) show ?thesis by (intro exI [of _ ?m]) simp
qed

section \<open>Where the projection falls short\<close>

text \<open>A second report of the same attempt still applies after the run is over: the job turns red
  and the run stays green.\<close>

lemma late_report_leaves_run_green:
  "let m = ci_after (demo_started_run @ [(JobFinished ''j1'' ''run'' ''repo'' 1 JobSuccess (Some 0), 7),
       (JobFinished ''j1'' ''run'' ''repo'' 1 JobFailed (Some 1), 8)]) in
   map_option rn_status (tbl_get (rm_runs m) ''run'') = Some ''success'' \<and>
   map_option jb_status (tbl_get (rm_jobs m) ''j1'') = Some ''failed''"
  by code_simp

text \<open>A name that is free again after a rename can be taken by another repository; the history then
  projects onto empty tables, but replaying it over its own result violates the unique name.\<close>

definition rename_history :: "(repo_event \<times> timestamp) list" where
  "rename_history = [(RepoCreated ''r1'' ''u'' ''ann'' ''x'' ''ann/x'' None ''main'' Public, 1),
     (RepoRenamed ''r1'' ''y'' ''ann/y'', 2),
     (RepoCreated ''r2'' ''u'' ''ann'' ''x'' ''ann/x'' None ''main'' Public, 3)]"

lemma replay_after_rename_fails:
  "case apply_all (\<lambda>(e, at). apply_repo_event e at) rename_history empty_model of
     Ok m \<Rightarrow> apply_all (\<lambda>(e, at). apply_repo_event e at) rename_history m = Err (Sql ''repos'')
   | Err _ \<Rightarrow> False"
  by code_simp

text \<open>The comment count of an issue is the length of one page of its comments.\<close>

lemma comment_count_saturates: "length (comments_of issue (page_size 100) t) \<le> 100"
  using page_size_bounds [of 100] by (simp add: comments_of_def min.coboundedI2)

end
