(* ===== verification/Projector_Loop.thy ===== *)
theory Projector_Loop
  imports Projector_Ci Forge_Bus
begin

text \<open>
  The projector's loop (\<open>forge-projector/src/lib.rs\<close>): decoding a record for its topic, applying a
  batch in one database transaction together with the cursor, publishing how far it got, and
  waiting for it. The broker is the parameter of \<open>Forge_Bus\<close>; the database may refuse a
  transaction, fail inside it, or fail the commit with the outcome unknown, which is the
  parameter \<open>fault\<close> of each transaction.
\<close>

section \<open>Decoding a record\<close>

text \<open>serde's decoders, one for the envelope and one for each payload.\<close>

record ('j, 'v) decoders =
  de_slice :: "'j \<Rightarrow> ('v envelope, string) result"
  de_user :: "'v \<Rightarrow> (user_event, string) result"
  de_repo :: "'v \<Rightarrow> (repo_event, string) result"
  de_issue :: "'v \<Rightarrow> (issue_event, string) result"
  de_pr :: "'v \<Rightarrow> (pr_event, string) result"
  de_ci :: "'v \<Rightarrow> (ci_event, string) result"

text \<open>An event of the topic's kind is applied; an event that does not parse is skipped.\<close>

definition apply_parsed ::
    "('v \<Rightarrow> ('p, string) result) \<Rightarrow> ('p \<Rightarrow> timestamp \<Rightarrow> read_model \<Rightarrow> (read_model, sql_error) result) \<Rightarrow>
      'v envelope \<Rightarrow> read_model \<Rightarrow> (timestamp option \<times> read_model, sql_error) result" where
  "apply_parsed de app env m = (case envelope_parse de env of
     Ok p \<Rightarrow> and_then (app (payload p) (occurred_at p) m) (\<lambda>m'. Ok (Some (occurred_at p), m'))
   | Err _ \<Rightarrow> Ok (None, m))"

definition apply_decoded ::
    "('j, 'v) decoders \<Rightarrow> string \<Rightarrow> 'j topic_record \<Rightarrow> read_model \<Rightarrow> (timestamp option \<times> read_model, sql_error) result" where
  "apply_decoded ds topic r m = (case decode_raw (de_slice ds) (rec_value r) of
     Err _ \<Rightarrow> Ok (None, m)
   | Ok env \<Rightarrow>
       if topic = EVENTS_USERS then apply_parsed (de_user ds) apply_user_event env m
       else if topic = EVENTS_ISSUES then apply_parsed (de_issue ds) apply_issue_event env m
       else if topic = EVENTS_PRS then apply_parsed (de_pr ds) apply_pr_event env m
       else if topic = EVENTS_CI then apply_parsed (de_ci ds) apply_ci_event env m
       else if topic = EVENTS_REPOS then apply_parsed (de_repo ds) apply_repo_event env m
       else Ok (None, m))"

fun apply_records ::
    "('j, 'v) decoders \<Rightarrow> string \<Rightarrow> (int \<times> 'j topic_record) list \<Rightarrow> nat \<Rightarrow> read_model \<Rightarrow>
      (nat \<times> read_model, sql_error) result" where
  "apply_records ds topic [] n m = Ok (n, m)"
| "apply_records ds topic (r # rs) n m = and_then (apply_decoded ds topic (snd r) m) (\<lambda>(seen, m').
     apply_records ds topic rs (if seen = None then n else n + 1) m')"

section \<open>Batches\<close>

record projector =
  pv_tailer :: tailer
  pv_applied :: int

datatype db_fault = NoFault | BeginFault | StatementFault | CommitFault bool

datatype projector_error = Tail string | Store sql_error

datatype progress = CaughtUp | Advanced nat | Failed projector_error

definition projector_open :: "string \<Rightarrow> read_model \<Rightarrow> projector" where
  "projector_open topic m =
     (let resume_from = applied_offset PROJECTOR topic (rm_cursors m)
      in \<lparr>pv_tailer = open_at resume_from, pv_applied = resume_from - 1\<rparr>)"

definition publish_applied :: "int \<Rightarrow> projector \<Rightarrow> projector" where
  "publish_applied off p = (if off > pv_applied p then p\<lparr>pv_applied := off\<rparr> else p)"

definition move_cursor :: "string \<Rightarrow> int \<Rightarrow> read_model \<Rightarrow> read_model" where
  "move_cursor topic off m = m\<lparr>rm_cursors := set_applied_offset PROJECTOR topic off (rm_cursors m)\<rparr>"

text \<open>\<open>commit_cursor\<close> is one statement outside a transaction.\<close>

definition commit_cursor :: "string \<Rightarrow> db_fault \<Rightarrow> int \<Rightarrow> projector \<Rightarrow> read_model \<Rightarrow> progress \<times> projector \<times> read_model" where
  "commit_cursor topic fault off p m = (case fault of
     NoFault \<Rightarrow> (Advanced 0, publish_applied (off - 1) p, move_cursor topic off m)
   | CommitFault landed \<Rightarrow> (Failed (Store (Sql ''cursor'')), p, if landed then move_cursor topic off m else m)
   | _ \<Rightarrow> (Failed (Store (Sql ''cursor'')), p, m))"

definition apply_batch ::
    "('j, 'v) decoders \<Rightarrow> string \<Rightarrow> db_fault \<Rightarrow> 'j topic_record batch \<Rightarrow> projector \<Rightarrow> read_model \<Rightarrow>
      progress \<times> projector \<times> read_model" where
  "apply_batch ds topic fault b p m =
     (if fault = BeginFault then (Failed (Store (Sql ''begin'')), p, m)
      else (case apply_records ds topic (bt_records b) 0 m of
        Err e \<Rightarrow> (Failed (Store e), p, m)
      | Ok (n, m1) \<Rightarrow>
          let m2 = move_cursor topic (bt_next_offset b) m1 in
          (case fault of
             StatementFault \<Rightarrow> (Failed (Store (Sql ''statement'')), p, m)
           | CommitFault landed \<Rightarrow> (Failed (Store (Sql ''commit'')), p, if landed then m2 else m)
           | _ \<Rightarrow> (Advanced n, publish_applied (bt_next_offset b - 1) p, m2))))"

text \<open>One turn of the loop in \<open>drain\<close>.\<close>

definition drain_step ::
    "('j, 'v) decoders \<Rightarrow> string \<Rightarrow> (int \<Rightarrow> ('j topic_record fetch_result, string) result) \<Rightarrow> db_fault \<Rightarrow>
      projector \<Rightarrow> read_model \<Rightarrow> progress \<times> projector \<times> read_model" where
  "drain_step ds topic fetch fault p m = (case next_batch fetch (pv_tailer p) of
     (Err e, t) \<Rightarrow> (Failed (Tail e), p\<lparr>pv_tailer := t\<rparr>, m)
   | (Ok b, t) \<Rightarrow>
       (let p = p\<lparr>pv_tailer := t\<rparr> in
        if bt_records b = [] then
          (if bt_caught_up b then (CaughtUp, p, m) else commit_cursor topic fault (bt_next_offset b) p m)
        else apply_batch ds topic fault b p m))"

fun drain ::
    "nat \<Rightarrow> ('j, 'v) decoders \<Rightarrow> string \<Rightarrow> (int \<Rightarrow> ('j topic_record fetch_result, string) result) \<Rightarrow> (nat \<Rightarrow> db_fault) \<Rightarrow>
      nat \<Rightarrow> projector \<Rightarrow> read_model \<Rightarrow> ((nat, projector_error) result \<times> projector \<times> read_model) option" where
  "drain 0 ds topic fetch faults tot p m = None"
| "drain (Suc fuel) ds topic fetch faults tot p m =
     (case drain_step ds topic fetch (faults 0) p m of
        (CaughtUp, p', m') \<Rightarrow> Some (Ok tot, p', m')
      | (Failed e, p', m') \<Rightarrow> Some (Err e, p', m')
      | (Advanced n, p', m') \<Rightarrow> drain fuel ds topic fetch (\<lambda>i. faults (Suc i)) (tot + n) p' m')"

text \<open>What \<open>run\<close> does between two drains: a long poll, whose batch is applied if it has records.\<close>

definition poll_step ::
    "('j, 'v) decoders \<Rightarrow> string \<Rightarrow> (int \<Rightarrow> ('j topic_record fetch_result, string) result) \<Rightarrow> db_fault \<Rightarrow>
      projector \<Rightarrow> read_model \<Rightarrow> progress \<times> projector \<times> read_model" where
  "poll_step ds topic fetch fault p m = (case next_batch fetch (pv_tailer p) of
     (Err e, t) \<Rightarrow> (Failed (Tail e), p\<lparr>pv_tailer := t\<rparr>, m)
   | (Ok b, t) \<Rightarrow>
       (let p = p\<lparr>pv_tailer := t\<rparr> in
        if bt_records b = [] then (Advanced 0, p, m) else apply_batch ds topic fault b p m))"

text \<open>\<open>wait_for_offset\<close> over the values the watch shows until the timeout; the sender going away ends
  it as well.\<close>

fun wait_for_offset :: "int list \<Rightarrow> int \<Rightarrow> bool" where
  "wait_for_offset [] off = False"
| "wait_for_offset (a # later) off = (a \<ge> off \<or> wait_for_offset later off)"

end
