(* ===== verification/Projector_System.thy ===== *)
theory Projector_System
  imports Projector_Loop
begin

text \<open>
  The projectors of the five topics over one database, with the log growing under them, the
  broker and the database failing at any step, and projectors stopped and reopened. What is in
  the tables of a topic is, at every moment, what its events before the durable cursor make of
  empty tables: each applied once, in log order.
\<close>

section \<open>The events of a stretch of the log\<close>

definition parsed_event ::
    "('v \<Rightarrow> ('p, string) result) \<Rightarrow> ('p \<Rightarrow> any_event) \<Rightarrow> 'v envelope \<Rightarrow> (any_event \<times> timestamp) option" where
  "parsed_event de kind env = (case envelope_parse de env of
     Ok p \<Rightarrow> Some (kind (payload p), occurred_at p) | Err _ \<Rightarrow> None)"

definition topic_event ::
    "('j, 'v) decoders \<Rightarrow> string \<Rightarrow> 'j topic_record \<Rightarrow> (any_event \<times> timestamp) option" where
  "topic_event ds topic r = (case decode_raw (de_slice ds) (rec_value r) of
     Err _ \<Rightarrow> None
   | Ok env \<Rightarrow>
       if topic = EVENTS_USERS then parsed_event (de_user ds) UserEv env
       else if topic = EVENTS_ISSUES then parsed_event (de_issue ds) IssueEv env
       else if topic = EVENTS_PRS then parsed_event (de_pr ds) PrEv env
       else if topic = EVENTS_CI then parsed_event (de_ci ds) CiEv env
       else if topic = EVENTS_REPOS then parsed_event (de_repo ds) RepoEv env
       else None)"

definition events_in :: "('j, 'v) decoders \<Rightarrow> string \<Rightarrow> (int \<times> 'j topic_record) list \<Rightarrow> (any_event \<times> timestamp) list" where
  "events_in ds topic rs = List.map_filter (\<lambda>r. topic_event ds topic (snd r)) rs"

abbreviation apply_stamped :: "any_event \<times> timestamp \<Rightarrow> read_model \<Rightarrow> (read_model, sql_error) result" where
  "apply_stamped \<equiv> (\<lambda>(e, at). apply_event e at)"

lemma events_in_simps [simp]:
  "events_in ds topic [] = []"
  "events_in ds topic (r # rs) =
     (case topic_event ds topic (snd r) of None \<Rightarrow> [] | Some e \<Rightarrow> [e]) @ events_in ds topic rs"
  "events_in ds topic (rs @ ss) = events_in ds topic rs @ events_in ds topic ss"
  by (auto simp: events_in_def List.map_filter_def split: option.splits)

lemma apply_parsed_event:
  "(\<And>p. app p = apply_event (kind p)) \<Longrightarrow>
   apply_parsed de app env m = (case parsed_event de kind env of
      None \<Rightarrow> Ok (None, m) | Some (e, at) \<Rightarrow> and_then (apply_event e at m) (\<lambda>m'. Ok (Some at, m')))"
  by (simp add: apply_parsed_def parsed_event_def split: sum.splits)

lemma apply_decoded_event:
  "apply_decoded ds topic r m = (case topic_event ds topic r of
      None \<Rightarrow> Ok (None, m) | Some (e, at) \<Rightarrow> and_then (apply_event e at m) (\<lambda>m'. Ok (Some at, m')))"
proof -
  have app: "apply_user_event = (\<lambda>p. apply_event (UserEv p))" "apply_repo_event = (\<lambda>p. apply_event (RepoEv p))"
    "apply_issue_event = (\<lambda>p. apply_event (IssueEv p))" "apply_pr_event = (\<lambda>p. apply_event (PrEv p))"
    "apply_ci_event = (\<lambda>p. apply_event (CiEv p))"
    by (simp_all add: apply_event_def fun_eq_iff)
  show ?thesis
    unfolding apply_decoded_def topic_event_def app
    by (simp add: apply_parsed_event split: sum.splits)
qed

lemma apply_records_events:
  "apply_records ds topic rs n m =
     and_then (apply_all apply_stamped (events_in ds topic rs) m)
       (\<lambda>m'. Ok (n + length (events_in ds topic rs), m'))"
proof (induction rs arbitrary: n m)
  case (Cons r rs)
  show ?case
  proof (cases "topic_event ds topic (snd r)")
    case None
    then show ?thesis by (simp add: apply_decoded_event Cons.IH)
  next
    case (Some ev)
    then show ?thesis
      by (cases ev; cases "apply_event (fst ev) (snd ev) m") (simp_all add: apply_decoded_event Cons.IH)
  qed
qed simp

section \<open>Which tables a topic writes\<close>

text \<open>The tables the events of a topic write; the cursors belong to none.\<close>

definition tables_of :: "string \<Rightarrow> read_model \<Rightarrow> read_model" where
  "tables_of topic m = \<lparr>
     rm_users = (if topic = EVENTS_USERS then rm_users m else []),
     rm_repos = (if topic = EVENTS_REPOS then rm_repos m else []),
     rm_issues = (if topic = EVENTS_ISSUES then rm_issues m else []),
     rm_comments = (if topic = EVENTS_ISSUES then rm_comments m else []),
     rm_counters = (if topic = EVENTS_ISSUES then rm_counters m else []),
     rm_pulls = (if topic = EVENTS_PRS then rm_pulls m else []),
     rm_reviews = (if topic = EVENTS_PRS then rm_reviews m else []),
     rm_runs = (if topic = EVENTS_CI then rm_runs m else []),
     rm_jobs = (if topic = EVENTS_CI then rm_jobs m else []),
     rm_cursors = []\<rparr>"

definition topic_of :: "any_event \<Rightarrow> string" where
  "topic_of ev = (case ev of UserEv e \<Rightarrow> user_event_topic e | RepoEv e \<Rightarrow> repo_event_topic e
     | IssueEv e \<Rightarrow> issue_event_topic e | PrEv e \<Rightarrow> pr_event_topic e | CiEv e \<Rightarrow> ci_event_topic e)"

lemmas topic_names = EVENTS_USERS_def EVENTS_REPOS_def EVENTS_ISSUES_def EVENTS_PRS_def EVENTS_CI_def
lemmas topic_defs = user_event_topic_def repo_event_topic_def issue_event_topic_def pr_event_topic_def
  ci_event_topic_def

lemma topic_event_topic:
  "topic_event ds topic r = Some (e, at) \<Longrightarrow> topic_of e = topic"
  by (auto simp: topic_event_def parsed_event_def topic_of_def topic_defs split: sum.splits if_splits)

lemma events_in_topic:
  "(e, at) \<in> set (events_in ds topic rs) \<Longrightarrow> topic_of e = topic"
  by (auto simp: events_in_def List.map_filter_def topic_event_topic)

lemma tables_of_cursors [simp]:
  "tables_of topic (m\<lparr>rm_cursors := c\<rparr>) = tables_of topic m"
  "tables_of topic (move_cursor topic' off m) = tables_of topic m"
  "tables_of topic empty_model = empty_model"
  by (simp_all add: tables_of_def move_cursor_def empty_model_def)

lemma apply_event_others:
  assumes "apply_event e at m = Ok m'"
  shows "rm_cursors m' = rm_cursors m" "topic \<noteq> topic_of e \<Longrightarrow> tables_of topic m' = tables_of topic m"
proof -
  have "rm_cursors m' = rm_cursors m \<and> (topic \<noteq> topic_of e \<longrightarrow> tables_of topic m' = tables_of topic m)"
  proof (cases e)
    case (UserEv u)
    with assms obtain t where "m' = m\<lparr>rm_users := t\<rparr>"
      unfolding apply_event_def apply_user_event_def by (auto dest: with_cases(1) split: user_event.splits)
    then show ?thesis by (simp add: UserEv topic_of_def topic_defs tables_of_def)
  next
    case (RepoEv u)
    with assms obtain t where "m' = m\<lparr>rm_repos := t\<rparr>"
      unfolding apply_event_def apply_repo_event_def by (auto dest: with_cases(2) split: repo_event.splits)
    then show ?thesis by (simp add: RepoEv topic_of_def topic_defs tables_of_def)
  next
    case (IssueEv u)
    with assms have app: "apply_issue_event u at m = Ok m'" by (simp add: apply_event_def)
    show ?thesis
      by (simp add: IssueEv topic_of_def topic_defs tables_of_def issue_event_frame [OF app])
  next
    case (PrEv u)
    with assms have app: "apply_pr_event u at m = Ok m'" by (simp add: apply_event_def)
    show ?thesis by (simp add: PrEv topic_of_def topic_defs tables_of_def pr_event_frame [OF app])
  next
    case (CiEv u)
    with assms have app: "apply_ci_event u at m = Ok m'" by (simp add: apply_event_def)
    show ?thesis by (simp add: CiEv topic_of_def topic_defs tables_of_def ci_event_frame [OF app])
  qed
  then show "rm_cursors m' = rm_cursors m" "topic \<noteq> topic_of e \<Longrightarrow> tables_of topic m' = tables_of topic m"
    by simp_all
qed

lemma tables_read:
  "rm_users (tables_of EVENTS_USERS m) = rm_users m" "rm_repos (tables_of EVENTS_REPOS m) = rm_repos m"
  "rm_issues (tables_of EVENTS_ISSUES m) = rm_issues m" "rm_comments (tables_of EVENTS_ISSUES m) = rm_comments m"
  "rm_counters (tables_of EVENTS_ISSUES m) = rm_counters m" "rm_pulls (tables_of EVENTS_PRS m) = rm_pulls m"
  "rm_reviews (tables_of EVENTS_PRS m) = rm_reviews m" "rm_runs (tables_of EVENTS_CI m) = rm_runs m"
  "rm_jobs (tables_of EVENTS_CI m) = rm_jobs m"
  by (simp_all add: tables_of_def)

lemma tables_write:
  "(tables_of EVENTS_USERS m)\<lparr>rm_users := a\<rparr> = tables_of EVENTS_USERS (m\<lparr>rm_users := a\<rparr>)"
  "(tables_of EVENTS_REPOS m)\<lparr>rm_repos := b\<rparr> = tables_of EVENTS_REPOS (m\<lparr>rm_repos := b\<rparr>)"
  "(tables_of EVENTS_ISSUES m)\<lparr>rm_issues := c\<rparr> = tables_of EVENTS_ISSUES (m\<lparr>rm_issues := c\<rparr>)"
  "(tables_of EVENTS_ISSUES m)\<lparr>rm_comments := d\<rparr> = tables_of EVENTS_ISSUES (m\<lparr>rm_comments := d\<rparr>)"
  "(tables_of EVENTS_ISSUES m)\<lparr>rm_counters := e\<rparr> = tables_of EVENTS_ISSUES (m\<lparr>rm_counters := e\<rparr>)"
  "(tables_of EVENTS_PRS m)\<lparr>rm_pulls := f\<rparr> = tables_of EVENTS_PRS (m\<lparr>rm_pulls := f\<rparr>)"
  "(tables_of EVENTS_PRS m)\<lparr>rm_reviews := g\<rparr> = tables_of EVENTS_PRS (m\<lparr>rm_reviews := g\<rparr>)"
  "(tables_of EVENTS_CI m)\<lparr>rm_runs := h\<rparr> = tables_of EVENTS_CI (m\<lparr>rm_runs := h\<rparr>)"
  "(tables_of EVENTS_CI m)\<lparr>rm_jobs := i\<rparr> = tables_of EVENTS_CI (m\<lparr>rm_jobs := i\<rparr>)"
  by (simp_all add: tables_of_def topic_names)

lemmas tables_simps = tables_read tables_write

definition project_tables :: "string \<Rightarrow> (read_model, sql_error) result \<Rightarrow> (read_model, sql_error) result" where
  "project_tables topic r = and_then r (\<lambda>m. Ok (tables_of topic m))"

lemma apply_event_own:
  "apply_event e at (tables_of (topic_of e) m) = project_tables (topic_of e) (apply_event e at m)"
proof (cases e)
  case (UserEv u)
  then show ?thesis
    by (cases "apply_user_rows u at (rm_users m)")
       (simp_all add: project_tables_def apply_event_def apply_user_event_def topic_of_def topic_defs with_defs tables_simps)
next
  case (RepoEv u)
  then show ?thesis
    by (cases "apply_repo_rows u at (rm_repos m)")
       (simp_all add: project_tables_def apply_event_def apply_repo_event_def topic_of_def topic_defs with_defs tables_simps)
next
  case (IssueEv u)
  then show ?thesis
    by (cases u)
       (simp_all add: project_tables_def apply_event_def apply_issue_event_def topic_of_def topic_defs with_defs
         refresh_def tables_simps and_then_def Let_def split: option.splits sum.splits)
next
  case (PrEv u)
  have pulls: "with_pulls f (tables_of EVENTS_PRS m) = project_tables EVENTS_PRS (with_pulls f m)" for f
    by (simp add: project_tables_def with_defs tables_simps and_then_def split: sum.splits)
  show ?thesis
    by (cases u) (simp_all add: PrEv apply_event_def apply_pr_event_def topic_of_def topic_defs pulls,
      simp_all add: project_tables_def tables_simps)
next
  case (CiEv u)
  then show ?thesis
    by (cases u)
       (simp_all add: project_tables_def apply_event_def apply_ci_event_def topic_of_def topic_defs with_defs
         mark_run_running_def tables_simps and_then_def Let_def split: option.splits sum.splits prod.splits bool.splits)
qed

lemma apply_all_own:
  "(\<And>e at. (e, at) \<in> set es \<Longrightarrow> topic_of e = topic) \<Longrightarrow>
   apply_all apply_stamped es (tables_of topic m) = project_tables topic (apply_all apply_stamped es m)"
proof (induction es arbitrary: m)
  case (Cons ev es)
  obtain e at where ev: "ev = (e, at)" by (cases ev)
  have t: "topic_of e = topic" using Cons.prems ev by auto
  have own: "apply_event e at (tables_of topic m) = project_tables topic (apply_event e at m)"
    using apply_event_own [of e at m] by (simp add: t)
  show ?case
  proof (cases "apply_event e at m")
    case (Inl x)
    then show ?thesis by (simp add: ev own project_tables_def)
  next
    case (Inr m1)
    then have "apply_all apply_stamped (ev # es) (tables_of topic m) = apply_all apply_stamped es (tables_of topic m1)"
      by (simp add: ev own project_tables_def)
    also have "\<dots> = project_tables topic (apply_all apply_stamped es m1)"
      by (rule Cons.IH) (use Cons.prems in auto)
    finally show ?thesis by (simp add: ev Inr)
  qed
qed (simp add: project_tables_def)

lemma apply_all_others:
  "apply_all apply_stamped es m = Ok m' \<Longrightarrow> (\<And>e at. (e, at) \<in> set es \<Longrightarrow> topic_of e = topic) \<Longrightarrow>
   rm_cursors m' = rm_cursors m \<and> (\<forall>other. other \<noteq> topic \<longrightarrow> tables_of other m' = tables_of other m)"
proof (induction es arbitrary: m)
  case (Cons ev es)
  obtain e at where ev: "ev = (e, at)" by (cases ev)
  obtain m1 where m1: "apply_event e at m = Ok m1" "apply_all apply_stamped es m1 = Ok m'"
    using Cons.prems(1) by (auto simp: ev and_then_Ok_iff)
  have t: "topic_of e = topic" using Cons.prems(2) ev by auto
  have "rm_cursors m' = rm_cursors m1 \<and> (\<forall>other. other \<noteq> topic \<longrightarrow> tables_of other m' = tables_of other m1)"
    by (rule Cons.IH [OF m1(2)]) (use Cons.prems(2) in auto)
  then show ?case using apply_event_others [OF m1(1)] t by auto
qed simp

end
