(* ===== verification/Projector_Runs.thy ===== *)
theory Projector_Runs
  imports Projector_System
begin

text \<open>
  Runs of the projectors: the step relation of the system (one database, a log and a projector
  for each topic), the invariant that ties the tables of a topic to a prefix of its log, and what
  follows for readers.
\<close>

section \<open>Where a projector stands\<close>

definition projected_to ::
    "('j, 'v) decoders \<Rightarrow> string \<Rightarrow> 'j topic_record slot list \<Rightarrow> read_model \<Rightarrow> nat \<Rightarrow> bool" where
  "projected_to ds topic log m n \<longleftrightarrow>
     n \<le> length log \<and> applied_offset PROJECTOR topic (rm_cursors m) = int n \<and>
     apply_all apply_stamped (events_in ds topic (visible 0 (take n log))) empty_model = Ok (tables_of topic m)"

text \<open>A running projector may be ahead of its durable cursor by slots that hold nothing to read.\<close>

definition stands :: "'r slot list \<Rightarrow> nat \<Rightarrow> projector \<Rightarrow> bool" where
  "stands log n p \<longleftrightarrow> (\<exists>k. tl_offset (pv_tailer p) = int k \<and> n \<le> k \<and> k \<le> length log \<and>
     visible (int n) (take (k - n) (drop n log)) = [] \<and> pv_applied p = int n - 1)"

definition answers :: "(int \<Rightarrow> ('r fetch_result, string) result) \<Rightarrow> 'r slot list \<Rightarrow> projector \<Rightarrow> bool" where
  "answers fetch log p \<longleftrightarrow> serves fetch log \<or> (\<exists>e. fetch (tl_offset (pv_tailer p)) = Err e)"

definition untouched :: "string \<Rightarrow> read_model \<Rightarrow> read_model \<Rightarrow> bool" where
  "untouched topic m m' \<longleftrightarrow> (\<forall>other. other \<noteq> topic \<longrightarrow> tables_of other m' = tables_of other m \<and>
     applied_offset PROJECTOR other (rm_cursors m') = applied_offset PROJECTOR other (rm_cursors m))"

lemma untouched_refl [simp]: "untouched topic m m"
  by (simp add: untouched_def)

lemma cursor_move_cursor [simp]:
  "applied_offset PROJECTOR topic' (rm_cursors (move_cursor topic off m)) =
     (if topic' = topic then off else applied_offset PROJECTOR topic' (rm_cursors m))"
  by (auto simp: move_cursor_def applied_offset_set)

lemma visible_take_split:
  assumes "n \<le> j"  "j \<le> length log"
  shows "visible 0 (take j log) = visible 0 (take n log) @ visible (int n) (take (j - n) (drop n log))"
proof -
  have "take j log = take n log @ take (j - n) (drop n log)"
    using assms(1) by (metis le_add_diff_inverse take_add)
  then show ?thesis
    using visible_append [of 0 "take n log" "take (j - n) (drop n log)"] assms by simp
qed

text \<open>The slots between the cursor and the tailer add nothing.\<close>

lemma visible_ahead:
  assumes "n \<le> k" "k \<le> j" "j \<le> length log" "visible (int n) (take (k - n) (drop n log)) = []"
  shows "visible 0 (take j log) = visible 0 (take n log) @ visible (int k) (take (j - k) (drop k log))"
  using visible_take_split [of k j log] visible_take_split [of n k log] assms by simp

lemma projected_grow:
  "projected_to ds topic log m n \<Longrightarrow> projected_to ds topic (log @ new) m n"
  by (simp add: projected_to_def)

lemma stands_grow: "stands log n p \<Longrightarrow> stands (log @ new) n p"
  unfolding stands_def by (elim exE) (rule_tac x = k in exI, simp)

lemma projected_unique: "projected_to ds topic log m n \<Longrightarrow> projected_to ds topic log' m n' \<Longrightarrow> n = n'"
  by (simp add: projected_to_def)

lemma projected_untouched:
  "untouched topic m m' \<Longrightarrow> other \<noteq> topic \<Longrightarrow> projected_to ds other log m n \<Longrightarrow> projected_to ds other log m' n"
  by (simp add: untouched_def projected_to_def)

lemma opened_stands:
  "projected_to ds topic log m n \<Longrightarrow> stands log n (projector_open topic m)"
  by (auto simp: projected_to_def stands_def projector_open_def Let_def open_at_def intro!: exI [of _ n])

section \<open>One turn of a projector\<close>

text \<open>What a batch leaves behind: the rows and the cursor move together, or not at all.\<close>

lemma records_applied:
  assumes at: "projected_to ds topic log m n" and k: "n \<le> k" "k \<le> j" "j \<le> length log"
    and gap: "visible (int n) (take (k - n) (drop n log)) = []"
    and app: "apply_records ds topic (visible (int k) (take (j - k) (drop k log))) 0 m = Ok (c, m1)"
  shows "projected_to ds topic log (move_cursor topic (int j) m1) j"
    "untouched topic m (move_cursor topic (int j) m1)"
    "c = length (events_in ds topic (visible (int k) (take (j - k) (drop k log))))"
proof -
  let ?es = "events_in ds topic (visible (int k) (take (j - k) (drop k log)))"
  have es: "\<And>e at. (e, at) \<in> set ?es \<Longrightarrow> topic_of e = topic" by (rule events_in_topic)
  from app have m1: "apply_all apply_stamped ?es m = Ok m1" and c: "c = length ?es"
    by (auto simp: apply_records_events and_then_Ok_iff)
  have own: "apply_all apply_stamped ?es (tables_of topic m) = Ok (tables_of topic m1)"
    using apply_all_own [OF es, where m = m] m1 by (simp add: project_tables_def)
  have others: "rm_cursors m1 = rm_cursors m" "other \<noteq> topic \<Longrightarrow> tables_of other m1 = tables_of other m" for other
    using apply_all_others [OF m1 es] by simp_all
  show "projected_to ds topic log (move_cursor topic (int j) m1) j"
    using at k own by (simp add: projected_to_def visible_ahead [OF k gap] apply_all_append)
  show "untouched topic m (move_cursor topic (int j) m1)"
    by (simp add: untouched_def others)
  show "c = length ?es" by (rule c)
qed

definition turn_ok ::
    "('j, 'v) decoders \<Rightarrow> string \<Rightarrow> 'j topic_record slot list \<Rightarrow> read_model \<Rightarrow> nat \<Rightarrow> progress \<times> projector \<times> read_model \<Rightarrow> bool" where
  "turn_ok ds topic log m n r \<longleftrightarrow> (case r of (outcome, p', m') \<Rightarrow>
     untouched topic m m' \<and> (\<exists>n' \<ge> n. projected_to ds topic log m' n' \<and>
       ((\<exists>e. outcome = Failed e) \<or> stands log n' p')))"

lemma turn_failed: "projected_to ds topic log m n \<Longrightarrow> turn_ok ds topic log m n (Failed e, p, m)"
  by (auto simp: turn_ok_def)

lemma turn_stays:
  "projected_to ds topic log m n \<Longrightarrow> stands log n p \<Longrightarrow> turn_ok ds topic log m n (outcome, p, m)"
  by (auto simp: turn_ok_def)

lemma turn_moves:
  assumes "projected_to ds topic log m' j" "untouched topic m m'" "n \<le> j"
    and "(\<exists>e. outcome = Failed e) \<or> tl_offset (pv_tailer p') = int j \<and> pv_applied p' = int j - 1"
  shows "turn_ok ds topic log m n (outcome, p', m')"
proof -
  have "stands log j p'" if "tl_offset (pv_tailer p') = int j" "pv_applied p' = int j - 1"
    using that assms(1) unfolding stands_def by (intro exI [of _ j]) (simp add: projected_to_def)
  then show ?thesis using assms by (auto simp: turn_ok_def)
qed

lemma batch_turn:
  assumes at: "projected_to ds topic log m n" and k: "n \<le> k" "k \<le> j" "j \<le> length log"
    and gap: "visible (int n) (take (k - n) (drop n log)) = []"
    and b: "b = \<lparr>bt_records = visible (int k) (take (j - k) (drop k log)), bt_next_offset = int j, bt_caught_up = cu\<rparr>"
    and p: "tl_offset (pv_tailer p) = int j" "pv_applied p = int n - 1"
  shows "turn_ok ds topic log m n (apply_batch ds topic fault b p m)"
proof (cases "apply_records ds topic (bt_records b) 0 m")
  case (Inl e)
  then show ?thesis using at by (simp add: apply_batch_def turn_failed)
next
  case (Inr r)
  then obtain c m1 where m1: "apply_records ds topic (bt_records b) 0 m = Ok (c, m1)" by (cases r) auto
  from m1 have app: "apply_records ds topic (visible (int k) (take (j - k) (drop k log))) 0 m = Ok (c, m1)"
    by (simp add: b)
  note moved = records_applied [OF at k gap app]
  have nj: "n \<le> j" using k by simp
  have landed: "turn_ok ds topic log m n (Failed e, p, move_cursor topic (int j) m1)" for e
    by (rule turn_moves [OF moved(1,2) nj]) simp
  have advanced: "turn_ok ds topic log m n (Advanced c, publish_applied (int j - 1) p, move_cursor topic (int j) m1)"
    by (rule turn_moves [OF moved(1,2) nj]) (use p nj in \<open>simp add: publish_applied_def\<close>)
  show ?thesis
    using turn_failed [OF at] landed advanced
    by (cases fault) (simp_all add: apply_batch_def m1 Let_def, simp_all add: b)
qed

lemma next_turn:
  assumes "answers fetch log p" "stands log n p"
  obtains e where "next_batch fetch (pv_tailer p) = (Err e, pv_tailer p)"
  | k j where "n \<le> k" "k \<le> j" "j \<le> length log" "visible (int n) (take (k - n) (drop n log)) = []"
      "k < length log \<Longrightarrow> k < j" "tl_offset (pv_tailer p) = int k" "pv_applied p = int n - 1"
      "next_batch fetch (pv_tailer p) = (Ok \<lparr>bt_records = visible (int k) (take (j - k) (drop k log)),
         bt_next_offset = int j, bt_caught_up = (j = k)\<rparr>, (pv_tailer p)\<lparr>tl_offset := int j\<rparr>)"
proof -
  obtain k where k: "tl_offset (pv_tailer p) = int k" "n \<le> k" "k \<le> length log"
    "visible (int n) (take (k - n) (drop n log)) = []" "pv_applied p = int n - 1"
    using assms(2) unfolding stands_def by blast
  show ?thesis
  proof (cases "\<exists>e. fetch (tl_offset (pv_tailer p)) = Err e")
    case True
    then show ?thesis using that(1) by (auto simp: next_batch_def)
  next
    case False
    then have "serves fetch log" using assms(1) by (simp add: answers_def)
    from serves_step [OF this k(3,1)] obtain j
      where "if k < length log then k < j \<and> j \<le> length log else j = k"
        and "next_batch fetch (pv_tailer p) = (Ok \<lparr>bt_records = visible (int k) (take (j - k) (drop k log)),
          bt_next_offset = int j, bt_caught_up = (j = k)\<rparr>, (pv_tailer p)\<lparr>tl_offset := int j\<rparr>)" .
    then show ?thesis using that(2) [of k j] k by (auto split: if_splits)
  qed
qed

lemma cursor_turn:
  assumes at: "projected_to ds topic log m n" and k: "n \<le> j" "j \<le> length log"
    and gap: "visible (int n) (take (j - n) (drop n log)) = []"
    and p: "tl_offset (pv_tailer p) = int j" "pv_applied p = int n - 1"
  shows "turn_ok ds topic log m n (commit_cursor topic fault (int j) p m)"
proof -
  have app: "apply_records ds topic (visible (int n) (take (j - n) (drop n log))) 0 m = Ok (0, m)"
    by (simp add: gap)
  have n0: "visible (int n) (take (n - n) (drop n log)) = []" by simp
  note moved = records_applied [OF at order_refl k n0 app]
  have "turn_ok ds topic log m n (Failed e, p, move_cursor topic (int j) m)" for e
    by (rule turn_moves [OF moved(1,2) k(1)]) simp
  moreover have "turn_ok ds topic log m n (Advanced 0, publish_applied (int j - 1) p, move_cursor topic (int j) m)"
    by (rule turn_moves [OF moved(1,2) k(1)]) (use p k in \<open>simp add: publish_applied_def\<close>)
  ultimately show ?thesis
    using turn_failed [OF at] by (cases fault) (simp_all add: commit_cursor_def)
qed

lemma turns_ok:
  assumes at: "projected_to ds topic log m n" and st: "stands log n p" and ans: "answers fetch log p"
  shows "turn_ok ds topic log m n (drain_step ds topic fetch fault p m)"
    "turn_ok ds topic log m n (poll_step ds topic fetch fault p m)"
proof -
  have "turn_ok ds topic log m n (drain_step ds topic fetch fault p m) \<and>
    turn_ok ds topic log m n (poll_step ds topic fetch fault p m)"
    using ans st
  proof (cases rule: next_turn)
    case (1 e)
    then show ?thesis by (simp add: drain_step_def poll_step_def turn_failed [OF at])
  next
    case (2 k j)
    let ?p = "p\<lparr>pv_tailer := (pv_tailer p)\<lparr>tl_offset := int j\<rparr>\<rparr>"
    let ?b = "\<lparr>bt_records = visible (int k) (take (j - k) (drop k log)), bt_next_offset = int j, bt_caught_up = (j = k)\<rparr>"
    have p: "tl_offset (pv_tailer ?p) = int j" "pv_applied ?p = int n - 1" using 2(7) by simp_all
    have batch: "turn_ok ds topic log m n (apply_batch ds topic fault ?b ?p m)"
      by (rule batch_turn [OF at 2(1-4) refl p])
    show ?thesis
    proof (cases "bt_records ?b = []")
      case False
      then show ?thesis using batch by (simp add: drain_step_def poll_step_def 2(8) Let_def)
    next
      case True
      have gap: "visible (int n) (take (j - n) (drop n log)) = []"
        using visible_ahead [OF 2(1-4)] visible_take_split [of n j log] 2(1-3) True by simp
      have nj: "n \<le> j" using 2(1,2) by simp
      have stay: "stands log n ?p"
        unfolding stands_def by (intro exI [of _ j]) (use gap nj 2(3,7) in simp)
      have "turn_ok ds topic log m n (commit_cursor topic fault (int j) ?p m)"
        by (rule cursor_turn [OF at nj 2(3) gap p])
      then show ?thesis
        using turn_stays [OF at stay] True
        by (cases "j = k") (simp_all add: drain_step_def poll_step_def 2(8) Let_def)
    qed
  qed
  then show "turn_ok ds topic log m n (drain_step ds topic fetch fault p m)"
    "turn_ok ds topic log m n (poll_step ds topic fetch fault p m)" by simp_all
qed

section \<open>Runs of the system\<close>

record 'j projection =
  ps_log :: "string \<Rightarrow> 'j topic_record slot list"
  ps_db :: read_model
  ps_live :: "string \<Rightarrow> projector option"

definition projection_start :: "'j projection" where
  "projection_start = \<lparr>ps_log = (\<lambda>_. []), ps_db = empty_model, ps_live = (\<lambda>_. None)\<rparr>"

text \<open>A projector that fails is gone: \<open>run\<close> consumes it, and the next one is opened at the durable
  cursor.\<close>

definition after_turn :: "string \<Rightarrow> progress \<times> projector \<times> read_model \<Rightarrow> 'j projection \<Rightarrow> 'j projection" where
  "after_turn topic r s = (case r of (outcome, p', m') \<Rightarrow>
     s\<lparr>ps_db := m', ps_live := (ps_live s)(topic := (case outcome of Failed _ \<Rightarrow> None | _ \<Rightarrow> Some p'))\<rparr>)"

inductive projection_step :: "('j, 'v) decoders \<Rightarrow> 'j projection \<Rightarrow> 'j projection \<Rightarrow> bool"
  for ds :: "('j, 'v) decoders" where
  appended: "projection_step ds s (s\<lparr>ps_log := (ps_log s)(topic := ps_log s topic @ new)\<rparr>)"
| start: "projection_step ds s (s\<lparr>ps_live := (ps_live s)(topic := Some (projector_open topic (ps_db s)))\<rparr>)"
| stop: "projection_step ds s (s\<lparr>ps_live := (ps_live s)(topic := None)\<rparr>)"
| drain_turn: "ps_live s topic = Some p \<Longrightarrow> answers fetch (ps_log s topic) p \<Longrightarrow>
    projection_step ds s (after_turn topic (drain_step ds topic fetch fault p (ps_db s)) s)"
| poll_turn: "ps_live s topic = Some p \<Longrightarrow> answers fetch (ps_log s topic) p \<Longrightarrow>
    projection_step ds s (after_turn topic (poll_step ds topic fetch fault p (ps_db s)) s)"

abbreviation projection_reach :: "('j, 'v) decoders \<Rightarrow> 'j projection \<Rightarrow> bool" where
  "projection_reach ds \<equiv> (projection_step ds)\<^sup>*\<^sup>* projection_start"

definition in_step :: "('j, 'v) decoders \<Rightarrow> 'j projection \<Rightarrow> bool" where
  "in_step ds s \<longleftrightarrow> (\<forall>topic. \<exists>n. projected_to ds topic (ps_log s topic) (ps_db s) n \<and>
     (\<forall>p. ps_live s topic = Some p \<longrightarrow> stands (ps_log s topic) n p))"

text \<open>How far the tables of a topic are in its log.\<close>

abbreviation durable :: "'j projection \<Rightarrow> string \<Rightarrow> int" where
  "durable s topic \<equiv> applied_offset PROJECTOR topic (rm_cursors (ps_db s))"

lemma in_stepI:
  assumes "\<And>other. \<exists>n. projected_to ds other (ps_log s other) (ps_db s) n \<and>
     (\<forall>p. ps_live s other = Some p \<longrightarrow> stands (ps_log s other) n p)"
  shows "in_step ds s"
  using assms by (simp add: in_step_def)

lemma after_turn_in_step:
  assumes "in_step ds s" "ps_live s topic = Some p"
    and turn: "\<And>n. projected_to ds topic (ps_log s topic) (ps_db s) n \<Longrightarrow> stands (ps_log s topic) n p \<Longrightarrow>
      turn_ok ds topic (ps_log s topic) (ps_db s) n r"
  shows "in_step ds (after_turn topic r s) \<and> durable s other \<le> durable (after_turn topic r s) other"
proof -
  obtain outcome p' m' where r: "r = (outcome, p', m')" by (cases r)
  obtain n where n: "projected_to ds topic (ps_log s topic) (ps_db s) n" "stands (ps_log s topic) n p"
    using assms(1,2) unfolding in_step_def by blast
  from turn [OF n] obtain n' where un: "untouched topic (ps_db s) m'" and n': "n \<le> n'"
    "projected_to ds topic (ps_log s topic) m' n'" "(\<exists>e. outcome = Failed e) \<or> stands (ps_log s topic) n' p'"
    unfolding turn_ok_def r by auto
  have "in_step ds (after_turn topic r s)"
  proof (rule in_stepI)
    fix t
    show "\<exists>n. projected_to ds t (ps_log (after_turn topic r s) t) (ps_db (after_turn topic r s)) n \<and>
      (\<forall>p. ps_live (after_turn topic r s) t = Some p \<longrightarrow> stands (ps_log (after_turn topic r s) t) n p)"
    proof (cases "t = topic")
      case True
      with n' show ?thesis
        by (intro exI [of _ n']) (auto simp: after_turn_def r split: progress.splits)
    next
      case False
      obtain k where k: "projected_to ds t (ps_log s t) (ps_db s) k"
        "\<forall>p. ps_live s t = Some p \<longrightarrow> stands (ps_log s t) k p"
        using assms(1) unfolding in_step_def by blast
      with projected_untouched [OF un False k(1)] False show ?thesis
        by (intro exI [of _ k]) (simp add: after_turn_def r)
    qed
  qed
  moreover have "durable s other \<le> durable (after_turn topic r s) other"
    using un n'(1,2) n(1)
    by (cases "other = topic") (simp_all add: after_turn_def r untouched_def projected_to_def)
  ultimately show ?thesis ..
qed

lemma step_in_step:
  assumes "projection_step ds s s'" "in_step ds s"
  shows "in_step ds s' \<and> durable s topic \<le> durable s' topic \<and> (\<exists>new. ps_log s' topic = ps_log s topic @ new)"
  using assms
proof (cases rule: projection_step.cases)
  case (appended t new)
  have "in_step ds s'"
  proof (rule in_stepI)
    fix other
    obtain n where "projected_to ds other (ps_log s other) (ps_db s) n"
      "\<forall>p. ps_live s other = Some p \<longrightarrow> stands (ps_log s other) n p"
      using assms(2) unfolding in_step_def by blast
    then show "\<exists>n. projected_to ds other (ps_log s' other) (ps_db s') n \<and>
        (\<forall>p. ps_live s' other = Some p \<longrightarrow> stands (ps_log s' other) n p)"
      by (intro exI [of _ n]) (auto simp: appended intro: projected_grow stands_grow)
  qed
  then show ?thesis by (simp add: appended)
next
  case (start t)
  have "in_step ds s'"
  proof (rule in_stepI)
    fix other
    obtain n where "projected_to ds other (ps_log s other) (ps_db s) n"
      "\<forall>p. ps_live s other = Some p \<longrightarrow> stands (ps_log s other) n p"
      using assms(2) unfolding in_step_def by blast
    then show "\<exists>n. projected_to ds other (ps_log s' other) (ps_db s') n \<and>
        (\<forall>p. ps_live s' other = Some p \<longrightarrow> stands (ps_log s' other) n p)"
      by (intro exI [of _ n]) (auto simp: start intro: opened_stands)
  qed
  then show ?thesis by (simp add: start)
next
  case (stop t)
  have "in_step ds s'"
    using assms(2) unfolding in_step_def stop by simp blast
  then show ?thesis by (simp add: stop)
next
  case (drain_turn t p fetch fault)
  have "in_step ds s' \<and> durable s topic \<le> durable s' topic"
    unfolding drain_turn(1)
    by (rule after_turn_in_step [OF assms(2) drain_turn(2)]) (rule turns_ok(1) [OF _ _ drain_turn(3)])
  then show ?thesis by (simp add: drain_turn(1) after_turn_def split: prod.splits)
next
  case (poll_turn t p fetch fault)
  have "in_step ds s' \<and> durable s topic \<le> durable s' topic"
    unfolding poll_turn(1)
    by (rule after_turn_in_step [OF assms(2) poll_turn(2)]) (rule turns_ok(2) [OF _ _ poll_turn(3)])
  then show ?thesis by (simp add: poll_turn(1) after_turn_def split: prod.splits)
qed

lemma start_in_step: "in_step ds projection_start"
  by (auto simp: in_step_def projection_start_def projected_to_def empty_model_def tables_of_def
    applied_offset_def applied_offset_for_def)

lemma run_in_step:
  assumes "(projection_step ds)\<^sup>*\<^sup>* s s'" "in_step ds s"
  shows "in_step ds s' \<and> durable s topic \<le> durable s' topic \<and> (\<exists>new. ps_log s' topic = ps_log s topic @ new)"
  using assms
proof (induction rule: rtranclp_induct)
  case (step s1 s2)
  then show ?case using step_in_step [OF step.hyps(2), of topic] by fastforce
qed simp

lemmas reach_in_step = run_in_step [OF _ start_in_step, THEN conjunct1]

section \<open>What a reader can rely on\<close>

text \<open>Property C20: exactly once. However the log grows, the broker and the database fail (a commit
  whose outcome is unknown included) and projectors stop and are reopened: the tables of every
  topic hold what its events before the durable cursor make of empty tables, each applied once
  and in log order, whatever the other projectors write in the same database.\<close>

theorem projection_exactly_once:
  assumes "projection_reach ds s"
  shows "\<exists>n. n \<le> length (ps_log s topic) \<and> applied_offset PROJECTOR topic (rm_cursors (ps_db s)) = int n \<and>
    apply_all (\<lambda>(e, at). apply_event e at) (events_in ds topic (visible 0 (take n (ps_log s topic)))) empty_model
      = Ok (tables_of topic (ps_db s))"
  using reach_in_step [OF assms] unfolding in_step_def projected_to_def by blast

text \<open>Property C21: read your writes. If \<open>wait_for_offset\<close> answers yes after seeing values that the
  topic's projector has published, at any moment before a state of the run, then the tables of
  that state hold the event at that offset: they are the projection of a prefix of the log that
  reaches past it.\<close>

theorem read_your_writes:
  assumes "projection_reach ds s"
    and "\<forall>a\<in>set seen. \<exists>s1 p. projection_reach ds s1 \<and> (projection_step ds)\<^sup>*\<^sup>* s1 s \<and>
      ps_live s1 topic = Some p \<and> a = pv_applied p"
    and "wait_for_offset seen off"
  shows "\<exists>n. off < int n \<and> n \<le> length (ps_log s topic) \<and>
    apply_all (\<lambda>(e, at). apply_event e at) (events_in ds topic (visible 0 (take n (ps_log s topic)))) empty_model
      = Ok (tables_of topic (ps_db s))"
proof -
  have "\<exists>a\<in>set seen. off \<le> a" using assms(3) by (induction seen) auto
  then obtain a where a: "a \<in> set seen" "off \<le> a" by blast
  from bspec [OF assms(2) a(1)] obtain s1 p where s1: "projection_reach ds s1" "(projection_step ds)\<^sup>*\<^sup>* s1 s"
    "ps_live s1 topic = Some p" "a = pv_applied p" by blast
  have in1: "in_step ds s1" by (rule reach_in_step [OF s1(1)])
  then obtain n1 where "projected_to ds topic (ps_log s1 topic) (ps_db s1) n1" "stands (ps_log s1 topic) n1 p"
    using s1(3) unfolding in_step_def by blast
  then have "off < durable s1 topic" using s1(4) a(2) by (auto simp: projected_to_def stands_def)
  also have "\<dots> \<le> durable s topic" using run_in_step [OF s1(2) in1] by blast
  finally have "off < durable s topic" .
  moreover obtain n where "projected_to ds topic (ps_log s topic) (ps_db s) n"
    using reach_in_step [OF assms(1)] unfolding in_step_def by blast
  ultimately show ?thesis unfolding projected_to_def by (intro exI [of _ n]) simp
qed

lemma drain_complete:
  assumes srv: "serves fetch log"
    and whole: "apply_all apply_stamped (events_in ds topic (visible 0 log)) empty_model = Ok full"
    and at: "projected_to ds topic log m n" and st: "tl_offset (pv_tailer p) = int k" "n \<le> k" "k \<le> length log"
      "visible (int n) (take (k - n) (drop n log)) = []" "pv_applied p = int n - 1"
    and fuel: "length log - k < fuel"
  shows "\<exists>p' m'. drain fuel ds topic fetch (\<lambda>_. NoFault) tot p m =
      Some (Ok (tot + length (events_in ds topic (visible (int k) (drop k log)))), p', m') \<and>
      tables_of topic m' = full \<and> untouched topic m m'"
  using at st fuel
proof (induction fuel arbitrary: n k p m tot)
  case (Suc fuel)
  have st: "stands log n p" unfolding stands_def by (intro exI [of _ k]) (use Suc.prems(2-6) in simp)
  have ans: "answers fetch log p" by (simp add: answers_def srv)
  from ans st show ?case
  proof (cases rule: next_turn)
    case (1 e)
    from serves_step [OF srv Suc.prems(4,2)] 1 show ?thesis by (metis Inl_Inr_False fst_conv)
  next
    case (2 k' j)
    have [simp]: "k' = k" using 2(6) Suc.prems(2) by simp
    let ?vs = "visible (int k) (take (j - k) (drop k log))"
    have prefix: "visible 0 (take j log) = visible 0 (take n log) @ ?vs"
      using visible_ahead [OF 2(1-4)] by simp
    have rest: "visible 0 log = visible 0 (take j log) @ visible (int j) (drop j log)"
      using visible_append [of 0 "take j log" "drop j log"] 2(3) by simp
    have cut: "take (j - k) (drop k log) @ drop j log = drop k log"
      using append_take_drop_id [of "j - k" "drop k log"] 2(2) by (simp add: drop_drop del: append_take_drop_id)
    have ahead: "visible (int k) (drop k log) = ?vs @ visible (int j) (drop j log)"
      using visible_append [of "int k" "take (j - k) (drop k log)" "drop j log"] 2(2,3)
      by (simp add: cut)
    have so_far: "apply_all apply_stamped (events_in ds topic (visible 0 (take n log))) empty_model = Ok (tables_of topic m)"
      using Suc.prems(1) by (simp add: projected_to_def)
    show ?thesis
    proof (cases "j = k")
      case True
      then have k: "k = length log" using 2(3,5) by (cases "k < length log") simp_all
      have "visible 0 log = visible 0 (take n log)" using prefix by (simp add: True k)
      then have "tables_of topic m = full" using whole so_far by simp
      moreover have "drain_step ds topic fetch NoFault p m =
          (CaughtUp, p\<lparr>pv_tailer := (pv_tailer p)\<lparr>tl_offset := int j\<rparr>\<rparr>, m)"
        using True by (simp add: drain_step_def 2(8) Let_def)
      moreover have "visible (int k) (drop k log) = []" by (simp add: k)
      ultimately show ?thesis by simp
    next
      case False
      then have more: "k < j" using 2(2) by simp
      let ?p = "p\<lparr>pv_tailer := (pv_tailer p)\<lparr>tl_offset := int j\<rparr>\<rparr>"
      have "project_tables topic (apply_all apply_stamped (events_in ds topic ?vs) m) =
          apply_all apply_stamped (events_in ds topic ?vs) (tables_of topic m)"
        by (rule apply_all_own [symmetric]) (rule events_in_topic)
      moreover have "\<exists>m1. apply_all apply_stamped (events_in ds topic ?vs) (tables_of topic m) = Ok m1"
        using whole so_far by (auto simp: rest prefix apply_all_append and_then_Ok_iff)
      ultimately obtain m1 where m1: "apply_all apply_stamped (events_in ds topic ?vs) m = Ok m1"
        by (auto simp: project_tables_def and_then_Ok_iff)
      have app: "apply_records ds topic (visible (int k') (take (j - k') (drop k' log))) 0 m =
          Ok (length (events_in ds topic ?vs), m1)"
        by (simp add: apply_records_events m1)
      note moved = records_applied [OF Suc.prems(1) 2(1-4) app]
      let ?m = "move_cursor topic (int j) m1"
      let ?p' = "publish_applied (int j - 1) ?p"
      have p': "tl_offset (pv_tailer ?p') = int j" "pv_applied ?p' = int j - 1"
        using 2(1,7) more by (simp_all add: publish_applied_def)
      have m1_same: "?vs = [] \<Longrightarrow> m1 = m" using m1 by simp
      have step: "drain_step ds topic fetch NoFault p m = (Advanced (length (events_in ds topic ?vs)), ?p', ?m)"
      proof (cases "?vs = []")
        case True
        with more have "drain_step ds topic fetch NoFault p m = commit_cursor topic NoFault (int j) ?p m"
          by (simp add: drain_step_def 2(8) Let_def)
        with m1_same [OF True] True show ?thesis by (simp add: commit_cursor_def)
      next
        case False
        let ?b = "\<lparr>bt_records = ?vs, bt_next_offset = int j, bt_caught_up = (j = k)\<rparr>"
        from False have "drain_step ds topic fetch NoFault p m = apply_batch ds topic NoFault ?b ?p m"
          by (simp add: drain_step_def 2(8) Let_def)
        with app show ?thesis by (simp add: apply_batch_def)
      qed
      have len: "j \<le> length log" "length log - j < fuel" using 2(3) more Suc.prems(7) by simp_all
      have none: "visible (int j) (take (j - j) (drop j log)) = []" by simp
      from Suc.IH [OF moved(1) p'(1) order_refl len(1) none p'(2) len(2),
          of "tot + length (events_in ds topic ?vs)"]
      obtain p2 m2 where IH: "drain fuel ds topic fetch (\<lambda>_. NoFault) (tot + length (events_in ds topic ?vs)) ?p' ?m =
          Some (Ok (tot + length (events_in ds topic ?vs) + length (events_in ds topic (visible (int j) (drop j log)))), p2, m2)"
        "tables_of topic m2 = full" "untouched topic ?m m2" by blast
      have "untouched topic m m2" using moved(2) IH(3) by (simp add: untouched_def)
      with IH show ?thesis by (simp add: step ahead add.assoc)
    qed
  qed
qed simp

text \<open>A drain ends and catches up. From any state of a run, when the broker serves the
  topic's log, the database does not fail and the whole log projects: \<open>drain\<close> returns after at
  most one fetch per slot and one more, the tables of the topic are the projection of the whole
  log, the number it reports is the number of events it found beyond the tailer, and no other
  topic's tables or cursor change.\<close>

theorem drain_catches_up:
  assumes "projection_reach ds s" and "ps_live s topic = Some p"
    and "serves fetch (ps_log s topic)"
    and "apply_all (\<lambda>(e, at). apply_event e at) (events_in ds topic (visible 0 (ps_log s topic))) empty_model = Ok full"
    and "length (ps_log s topic) < fuel"
  shows "\<exists>p' m'. drain fuel ds topic fetch (\<lambda>_. NoFault) 0 p (ps_db s) =
      Some (Ok (length (events_in ds topic (visible (tl_offset (pv_tailer p))
        (drop (nat (tl_offset (pv_tailer p))) (ps_log s topic))))), p', m') \<and>
    tables_of topic m' = full \<and> untouched topic (ps_db s) m'"
proof -
  obtain n k where "projected_to ds topic (ps_log s topic) (ps_db s) n"
    "tl_offset (pv_tailer p) = int k" "n \<le> k" "k \<le> length (ps_log s topic)"
    "visible (int n) (take (k - n) (drop n (ps_log s topic))) = []" "pv_applied p = int n - 1"
    using reach_in_step [OF assms(1)] assms(2) unfolding in_step_def stands_def by blast
  from drain_complete [OF assms(3,4) this, of fuel 0] assms(5) \<open>tl_offset (pv_tailer p) = int k\<close>
  show ?thesis by simp
qed

section \<open>A run\<close>

text \<open>Two users register, a record between them does not parse and the second batch of the log ends
  in a control slot. The projector is started, its first commit fails with the outcome unknown
  but landed, it is started again and finds nothing to apply twice.\<close>

definition demo_decoders :: "(user_event envelope, user_event) decoders" where
  "demo_decoders = \<lparr>de_slice = Ok, de_user = Ok, de_repo = (\<lambda>_. Err ''kind''), de_issue = (\<lambda>_. Err ''kind''),
     de_pr = (\<lambda>_. Err ''kind''), de_ci = (\<lambda>_. Err ''kind'')\<rparr>"

definition demo_registered :: "string \<Rightarrow> timestamp \<Rightarrow> user_event envelope topic_record slot" where
  "demo_registered name at = Visible \<lparr>rec_key = Some name, rec_value = Some \<lparr>event_id = name,
     event_type = ''user.registered'', event_version = 1, aggregate_id = name, actor = None, occurred_at = at,
     payload = UserRegistered name name name (name @ ''@x'') ''h''\<rparr>\<rparr>"

definition demo_log :: "user_event envelope topic_record slot list" where
  "demo_log = [demo_registered ''ann'' 1, Visible \<lparr>rec_key = Some ''bob'', rec_value = None\<rparr>,
     demo_registered ''bob'' 2, Hidden]"

definition demo_run :: "nat \<Rightarrow> user_event envelope projection" where
  "demo_run n = (let
     s1 = projection_start\<lparr>ps_log := (ps_log projection_start)(EVENTS_USERS := ps_log projection_start EVENTS_USERS @ demo_log)\<rparr>;
     s2 = s1\<lparr>ps_live := (ps_live s1)(EVENTS_USERS := Some (projector_open EVENTS_USERS (ps_db s1)))\<rparr>;
     s3 = after_turn EVENTS_USERS (drain_step demo_decoders EVENTS_USERS (whole_log_fetch demo_log) (CommitFault True)
       (projector_open EVENTS_USERS (ps_db s1)) (ps_db s2)) s2;
     s4 = s3\<lparr>ps_live := (ps_live s3)(EVENTS_USERS := Some (projector_open EVENTS_USERS (ps_db s3)))\<rparr>
     in [s1, s2, s3, s4] ! n)"

lemma demo_run_reach:
  "projection_reach demo_decoders (demo_run 1)" "(projection_step demo_decoders)\<^sup>*\<^sup>* (demo_run 1) (demo_run 3)"
proof -
  have log: "ps_log (demo_run 1) EVENTS_USERS = demo_log"
    by (simp add: demo_run_def Let_def projection_start_def)
  have s1: "projection_step demo_decoders projection_start (demo_run 0)"
    unfolding demo_run_def Let_def by simp (rule projection_step.appended)
  have s2: "projection_step demo_decoders (demo_run 0) (demo_run 1)"
    unfolding demo_run_def Let_def by (simp only: nth_Cons_0 One_nat_def nth_Cons_Suc) (rule projection_step.start)
  have s3: "projection_step demo_decoders (demo_run 1) (demo_run 2)"
    unfolding demo_run_def Let_def
    by (simp only: nth_Cons_0 One_nat_def nth_Cons_Suc numeral_2_eq_2, rule projection_step.drain_turn)
       (simp_all add: answers_def whole_log_serves projection_start_def)
  have s4: "projection_step demo_decoders (demo_run 2) (demo_run 3)"
    unfolding demo_run_def Let_def
    by (simp only: nth_Cons_0 nth_Cons_Suc numeral_2_eq_2 numeral_3_eq_3) (rule projection_step.start)
  show "projection_reach demo_decoders (demo_run 1)"
    using s1 s2 by (meson converse_rtranclp_into_rtranclp rtranclp.rtrancl_refl)
  show "(projection_step demo_decoders)\<^sup>*\<^sup>* (demo_run 1) (demo_run 3)"
    using s3 s4 by (meson converse_rtranclp_into_rtranclp rtranclp.rtrancl_refl)
qed

lemma demo_run_end: "projection_reach demo_decoders (demo_run 3)"
  using demo_run_reach by simp

lemma exactly_once_witness:
  "\<exists>n. n \<le> 4 \<and> int n = 4 \<and>
    apply_all (\<lambda>(e, at). apply_event e at) (events_in demo_decoders EVENTS_USERS (visible 0 (take n demo_log))) empty_model
      = Ok (tables_of EVENTS_USERS (ps_db (demo_run 3)))"
proof -
  have "ps_log (demo_run 3) EVENTS_USERS = demo_log" "length demo_log = 4"
    "applied_offset PROJECTOR EVENTS_USERS (rm_cursors (ps_db (demo_run 3))) = 4" by code_simp+
  then show ?thesis using projection_exactly_once [OF demo_run_end, of EVENTS_USERS] by metis
qed

lemma read_your_writes_witness:
  "wait_for_offset [-1, 3] 2 \<and> (\<exists>n. 2 < int n \<and> n \<le> length (ps_log (demo_run 3) EVENTS_USERS) \<and>
    apply_all (\<lambda>(e, at). apply_event e at)
        (events_in demo_decoders EVENTS_USERS (visible 0 (take n (ps_log (demo_run 3) EVENTS_USERS)))) empty_model
      = Ok (tables_of EVENTS_USERS (ps_db (demo_run 3))))"
proof -
  have live: "map_option pv_applied (ps_live (demo_run 1) EVENTS_USERS) = Some (- 1)"
    "map_option pv_applied (ps_live (demo_run 3) EVENTS_USERS) = Some 3" by code_simp+
  have seen: "\<forall>a\<in>set [-1, 3]. \<exists>s1 p. projection_reach demo_decoders s1 \<and>
      (projection_step demo_decoders)\<^sup>*\<^sup>* s1 (demo_run 3) \<and> ps_live s1 EVENTS_USERS = Some p \<and> a = pv_applied p"
    using live demo_run_reach demo_run_end by fastforce
  have wait: "wait_for_offset [-1, 3] 2" by simp
  show ?thesis using read_your_writes [OF demo_run_end seen wait] wait by blast
qed

lemma drain_catches_up_witness:
  "\<exists>full. map fst (rm_users full) = [''ann'', ''bob''] \<and>
    (\<exists>p p' m'. ps_live (demo_run 1) EVENTS_USERS = Some p \<and>
      drain 5 demo_decoders EVENTS_USERS (whole_log_fetch demo_log) (\<lambda>_. NoFault) 0 p (ps_db (demo_run 1))
        = Some (Ok 2, p', m') \<and> tables_of EVENTS_USERS m' = full)"
proof -
  obtain full where full: "apply_all (\<lambda>(e, at). apply_event e at)
      (events_in demo_decoders EVENTS_USERS (visible 0 demo_log)) empty_model = Ok full"
    and rows: "map fst (rm_users full) = [''ann'', ''bob'']"
  proof -
    have "(case apply_all (\<lambda>(e, at). apply_event e at)
        (events_in demo_decoders EVENTS_USERS (visible 0 demo_log)) empty_model of
        Ok m \<Rightarrow> map fst (rm_users m) = [''ann'', ''bob''] | Err _ \<Rightarrow> False)" by code_simp
    then show ?thesis using that by (auto split: sum.splits)
  qed
  have log: "ps_log (demo_run 1) EVENTS_USERS = demo_log" "length demo_log < 5" by code_simp+
  obtain p where p: "ps_live (demo_run 1) EVENTS_USERS = Some p" "tl_offset (pv_tailer p) = 0"
  proof -
    have "map_option (\<lambda>p. tl_offset (pv_tailer p)) (ps_live (demo_run 1) EVENTS_USERS) = Some 0" by code_simp
    then show ?thesis using that by auto
  qed
  have new: "length (events_in demo_decoders EVENTS_USERS (visible 0 (drop (nat 0) demo_log))) = 2" by code_simp
  from drain_catches_up [OF demo_run_reach(1) p(1), unfolded log(1), OF whole_log_serves full log(2)]
  obtain p' m' where "drain 5 demo_decoders EVENTS_USERS (whole_log_fetch demo_log) (\<lambda>_. NoFault) 0 p (ps_db (demo_run 1))
      = Some (Ok 2, p', m')" "tables_of EVENTS_USERS m' = full"
    unfolding p(2) new by blast
  with p(1) rows show ?thesis by (intro exI [of _ full] exI [of _ p] exI [of _ p'] exI [of _ m'] conjI)
qed

text \<open>A projector that is drained again after a failure does not retry the batch: the tailer has moved
  past it, the second drain reports nothing to do, and the next record commits a cursor beyond an
  event that was never applied.\<close>

definition demo_drained :: "(nat \<Rightarrow> db_fault) \<Rightarrow> user_event envelope topic_record slot list \<Rightarrow>
    projector \<Rightarrow> read_model \<Rightarrow> projector \<times> read_model \<times> bool" where
  "demo_drained faults log p m = (case drain 9 demo_decoders EVENTS_USERS (whole_log_fetch log) faults 0 p m of
     Some (r, p', m') \<Rightarrow> (p', m', case r of Ok _ \<Rightarrow> True | Err _ \<Rightarrow> False) | None \<Rightarrow> (p, m, False))"

lemma drain_again_skips:
  "(case demo_drained (\<lambda>_. StatementFault) [demo_registered ''ann'' 1] (projector_open EVENTS_USERS empty_model) empty_model of
     (p1, m1, ok1) \<Rightarrow> (case demo_drained (\<lambda>_. NoFault) [demo_registered ''ann'' 1, demo_registered ''bob'' 2] p1 m1 of
       (p2, m2, ok2) \<Rightarrow> \<not> ok1 \<and> m1 = empty_model \<and> ok2 \<and>
         map fst (rm_users m2) = [''bob''] \<and> applied_offset PROJECTOR EVENTS_USERS (rm_cursors m2) = 2))"
  by code_simp

end
