(* ===== verification/Hook_Target.thy ===== *)
theory Hook_Target
  imports Forge_Prelude
begin

text \<open>
  Which addresses a webhook may be sent to (\<open>forge-hooks/src/target.rs\<close>): taking the host out of a
  URL, reading a literal address the way the standard library's parser does, and the ranges that
  are refused. Name resolution is outside the code: its answer is the parameter \<open>lookup\<close>.
\<close>

section \<open>Literal addresses\<close>

datatype ip_addr = V4 "8 word" "8 word" "8 word" "8 word" | V6 "16 word list"

definition to_digit :: "nat \<Rightarrow> char \<Rightarrow> nat option" where
  "to_digit radix c =
     (let v = (if is_digit c then code c - 48 else if is_lower c then code c - 87
               else if is_upper c then code c - 55 else 99)
      in if v < radix then Some v else None)"

definition read_number :: "nat \<Rightarrow> nat \<Rightarrow> bool \<Rightarrow> string \<Rightarrow> (int \<times> string) option" where
  "read_number radix max_digits allow_zero s =
     (let ds = takeWhile (\<lambda>c. to_digit radix c \<noteq> None) s;
          n = foldl (\<lambda>acc c. acc * int radix + int (the (to_digit radix c))) 0 ds
      in if length ds > max_digits \<or> ds = [] \<or> (\<not> allow_zero \<and> hd ds = CHR ''0'' \<and> length ds > 1)
         then None else Some (n, drop (length ds) s))"

definition read_separator :: "char \<Rightarrow> nat \<Rightarrow> (string \<Rightarrow> ('a \<times> string) option) \<Rightarrow> string \<Rightarrow> ('a \<times> string) option" where
  "read_separator sep i inner s =
     (if i > 0 then (case s of c # r \<Rightarrow> if c = sep then inner r else None | [] \<Rightarrow> None) else inner s)"

fun read_octets :: "nat \<Rightarrow> nat \<Rightarrow> string \<Rightarrow> (int list \<times> string) option" where
  "read_octets 0 i s = Some ([], s)"
| "read_octets (Suc k) i s = (case read_separator (CHR ''.'') i (read_number 10 3 False) s of
     None \<Rightarrow> None
   | Some (n, r) \<Rightarrow> if n < 256 then map_option (\<lambda>(ns, r'). (n # ns, r')) (read_octets k (i + 1) r) else None)"

text \<open>Groups of up to four hexadecimal digits, with an IPv4 address allowed in place of the last two;
  the first argument is how many groups may still be read.\<close>

fun read_groups :: "nat \<Rightarrow> nat \<Rightarrow> string \<Rightarrow> int list \<times> bool \<times> string" where
  "read_groups 0 i s = ([], False, s)"
| "read_groups (Suc k) i s =
     (case (if k > 0 then read_separator (CHR '':'') i (read_octets 4 0) s else None) of
        Some (os, r) \<Rightarrow> ([os ! 0 * 256 + os ! 1, os ! 2 * 256 + os ! 3], True, r)
      | None \<Rightarrow> (case read_separator (CHR '':'') i (read_number 16 4 True) s of
          None \<Rightarrow> ([], False, s)
        | Some (g, r) \<Rightarrow> (case read_groups k (i + 1) r of (gs, v4, r') \<Rightarrow> (g # gs, v4, r'))))"

definition read_ipv6 :: "string \<Rightarrow> (int list \<times> string) option" where
  "read_ipv6 s = (case read_groups 8 0 s of (head, v4, r) \<Rightarrow>
     if length head = 8 then Some (head, r)
     else if v4 then None
     else (case strip_prefix ''::'' r of
         None \<Rightarrow> None
       | Some r2 \<Rightarrow> (case read_groups (8 - (length head + 1)) 0 r2 of (rest, _, r3) \<Rightarrow>
           Some (head @ replicate (8 - length head - length rest) 0 @ rest, r3))))"

definition parse_ip :: "string \<Rightarrow> ip_addr option" where
  "parse_ip s = (case read_octets 4 0 s of
     Some (os, r) \<Rightarrow> (if r = [] then Some (V4 (word_of_int (os ! 0)) (word_of_int (os ! 1)) (word_of_int (os ! 2)) (word_of_int (os ! 3)))
                      else None)
   | None \<Rightarrow> (case read_ipv6 s of
       Some (gs, r) \<Rightarrow> if r = [] then Some (V6 (map word_of_int gs)) else None
     | None \<Rightarrow> None))"

section \<open>Addresses the forge will talk to\<close>

unbundle bit_operations_syntax

text \<open>The disjuncts are those of the code, with the standard library's predicates written out.\<close>

definition is_public_v4 :: "8 word \<Rightarrow> 8 word \<Rightarrow> 8 word \<Rightarrow> 8 word \<Rightarrow> bool" where
  "is_public_v4 a b c d \<longleftrightarrow> \<not> (
     (a = 10 \<or> a = 172 \<and> 16 \<le> b \<and> b \<le> 31 \<or> a = 192 \<and> b = 168)
   \<or> a = 127
   \<or> (a = 169 \<and> b = 254)
   \<or> (a = 255 \<and> b = 255 \<and> c = 255 \<and> d = 255)
   \<or> (a = 192 \<and> b = 0 \<and> c = 2 \<or> a = 198 \<and> b = 51 \<and> c = 100 \<or> a = 203 \<and> b = 0 \<and> c = 113)
   \<or> (a = 0 \<and> b = 0 \<and> c = 0 \<and> d = 0)
   \<or> (224 \<le> a \<and> a \<le> 239)
   \<or> (a = 100 \<and> 64 \<le> b \<and> b < 128)
   \<or> (a = 198 \<and> 18 \<le> b \<and> b < 20)
   \<or> a \<ge> 240)"

definition high_byte :: "16 word \<Rightarrow> 8 word" where
  "high_byte s = ucast (drop_bit 8 s)"

definition low_byte :: "16 word \<Rightarrow> 8 word" where
  "low_byte s = ucast s"

definition embedded_v4 :: "16 word list \<Rightarrow> (8 word \<times> 8 word \<times> 8 word \<times> 8 word) option" where
  "embedded_v4 segs =
     (if take 5 segs = replicate 5 0 \<and> (segs ! 5 = 0 \<or> segs ! 5 = 0xffff)
      then Some (high_byte (segs ! 6), low_byte (segs ! 6), high_byte (segs ! 7), low_byte (segs ! 7))
      else None)"

definition mapped_v4 :: "16 word list \<Rightarrow> (8 word \<times> 8 word \<times> 8 word \<times> 8 word) option" where
  "mapped_v4 segs = (if segs ! 5 = 0xffff then embedded_v4 segs else None)"

definition is_public_v6 :: "16 word list \<Rightarrow> bool" where
  "is_public_v6 segs \<longleftrightarrow> \<not> (
     segs = replicate 7 0 @ [1]
   \<or> segs = replicate 8 0
   \<or> segs ! 0 AND 0xff00 = 0xff00
   \<or> segs ! 0 AND 0xfe00 = 0xfc00
   \<or> segs ! 0 AND 0xffc0 = 0xfe80
   \<or> (case mapped_v4 segs of Some (a, b, c, d) \<Rightarrow> \<not> is_public_v4 a b c d | None \<Rightarrow> False)
   \<or> (case embedded_v4 segs of Some (a, b, c, d) \<Rightarrow> \<not> is_public_v4 a b c d | None \<Rightarrow> False))"

definition is_public :: "ip_addr \<Rightarrow> bool" where
  "is_public ip = (case ip of V4 a b c d \<Rightarrow> is_public_v4 a b c d | V6 segs \<Rightarrow> is_public_v6 segs)"

section \<open>Taking a URL apart\<close>

datatype target_error = BadScheme | MalformedUrl | Blocked | Unresolvable

definition is_delimiter :: "char \<Rightarrow> bool" where
  "is_delimiter c \<longleftrightarrow> c = CHR ''/'' \<or> c = CHR ''?'' \<or> c = CHR ''#''"

definition url_rest :: "string \<Rightarrow> string option" where
  "url_rest url = (case strip_prefix ''https://'' url of
     Some rest \<Rightarrow> Some rest | None \<Rightarrow> strip_prefix ''http://'' url)"

definition authority_host :: "string \<Rightarrow> string" where
  "authority_host rest = last (split_by (\<lambda>c. c = CHR ''@'') (hd (split_by is_delimiter rest)))"

definition colons :: "string \<Rightarrow> nat" where
  "colons s = length (filter (\<lambda>c. c = CHR '':'') s)"

definition is_port :: "string \<Rightarrow> bool" where
  "is_port port \<longleftrightarrow> port \<noteq> [] \<and> list_all is_digit port"

definition host_of :: "string \<Rightarrow> string" where
  "host_of authority = (case strip_prefix ''['' authority of
     Some rest \<Rightarrow> hd (split_by (\<lambda>c. c = CHR '']'') rest)
   | None \<Rightarrow>
       if colons authority > 1 then authority
       else (case rsplit_once (CHR '':'') authority of
         Some (host, port) \<Rightarrow> if is_port port then host else authority
       | None \<Rightarrow> authority))"

definition port_of :: "string \<Rightarrow> string option" where
  "port_of authority =
     (let after_host =
        (if starts_with ''['' authority then
           (case split_by (\<lambda>c. c = CHR '']'') authority of _ # after # _ \<Rightarrow> Some after | _ \<Rightarrow> None)
         else if colons authority > 1 then None
         else Some authority)
      in Option.bind after_host (\<lambda>s. Option.bind (rsplit_once (CHR '':'') s) (\<lambda>(_, port).
           if is_port port then Some port else None)))"

definition check_url :: "string \<Rightarrow> (unit, target_error) result" where
  "check_url url = (case url_rest url of
     None \<Rightarrow> Err BadScheme
   | Some rest \<Rightarrow>
       (let host = authority_host rest in
        if host = [] then Err MalformedUrl
        else (case parse_ip (host_of host) of
          Some ip \<Rightarrow> if is_public ip then Ok () else Err Blocked
        | None \<Rightarrow> Ok ())))"

text \<open>A port that does not fit 16 bits is read as 80. \<open>lookup\<close> is the resolver: \<open>None\<close> is an error.\<close>

definition resolve_and_check ::
    "(string \<Rightarrow> nat \<Rightarrow> ip_addr list option) \<Rightarrow> string \<Rightarrow> (ip_addr list, target_error) result" where
  "resolve_and_check lookup url = and_then (check_url url) (\<lambda>_.
     case url_rest url of
       None \<Rightarrow> Err BadScheme
     | Some rest \<Rightarrow>
         (let host_port = authority_host rest;
              port = (case port_of host_port of Some p \<Rightarrow> p
                | None \<Rightarrow> if starts_with ''https'' url then ''443'' else ''80'')
          in case lookup (host_of host_port) (case parse_unsigned 65536 port of Some p \<Rightarrow> p | None \<Rightarrow> 80) of
            None \<Rightarrow> Err Unresolvable
          | Some addresses \<Rightarrow>
              if addresses = [] then Err Unresolvable
              else if list_ex (\<lambda>ip. \<not> is_public ip) addresses then Err Blocked
              else Ok addresses))"

section \<open>The refused ranges as blocks of addresses\<close>

definition v4_number :: "8 word \<Rightarrow> 8 word \<Rightarrow> 8 word \<Rightarrow> 8 word \<Rightarrow> nat" where
  "v4_number a b c d = ((unat a * 256 + unat b) * 256 + unat c) * 256 + unat d"

text \<open>A block is an address and the number of leading bits that are fixed.\<close>

definition in_block :: "nat \<Rightarrow> (8 word \<times> 8 word \<times> 8 word \<times> 8 word) \<times> nat \<Rightarrow> bool" where
  "in_block n blk = (case blk of ((a, b, c, d), len) \<Rightarrow>
     n div 2 ^ (32 - len) = v4_number a b c d div 2 ^ (32 - len))"

definition refused_blocks :: "((8 word \<times> 8 word \<times> 8 word \<times> 8 word) \<times> nat) list" where
  "refused_blocks = [((10, 0, 0, 0), 8), ((172, 16, 0, 0), 12), ((192, 168, 0, 0), 16), ((127, 0, 0, 0), 8),
     ((169, 254, 0, 0), 16), ((192, 0, 2, 0), 24), ((198, 51, 100, 0), 24), ((203, 0, 113, 0), 24),
     ((0, 0, 0, 0), 32), ((224, 0, 0, 0), 4), ((100, 64, 0, 0), 10), ((198, 18, 0, 0), 15), ((240, 0, 0, 0), 4)]"

lemma byte_div: "(x * 256 + d) div (256 * k) = x div k" if "d < 256" for x d k :: nat
  using that by (simp add: div_mult2_eq)

lemma v4_div:
  assumes "c < (256::nat)" "d < 256" "b < 256"
  shows "(((a * 256 + b) * 256 + c) * 256 + d) div 2 ^ 24 = a"
    "(((a * 256 + b) * 256 + c) * 256 + d) div 2 ^ 28 = a div 16"
    "(((a * 256 + b) * 256 + c) * 256 + d) div 2 ^ 20 = a * 16 + b div 16"
    "(((a * 256 + b) * 256 + c) * 256 + d) div 2 ^ 22 = a * 4 + b div 64"
    "(((a * 256 + b) * 256 + c) * 256 + d) div 2 ^ 17 = a * 128 + b div 2"
    "(((a * 256 + b) * 256 + c) * 256 + d) div 2 ^ 16 = a * 256 + b"
    "(((a * 256 + b) * 256 + c) * 256 + d) div 2 ^ 8 = (a * 256 + b) * 256 + c"
proof -
  have p: "2 ^ 24 = 256 * (256 * (256 * (1 :: nat)))" "2 ^ 28 = 256 * (256 * (256 * (16 :: nat)))"
    "2 ^ 20 = 256 * (256 * (16 :: nat))" "2 ^ 22 = 256 * (256 * (64 :: nat))" "2 ^ 17 = 256 * (256 * (2 :: nat))"
    "2 ^ 16 = 256 * (256 * (1 :: nat))" "2 ^ 8 = 256 * (1 :: nat)" by simp_all
  have q: "(a * 256 + b) div 16 = a * 16 + b div 16" "(a * 256 + b) div 64 = a * 4 + b div 64"
    "(a * 256 + b) div 2 = a * 128 + b div 2" by simp_all
  note d = byte_div [OF assms(1)] byte_div [OF assms(2)] byte_div [OF assms(3)]
  show "(((a * 256 + b) * 256 + c) * 256 + d) div 2 ^ 24 = a"
    "(((a * 256 + b) * 256 + c) * 256 + d) div 2 ^ 28 = a div 16"
    "(((a * 256 + b) * 256 + c) * 256 + d) div 2 ^ 20 = a * 16 + b div 16"
    "(((a * 256 + b) * 256 + c) * 256 + d) div 2 ^ 22 = a * 4 + b div 64"
    "(((a * 256 + b) * 256 + c) * 256 + d) div 2 ^ 17 = a * 128 + b div 2"
    "(((a * 256 + b) * 256 + c) * 256 + d) div 2 ^ 16 = a * 256 + b"
    "(((a * 256 + b) * 256 + c) * 256 + d) div 2 ^ 8 = (a * 256 + b) * 256 + c"
    unfolding p d q div_by_1 by (rule refl)+
qed

lemma unat_less_256 [simp]: "unat (a :: 8 word) < 256"
  using unsigned_less [of a, where 'a = nat] by simp

lemma digit_split: "A * m + y = k \<longleftrightarrow> A = k div m \<and> y = k mod m" if "y < m" for A m y k :: nat
proof
  assume "A * m + y = k"
  then show "A = k div m \<and> y = k mod m" using that by auto
next
  assume "A = k div m \<and> y = k mod m"
  then show "A * m + y = k" by simp
qed

text \<open>The quotients that decide a block, in terms of the address's bytes.\<close>

lemma block_bytes:
  fixes A B C :: nat
  assumes "A < 256" "B < 256" "C < 256"
  shows "A * 16 + B div 16 = 2753 \<longleftrightarrow> A = 172 \<and> 16 \<le> B \<and> B \<le> 31"
    "A * 4 + B div 64 = 401 \<longleftrightarrow> A = 100 \<and> 64 \<le> B \<and> B < 128"
    "A * 128 + B div 2 = 25353 \<longleftrightarrow> A = 198 \<and> 18 \<le> B \<and> B < 20"
    "A div 16 = 14 \<longleftrightarrow> 224 \<le> A \<and> A \<le> 239" "A div 16 = 15 \<longleftrightarrow> 240 \<le> A"
    "A * 256 + B = 49320 \<longleftrightarrow> A = 192 \<and> B = 168" "A * 256 + B = 43518 \<longleftrightarrow> A = 169 \<and> B = 254"
    "(A * 256 + B) * 256 + C = 12582914 \<longleftrightarrow> A = 192 \<and> B = 0 \<and> C = 2"
    "(A * 256 + B) * 256 + C = 12989284 \<longleftrightarrow> A = 198 \<and> B = 51 \<and> C = 100"
    "(A * 256 + B) * 256 + C = 13303921 \<longleftrightarrow> A = 203 \<and> B = 0 \<and> C = 113"
proof -
  have q: "B div 16 < 16" "B div 64 < 4" "B div 2 < 128" using assms by auto
  have r: "B div 16 = 1 \<longleftrightarrow> 16 \<le> B \<and> B \<le> 31" "B div 64 = 1 \<longleftrightarrow> 64 \<le> B \<and> B < 128"
    "B div 2 = 9 \<longleftrightarrow> 18 \<le> B \<and> B < 20" by (rule iffI, intro conjI; linarith)+
  have ev: "(2753 :: nat) div 16 = 172" "(2753 :: nat) mod 16 = 1" "(401 :: nat) div 4 = 100"
    "(401 :: nat) mod 4 = 1" "(25353 :: nat) div 128 = 198" "(25353 :: nat) mod 128 = 9" by simp_all
  show "A * 16 + B div 16 = 2753 \<longleftrightarrow> A = 172 \<and> 16 \<le> B \<and> B \<le> 31"
    unfolding digit_split [OF q(1)] ev r ..
  show "A * 4 + B div 64 = 401 \<longleftrightarrow> A = 100 \<and> 64 \<le> B \<and> B < 128"
    unfolding digit_split [OF q(2)] ev r ..
  show "A * 128 + B div 2 = 25353 \<longleftrightarrow> A = 198 \<and> 18 \<le> B \<and> B < 20"
    unfolding digit_split [OF q(3)] ev r ..
  show "A div 16 = 14 \<longleftrightarrow> 224 \<le> A \<and> A \<le> 239" by (rule iffI, intro conjI; linarith)
  show "A div 16 = 15 \<longleftrightarrow> 240 \<le> A" using assms(1) by (intro iffI; linarith)
  show "A * 256 + B = 49320 \<longleftrightarrow> A = 192 \<and> B = 168" "A * 256 + B = 43518 \<longleftrightarrow> A = 169 \<and> B = 254"
    unfolding digit_split [OF assms(2)] by simp_all
  show "(A * 256 + B) * 256 + C = 12582914 \<longleftrightarrow> A = 192 \<and> B = 0 \<and> C = 2"
    "(A * 256 + B) * 256 + C = 12989284 \<longleftrightarrow> A = 198 \<and> B = 51 \<and> C = 100"
    "(A * 256 + B) * 256 + C = 13303921 \<longleftrightarrow> A = 203 \<and> B = 0 \<and> C = 113"
    unfolding digit_split [OF assms(3)] digit_split [OF assms(2)] by simp_all
qed

lemma byte_literals:
  "unat (10 :: 8 word) = 10" "unat (172 :: 8 word) = 172" "unat (16 :: 8 word) = 16" "unat (31 :: 8 word) = 31" "unat (192 :: 8 word) = 192" "unat (168 :: 8 word) = 168" "unat (127 :: 8 word) = 127" "unat (169 :: 8 word) = 169"
  "unat (254 :: 8 word) = 254" "unat (255 :: 8 word) = 255" "unat (2 :: 8 word) = 2" "unat (198 :: 8 word) = 198" "unat (51 :: 8 word) = 51" "unat (100 :: 8 word) = 100" "unat (203 :: 8 word) = 203" "unat (113 :: 8 word) = 113"
  "unat (0 :: 8 word) = 0" "unat (224 :: 8 word) = 224" "unat (239 :: 8 word) = 239" "unat (64 :: 8 word) = 64" "unat (128 :: 8 word) = 128" "unat (18 :: 8 word) = 18" "unat (20 :: 8 word) = 20" "unat (240 :: 8 word) = 240"
  by simp_all

text \<open>Membership in a block, for the prefix lengths that occur.\<close>

lemma in_block_bytes:
  "in_block (v4_number a b c d) ((p, q, r, t), 8) \<longleftrightarrow> unat a = unat p"
  "in_block (v4_number a b c d) ((p, q, r, t), 4) \<longleftrightarrow> unat a div 16 = unat p div 16"
  "in_block (v4_number a b c d) ((p, q, r, t), 12) \<longleftrightarrow> unat a * 16 + unat b div 16 = unat p * 16 + unat q div 16"
  "in_block (v4_number a b c d) ((p, q, r, t), 10) \<longleftrightarrow> unat a * 4 + unat b div 64 = unat p * 4 + unat q div 64"
  "in_block (v4_number a b c d) ((p, q, r, t), 15) \<longleftrightarrow> unat a * 128 + unat b div 2 = unat p * 128 + unat q div 2"
  "in_block (v4_number a b c d) ((p, q, r, t), 16) \<longleftrightarrow> unat a * 256 + unat b = unat p * 256 + unat q"
  "in_block (v4_number a b c d) ((p, q, r, t), 24) \<longleftrightarrow>
     (unat a * 256 + unat b) * 256 + unat c = (unat p * 256 + unat q) * 256 + unat r"
  "in_block (v4_number a b c d) ((p, q, r, t), 32) \<longleftrightarrow> v4_number a b c d = v4_number p q r t"
proof -
  have ev: "32 - 8 = (24 :: nat)" "32 - 4 = (28 :: nat)" "32 - 12 = (20 :: nat)" "32 - 10 = (22 :: nat)"
    "32 - 15 = (17 :: nat)" "32 - 16 = (16 :: nat)" "32 - 24 = (8 :: nat)" "32 - 32 = (0 :: nat)" by simp_all
  note d = v4_div [OF unat_less_256 unat_less_256 unat_less_256]
  show
    "in_block (v4_number a b c d) ((p, q, r, t), 8) \<longleftrightarrow> unat a = unat p"
    "in_block (v4_number a b c d) ((p, q, r, t), 4) \<longleftrightarrow> unat a div 16 = unat p div 16"
    "in_block (v4_number a b c d) ((p, q, r, t), 12) \<longleftrightarrow> unat a * 16 + unat b div 16 = unat p * 16 + unat q div 16"
    "in_block (v4_number a b c d) ((p, q, r, t), 10) \<longleftrightarrow> unat a * 4 + unat b div 64 = unat p * 4 + unat q div 64"
    "in_block (v4_number a b c d) ((p, q, r, t), 15) \<longleftrightarrow> unat a * 128 + unat b div 2 = unat p * 128 + unat q div 2"
    "in_block (v4_number a b c d) ((p, q, r, t), 16) \<longleftrightarrow> unat a * 256 + unat b = unat p * 256 + unat q"
    "in_block (v4_number a b c d) ((p, q, r, t), 24) \<longleftrightarrow>
       (unat a * 256 + unat b) * 256 + unat c = (unat p * 256 + unat q) * 256 + unat r"
    "in_block (v4_number a b c d) ((p, q, r, t), 32) \<longleftrightarrow> v4_number a b c d = v4_number p q r t"
    unfolding in_block_def prod.case v4_number_def ev d power_0 div_by_1 by (rule refl)+
qed

text \<open>The list of conditions refuses exactly the reserved blocks. An IPv4 address is
  called only if it lies in none of the thirteen blocks of private, local, documentation,
  benchmarking, multicast and reserved addresses, given as an address and a prefix length.\<close>

theorem is_public_v4_blocks:
  "is_public_v4 a b c d \<longleftrightarrow> list_all (\<lambda>blk. \<not> in_block (v4_number a b c d) blk) refused_blocks"
proof -
  let ?n = "v4_number a b c d"
  define A B C D where "A = unat a" and "B = unat b" and "C = unat c" and "D = unat d"
  have lt: "A < 256" "B < 256" "C < 256" "D < 256" by (simp_all add: A_def B_def C_def D_def)
  have blocks: "list_all (\<lambda>blk. \<not> in_block ?n blk) refused_blocks \<longleftrightarrow> \<not> (
      A = 10 \<or> A * 16 + B div 16 = 2753 \<or> A * 256 + B = 49320 \<or> A = 127 \<or> A * 256 + B = 43518 \<or>
      (A * 256 + B) * 256 + C = 12582914 \<or> (A * 256 + B) * 256 + C = 12989284 \<or> (A * 256 + B) * 256 + C = 13303921 \<or>
      ((A * 256 + B) * 256 + C) * 256 + D = 0 \<or> A div 16 = 14 \<or> A * 4 + B div 64 = 401 \<or>
      A * 128 + B div 2 = 25353 \<or> A div 16 = 15)"
    unfolding refused_blocks_def list.pred_inject in_block_bytes
    unfolding byte_literals v4_number_def A_def B_def C_def D_def by simp
  have pub: "is_public_v4 a b c d \<longleftrightarrow> \<not> ((A = 10 \<or> A = 172 \<and> 16 \<le> B \<and> B \<le> 31 \<or> A = 192 \<and> B = 168) \<or> A = 127 \<or>
      (A = 169 \<and> B = 254) \<or> (A = 255 \<and> B = 255 \<and> C = 255 \<and> D = 255) \<or>
      (A = 192 \<and> B = 0 \<and> C = 2 \<or> A = 198 \<and> B = 51 \<and> C = 100 \<or> A = 203 \<and> B = 0 \<and> C = 113) \<or>
      (A = 0 \<and> B = 0 \<and> C = 0 \<and> D = 0) \<or> (224 \<le> A \<and> A \<le> 239) \<or> (A = 100 \<and> 64 \<le> B \<and> B < 128) \<or>
      (A = 198 \<and> 18 \<le> B \<and> B < 20) \<or> A \<ge> 240)"
    unfolding is_public_v4_def word_unat_eq_iff word_le_nat_alt word_less_nat_alt byte_literals
    by (fold A_def B_def C_def D_def) (rule refl)
  have zero: "((A * 256 + B) * 256 + C) * 256 + D = 0 \<longleftrightarrow> A = 0 \<and> B = 0 \<and> C = 0 \<and> D = 0" by simp
  have regroup: "(\<not> ((x1 \<or> x2 \<or> x3) \<or> x4 \<or> x5 \<or> bc \<or> (x6 \<or> x7 \<or> x8) \<or> x9 \<or> x10 \<or> x11 \<or> x12 \<or> x13)) =
      (\<not> (x1 \<or> x2 \<or> x3 \<or> x4 \<or> x5 \<or> x6 \<or> x7 \<or> x8 \<or> x9 \<or> x10 \<or> x11 \<or> x12 \<or> x13))"
    if "bc \<Longrightarrow> x13" for x1 x2 x3 x4 x5 bc x6 x7 x8 x9 x10 x11 x12 x13 :: bool
    using that by blast
  show ?thesis
    unfolding pub blocks block_bytes [OF lt(1,2,3)] zero by (rule regroup) simp
qed

section \<open>Literal addresses cannot hide\<close>

text \<open>A parser consumes a prefix made of the characters it knows.\<close>

definition consumes :: "(char \<Rightarrow> bool) \<Rightarrow> string \<Rightarrow> string \<Rightarrow> bool" where
  "consumes P s r \<longleftrightarrow> (\<exists>p. s = p @ r \<and> list_all P p)"

lemma consumes_refl [simp]: "consumes P s s"
  by (simp add: consumes_def)

lemma consumes_trans: "consumes P s r \<Longrightarrow> consumes P r r' \<Longrightarrow> consumes P s r'"
  unfolding consumes_def by (metis append_assoc list_all_append)

lemma consumes_mono: "consumes P s r \<Longrightarrow> (\<And>c. P c \<Longrightarrow> Q c) \<Longrightarrow> consumes Q s r"
  unfolding consumes_def by (metis list.pred_mono_strong)

lemma consumes_Cons: "P c \<Longrightarrow> consumes P r r' \<Longrightarrow> consumes P (c # r) r'"
  unfolding consumes_def by (metis append_Cons list.pred_inject(2))

lemma read_number_consumes:
  "read_number radix m z s = Some (n, r) \<Longrightarrow> consumes (\<lambda>c. to_digit radix c \<noteq> None) s r"
  by (auto simp: read_number_def consumes_def Let_def list_all_iff dest: set_takeWhileD split: if_splits
      intro!: exI [of _ "takeWhile (\<lambda>c. to_digit radix c \<noteq> None) s"] simp flip: dropWhile_eq_drop)

lemma read_separator_consumes:
  "read_separator sep i f s = Some (v, r) \<Longrightarrow> (\<And>s v r. f s = Some (v, r) \<Longrightarrow> consumes P s r) \<Longrightarrow> P sep \<Longrightarrow>
   consumes P s r"
  by (auto simp: read_separator_def consumes_Cons split: if_splits list.splits)

definition v4_char :: "char \<Rightarrow> bool" where
  "v4_char c \<longleftrightarrow> c = CHR ''.'' \<or> to_digit 10 c \<noteq> None"

definition ip_char :: "char \<Rightarrow> bool" where
  "ip_char c \<longleftrightarrow> c = CHR ''.'' \<or> c = CHR '':'' \<or> to_digit 16 c \<noteq> None"

lemma ip_chars: "v4_char c \<Longrightarrow> ip_char c" "to_digit 10 c \<noteq> None \<Longrightarrow> to_digit 16 c \<noteq> None"
  "v4_char c \<Longrightarrow> c \<noteq> CHR '':''"
  by (auto simp: v4_char_def ip_char_def to_digit_def Let_def char_class_defs split: if_splits)

lemma ip_char_plain:
  "ip_char c \<Longrightarrow> \<not> is_delimiter c \<and> c \<noteq> CHR ''@'' \<and> c \<noteq> CHR ''['' \<and> c \<noteq> CHR '']''"
  by (auto simp: ip_char_def is_delimiter_def to_digit_def Let_def char_class_defs split: if_splits)

lemma read_octets_consumes: "read_octets k i s = Some (ns, r) \<Longrightarrow> consumes v4_char s r"
proof (induction k i s arbitrary: ns r rule: read_octets.induct)
  case (2 k i s)
  then obtain n r1 where n: "read_separator (CHR ''.'') i (read_number 10 3 False) s = Some (n, r1)"
    and rest: "\<exists>ns'. read_octets k (i + 1) r1 = Some (ns', r)"
    by (auto split: option.splits if_splits)
  have "consumes v4_char s r1"
    by (rule read_separator_consumes [OF n])
       (auto simp: v4_char_def intro: consumes_mono [OF read_number_consumes])
  moreover from rest obtain ns' where "read_octets k (i + 1) r1 = Some (ns', r)" ..
  then have "consumes v4_char r1 r" using "2.IH" [OF n refl] 2(2) n by (auto split: if_splits)
  ultimately show ?case by (rule consumes_trans)
qed simp

lemma read_groups_consumes: "read_groups k i s = (gs, v4, r) \<Longrightarrow> consumes ip_char s r"
proof (induction k i s arbitrary: gs v4 r rule: read_groups.induct)
  case (2 k i s)
  let ?o = "if k > 0 then read_separator (CHR '':'') i (read_octets 4 0) s else None"
  show ?case
  proof (cases ?o)
    case (Some o')
    then obtain os r1 where os: "read_separator (CHR '':'') i (read_octets 4 0) s = Some (os, r1)" "?o = Some (os, r1)"
      by (cases o') (auto split: if_splits)
    have "consumes ip_char s r1"
      by (rule read_separator_consumes [OF os(1)])
         (auto simp: ip_char_def intro: consumes_mono [OF read_octets_consumes] ip_chars(1))
    then show ?thesis using 2(2) os(2) by simp
  next
    case None
    note no_v4 = None
    show ?thesis
    proof (cases "read_separator (CHR '':'') i (read_number 16 4 True) s")
      case None
      then show ?thesis using 2(2) no_v4 by simp
    next
      case (Some g')
      then obtain g r1 where g: "read_separator (CHR '':'') i (read_number 16 4 True) s = Some (g, r1)"
        by (cases g') auto
      obtain gs' v r2 where rest: "read_groups k (i + 1) r1 = (gs', v, r2)" by (metis prod_cases3)
      have "consumes ip_char s r1"
        by (rule read_separator_consumes [OF g]) (auto simp: ip_char_def intro: consumes_mono [OF read_number_consumes])
      moreover have "consumes ip_char r1 r2" by (rule "2.IH" [OF no_v4 g refl rest])
      moreover have "r2 = r" using 2(2) no_v4 g rest by simp
      ultimately show ?thesis using consumes_trans by blast
    qed
  qed
qed simp

lemma consumes_all: "consumes P s [] \<longleftrightarrow> list_all P s"
  by (simp add: consumes_def)

lemma read_ipv6_consumes: "read_ipv6 s = Some (gs, r) \<Longrightarrow> consumes ip_char s r"
proof -
  assume read: "read_ipv6 s = Some (gs, r)"
  obtain head v4 r1 where head: "read_groups 8 0 s = (head, v4, r1)" by (metis prod_cases3)
  have first: "consumes ip_char s r1" by (rule read_groups_consumes [OF head])
  show ?thesis
  proof (cases "length head = 8")
    case True
    then show ?thesis using read first by (simp add: read_ipv6_def head)
  next
    case False
    then obtain r2 where r2: "r1 = ''::'' @ r2" and more: "\<not> v4"
      and rest: "(case read_groups (8 - (length head + 1)) 0 r2 of (rest, _, r3) \<Rightarrow> r3) = r"
      using read by (auto simp: read_ipv6_def head split: if_splits option.splits prod.splits)
    obtain a b where ab: "read_groups (8 - (length head + 1)) 0 r2 = (a, b, r)"
      using rest by (cases "read_groups (8 - (length head + 1)) 0 r2") auto
    have "consumes ip_char r1 r2" unfolding r2 by (simp add: consumes_Cons ip_char_def)
    then show ?thesis using first read_groups_consumes [OF ab] consumes_trans by blast
  qed
qed

lemma parse_ip_chars:
  assumes "parse_ip t = Some ip"
  shows "list_all ip_char t" "t \<noteq> []" "(\<exists>a b c d. ip = V4 a b c d) \<Longrightarrow> colons t = 0"
proof -
  have "list_all ip_char t \<and> t \<noteq> [] \<and> ((\<exists>a b c d. ip = V4 a b c d) \<longrightarrow> colons t = 0)"
  proof (cases "read_octets 4 0 t")
    case (Some o')
    then obtain os where os: "read_octets 4 0 t = Some (os, [])" "\<exists>a b c d. ip = V4 a b c d"
      using assms by (cases o') (auto simp: parse_ip_def split: if_splits)
    have "list_all v4_char t" using read_octets_consumes [OF os(1)] by (simp add: consumes_all)
    moreover have "t \<noteq> []" using os(1) by (auto simp: numeral_eq_Suc read_separator_def read_number_def)
    ultimately show ?thesis by (auto simp: list_all_iff colons_def filter_empty_conv ip_chars)
  next
    case None
    with assms obtain gs where gs: "read_ipv6 t = Some (gs, [])" "ip = V6 (map word_of_int gs)"
      by (auto simp: parse_ip_def split: option.splits if_splits)
    have "t \<noteq> []" using gs(1)
      by (auto simp: read_ipv6_def numeral_eq_Suc read_separator_def read_number_def)
    then show ?thesis using read_ipv6_consumes [OF gs(1)] gs(2) by (simp add: consumes_all)
  qed
  then show "list_all ip_char t" "t \<noteq> []" "(\<exists>a b c d. ip = V4 a b c d) \<Longrightarrow> colons t = 0" by auto
qed

lemma authority_host_eq:
  assumes "list_all (\<lambda>c. \<not> is_delimiter c) (user @ host)" "CHR ''@'' \<notin> set host"
    and "user = [] \<or> (\<exists>u. user = u @ ''@'')" "rest = [] \<or> is_delimiter (hd rest)"
  shows "authority_host (user @ host @ rest) = host"
proof -
  have "takeWhile (\<lambda>c. \<not> is_delimiter c) ((user @ host) @ rest) = user @ host"
    using assms(1,4) by (subst takeWhile_append2) (auto simp: list_all_iff takeWhile_eq_Nil_iff)
  then have cut: "hd (split_by is_delimiter (user @ host @ rest)) = user @ host" by (simp add: hd_split_by)
  have one: "split_by (\<lambda>c. c = CHR ''@'') host = [host]"
    using assms(2) by (intro split_by_none) auto
  show ?thesis
  proof (cases "user = []")
    case True
    then show ?thesis using cut one by (simp add: authority_host_def)
  next
    case False
    then obtain u where "user = u @ ''@''" using assms(3) by blast
    then have "split_by (\<lambda>c. c = CHR ''@'') (user @ host) = split_by (\<lambda>c. c = CHR ''@'') u @ [host]"
      using split_by_append [of "\<lambda>c. c = CHR ''@''" "CHR ''@''" u host] one by simp
    then show ?thesis using cut by (simp add: authority_host_def)
  qed
qed

definition literal_host :: "ip_addr \<Rightarrow> string \<Rightarrow> string" where
  "literal_host ip t = (case ip of V4 _ _ _ _ \<Rightarrow> t | V6 _ \<Rightarrow> ''['' @ t @ '']'')"

lemma is_port_chars: "is_port p \<Longrightarrow> CHR '':'' \<notin> set p \<and> CHR ''@'' \<notin> set p \<and> list_all (\<lambda>c. \<not> is_delimiter c) p"
  by (auto simp: is_port_def list_all_iff char_class_defs is_delimiter_def)

lemma host_of_literal:
  assumes "parse_ip t = Some ip" "port = [] \<or> (\<exists>p. port = '':'' @ p \<and> is_port p)"
  shows "host_of (literal_host ip t @ port) = t"
proof (cases ip)
  case (V4 a b c d)
  note chars = parse_ip_chars [OF assms(1)]
  have none: "CHR '':'' \<notin> set t" using chars(3) V4 by (auto simp: colons_def filter_empty_conv)
  have first: "strip_prefix ''['' (t @ port) = None"
    using chars(1,2) ip_char_plain by (cases t) auto
  show ?thesis
  proof (cases "port = []")
    case True
    with V4 first none show ?thesis
      by (auto simp: literal_host_def host_of_def rsplit_once_Some split: option.splits)
  next
    case False
    then obtain p where p: "port = '':'' @ p" "is_port p" using assms(2) by blast
    have "rsplit_once (CHR '':'') (t @ port) = Some (t, p)"
      using is_port_chars [OF p(2)] by (simp add: rsplit_once_Some p(1))
    moreover have "colons (t @ port) = 1"
    proof -
      have "filter (\<lambda>c. c = CHR '':'') t = []" "filter (\<lambda>c. c = CHR '':'') p = []"
        using none is_port_chars [OF p(2)] by (auto simp: filter_empty_conv)
      then show ?thesis by (simp add: colons_def p(1))
    qed
    ultimately show ?thesis using V4 first p(2) by (simp add: literal_host_def host_of_def)
  qed
next
  case (V6 segs)
  have "takeWhile (\<lambda>c. c \<noteq> CHR '']'') (t @ '']'' @ port) = t"
    using parse_ip_chars(1) [OF assms(1)] ip_char_plain
    by (subst takeWhile_append2) (auto simp: list_all_iff)
  then show ?thesis using V6 by (simp add: literal_host_def host_of_def hd_split_by)
qed

lemma literal_judged:
  assumes "parse_ip t = Some ip" and "scheme \<in> {''https://'', ''http://''}"
    and "user = [] \<or> (\<exists>u. user = u @ ''@'')" and "list_all (\<lambda>c. \<not> is_delimiter c) user"
    and "port = [] \<or> (\<exists>p. port = '':'' @ p \<and> is_port p)" and "rest = [] \<or> is_delimiter (hd rest)"
  shows "check_url (scheme @ user @ literal_host ip t @ port @ rest) = (if is_public ip then Ok () else Err Blocked)"
proof -
  let ?host = "literal_host ip t @ port"
  have lit: "list_all (\<lambda>c. \<not> is_delimiter c) (literal_host ip t)" "CHR ''@'' \<notin> set (literal_host ip t)"
    "literal_host ip t \<noteq> []"
    using parse_ip_chars(1,2) [OF assms(1)] ip_char_plain
    by (auto simp: literal_host_def list_all_iff is_delimiter_def split: ip_addr.splits)
  have prt: "list_all (\<lambda>c. \<not> is_delimiter c) port" "CHR ''@'' \<notin> set port"
    using assms(5) is_port_chars by (auto simp: is_delimiter_def)
  have "authority_host (user @ ?host @ rest) = ?host"
    using assms(3,4,6) lit(1,2) prt by (intro authority_host_eq) auto
  moreover have "url_rest (scheme @ user @ ?host @ rest) = Some (user @ ?host @ rest)"
    using assms(2) by (auto simp: url_rest_def split: option.splits)
  ultimately show ?thesis
    using lit(3) host_of_literal [OF assms(1,5)] assms(1) by (simp add: check_url_def Let_def)
qed

text \<open>Nothing in a URL hides a literal address. Whatever user information stands
  before it, whatever port, path, query or fragment follows, and with or without the brackets
  of IPv6: a URL whose host is a literal address is accepted exactly if that address is one
  the forge may call.\<close>

theorem literal_targets_judged:
  assumes "parse_ip t = Some ip" and "scheme \<in> {''https://'', ''http://''}"
    and "user = [] \<or> (\<exists>u. user = u @ ''@'')" and "list_all (\<lambda>c. \<not> is_delimiter c) user"
    and "port = [] \<or> (\<exists>p. port = '':'' @ p \<and> is_port p)" and "rest = [] \<or> is_delimiter (hd rest)"
  shows "check_url (scheme @ user @ literal_host ip t @ port @ rest) = (if is_public ip then Ok () else Err Blocked)"
  using assms by (rule literal_judged)

lemma literal_targets_witness:
  "check_url ''http://example.com@127.0.0.1:9092/x'' = Err Blocked \<and>
   check_url ''https://[::ffff:10.0.0.1]/hook'' = Err Blocked \<and> check_url ''https://93.184.216.34/hook'' = Ok ()"
proof -
  have p: "parse_ip ''127.0.0.1'' = Some (V4 127 0 0 1)" "parse_ip ''::ffff:10.0.0.1'' = Some (V6 [0, 0, 0, 0, 0, 0xffff, 0xa00, 1])"
    "parse_ip ''93.184.216.34'' = Some (V4 93 184 216 34)" by code_simp+
  have pub: "\<not> is_public (V4 127 0 0 1)" "\<not> is_public (V6 [0, 0, 0, 0, 0, 0xffff, 0xa00, 1])"
    "is_public (V4 93 184 216 34)" by code_simp+
  have parts: "list_all (\<lambda>c. \<not> is_delimiter c) ''example.com@''" "is_port ''9092''" by code_simp+
  have "check_url (''http://'' @ ''example.com@'' @ literal_host (V4 127 0 0 1) ''127.0.0.1'' @ '':9092'' @ ''/x'') = Err Blocked"
    using literal_targets_judged [OF p(1), of "''http://''" "''example.com@''" "'':9092''" "''/x''"] pub parts
    by (simp add: is_delimiter_def)
  moreover have "check_url (''https://'' @ [] @ literal_host (V6 [0, 0, 0, 0, 0, 0xffff, 0xa00, 1]) ''::ffff:10.0.0.1'' @ [] @ ''/hook'') = Err Blocked"
    using literal_targets_judged [OF p(2), of "''https://''" "[]" "[]" "''/hook''"] pub by (simp add: is_delimiter_def)
  moreover have "check_url (''https://'' @ [] @ literal_host (V4 93 184 216 34) ''93.184.216.34'' @ [] @ ''/hook'') = Ok ()"
    using literal_targets_judged [OF p(3), of "''https://''" "[]" "[]" "''/hook''"] pub by (simp add: is_delimiter_def)
  ultimately show ?thesis by (simp add: literal_host_def)
qed

text \<open>What resolution lets through: all the answers for the name, and every one of them public.\<close>

lemma resolved_are_public:
  assumes "resolve_and_check lookup url = Ok addresses"
  shows "addresses \<noteq> []" "list_all is_public addresses" "check_url url = Ok ()"
    "\<exists>host port. lookup host port = Some addresses"
  using assms
  by (auto simp: resolve_and_check_def and_then_Ok_iff Let_def list_ex_iff list_all_iff
      split: option.splits if_splits)

text \<open>Two IPv4 addresses in disguise that are let through: a private address behind the NAT64
  prefix and one inside a 6to4 address.\<close>

lemma disguises_not_seen:
  "check_url ''http://[64:ff9b::10.0.0.1]/'' = Ok ()" "check_url ''http://[2002:7f00:1::]/'' = Ok ()"
proof -
  have p: "parse_ip ''64:ff9b::10.0.0.1'' = Some (V6 [0x64, 0xff9b, 0, 0, 0, 0, 0xa00, 1])"
    "parse_ip ''2002:7f00:1::'' = Some (V6 [0x2002, 0x7f00, 1, 0, 0, 0, 0, 0])" by code_simp+
  have zeros: "replicate 5 0 = [0, 0, 0, 0, 0 :: 16 word]" "replicate 7 0 = [0, 0, 0, 0, 0, 0, 0 :: 16 word]"
    "replicate 8 0 = [0, 0, 0, 0, 0, 0, 0, 0 :: 16 word]" by (simp_all add: numeral_eq_Suc)
  have pub: "is_public (V6 [0x64, 0xff9b, 0, 0, 0, 0, 0xa00, 1])" "is_public (V6 [0x2002, 0x7f00, 1, 0, 0, 0, 0, 0])"
    using zeros by (simp_all add: is_public_def is_public_v6_def mapped_v4_def embedded_v4_def)
  show "check_url ''http://[64:ff9b::10.0.0.1]/'' = Ok ()"
    using literal_judged [OF p(1), of "''http://''" "[]" "[]" "''/''"] pub by (simp add: is_delimiter_def literal_host_def)
  show "check_url ''http://[2002:7f00:1::]/'' = Ok ()"
    using literal_judged [OF p(2), of "''http://''" "[]" "[]" "''/''"] pub by (simp add: is_delimiter_def literal_host_def)
qed

end
