(* ===== verification/Hook_Delivery.thy ===== *)
theory Hook_Delivery
  imports Hook_Target Read_Model Forge_Bus Topic_Manifest
begin

text \<open>
  Sending a webhook (\<open>forge-hooks/src/delivery.rs\<close>, \<open>signature.rs\<close>, \<open>queue.rs\<close>, \<open>worker.rs\<close>): the
  signature, one attempt, the ladder of retries with the history it leaves, and the worker that
  reads the queue. The receiver, the resolver, HMAC, the JSON encoder and the clock are
  parameters, one set for each attempt (\<open>attempt_env\<close>).
\<close>

section \<open>Signatures\<close>

definition SIGNATURE_HEADER :: string where "SIGNATURE_HEADER = ''X-Hub-Signature-256''"

definition sign :: "(string \<Rightarrow> bytes \<Rightarrow> bytes) \<Rightarrow> string \<Rightarrow> bytes \<Rightarrow> string" where
  "sign hmac secret body = ''sha256='' @ concat (map hex_byte (hmac secret body))"

unbundle bit_operations_syntax

definition verify :: "(string \<Rightarrow> bytes \<Rightarrow> bytes) \<Rightarrow> string \<Rightarrow> bytes \<Rightarrow> string \<Rightarrow> bool" where
  "verify hmac secret body presented =
     (let expected = sign hmac secret body in
      if length expected \<noteq> length presented then False
      else foldl (\<lambda>acc (a, b). acc OR (a XOR b)) 0 (zip (str_bytes expected) (str_bytes presented)) = 0)"

lemma verify_iff: "verify hmac secret body presented \<longleftrightarrow> presented = sign hmac secret body"
  by (auto simp: verify_def Let_def fold_differences str_bytes_inject)

section \<open>One attempt\<close>

datatype delivery_outcome =
    Delivered (do_status: int) (do_duration: int)
  | Retry (do_reason: string) (do_code: "int option")
  | Permanent (do_reason: string) (do_code: "int option")

definition MAX_ATTEMPTS :: int where "MAX_ATTEMPTS = 5"

text \<open>One MiB.\<close>

definition MAX_DELIVERY_BODY :: int where "MAX_DELIVERY_BODY = 1048576"

definition is_success :: "delivery_outcome \<Rightarrow> bool" where
  "is_success d = (case d of Delivered _ _ \<Rightarrow> True | _ \<Rightarrow> False)"

definition status_word :: "delivery_outcome \<Rightarrow> int \<Rightarrow> string" where
  "status_word d attempt = (case d of
     Delivered _ _ \<Rightarrow> ''delivered''
   | Permanent _ _ \<Rightarrow> ''dead''
   | Retry _ _ \<Rightarrow> if attempt \<ge> MAX_ATTEMPTS then ''dead'' else ''failed'')"

text \<open>Seconds; \<open>2 ^ 16\<close> is far below the saturation of 64 bits.\<close>

definition backoff :: "int \<Rightarrow> int" where
  "backoff attempt = min 300 (2 ^ nat (max 0 (min attempt 16)))"

record hook_payload =
  hp_event_id :: string
  hp_event_type :: string
  hp_body :: bytes
  hp_ce_headers :: "header list"

record delivery =
  dv_webhook :: webhook_row
  dv_payload :: hook_payload
  dv_attempt :: int

record http_request =
  hr_url :: string
  hr_headers :: "header list"
  hr_body :: bytes

text \<open>An attempt's surroundings: the resolver, the receiver (a status with the milliseconds it took, or
  an error of the connection), the clock, and whether the database takes the row.\<close>

record attempt_env =
  ae_lookup :: "string \<Rightarrow> nat \<Rightarrow> ip_addr list option"
  ae_http :: "http_request \<Rightarrow> (int \<times> int, string) result"
  ae_now :: timestamp
  ae_row_fault :: bool

definition target_error_text :: "target_error \<Rightarrow> string" where
  "target_error_text e = (case e of
     BadScheme \<Rightarrow> ''webhook URLs must be http or https''
   | MalformedUrl \<Rightarrow> ''that URL is not valid''
   | Blocked \<Rightarrow> ''that address is not reachable from the forge''
   | Unresolvable \<Rightarrow> ''that host does not resolve'')"

definition outcome_of_status :: "int \<Rightarrow> int \<Rightarrow> delivery_outcome" where
  "outcome_of_status status duration =
     (let reason = ''receiver returned '' @ show_nat (nat status) in
      if 200 \<le> status \<and> status < 300 then Delivered status duration
      else if (500 \<le> status \<and> status < 600) \<or> status = 429 then Retry reason (Some status)
      else Permanent reason (Some status))"

definition delivery_http :: "(string \<Rightarrow> bytes \<Rightarrow> bytes) \<Rightarrow> delivery \<Rightarrow> http_request" where
  "delivery_http hmac d = \<lparr>hr_url = wh_url (dv_webhook d),
     hr_headers = [(''content-type'', ''application/json''),
       (SIGNATURE_HEADER, sign hmac (wh_secret (dv_webhook d)) (hp_body (dv_payload d))),
       (''X-Forge-Event'', hp_event_type (dv_payload d)),
       (''X-Forge-Delivery'', hp_event_id (dv_payload d))] @ hp_ce_headers (dv_payload d),
     hr_body = hp_body (dv_payload d)\<rparr>"

text \<open>The answer comes with the request that went out, if one did.\<close>

definition send :: "(string \<Rightarrow> bytes \<Rightarrow> bytes) \<Rightarrow> bool \<Rightarrow> attempt_env \<Rightarrow> delivery \<Rightarrow> delivery_outcome \<times> http_request option" where
  "send hmac allow_private_targets env d =
     (if int (length (hp_body (dv_payload d))) > MAX_DELIVERY_BODY
      then (Permanent ''payload is too large to deliver'' None, None)
      else (case (if allow_private_targets then Ok [] else resolve_and_check (ae_lookup env) (wh_url (dv_webhook d))) of
        Err e \<Rightarrow> (Permanent (target_error_text e) None, None)
      | Ok _ \<Rightarrow>
          (let request = delivery_http hmac d in
           (case ae_http env request of
              Err e \<Rightarrow> Retry e None
            | Ok (status, duration) \<Rightarrow> outcome_of_status status duration,
            Some request))))"

section \<open>The queue\<close>

record 'v delivery_request =
  dr_delivery_id :: string
  dr_webhook_id :: string
  dr_repo_id :: string
  dr_event :: "'v envelope"

definition delivery_id :: "string \<Rightarrow> string \<Rightarrow> string" where
  "delivery_id event webhook = event @ '':'' @ webhook"

definition delivery_request_new :: "string \<Rightarrow> string \<Rightarrow> 'v envelope \<Rightarrow> 'v delivery_request" where
  "delivery_request_new webhook repo event =
     \<lparr>dr_delivery_id = delivery_id (event_id event) webhook, dr_webhook_id = webhook,
      dr_repo_id = repo, dr_event = event\<rparr>"

text \<open>Serialising may fail, and then an empty object is sent.\<close>

definition request_body :: "('v envelope \<Rightarrow> bytes option) \<Rightarrow> 'v delivery_request \<Rightarrow> bytes" where
  "request_body to_vec r = (case to_vec (dr_event r) of Some b \<Rightarrow> b | None \<Rightarrow> str_bytes ''{}'')"

definition ce_headers :: "(int \<Rightarrow> string option) \<Rightarrow> 'v envelope \<Rightarrow> header list" where
  "ce_headers fmt event = kafka_headers_to_http (kafka_headers fmt event)"

section \<open>The ladder of retries\<close>

text \<open>What the worker relies on outside the code, the same for every delivery.\<close>

record ('j, 'v) hook_world =
  hw_hmac :: "string \<Rightarrow> bytes \<Rightarrow> bytes"
  hw_to_vec :: "'v envelope \<Rightarrow> bytes option"
  hw_fmt :: "int \<Rightarrow> string option"
  hw_letter :: "'v delivery_request \<Rightarrow> string \<Rightarrow> 'j"
  hw_allow_private :: bool

record 'j hook_state =
  hk_rows :: deliveries_table
  hk_sent :: "http_request list"
  hk_dead :: "'j pending_record list"
  hk_writer :: writer

datatype hook_error = HookTail string | HookStore sql_error | HookWrite write_error

definition attempt_row :: "'v delivery_request \<Rightarrow> int \<Rightarrow> delivery_outcome \<Rightarrow> timestamp \<Rightarrow> delivery_row" where
  "attempt_row r attempt d at =
     \<lparr>dl_delivery_id = dr_delivery_id r @ ''#'' @ show_nat (nat attempt), dl_webhook_id = dr_webhook_id r,
      dl_repo_id = dr_repo_id r, dl_event_type = event_type (dr_event r), dl_event_id = dr_delivery_id r,
      dl_attempt = attempt, dl_status = status_word d attempt,
      dl_status_code = (case d of Delivered status _ \<Rightarrow> Some status | Retry _ c \<Rightarrow> c | Permanent _ c \<Rightarrow> c),
      dl_error = (case d of Delivered _ _ \<Rightarrow> None | Retry e _ \<Rightarrow> Some e | Permanent e _ \<Rightarrow> Some e),
      dl_duration_ms = (case d of Delivered _ ms \<Rightarrow> Some ms | _ \<Rightarrow> None), dl_created_at = at\<rparr>"

definition attempt_of ::
    "('j, 'v) hook_world \<Rightarrow> 'v delivery_request \<Rightarrow> webhook_row \<Rightarrow> int \<Rightarrow> delivery" where
  "attempt_of w r hook attempt = \<lparr>dv_webhook = hook,
     dv_payload = \<lparr>hp_event_id = dr_delivery_id r, hp_event_type = event_type (dr_event r),
       hp_body = request_body (hw_to_vec w) r, hp_ce_headers = ce_headers (hw_fmt w) (dr_event r)\<rparr>,
     dv_attempt = attempt\<rparr>"

text \<open>Parking a delivery on the dead-letter topic, in a transaction of its own.\<close>

definition dead_letter ::
    "('j, 'v) hook_world \<Rightarrow> txn_env \<Rightarrow> 'v delivery_request \<Rightarrow> string \<Rightarrow> 'j hook_state \<Rightarrow> (unit, hook_error) result \<times> 'j hook_state" where
  "dead_letter w txn r reason s =
     (case transact txn [pending_state WEBHOOKS_DLQ (dr_webhook_id r) (hw_letter w r reason)] (hk_writer s) of
        (answer, wr, landed) \<Rightarrow>
          (case answer of Ok _ \<Rightarrow> Ok () | Err e \<Rightarrow> Err (HookWrite e),
           s\<lparr>hk_writer := wr, hk_dead := hk_dead s @ landed\<rparr>))"

text \<open>The attempts from \<open>attempt\<close> on, when \<open>left\<close> of them are allowed.\<close>

fun deliver_from ::
    "('j, 'v) hook_world \<Rightarrow> (int \<Rightarrow> attempt_env) \<Rightarrow> txn_env \<Rightarrow> 'v delivery_request \<Rightarrow> webhook_row \<Rightarrow> nat \<Rightarrow> int \<Rightarrow>
      'j hook_state \<Rightarrow> (unit, hook_error) result \<times> 'j hook_state" where
  "deliver_from w env txn r hook 0 attempt s = (Ok (), s)"
| "deliver_from w env txn r hook (Suc left) attempt s =
     (case send (hw_hmac w) (hw_allow_private w) (env attempt) (attempt_of w r hook attempt) of
        (d, request) \<Rightarrow>
          let s = s\<lparr>hk_sent := hk_sent s @ (case request of Some q \<Rightarrow> [q] | None \<Rightarrow> [])\<rparr> in
          (case (if ae_row_fault (env attempt) then Err (Sql ''connection'')
                 else record_attempt (attempt_row r attempt d (ae_now (env attempt))) (hk_rows s)) of
             Err e \<Rightarrow> (Err (HookStore e), s)
           | Ok rows \<Rightarrow>
               let s = s\<lparr>hk_rows := rows\<rparr> in
               (case d of
                  Delivered _ _ \<Rightarrow> (Ok (), s)
                | Permanent reason _ \<Rightarrow> dead_letter w txn r reason s
                | Retry reason _ \<Rightarrow>
                    if attempt \<ge> MAX_ATTEMPTS then dead_letter w txn r reason s
                    else deliver_from w env txn r hook left (attempt + 1) s)))"

definition deliver_with_retries ::
    "('j, 'v) hook_world \<Rightarrow> (int \<Rightarrow> attempt_env) \<Rightarrow> txn_env \<Rightarrow> (webhooks_table, sql_error) result \<Rightarrow>
      'v delivery_request \<Rightarrow> 'j hook_state \<Rightarrow> (unit, hook_error) result \<times> 'j hook_state" where
  "deliver_with_retries w env txn hooks r s = (case hooks of
     Err e \<Rightarrow> (Err (HookStore e), s)
   | Ok t \<Rightarrow> (case tbl_get t (dr_webhook_id r) of
       None \<Rightarrow> (Ok (), s)
     | Some hook \<Rightarrow>
         if \<not> wh_active hook then (Ok (), s)
         else deliver_from w env txn r hook (nat MAX_ATTEMPTS) 1 s))"

section \<open>The worker\<close>

definition readable_request :: "('j \<Rightarrow> 'v delivery_request option) \<Rightarrow> 'j option \<Rightarrow> 'v delivery_request option" where
  "readable_request from_slice v = Option.bind v from_slice"

text \<open>The surroundings of a delivery, by the offset of its record: the attempts, the dead-letter
  transaction and the table of webhooks as it is then.\<close>

type_synonym delivery_env = "(int \<Rightarrow> attempt_env) \<times> txn_env \<times> (webhooks_table, sql_error) result"

fun deliver_records ::
    "('j, 'v) hook_world \<Rightarrow> ('j \<Rightarrow> 'v delivery_request option) \<Rightarrow> (int \<Rightarrow> delivery_env) \<Rightarrow> (int \<times> 'j topic_record) list \<Rightarrow>
      nat \<Rightarrow> 'j hook_state \<Rightarrow> (nat, hook_error) result \<times> 'j hook_state" where
  "deliver_records w de envs [] n s = (Ok n, s)"
| "deliver_records w de envs ((off, rec) # rs) n s =
     (case readable_request de (rec_value rec) of
        None \<Rightarrow> deliver_records w de envs rs n s
      | Some r \<Rightarrow> (case envs off of (env, txn, hooks) \<Rightarrow>
          (case deliver_with_retries w env txn hooks r s of
             (Err e, s') \<Rightarrow> (Err e, s')
           | (Ok _, s') \<Rightarrow> deliver_records w de envs rs (n + 1) s')))"

definition worker_step ::
    "('j, 'v) hook_world \<Rightarrow> ('j \<Rightarrow> 'v delivery_request option) \<Rightarrow> (int \<Rightarrow> delivery_env) \<Rightarrow> int \<Rightarrow> bool \<Rightarrow>
      (int \<Rightarrow> ('j topic_record fetch_result, string) result) \<Rightarrow> tailer \<Rightarrow> cursors_table \<Rightarrow> 'j hook_state \<Rightarrow>
      (nat, hook_error) result \<times> tailer \<times> cursors_table \<times> 'j hook_state" where
  "worker_step w de envs part cursor_fault fetch t cursors s =
     (case next_batch fetch t of
        (Err e, t') \<Rightarrow> (Err (HookTail e), t', cursors, s)
      | (Ok b, t') \<Rightarrow>
          if bt_records b = [] then (Ok 0, t', cursors, s)
          else (case deliver_records w de envs (bt_records b) 0 s of
            (Err e, s') \<Rightarrow> (Err e, t', cursors, s')
          | (Ok n, s') \<Rightarrow>
              if cursor_fault then (Err (HookStore (Sql ''cursor'')), t', cursors, s')
              else (Ok n, t', set_applied_offset_for WEBHOOK_WORKER WEBHOOKS_DELIVERIES part (bt_next_offset b) cursors, s')))"

definition worker_partitions :: int where
  "worker_partitions = (case find (\<lambda>spec. ts_name spec = WEBHOOKS_DELIVERIES) static_topics of
     Some spec \<Rightarrow> partitions spec | None \<Rightarrow> 1)"

section \<open>What a delivery leaves behind\<close>

definition attempt_id :: "'v delivery_request \<Rightarrow> int \<Rightarrow> string" where
  "attempt_id r i = dr_delivery_id r @ ''#'' @ show_nat (nat i)"

lemma attempt_id_inject: "0 \<le> i \<Longrightarrow> 0 \<le> j \<Longrightarrow> attempt_id r i = attempt_id r j \<longleftrightarrow> i = j"
  by (auto simp: attempt_id_def show_nat_inject)

lemma attempt_row_id [simp]: "dl_delivery_id (attempt_row r i d at) = attempt_id r i"
  by (simp add: attempt_row_def attempt_id_def)

abbreviation outcome_at ::
    "('j, 'v) hook_world \<Rightarrow> (int \<Rightarrow> attempt_env) \<Rightarrow> 'v delivery_request \<Rightarrow> webhook_row \<Rightarrow> int \<Rightarrow> delivery_outcome" where
  "outcome_at w env r hook i \<equiv> fst (send (hw_hmac w) (hw_allow_private w) (env i) (attempt_of w r hook i))"

text \<open>The rows of the attempts from \<open>i\<close> to \<open>k\<close> are there, and nothing else has changed.\<close>

definition history_grown ::
    "('j, 'v) hook_world \<Rightarrow> (int \<Rightarrow> attempt_env) \<Rightarrow> 'v delivery_request \<Rightarrow> webhook_row \<Rightarrow> int \<Rightarrow> int \<Rightarrow>
      deliveries_table \<Rightarrow> deliveries_table \<Rightarrow> bool" where
  "history_grown w env r hook i k t t' \<longleftrightarrow>
     (\<forall>j\<in>{i..k}. tbl_get t' (attempt_id r j) = Some (attempt_row r j (outcome_at w env r hook j) (ae_now (env j)))) \<and>
     (\<forall>key. (\<forall>j\<in>{i..k}. key \<noteq> attempt_id r j) \<longrightarrow> tbl_get t' key = tbl_get t key)"

lemma history_one:
  "history_grown w env r hook i i t (tbl_put (attempt_id r i) (attempt_row r i (outcome_at w env r hook i) (ae_now (env i))) t)"
  by (simp add: history_grown_def)

lemma history_more:
  assumes "0 \<le> i" "i \<le> k" "history_grown w env r hook (i + 1) k
      (tbl_put (attempt_id r i) (attempt_row r i (outcome_at w env r hook i) (ae_now (env i))) t) t'"
  shows "history_grown w env r hook i k t t'"
proof -
  have split: "{i..k} = insert i {i + 1..k}" using assms(2) by auto
  have new: "\<forall>j\<in>{i + 1..k}. attempt_id r i \<noteq> attempt_id r j"
    using assms(1) by (auto simp: attempt_id_inject)
  show ?thesis
    using assms(3) new unfolding history_grown_def split by simp
qed

lemma status_word_failed: "status_word d i = ''failed'' \<longleftrightarrow> (\<exists>e c. d = Retry e c) \<and> i < MAX_ATTEMPTS"
  by (cases d) (auto simp: status_word_def)

lemma deliver_ladder:
  assumes "\<forall>i. \<not> ae_row_fault (env i)" "int left + i = 6" "1 \<le> i" "i \<le> 5"
    and "\<forall>j\<ge>i. tbl_get (hk_rows s) (attempt_id r j) = None"
  shows "\<exists>k s1. i \<le> k \<and> k \<le> 5 \<and> (\<forall>j\<in>{i..<k}. status_word (outcome_at w env r hook j) j = ''failed'') \<and>
    status_word (outcome_at w env r hook k) k \<noteq> ''failed'' \<and>
    history_grown w env r hook i k (hk_rows s) (hk_rows s1) \<and>
    hk_dead s1 = hk_dead s \<and> hk_writer s1 = hk_writer s \<and>
    deliver_from w env txn r hook left i s =
      (if is_success (outcome_at w env r hook k) then (Ok (), s1)
       else dead_letter w txn r (do_reason (outcome_at w env r hook k)) s1)"
  using assms(2-5)
proof (induction left arbitrary: i s)
  case (Suc left)
  obtain d q where d: "send (hw_hmac w) (hw_allow_private w) (env i) (attempt_of w r hook i) = (d, q)"
    by (cases "send (hw_hmac w) (hw_allow_private w) (env i) (attempt_of w r hook i)")
  let ?row = "attempt_row r i d (ae_now (env i))"
  let ?s = "s\<lparr>hk_sent := hk_sent s @ (case q of Some q \<Rightarrow> [q] | None \<Rightarrow> []), hk_rows := tbl_put (attempt_id r i) ?row (hk_rows s)\<rparr>"
  have row: "record_attempt ?row (hk_rows s) = Ok (tbl_put (attempt_id r i) ?row (hk_rows s))"
    using Suc.prems(4) by (simp add: record_attempt_def)
  have one: "history_grown w env r hook i i (hk_rows s) (hk_rows ?s)"
    using history_one [of w env r hook i "hk_rows s"] by (simp add: d)
  have go: "deliver_from w env txn r hook (Suc left) i s = (case d of
      Delivered _ _ \<Rightarrow> (Ok (), ?s)
    | Permanent reason _ \<Rightarrow> dead_letter w txn r reason ?s
    | Retry reason _ \<Rightarrow> if i \<ge> MAX_ATTEMPTS then dead_letter w txn r reason ?s
        else deliver_from w env txn r hook left (i + 1) ?s)"
    by (simp add: d row assms(1) Let_def)
  show ?case
  proof (cases "status_word d i = ''failed''")
    case False
    then have "deliver_from w env txn r hook (Suc left) i s =
      (if is_success d then (Ok (), ?s) else dead_letter w txn r (do_reason d) ?s)"
      unfolding go by (cases d) (auto simp: is_success_def status_word_failed)
    then show ?thesis
      using one False Suc.prems(2,3) by (intro exI [of _ i] exI [of _ ?s]) (simp add: d)
  next
    case True
    then obtain e c where e: "d = Retry e c" and lt: "i < 5" by (auto simp: status_word_failed MAX_ATTEMPTS_def)
    have step: "deliver_from w env txn r hook (Suc left) i s = deliver_from w env txn r hook left (i + 1) ?s"
      unfolding go using lt by (simp add: e MAX_ATTEMPTS_def)
    have fresh: "\<forall>j\<ge>i + 1. tbl_get (hk_rows ?s) (attempt_id r j) = None"
      using Suc.prems(2,4) by (simp add: attempt_id_inject)
    have pre: "int left + (i + 1) = 6" "1 \<le> i + 1" "i + 1 \<le> 5" using Suc.prems(1,2) lt by auto
    from Suc.IH [OF pre fresh] obtain k s1 where k: "i + 1 \<le> k" "k \<le> 5"
      "\<forall>j\<in>{i + 1..<k}. status_word (outcome_at w env r hook j) j = ''failed''"
      "status_word (outcome_at w env r hook k) k \<noteq> ''failed''"
      "history_grown w env r hook (i + 1) k (hk_rows ?s) (hk_rows s1)"
      "hk_dead s1 = hk_dead ?s" "hk_writer s1 = hk_writer ?s"
      "deliver_from w env txn r hook left (i + 1) ?s =
        (if is_success (outcome_at w env r hook k) then (Ok (), s1)
         else dead_letter w txn r (do_reason (outcome_at w env r hook k)) s1)" by blast
    have "history_grown w env r hook i k (hk_rows s) (hk_rows s1)"
      using history_more [of i k w env r hook "hk_rows s" "hk_rows s1"] Suc.prems(2) k(1,5) by (simp add: d)
    moreover have "{i..<k} = insert i {i + 1..<k}" using k(1) by auto
    then have "\<forall>j\<in>{i..<k}. status_word (outcome_at w env r hook j) j = ''failed''"
      using k(3) True by (simp add: d)
    ultimately show ?thesis
      using k step by (intro exI [of _ k] exI [of _ s1]) simp
  qed
qed simp

lemma dead_letter_rows: "hk_rows (snd (dead_letter w txn r reason s)) = hk_rows s"
  by (simp add: dead_letter_def split: prod.splits)

lemma dead_letter_lands:
  assumes "broker_truthful txn" "dead_letter w txn r reason s = (Ok (), s')"
  shows "hk_dead s' = hk_dead s @ [pending_state WEBHOOKS_DLQ (dr_webhook_id r) (hw_letter w r reason)]"
proof -
  let ?rs = "[pending_state WEBHOOKS_DLQ (dr_webhook_id r) (hw_letter w r reason)]"
  obtain answer wr landed where t: "transact txn ?rs (hk_writer s) = (answer, wr, landed)"
    by (cases "transact txn ?rs (hk_writer s)")
  with assms(2) obtain offs where "answer = Ok offs" by (auto simp: dead_letter_def split: sum.splits)
  with transact_landed(1) [OF t assms(1)] t assms(2) show ?thesis by (auto simp: dead_letter_def)
qed

text \<open>Property C31: the ladder of a delivery. For an active webhook, when the history takes its rows:
  between one and five attempts are made, numbered without a gap, every one of them leaves
  exactly one row with what happened and the history is otherwise unchanged; all but the last
  failed and were worth retrying, and the last one either was accepted, and then nothing is
  dead-lettered, or is marked dead, and then an answer of success means that exactly one record
  with its reason is on the dead-letter topic.\<close>

theorem delivery_ladder:
  assumes "tbl_get hooks (dr_webhook_id r) = Some hook" "wh_active hook"
    and "\<forall>i. \<not> ae_row_fault (env i)" "\<forall>i\<ge>1. tbl_get (hk_rows s) (attempt_id r i) = None"
    and "broker_truthful txn"
    and "deliver_with_retries w env txn (Ok hooks) r s = (answer, s')"
  shows "\<exists>k\<in>{1..5}. (\<forall>j\<in>{1..<k}. status_word (outcome_at w env r hook j) j = ''failed'') \<and>
    history_grown w env r hook 1 k (hk_rows s) (hk_rows s') \<and>
    (if is_success (outcome_at w env r hook k) then answer = Ok () \<and> hk_dead s' = hk_dead s
     else status_word (outcome_at w env r hook k) k = ''dead'' \<and>
       (answer = Ok () \<longrightarrow> hk_dead s' = hk_dead s @
         [pending_state WEBHOOKS_DLQ (dr_webhook_id r) (hw_letter w r (do_reason (outcome_at w env r hook k)))]))"
proof -
  have run: "deliver_from w env txn r hook 5 1 s = (answer, s')"
    using assms(1,2,6) by (simp add: deliver_with_retries_def MAX_ATTEMPTS_def)
  have pre: "int 5 + 1 = 6" "(1 :: int) \<le> 1" "(1 :: int) \<le> 5" by simp_all
  from deliver_ladder [where env = env and r = r and w = w and hook = hook and txn = txn,
      OF assms(3) pre assms(4)] obtain k s1 where k: "1 \<le> k" "k \<le> 5"
    "\<forall>j\<in>{1..<k}. status_word (outcome_at w env r hook j) j = ''failed''"
    "status_word (outcome_at w env r hook k) k \<noteq> ''failed''"
    "history_grown w env r hook 1 k (hk_rows s) (hk_rows s1)" "hk_dead s1 = hk_dead s"
    "deliver_from w env txn r hook 5 1 s = (if is_success (outcome_at w env r hook k) then (Ok (), s1)
       else dead_letter w txn r (do_reason (outcome_at w env r hook k)) s1)"
    by (elim exE conjE) (rule that, assumption+)
  show ?thesis
  proof (cases "is_success (outcome_at w env r hook k)")
    case True
    then have "answer = Ok ()" "s' = s1" using run k(7) by simp_all
    then show ?thesis using k True by (intro bexI [of _ k]) simp_all
  next
    case False
    then have dead: "dead_letter w txn r (do_reason (outcome_at w env r hook k)) s1 = (answer, s')"
      using run k(7) by simp
    have "hk_rows s' = hk_rows s1" using dead_letter_rows [of w txn r "do_reason (outcome_at w env r hook k)" s1] dead by simp
    moreover have "status_word (outcome_at w env r hook k) k = ''dead''"
      using False k(4) by (cases "outcome_at w env r hook k") (auto simp: is_success_def status_word_def split: if_splits)
    moreover have "hk_dead s' = hk_dead s @
        [pending_state WEBHOOKS_DLQ (dr_webhook_id r) (hw_letter w r (do_reason (outcome_at w env r hook k)))]"
      if "answer = Ok ()"
      using dead_letter_lands [OF assms(5) dead [unfolded that]] k(6) by simp
    ultimately show ?thesis using k(1-3,5) False by (intro bexI [of _ k]) simp_all
  qed
qed

text \<open>Property C33: what goes out. If an attempt makes a request at all, then the body is within the
  limit, either private targets were allowed by the operator or the name resolved just before to
  public addresses only, the request carries a signature that verifies for its exact body under
  the webhook's secret, and the attempt counts as delivered exactly on a 2xx status.\<close>

theorem send_guarded:
  assumes "send hmac allow env d = (outcome, Some request)"
  shows "hr_url request = wh_url (dv_webhook d) \<and> hr_body request = hp_body (dv_payload d) \<and>
    int (length (hr_body request)) \<le> MAX_DELIVERY_BODY \<and>
    (allow \<or> (\<exists>addresses. resolve_and_check (ae_lookup env) (hr_url request) = Ok addresses \<and>
       addresses \<noteq> [] \<and> list_all is_public addresses)) \<and>
    (\<exists>sig. (SIGNATURE_HEADER, sig) \<in> set (hr_headers request) \<and>
       verify hmac (wh_secret (dv_webhook d)) (hr_body request) sig) \<and>
    (is_success outcome \<longleftrightarrow> (\<exists>status ms. ae_http env request = Ok (status, ms) \<and> 200 \<le> status \<and> status < 300))"
proof -
  have req: "request = delivery_http hmac d" and small: "int (length (hp_body (dv_payload d))) \<le> MAX_DELIVERY_BODY"
    using assms by (auto simp: send_def Let_def split: if_splits sum.splits)
  have out: "outcome = (case ae_http env request of Err e \<Rightarrow> Retry e None
      | Ok (status, duration) \<Rightarrow> outcome_of_status status duration)"
    using assms by (auto simp: send_def Let_def split: if_splits sum.splits)
  have target: "allow \<or> (\<exists>addresses. resolve_and_check (ae_lookup env) (wh_url (dv_webhook d)) = Ok addresses)"
    using assms by (auto simp: send_def split: if_splits sum.splits)
  have success: "is_success outcome \<longleftrightarrow>
      (\<exists>status ms. ae_http env request = Ok (status, ms) \<and> 200 \<le> status \<and> status < 300)"
    unfolding out by (auto simp: is_success_def outcome_of_status_def Let_def split: sum.splits)
  show ?thesis
    using target small success resolved_are_public(1,2)
    by (auto simp: req delivery_http_def verify_iff)
qed

text \<open>A delivery that is read again after it was recorded sends its first attempt again and then fails
  on the key of the history, and with it the batch.\<close>

lemma redelivery_fails:
  assumes "tbl_get hooks (dr_webhook_id r) = Some hook" "wh_active hook" "\<not> ae_row_fault (env 1)"
    and "tbl_get (hk_rows s) (attempt_id r 1) = Some row"
  shows "fst (deliver_with_retries w env txn (Ok hooks) r s) = Err (HookStore (Sql ''webhook_deliveries''))"
  using assms
  by (simp add: deliver_with_retries_def MAX_ATTEMPTS_def numeral_eq_Suc Let_def record_attempt_def split: prod.splits)

text \<open>A step that fails has moved the tailer past its batch, so the next step does not read it again
  although the durable cursor has not moved.\<close>

lemma failed_step_has_moved:
  assumes "next_batch fetch t = (Ok b, t')" "bt_records b \<noteq> []" "deliver_records w de envs (bt_records b) 0 s = (Err e, s')"
  shows "worker_step w de envs part cf fetch t cursors s = (Err e, t', cursors, s')" "tl_offset t' = bt_next_offset b"
  using assms by (auto simp: worker_step_def next_batch_def Let_def split: sum.splits)

lemma backoff_bounds: "1 \<le> backoff n" "backoff n \<le> 300" "m \<le> n \<Longrightarrow> backoff m \<le> backoff n"
proof -
  have "(2 :: int) ^ nat (max 0 (min m 16)) \<le> 2 ^ nat (max 0 (min n 16))" if "m \<le> n"
    using that by (intro power_increasing) auto
  then show "m \<le> n \<Longrightarrow> backoff m \<le> backoff n" unfolding backoff_def by (intro min.mono) auto
qed (auto simp: backoff_def)

section \<open>A delivery that works the second time\<close>

definition demo_hook :: webhook_row where
  "demo_hook = \<lparr>wh_webhook_id = ''w1'', wh_repo_id = ''r1'', wh_url = ''https://ci.example/hook'', wh_secret = ''s'',
     wh_events = [''*''], wh_active = True, wh_created_at = 0, wh_updated_at = 0\<rparr>"

definition demo_world :: "(string, string) hook_world" where
  "demo_world = \<lparr>hw_hmac = (\<lambda>_ _. [1, 2]), hw_to_vec = (\<lambda>e. Some (str_bytes (payload e))), hw_fmt = (\<lambda>_. None),
     hw_letter = (\<lambda>_ reason. reason), hw_allow_private = False\<rparr>"

definition demo_env :: "int \<Rightarrow> attempt_env" where
  "demo_env i = \<lparr>ae_lookup = (\<lambda>_ _. Some [V4 93 184 216 34]), ae_http = (\<lambda>_. if i = 1 then Ok (503, 20) else Ok (204, 7)),
     ae_now = i, ae_row_fault = False\<rparr>"

definition demo_request :: "string delivery_request" where
  "demo_request = delivery_request_new ''w1'' ''r1'' \<lparr>event_id = ''e1'', event_type = ''issue.opened'',
     event_version = 1, aggregate_id = ''i1'', actor = None, occurred_at = 0, payload = ''body''\<rparr>"

definition demo_hook_state :: "string hook_state" where
  "demo_hook_state = \<lparr>hk_rows = [], hk_sent = [], hk_dead = [], hk_writer = \<lparr>fenced = False, aborted_process = False\<rparr>\<rparr>"

definition demo_txn :: txn_env where
  "demo_txn = \<lparr>env_begin = None, env_acks = [Some (Ok 1)], env_commit = None, env_landed = True\<rparr>"

lemma demo_outcomes:
  "fst (send (hw_hmac demo_world) (hw_allow_private demo_world) (demo_env 1) (attempt_of demo_world demo_request demo_hook 1))
     = Retry ''receiver returned 503'' (Some 503)"
  "fst (send (hw_hmac demo_world) (hw_allow_private demo_world) (demo_env 2) (attempt_of demo_world demo_request demo_hook 2))
     = Delivered 204 7"
  by code_simp+

lemma delivery_ladder_witness:
  "\<exists>k\<in>{1..5}. (\<forall>j\<in>{1..<k}. status_word (outcome_at demo_world demo_env demo_request demo_hook j) j = ''failed'') \<and>
    history_grown demo_world demo_env demo_request demo_hook 1 k []
      (hk_rows (snd (deliver_with_retries demo_world demo_env demo_txn (Ok [(''w1'', demo_hook)]) demo_request demo_hook_state)))"
proof -
  obtain answer s' where run: "deliver_with_retries demo_world demo_env demo_txn (Ok [(''w1'', demo_hook)]) demo_request demo_hook_state
      = (answer, s')" by (metis surj_pair)
  have hook: "tbl_get [(''w1'', demo_hook)] (dr_webhook_id demo_request) = Some demo_hook" "wh_active demo_hook" by code_simp+
  have ok: "\<forall>i. \<not> ae_row_fault (demo_env i)" "\<forall>i\<ge>1. tbl_get (hk_rows demo_hook_state) (attempt_id demo_request i) = None"
    by (simp_all add: demo_env_def demo_hook_state_def)
  have "broker_truthful demo_txn" by code_simp
  from delivery_ladder [OF hook ok this run] show ?thesis
    unfolding run snd_conv by (auto simp: demo_hook_state_def)
qed

lemma send_guarded_witness:
  "\<exists>request. send (hw_hmac demo_world) False (demo_env 2) (attempt_of demo_world demo_request demo_hook 2) = (Delivered 204 7, Some request) \<and>
     (\<exists>sig. (SIGNATURE_HEADER, sig) \<in> set (hr_headers request) \<and> verify (hw_hmac demo_world) ''s'' (hr_body request) sig)"
proof -
  have sent: "send (hw_hmac demo_world) False (demo_env 2) (attempt_of demo_world demo_request demo_hook 2) =
    (Delivered 204 7, Some (delivery_http (hw_hmac demo_world) (attempt_of demo_world demo_request demo_hook 2)))"
    by code_simp
  have secret: "wh_secret (dv_webhook (attempt_of demo_world demo_request demo_hook 2)) = ''s''" by code_simp
  from send_guarded [OF sent] sent show ?thesis unfolding secret by blast
qed

end
