(* ===== verification/Hook_Matcher.thy ===== *)
theory Hook_Matcher
  imports Hook_Delivery "HOL-Library.Multiset"
begin

text \<open>
  Deciding who hears about an event (\<open>forge-hooks/src/matcher.rs\<close>): one delivery for every webhook of
  the event's repository that wants it, in one transaction, and the cursor after that. The JSON
  codec is a parameter: decoding an envelope, reading a string field of its payload, encoding a
  request.
\<close>

section \<open>Fan-out\<close>

record ('j, 'v) match_codec =
  mc_slice :: "'j \<Rightarrow> ('v envelope, string) result"
  mc_field :: "'v \<Rightarrow> string \<Rightarrow> string option"
  mc_encode :: "'v delivery_request \<Rightarrow> 'j"

datatype match_error = MatchTail string | MatchStore sql_error | MatchWrite write_error

definition readable_event :: "('j, 'v) match_codec \<Rightarrow> 'j option \<Rightarrow> 'v envelope option" where
  "readable_event c v = (case decode_raw (mc_slice c) v of Ok event \<Rightarrow> Some event | Err _ \<Rightarrow> None)"

definition repo_of :: "('j, 'v) match_codec \<Rightarrow> 'v envelope \<Rightarrow> string option" where
  "repo_of c event = mc_field c (payload event) ''repo_id''"

definition addressed :: "('j, 'v) match_codec \<Rightarrow> string \<Rightarrow> 'v envelope \<Rightarrow> webhook_row \<Rightarrow> 'j pending_record" where
  "addressed c repo event hook = pending_state WEBHOOKS_DELIVERIES (wh_webhook_id hook)
     (mc_encode c (delivery_request_new (wh_webhook_id hook) repo event))"

text \<open>The answer comes with the writer and with what reached the log.\<close>

definition fan_out ::
    "('j, 'v) match_codec \<Rightarrow> (webhooks_table, sql_error) result \<Rightarrow> txn_env \<Rightarrow> 'j option \<Rightarrow> writer \<Rightarrow>
      (nat, match_error) result \<times> writer \<times> 'j pending_record list" where
  "fan_out c hooks txn v w = (case readable_event c v of
     None \<Rightarrow> (Ok 0, w, [])
   | Some event \<Rightarrow> (case repo_of c event of
       None \<Rightarrow> (Ok 0, w, [])
     | Some repo \<Rightarrow> (case hooks of
         Err e \<Rightarrow> (Err (MatchStore e), w, [])
       | Ok t \<Rightarrow>
           (let wanted = filter (\<lambda>hook. wants hook (event_type event)) (webhooks_for_repo repo t) in
            if wanted = [] then (Ok 0, w, [])
            else (case transact txn (map (addressed c repo event) wanted) w of
              (Err e, w', landed) \<Rightarrow> (Err (MatchWrite e), w', landed)
            | (Ok _, w', landed) \<Rightarrow> (Ok (length wanted), w', landed))))))"

section \<open>Steps\<close>

text \<open>The webhooks and the transaction a record meets, by its offset.\<close>

type_synonym match_env = "int \<Rightarrow> (webhooks_table, sql_error) result \<times> txn_env"

fun fan_out_records ::
    "('j, 'v) match_codec \<Rightarrow> match_env \<Rightarrow> (int \<times> 'j topic_record) list \<Rightarrow> nat \<Rightarrow> writer \<Rightarrow>
      (nat, match_error) result \<times> writer \<times> 'j pending_record list" where
  "fan_out_records c envs [] n w = (Ok n, w, [])"
| "fan_out_records c envs ((off, rec) # rs) n w = (case envs off of (hooks, txn) \<Rightarrow>
     (case fan_out c hooks txn (rec_value rec) w of
        (Err e, w', landed) \<Rightarrow> (Err e, w', landed)
      | (Ok k, w', landed) \<Rightarrow> (case fan_out_records c envs rs (n + k) w' of
          (r, w2, landed2) \<Rightarrow> (r, w2, landed @ landed2))))"

definition matcher_open :: "string \<Rightarrow> cursors_table \<Rightarrow> tailer" where
  "matcher_open topic cursors = open_at (applied_offset WEBHOOK_MATCHER topic cursors)"

definition matcher_step ::
    "('j, 'v) match_codec \<Rightarrow> match_env \<Rightarrow> string \<Rightarrow> bool \<Rightarrow> (int \<Rightarrow> ('j topic_record fetch_result, string) result) \<Rightarrow>
      tailer \<Rightarrow> cursors_table \<Rightarrow> writer \<Rightarrow>
      (nat, match_error) result \<times> tailer \<times> cursors_table \<times> writer \<times> 'j pending_record list" where
  "matcher_step c envs topic cursor_fault fetch t cursors w = (case next_batch fetch t of
     (Err e, t') \<Rightarrow> (Err (MatchTail e), t', cursors, w, [])
   | (Ok b, t') \<Rightarrow>
       if bt_records b = [] then (Ok 0, t', cursors, w, [])
       else (case fan_out_records c envs (bt_records b) 0 w of
         (Err e, w', landed) \<Rightarrow> (Err e, t', cursors, w', landed)
       | (Ok n, w', landed) \<Rightarrow>
           if cursor_fault then (Err (MatchStore (Sql ''cursor'')), t', cursors, w', landed)
           else (Ok n, t', set_applied_offset WEBHOOK_MATCHER topic (bt_next_offset b) cursors, w', landed)))"

definition matched_topics :: "string list" where
  "matched_topics = [EVENTS_REPOS, EVENTS_ISSUES, EVENTS_PRS, EVENTS_GIT_REFS]"

section \<open>Who is told\<close>

text \<open>The deliveries an event calls for, given the webhooks.\<close>

definition due :: "('j, 'v) match_codec \<Rightarrow> webhooks_table \<Rightarrow> 'j option \<Rightarrow> 'j pending_record list" where
  "due c t v = (case readable_event c v of None \<Rightarrow> []
     | Some event \<Rightarrow> (case repo_of c event of None \<Rightarrow> []
       | Some repo \<Rightarrow> map (addressed c repo event)
           (filter (\<lambda>hook. wants hook (event_type event)) (webhooks_for_repo repo t))))"

lemma fan_out_due:
  assumes "broker_truthful txn" "fan_out c (Ok t) txn v w = (answer, w', landed)"
  shows "(case answer of Ok n \<Rightarrow> landed = due c t v \<and> n = length (due c t v)
     | Err _ \<Rightarrow> landed = [] \<or> aborted_process w')"
proof (cases "due c t v = []")
  case True
  then have "(answer, w', landed) = (Ok 0, w, [])"
    using assms(2) by (auto simp: fan_out_def due_def Let_def split: option.splits)
  with True show ?thesis by simp
next
  case False
  then obtain event repo where e: "readable_event c v = Some event" "repo_of c event = Some repo"
    by (auto simp: due_def split: option.splits)
  define wanted where "wanted = filter (\<lambda>hook. wants hook (event_type event)) (webhooks_for_repo repo t)"
  have due: "due c t v = map (addressed c repo event) wanted" by (simp add: due_def e wanted_def)
  obtain a wr l where tr: "transact txn (map (addressed c repo event) wanted) w = (a, wr, l)"
    by (cases "transact txn (map (addressed c repo event) wanted) w")
  have fan: "fan_out c (Ok t) txn v w = (case a of Err e \<Rightarrow> (Err (MatchWrite e), wr, l) | Ok _ \<Rightarrow> (Ok (length wanted), wr, l))"
    using False due tr by (auto simp: fan_out_def e wanted_def [symmetric] Let_def split: sum.splits)
  show ?thesis
  proof (cases a)
    case (Inl x)
    then have r: "answer = Err (MatchWrite x)" "w' = wr" "landed = l" using fan assms(2) by auto
    have "landed = [] \<or> aborted_process w'"
      unfolding r by (rule transact_landed(2) [OF tr assms(1) Inl])
    then show ?thesis by (simp add: r(1))
  next
    case (Inr x)
    then have r: "answer = Ok (length wanted)" "landed = l" using fan assms(2) by auto
    have "l = map (addressed c repo event) wanted" by (rule transact_landed(1) [OF tr assms(1) Inr])
    then show ?thesis by (simp add: r due)
  qed
qed

text \<open>Who asked to hear: an active webhook of the repository with a subscription to everything, to the
  type of the event, or to its family, which is the part before a dot (\<open>issue.*\<close>).\<close>

definition asked :: "string \<Rightarrow> string \<Rightarrow> webhook_row \<Rightarrow> bool" where
  "asked repo event_ty hook \<longleftrightarrow> wh_active hook \<and> wh_repo_id hook = repo \<and>
     (\<exists>w\<in>set (wh_events hook). w = ''*'' \<or> w = event_ty \<or>
       2 \<le> length w \<and> drop (length w - 2) w = ''.*'' \<and> take (length w - 1) event_ty = take (length w - 1) w)"

text \<open>The deliveries \<open>rs\<close> are exactly those a record calls for: one for each webhook in the table that
  asked, under its id, with an identity made of the event's and the webhook's, and the event itself.
  A record that is no event, or an event of no repository, calls for none.\<close>

definition heard :: "('j, 'v) match_codec \<Rightarrow> (webhooks_table, sql_error) result \<Rightarrow> 'j option \<Rightarrow> 'j pending_record list \<Rightarrow> bool" where
  "heard c hooks v rs \<longleftrightarrow>
     (if \<exists>j event repo. v = Some j \<and> mc_slice c j = Ok event \<and> mc_field c (payload event) ''repo_id'' = Some repo
      then \<exists>j event repo t. v = Some j \<and> mc_slice c j = Ok event \<and> mc_field c (payload event) ''repo_id'' = Some repo \<and>
        hooks = Ok t \<and>
        mset rs = image_mset (\<lambda>hook. \<lparr>pr_topic = WEBHOOKS_DELIVERIES, pr_key = wh_webhook_id hook, pr_value = Some (mc_encode c
            \<lparr>dr_delivery_id = event_id event @ '':'' @ wh_webhook_id hook, dr_webhook_id = wh_webhook_id hook,
             dr_repo_id = repo, dr_event = event\<rparr>), pr_headers = []\<rparr>)
          (filter_mset (asked repo (event_type event)) (mset (map snd t)))
      else rs = [])"

lemma family_matches:
  "prefix_matches w ty \<longleftrightarrow>
     2 \<le> length w \<and> drop (length w - 2) w = ''.*'' \<and> take (length w - 1) ty = take (length w - 1) w"
proof
  assume "prefix_matches w ty"
  then obtain family rest where "w = family @ ''.*''" "ty = family @ ''.'' @ rest"
    unfolding prefix_matches_def starts_with_iff by (cases "strip_suffix ''.*'' w") (auto simp: starts_with_iff)
  then show "2 \<le> length w \<and> drop (length w - 2) w = ''.*'' \<and> take (length w - 1) ty = take (length w - 1) w" by simp
next
  assume w: "2 \<le> length w \<and> drop (length w - 2) w = ''.*'' \<and> take (length w - 1) ty = take (length w - 1) w"
  define family where "family = take (length w - 2) w"
  have family: "w = family @ ''.*''" using w append_take_drop_id [of "length w - 2" w] by (simp add: family_def)
  then have "ty = (family @ ''.'') @ drop (length w - 1) ty"
    using w append_take_drop_id [of "length w - 1" ty] by simp
  then have "starts_with family ty \<and> starts_with ''.'' (drop (length family) ty)"
    unfolding starts_with_iff by (metis append.assoc append_eq_conv_conj)
  then show "prefix_matches w ty" by (simp add: prefix_matches_def family)
qed

lemma wanted_asked: "wh_repo_id hook = repo \<and> wants hook ty \<longleftrightarrow> asked repo ty hook"
  by (auto simp: wants_def asked_def list_ex_iff family_matches)

lemma due_heard:
  assumes "\<And>e. hooks = Err e \<Longrightarrow> readable_event c v = None \<or> (\<exists>event. readable_event c v = Some event \<and> repo_of c event = None)"
  shows "heard c hooks v (due c (case hooks of Ok t \<Rightarrow> t | Err _ \<Rightarrow> []) v)"
proof (cases "\<exists>j event repo. v = Some j \<and> mc_slice c j = Ok event \<and> mc_field c (payload event) ''repo_id'' = Some repo")
  case True
  then obtain j event repo where e: "v = Some j" "mc_slice c j = Ok event" "mc_field c (payload event) ''repo_id'' = Some repo"
    by blast
  then have read: "readable_event c v = Some event" "repo_of c event = Some repo"
    by (simp_all add: readable_event_def decode_raw_def repo_of_def)
  then obtain t where t: "hooks = Ok t" using assms by (cases hooks) auto
  have "filter (\<lambda>hook. wants hook (event_type event)) (webhooks_for_repo repo t) = filter (asked repo (event_type event)) (map snd t)"
    unfolding webhooks_for_repo_def rows_where_def filter_filter by (rule filter_cong [OF refl]) (rule wanted_asked)
  then have "mset (due c t v) = image_mset (addressed c repo event) (filter_mset (asked repo (event_type event)) (mset (map snd t)))"
    by (simp add: due_def read)
  with e t show ?thesis
    unfolding heard_def addressed_def pending_state_def delivery_request_new_def delivery_id_def by simp
next
  case False
  then have "due c t v = []" for t
    by (cases v) (auto simp: due_def readable_event_def decode_raw_def ok_or_def and_then_def repo_of_def split: option.splits sum.splits)
  with False show ?thesis unfolding heard_def by (simp only: if_False)
qed

text \<open>A delivery's identity names its event and its webhook; event ids have no colon.\<close>

lemma delivery_id_inject:
  "CHR '':'' \<notin> set e \<Longrightarrow> CHR '':'' \<notin> set e' \<Longrightarrow> delivery_id e h = delivery_id e' h' \<longleftrightarrow> e = e' \<and> h = h'"
  using split_once_Some [of "CHR '':''" "e @ CHR '':'' # h" e h] split_once_Some [of "CHR '':''" "e @ CHR '':'' # h" e' h']
  by (auto simp: delivery_id_def)

lemma fan_out_one:
  assumes "broker_truthful txn" "fan_out c hooks txn v w = (Ok n, w', landed)"
  shows "heard c hooks v landed \<and> n = length landed"
proof -
  have "hooks = Err e \<Longrightarrow> readable_event c v = None \<or> (\<exists>event. readable_event c v = Some event \<and> repo_of c event = None)" for e
    using assms(2) by (auto simp: fan_out_def split: option.splits)
  then have heard: "heard c hooks v (due c (case hooks of Ok t \<Rightarrow> t | Err _ \<Rightarrow> []) v)" by (rule due_heard)
  show ?thesis
  proof (cases hooks)
    case (Inl e)
    then have "due c [] v = [] \<and> n = 0 \<and> landed = []"
      using assms(2) by (auto simp: fan_out_def due_def webhooks_for_repo_def rows_where_def split: option.splits)
    then show ?thesis using heard by (simp add: Inl)
  next
    case (Inr t)
    with assms have fan: "fan_out c (Ok t) txn v w = (Ok n, w', landed)" by simp
    from fan_out_due [OF assms(1) fan] heard show ?thesis by (simp add: Inr)
  qed
qed

definition all_heard :: "('j, 'v) match_codec \<Rightarrow> match_env \<Rightarrow> (int \<times> 'j topic_record) list \<Rightarrow> 'j pending_record list \<Rightarrow> bool" where
  "all_heard c envs rs landed \<longleftrightarrow> (\<exists>parts. landed = concat parts \<and>
     list_all2 (\<lambda>(off, rec) part. heard c (fst (envs off)) (rec_value rec) part) rs parts)"

lemma fan_out_all:
  assumes "\<forall>off. broker_truthful (snd (envs off))" "fan_out_records c envs rs n w = (Ok m, w', landed)"
  shows "all_heard c envs rs landed \<and> m = n + length landed"
  using assms(2)
proof (induction rs arbitrary: n w landed)
  case (Cons r rs)
  obtain off rec where r: "r = (off, rec)" by (cases r)
  obtain a w1 l1 where one: "fan_out c (fst (envs off)) (snd (envs off)) (rec_value rec) w = (a, w1, l1)"
    by (metis prod_cases3)
  from Cons.prems obtain k where k: "a = Ok k"
    by (cases a) (simp_all add: r one split_beta)
  obtain a2 w2 l2 where rest: "fan_out_records c envs rs (n + k) w1 = (a2, w2, l2)" by (metis prod_cases3)
  have all: "a2 = Ok m" "landed = l1 @ l2" "w2 = w'"
    using Cons.prems by (simp_all add: r one k rest split_beta)
  have "broker_truthful (snd (envs off))" using assms(1) by blast
  from fan_out_one [OF this one [unfolded k]] have "heard c (fst (envs off)) (rec_value rec) l1" "k = length l1" by simp_all
  moreover from Cons.IH [of "n + k" w1 l2] rest all obtain parts where "l2 = concat parts" "m = n + k + length l2"
    "list_all2 (\<lambda>(off, rec) part. heard c (fst (envs off)) (rec_value rec) part) rs parts" by (auto simp: all_heard_def)
  ultimately show ?case unfolding all_heard_def all r
    by (intro conjI exI [of _ "l1 # parts"]) simp_all
qed (simp add: all_heard_def)

text \<open>Property C32: an event reaches exactly those who asked. When a step succeeds, the deliveries in
  the log are, record by record in log order, one for every webhook that is active, belongs to the
  event's repository and subscribes to everything, to its type or to its family, each under that
  webhook's id and with the event in it, and no other; the number reported is theirs and the cursor
  moves to the end of the batch. When a step fails the cursor stays, so no event is passed over by a
  matcher that is opened again.\<close>

theorem matcher_step_exact:
  assumes "\<forall>off. broker_truthful (snd (envs off))"
    and "next_batch fetch t = (Ok b, t1)" "bt_records b \<noteq> []"
    and "matcher_step c envs topic cf fetch t cursors w = (answer, t', cursors', w', landed)"
  shows "(case answer of
      Ok n \<Rightarrow> all_heard c envs (bt_records b) landed \<and> n = length landed \<and>
        applied_offset WEBHOOK_MATCHER topic cursors' = bt_next_offset b
    | Err _ \<Rightarrow> cursors' = cursors)"
proof -
  obtain a w1 l where fan: "fan_out_records c envs (bt_records b) 0 w = (a, w1, l)" by (metis prod_cases3)
  show ?thesis
  proof (cases "\<exists>n. a = Ok n \<and> \<not> cf")
    case True
    then obtain n where n: "a = Ok n" "\<not> cf" by blast
    have "answer = Ok n" "landed = l" "cursors' = set_applied_offset WEBHOOK_MATCHER topic (bt_next_offset b) cursors"
      using assms(2-4) fan n by (simp_all add: matcher_step_def)
    moreover have "all_heard c envs (bt_records b) l \<and> n = length l"
      using fan_out_all [OF assms(1) fan [unfolded n(1)]] by simp
    ultimately show ?thesis by (simp add: applied_offset_set)
  next
    case False
    then obtain e where "answer = Err e" "cursors' = cursors"
      using assms(2-4) fan by (cases a; cases cf) (auto simp: matcher_step_def)
    then show ?thesis by simp
  qed
qed

text \<open>A matcher that goes on after a failed step does not read the batch again: its tailer has moved.\<close>

lemma failed_match_has_moved:
  assumes "next_batch fetch t = (Ok b, t')" "bt_records b \<noteq> []" "fan_out_records c envs (bt_records b) 0 w = (Err e, w', landed)"
  shows "matcher_step c envs topic cf fetch t cursors w = (Err e, t', cursors, w', landed)" "tl_offset t' = bt_next_offset b"
  using assms by (auto simp: matcher_step_def next_batch_def Let_def split: sum.splits)

section \<open>Two webhooks, one of them subscribed\<close>

definition demo_codec :: "(string envelope, string) match_codec" where
  "demo_codec = \<lparr>mc_slice = Ok, mc_field = (\<lambda>v _. Some v), mc_encode = dr_event\<rparr>"

definition demo_hooks :: webhooks_table where
  "demo_hooks = [(''w1'', demo_hook\<lparr>wh_events := [''issue.*'']\<rparr>),
     (''w2'', demo_hook\<lparr>wh_webhook_id := ''w2'', wh_events := [''pr.merged'']\<rparr>)]"

definition demo_event :: "string envelope topic_record slot" where
  "demo_event = Visible \<lparr>rec_key = None, rec_value = Some \<lparr>event_id = ''e1'', event_type = ''issue.opened'',
     event_version = 1, aggregate_id = ''i1'', actor = None, occurred_at = 0, payload = ''r1''\<rparr>\<rparr>"

lemma matcher_step_witness:
  "case matcher_step demo_codec (\<lambda>_. (Ok demo_hooks, demo_txn)) EVENTS_ISSUES False (whole_log_fetch [demo_event])
      (open_at 0) [] \<lparr>fenced = False, aborted_process = False\<rparr> of
     (answer, _, cursors', _, landed) \<Rightarrow> answer = Ok 1 \<and> map pr_key landed = [''w1''] \<and>
       applied_offset WEBHOOK_MATCHER EVENTS_ISSUES cursors' = 1"
proof -
  let ?envs = "\<lambda>_ :: int. (Ok demo_hooks, demo_txn)"
  let ?w = "\<lparr>fenced = False, aborted_process = False\<rparr>"
  obtain b t1 where b: "next_batch (whole_log_fetch [demo_event]) (open_at 0) = (Ok b, t1)"
    and records: "bt_records b = visible 0 [demo_event]" and off: "bt_next_offset b = 1"
    by (simp add: next_batch_def whole_log_fetch_def open_at_def)
  obtain answer t' cursors' w' landed where run: "matcher_step demo_codec ?envs EVENTS_ISSUES False
      (whole_log_fetch [demo_event]) (open_at 0) [] ?w = (answer, t', cursors', w', landed)" by (metis prod_cases5)
  have truth: "\<forall>off. broker_truthful (snd (?envs off))" by (simp add: broker_truthful_def demo_txn_def)
  have some: "bt_records b \<noteq> []" unfolding records by code_simp
  have ok: "(case fst (matcher_step demo_codec ?envs EVENTS_ISSUES False (whole_log_fetch [demo_event]) (open_at 0) [] ?w) of
      Ok _ \<Rightarrow> True | Err _ \<Rightarrow> False)" by code_simp
  then obtain n where n: "answer = Ok n" unfolding run by (auto split: sum.splits)
  obtain rec where visible: "visible 0 [demo_event] = [(0, rec)]" and shown: "demo_event = Visible rec"
    by (simp add: demo_event_def visible_def)
  have asked: "asked ''r1'' ''issue.opened'' (demo_hook\<lparr>wh_events := [''issue.*'']\<rparr>)"
    "\<not> asked ''r1'' ''issue.opened'' (demo_hook\<lparr>wh_webhook_id := ''w2'', wh_events := [''pr.merged'']\<rparr>)" by code_simp+
  from matcher_step_exact [OF truth b some run] have
    "all_heard demo_codec ?envs [(0, rec)] landed" and facts: "n = length landed"
    "applied_offset WEBHOOK_MATCHER EVENTS_ISSUES cursors' = 1"
    by (simp_all add: n records off visible)
  then have "heard demo_codec (Ok demo_hooks) (rec_value rec) landed"
    by (auto simp: all_heard_def list_all2_Cons1)
  then obtain event where "mset landed = {#\<lparr>pr_topic = WEBHOOKS_DELIVERIES, pr_key = ''w1'', pr_value = Some event, pr_headers = []\<rparr>#}"
    using shown asked unfolding heard_def demo_hooks_def
    by (auto simp: demo_event_def demo_codec_def demo_hook_def)
  then have "map pr_key landed = [''w1'']" by simp
  moreover from arg_cong [OF this, of length] have "length landed = 1" by simp
  ultimately show ?thesis using facts by (simp add: run n)
qed

end
