(* ===== verification/Ci_Workflow.thy ===== *)
theory Ci_Workflow
  imports Read_Tables "HOL-Library.Multiset"
begin

text \<open>
  What a push should run (\<open>forge-ci/src/workflow.rs\<close>, \<open>discover.rs\<close>, \<open>plan.rs\<close>): workflow files, their
  validation, finding them at a commit and turning them into runs and jobs. The YAML decoder and
  the reading of a tree and a blob at a commit are parameters.
\<close>

section \<open>Workflow files\<close>

definition DEFAULT_IMAGE :: string where "DEFAULT_IMAGE = ''ubuntu:24.04''"
definition DEFAULT_TIMEOUT_MINUTES :: int where "DEFAULT_TIMEOUT_MINUTES = 60"
definition MAX_TIMEOUT_MINUTES :: int where "MAX_TIMEOUT_MINUTES = 360"

datatype workflow_error = InvalidWorkflow (we_path: string) (we_message: string)

datatype trigger = OneEvent string | ManyEvents "string list"

definition covers :: "trigger \<Rightarrow> string \<Rightarrow> bool" where
  "covers t event = (case t of OneEvent one \<Rightarrow> one = event | ManyEvents many \<Rightarrow> event \<in> set many)"

record ci_step =
  st_name :: "string option"
  st_run :: string

definition step_label :: "ci_step \<Rightarrow> string" where
  "step_label s = (case st_name s of Some name \<Rightarrow> name | None \<Rightarrow> st_run s)"

text \<open>A \<open>BTreeMap\<close> is the list of its entries in ascending order of the keys.\<close>

type_synonym 'v btree_map = "(string \<times> 'v) list"

definition btree :: "'v btree_map \<Rightarrow> bool" where
  "btree m \<longleftrightarrow> sorted_wrt (<) (map fst m)"

record ci_job =
  jo_runs_on :: "string option"
  jo_timeout_minutes :: "int option"
  jo_env :: "string btree_map"
  jo_steps :: "ci_step list"

definition job_image :: "ci_job \<Rightarrow> string" where
  "job_image j = (case jo_runs_on j of Some img \<Rightarrow> img | None \<Rightarrow> DEFAULT_IMAGE)"

definition job_timeout_minutes :: "ci_job \<Rightarrow> int" where
  "job_timeout_minutes j = (case jo_timeout_minutes j of Some m \<Rightarrow> m | None \<Rightarrow> DEFAULT_TIMEOUT_MINUTES)"

record workflow =
  wf_name :: "string option"
  wf_on :: trigger
  wf_jobs :: "ci_job btree_map"

definition is_env_name :: "string \<Rightarrow> bool" where
  "is_env_name name \<longleftrightarrow> name \<noteq> [] \<and> \<not> is_digit (hd name) \<and> list_all (\<lambda>c. is_alnum c \<or> c = CHR ''_'') name"

definition show_int :: "int \<Rightarrow> string" where
  "show_int i = (if i < 0 then CHR ''-'' # show_nat (nat (- i)) else show_nat (nat i))"

text \<open>The loop over the environment stops at the first name that is not one.\<close>

fun validate_env :: "string \<Rightarrow> string \<Rightarrow> string list \<Rightarrow> (unit, workflow_error) result" where
  "validate_env path name [] = Ok ()"
| "validate_env path name (key # keys) =
     (if \<not> is_env_name key
      then Err (InvalidWorkflow path (''job `'' @ name @ ''` has an environment variable named `'' @ key @
        ''`; names may contain only letters, digits and underscores, and may not start with a digit''))
      else validate_env path name keys)"

definition validate_job :: "string \<Rightarrow> string \<Rightarrow> ci_job \<Rightarrow> (unit, workflow_error) result" where
  "validate_job path name job =
     (if jo_steps job = [] then Err (InvalidWorkflow path (''job `'' @ name @ ''` has no steps''))
      else and_then (case jo_timeout_minutes job of
          None \<Rightarrow> Ok ()
        | Some timeout \<Rightarrow>
            if timeout = 0 then Err (InvalidWorkflow path (''job `'' @ name @ ''` has a zero timeout''))
            else if timeout > MAX_TIMEOUT_MINUTES
            then Err (InvalidWorkflow path (''job `'' @ name @ ''` asks for '' @ show_int timeout @
              '' minutes; the limit is '' @ show_int MAX_TIMEOUT_MINUTES))
            else Ok ())
        (\<lambda>_. if trim (job_image job) = []
          then Err (InvalidWorkflow path (''job `'' @ name @ ''` has an empty `runs-on`''))
          else validate_env path name (map fst (jo_env job))))"

fun validate_jobs :: "string \<Rightarrow> ci_job btree_map \<Rightarrow> (unit, workflow_error) result" where
  "validate_jobs path [] = Ok ()"
| "validate_jobs path ((name, job) # jobs) =
     and_then (validate_job path name job) (\<lambda>_. validate_jobs path jobs)"

definition validate_workflow :: "string \<Rightarrow> workflow \<Rightarrow> (unit, workflow_error) result" where
  "validate_workflow path w =
     (if wf_jobs w = [] then Err (InvalidWorkflow path ''no jobs'') else validate_jobs path (wf_jobs w))"

definition workflow_parse ::
    "(string \<Rightarrow> (workflow, string) result) \<Rightarrow> string \<Rightarrow> string \<Rightarrow> (workflow, workflow_error) result" where
  "workflow_parse yaml path text = (case yaml text of
     Err e \<Rightarrow> Err (InvalidWorkflow path e)
   | Ok w \<Rightarrow> and_then (validate_workflow path w) (\<lambda>_. Ok w))"

definition display_name :: "workflow \<Rightarrow> string \<Rightarrow> string" where
  "display_name w path = (case wf_name w of
     Some name \<Rightarrow> name
   | None \<Rightarrow> (case rsplit_once (CHR ''.'') (last (split_by (\<lambda>c. c = CHR ''/'') path)) of
       Some (stem, _) \<Rightarrow> stem | None \<Rightarrow> path))"

section \<open>Discovery\<close>

definition WORKFLOW_DIR :: string where "WORKFLOW_DIR = ''.crabforge/workflows''"

record found =
  fd_path :: string
  fd_workflow :: workflow

record discovered =
  ds_workflows :: "found list"
  ds_errors :: "workflow_error list"

definition triggered_by :: "discovered \<Rightarrow> string \<Rightarrow> found list" where
  "triggered_by d event = filter (\<lambda>f. covers (wf_on (fd_workflow f)) event) (ds_workflows d)"

definition is_workflow_file :: "string \<Rightarrow> bool" where
  "is_workflow_file name = (let lower = to_ascii_lowercase name in
     list_ex (\<lambda>ext. case strip_suffix ext lower of Some stem \<Rightarrow> stem \<noteq> [] | None \<Rightarrow> False) [''.yml'', ''.yaml''])"

datatype blob = TextBlob string | BinaryBlob

text \<open>One entry of the directory: nothing, a workflow or an error.\<close>

definition discover_entry ::
    "(string \<Rightarrow> (workflow, string) result) \<Rightarrow> (string \<Rightarrow> (blob option, string) result) \<Rightarrow> string \<Rightarrow>
      (found, workflow_error) result option" where
  "discover_entry yaml read_blob name =
     (if \<not> is_workflow_file name then None
      else (let path = WORKFLOW_DIR @ ''/'' @ name in
        (case read_blob path of
           Err _ \<Rightarrow> None
         | Ok None \<Rightarrow> None
         | Ok (Some (TextBlob content)) \<Rightarrow> Some (case workflow_parse yaml path content of
             Ok w \<Rightarrow> Ok \<lparr>fd_path = path, fd_workflow = w\<rparr> | Err e \<Rightarrow> Err e)
         | Ok (Some BinaryBlob) \<Rightarrow> Some (Err (InvalidWorkflow path ''not valid UTF-8'')))))"

definition discover ::
    "(string \<Rightarrow> (workflow, string) result) \<Rightarrow> (string \<Rightarrow> (string list, string) result) \<Rightarrow>
      (string \<Rightarrow> (blob option, string) result) \<Rightarrow> discovered" where
  "discover yaml list_tree read_blob = (case list_tree WORKFLOW_DIR of
     Err _ \<Rightarrow> \<lparr>ds_workflows = [], ds_errors = []\<rparr>
   | Ok names \<Rightarrow> (let results = List.map_filter (discover_entry yaml read_blob) names in
       \<lparr>ds_workflows = sort_key fd_path (List.map_filter (\<lambda>r. case r of Ok f \<Rightarrow> Some f | Err _ \<Rightarrow> None) results),
        ds_errors = List.map_filter (\<lambda>r. case r of Ok _ \<Rightarrow> None | Err e \<Rightarrow> Some e) results\<rparr>))"

section \<open>Planning\<close>

record planned_job =
  pn_name :: string
  pn_image :: string
  pn_timeout_minutes :: int
  pn_env :: "(string \<times> string) list"
  pn_steps :: "ci_step list"

definition planned_job_from :: "string \<Rightarrow> ci_job \<Rightarrow> planned_job" where
  "planned_job_from name job = \<lparr>pn_name = name, pn_image = job_image job,
     pn_timeout_minutes = job_timeout_minutes job, pn_env = jo_env job, pn_steps = jo_steps job\<rparr>"

record planned_run =
  pr_workflow :: string
  pr_name :: string
  pr_jobs :: "planned_job list"

definition plan_push :: "discovered \<Rightarrow> planned_run list" where
  "plan_push d = map (\<lambda>f. \<lparr>pr_workflow = fd_path f, pr_name = display_name (fd_workflow f) (fd_path f),
     pr_jobs = map (\<lambda>(name, job). planned_job_from name job) (wf_jobs (fd_workflow f))\<rparr>)
     (triggered_by d ''push'')"

section \<open>Every planned job can be run\<close>

definition runnable :: "planned_job \<Rightarrow> bool" where
  "runnable j \<longleftrightarrow> pn_steps j \<noteq> [] \<and> 1 \<le> pn_timeout_minutes j \<and> pn_timeout_minutes j \<le> MAX_TIMEOUT_MINUTES \<and>
     trim (pn_image j) \<noteq> [] \<and> list_all (\<lambda>(k, _). is_env_name k) (pn_env j)"

lemma validate_env_ok: "validate_env path name keys = Ok () \<longleftrightarrow> list_all is_env_name keys"
  by (induction keys) auto

lemma validate_job_ok:
  assumes "validate_job path name job = Ok ()" "\<forall>m. jo_timeout_minutes job = Some m \<longrightarrow> 0 \<le> m"
  shows "runnable (planned_job_from name job)"
  using assms
  by (auto simp: validate_job_def runnable_def planned_job_from_def job_timeout_minutes_def and_then_Ok_iff
      validate_env_ok list.pred_map list_all_iff DEFAULT_TIMEOUT_MINUTES_def MAX_TIMEOUT_MINUTES_def
      split: if_splits option.splits)

text \<open>What the YAML decoder delivers by the types alone: maps in key order and minutes of a \<open>u32\<close>.\<close>

definition decodes :: "(string \<Rightarrow> (workflow, string) result) \<Rightarrow> bool" where
  "decodes yaml \<longleftrightarrow> (\<forall>text w. yaml text = Ok w \<longrightarrow> btree (wf_jobs w) \<and>
     (\<forall>(name, job) \<in> set (wf_jobs w). \<forall>m. jo_timeout_minutes job = Some m \<longrightarrow> 0 \<le> m))"

lemma validate_jobs_ok: "validate_jobs path jobs = Ok () \<longleftrightarrow> (\<forall>(name, job)\<in>set jobs. validate_job path name job = Ok ())"
  by (induction path jobs rule: validate_jobs.induct) (auto simp: and_then_Ok_iff)

lemma workflow_parse_ok:
  assumes "decodes yaml" "workflow_parse yaml path text = Ok w"
  shows "wf_jobs w \<noteq> []" "btree (wf_jobs w)"
    "\<forall>(name, job)\<in>set (wf_jobs w). runnable (planned_job_from name job)"
proof -
  have w: "yaml text = Ok w" "validate_workflow path w = Ok ()"
    using assms(2) by (auto simp: workflow_parse_def and_then_Ok_iff split: sum.splits)
  then have v: "wf_jobs w \<noteq> []" "validate_jobs path (wf_jobs w) = Ok ()"
    by (auto simp: validate_workflow_def split: if_splits)
  show "wf_jobs w \<noteq> []" by (rule v(1))
  show "btree (wf_jobs w)" using assms(1) w(1) by (simp add: decodes_def)
  show "\<forall>(name, job)\<in>set (wf_jobs w). runnable (planned_job_from name job)"
    using v(2) assms(1) w(1) validate_job_ok unfolding validate_jobs_ok decodes_def by fast
qed

lemma discover_entry_parsed:
  "discover_entry yaml read_blob name = Some (Ok f) \<Longrightarrow>
   fd_path f = WORKFLOW_DIR @ ''/'' @ name \<and> is_workflow_file name \<and>
   (\<exists>content. workflow_parse yaml (fd_path f) content = Ok (fd_workflow f))"
  by (auto simp: discover_entry_def Let_def split: sum.splits option.splits blob.splits if_splits)

lemma ok_option: "(case r of Ok f \<Rightarrow> Some f | Err _ \<Rightarrow> None) = Some g \<longleftrightarrow> r = Ok g"
  by (cases r) auto

lemma discovered_parsed:
  assumes "f \<in> set (ds_workflows (discover yaml list_tree read_blob))"
  shows "\<exists>name content. fd_path f = WORKFLOW_DIR @ ''/'' @ name \<and> is_workflow_file name \<and>
     workflow_parse yaml (fd_path f) content = Ok (fd_workflow f)"
proof -
  from assms obtain name where "discover_entry yaml read_blob name = Some (Ok f)"
    by (auto simp: discover_def Let_def set_map_filter ok_option split: sum.splits)
  from discover_entry_parsed [OF this] show ?thesis by blast
qed

lemma btree_distinct: "btree m \<Longrightarrow> distinct (map fst m)"
  by (simp add: btree_def strict_sorted_iff)

text \<open>Property C29: a plan can be run. Whatever is in the workflow directory of a commit, every run
  that a push plans comes from a YAML file there, has at least one job, its jobs are in the order
  of their names and no two share one, and every job has steps, a time limit between one minute
  and six hours, an image and only environment variables a POSIX shell can export.\<close>

theorem plans_are_runnable:
  assumes "decodes yaml" and "run \<in> set (plan_push (discover yaml list_tree read_blob))"
  shows "(\<exists>name. pr_workflow run = WORKFLOW_DIR @ ''/'' @ name \<and> is_workflow_file name) \<and>
    pr_jobs run \<noteq> [] \<and> sorted_wrt (<) (map pn_name (pr_jobs run)) \<and> list_all runnable (pr_jobs run)"
proof -
  obtain f where f: "f \<in> set (ds_workflows (discover yaml list_tree read_blob))"
    and run: "pr_workflow run = fd_path f"
      "pr_jobs run = map (\<lambda>(name, job). planned_job_from name job) (wf_jobs (fd_workflow f))"
    using assms(2) by (auto simp: plan_push_def triggered_by_def)
  from discovered_parsed [OF f] obtain name content where n: "fd_path f = WORKFLOW_DIR @ ''/'' @ name"
    "is_workflow_file name" and parsed: "workflow_parse yaml (fd_path f) content = Ok (fd_workflow f)" by blast
  note ok = workflow_parse_ok [OF assms(1) parsed]
  have names: "map pn_name (pr_jobs run) = map fst (wf_jobs (fd_workflow f))"
    by (simp add: run planned_job_from_def comp_def split_beta)
  have "sorted_wrt (<) (map pn_name (pr_jobs run))"
    unfolding names using ok(2) by (simp add: btree_def)
  moreover have "list_all runnable (pr_jobs run)"
    using ok(3) by (auto simp: run list_all_iff)
  ultimately show ?thesis using n run ok(1) by simp
qed

lemma mset_map_filter: "mset xs = mset ys \<Longrightarrow> mset (List.map_filter f xs) = mset (List.map_filter f ys)"
  by (simp add: List.map_filter_def)

definition valid_entry ::
    "(string \<Rightarrow> (workflow, string) result) \<Rightarrow> (string \<Rightarrow> (blob option, string) result) \<Rightarrow> string \<Rightarrow> found option" where
  "valid_entry yaml read_blob name = (case discover_entry yaml read_blob name of Some (Ok f) \<Rightarrow> Some f | _ \<Rightarrow> None)"

lemma discovered_valid:
  "ds_workflows (discover yaml (\<lambda>_. Ok names) read_blob) = sort_key fd_path (List.map_filter (valid_entry yaml read_blob) names)"
proof -
  have "List.map_filter (\<lambda>r. case r of Ok f \<Rightarrow> Some f | Err _ \<Rightarrow> None) (List.map_filter (discover_entry yaml read_blob) names) =
      List.map_filter (valid_entry yaml read_blob) names"
    by (induction names) (auto simp: List.map_filter_def valid_entry_def split: option.splits sum.splits)
  then show ?thesis by (simp add: discover_def Let_def)
qed

lemma valid_entry_path: "valid_entry yaml read_blob name = Some f \<Longrightarrow> fd_path f = WORKFLOW_DIR @ ''/'' @ name"
  by (auto simp: valid_entry_def discover_entry_def Let_def
      split: option.splits sum.splits if_splits blob.splits)

text \<open>Planning can be replayed. In whatever order the directory is listed, the same
  commit gives the same runs with the same jobs in the same order.\<close>

theorem plan_order_irrelevant:
  assumes "mset names = mset names'"
  shows "plan_push (discover yaml (\<lambda>_. Ok names) read_blob) = plan_push (discover yaml (\<lambda>_. Ok names') read_blob)"
proof -
  let ?fs = "List.map_filter (valid_entry yaml read_blob)"
  have "inj_on fd_path (set (?fs names))"
  proof (rule inj_onI)
    fix f g assume "f \<in> set (?fs names)" "g \<in> set (?fs names)" "fd_path f = fd_path g"
    then obtain n m where "valid_entry yaml read_blob n = Some f" "valid_entry yaml read_blob m = Some g"
      and "fd_path f = fd_path g" by (auto simp: set_map_filter)
    then show "f = g" using valid_entry_path [of yaml read_blob n f] valid_entry_path [of yaml read_blob m g] by auto
  qed
  then have "sort_key fd_path (?fs names) = sort_key fd_path (?fs names')"
    using mset_map_filter [OF assms] by (intro sort_key_inj_key_eq) simp_all
  then show ?thesis by (simp add: plan_push_def triggered_by_def discovered_valid)
qed

section \<open>A directory with two workflows\<close>

text \<open>A stand-in for the decoder: the text is the name of the one step.\<close>

definition demo_yaml :: "string \<Rightarrow> (workflow, string) result" where
  "demo_yaml text = (if text = [] then Err ''empty'' else Ok \<lparr>wf_name = None, wf_on = OneEvent ''push'',
     wf_jobs = [(''build'', \<lparr>jo_runs_on = None, jo_timeout_minutes = Some 30, jo_env = [(''CI'', ''1'')],
       jo_steps = [\<lparr>st_name = None, st_run = text\<rparr>]\<rparr>)]\<rparr>)"

definition demo_blobs :: "string \<Rightarrow> (blob option, string) result" where
  "demo_blobs path = (if path = WORKFLOW_DIR @ ''/b.yml'' then Ok (Some (TextBlob ''make''))
     else if path = WORKFLOW_DIR @ ''/a.yaml'' then Ok (Some (TextBlob ''true'')) else Ok None)"

definition demo_plan :: "planned_run list" where
  "demo_plan = plan_push (discover demo_yaml (\<lambda>_. Ok [''b.yml'', ''README'', ''a.yaml'']) demo_blobs)"

lemma plans_are_runnable_witness:
  "length demo_plan = 2 \<and> list_all (\<lambda>run. list_all runnable (pr_jobs run)) demo_plan"
proof -
  have "decodes demo_yaml" by (auto simp: decodes_def demo_yaml_def btree_def split: if_splits)
  from plans_are_runnable [OF this, of _ "\<lambda>_. Ok [''b.yml'', ''README'', ''a.yaml'']" demo_blobs]
  have "list_all (\<lambda>run. list_all runnable (pr_jobs run)) demo_plan"
    unfolding demo_plan_def [symmetric] by (auto simp: list_all_iff)
  moreover have "length demo_plan = 2" by code_simp
  ultimately show ?thesis by simp
qed

lemma plan_order_witness:
  "plan_push (discover demo_yaml (\<lambda>_. Ok [''a.yaml'', ''b.yml'', ''README'']) demo_blobs) = demo_plan"
  unfolding demo_plan_def by (rule plan_order_irrelevant) simp

end
