(* ===== verification/Ci_Sandbox.thy ===== *)
theory Ci_Sandbox
  imports Ci_Workflow
begin

text \<open>
  Where a job's steps run (\<open>forge-ci/src/sandbox.rs\<close>, \<open>docker.rs\<close>, \<open>kubernetes.rs\<close>): what is asked of
  docker and of the cluster, how the end of a child process becomes the outcome of a step, and
  how an environment travels in a shell command. Processes, docker and the cluster are outside:
  how a child ended is a value.
\<close>

section \<open>Outcomes of a step\<close>

datatype step_outcome = StepSucceeded | StepFailed int | StepTimedOut | StepInfraFailed

definition step_exit_code :: "step_outcome \<Rightarrow> int option" where
  "step_exit_code d = (case d of StepSucceeded \<Rightarrow> Some 0 | StepFailed c \<Rightarrow> Some c | _ \<Rightarrow> None)"

record step_result =
  sr_outcome :: step_outcome
  sr_detail :: "string option"

definition step_ok :: step_result where
  "step_ok = \<lparr>sr_outcome = StepSucceeded, sr_detail = None\<rparr>"

definition step_failed :: "int \<Rightarrow> step_result" where
  "step_failed c = \<lparr>sr_outcome = StepFailed c, sr_detail = None\<rparr>"

definition step_infra :: "string \<Rightarrow> step_result" where
  "step_infra detail = \<lparr>sr_outcome = StepInfraFailed, sr_detail = Some detail\<rparr>"

definition step_timed_out :: "int \<Rightarrow> step_result" where
  "step_timed_out seconds = \<lparr>sr_outcome = StepTimedOut, sr_detail = Some (''exceeded '' @ show_int seconds @ ''s'')\<rparr>"

text \<open>A child process: it did not start, it was still running at the timeout, waiting for it failed, or
  it ended, with an exit code or by a signal.\<close>

datatype child_end = NotStarted string | StillRunning | WaitFailed string | Exited "int option"

definition process_step :: "int \<Rightarrow> child_end \<Rightarrow> step_result" where
  "process_step timeout c = (case c of
     NotStarted e \<Rightarrow> step_infra (''could not start a shell: '' @ e)
   | Exited st \<Rightarrow> if st = Some 0 then step_ok else step_failed (case st of Some x \<Rightarrow> x | None \<Rightarrow> - 1)
   | WaitFailed e \<Rightarrow> step_infra (''waiting for the step: '' @ e)
   | StillRunning \<Rightarrow> step_timed_out timeout)"

section \<open>Containers\<close>

definition MEMORY_LIMIT :: string where "MEMORY_LIMIT = ''2g''"
definition PIDS_LIMIT :: string where "PIDS_LIMIT = ''512''"

record docker_sandbox =
  dk_image :: string
  dk_workspace :: string
  dk_owner :: "int \<times> int"
  dk_container :: string

definition docker_args :: "docker_sandbox \<Rightarrow> int \<Rightarrow> string list" where
  "docker_args d timeout =
     [''run'', ''--rm'', ''--name='' @ dk_container d @ ''-'' @ show_int timeout,
      ''--network=none'', ''--cap-drop=ALL'',
      ''--user='' @ show_int (fst (dk_owner d)) @ '':'' @ show_int (snd (dk_owner d)),
      ''--security-opt=no-new-privileges'', ''--read-only'', ''--memory='' @ MEMORY_LIMIT,
      ''--pids-limit='' @ PIDS_LIMIT, ''--tmpfs=/tmp:rw,exec,nosuid,size=1g'',
      ''--volume='' @ dk_workspace d @ '':/workspace:rw'', ''--workdir=/workspace'']"

definition docker_command :: "docker_sandbox \<Rightarrow> string \<Rightarrow> string btree_map \<Rightarrow> int \<Rightarrow> string list" where
  "docker_command d command env timeout =
     docker_args d timeout @ map (\<lambda>(k, v). ''--env='' @ k @ ''='' @ v) env @
     [dk_image d, ''/bin/sh'', ''-c'', command]"

definition docker_step :: "docker_sandbox \<Rightarrow> int \<Rightarrow> child_end \<Rightarrow> step_result" where
  "docker_step d timeout c = (case c of
     NotStarted e \<Rightarrow> step_infra (''could not start docker: '' @ e)
   | Exited (Some x) \<Rightarrow>
       if x = 0 then step_ok
       else if x = 125 then step_infra (''docker could not run '' @ dk_image d) else step_failed x
   | Exited None \<Rightarrow> step_failed (- 1)
   | WaitFailed e \<Rightarrow> step_infra (''waiting for the container: '' @ e)
   | StillRunning \<Rightarrow> step_timed_out timeout)"

section \<open>Pods\<close>

datatype json = JBool bool | JNum int | JStr string | JArr "json list" | JObj "(string \<times> json) list"

definition POD_MEMORY_LIMIT :: string where "POD_MEMORY_LIMIT = ''2Gi''"
definition CPU_LIMIT :: string where "CPU_LIMIT = ''2''"
definition RUN_AS :: int where "RUN_AS = 65534"
definition START_BUDGET :: int where "START_BUDGET = 300"
definition DEADLINE_SLACK :: int where "DEADLINE_SLACK = 120"

record kubernetes_sandbox =
  ku_namespace :: string
  ku_pod :: string
  ku_image :: string
  ku_budget :: int

definition kubernetes_create :: "string \<Rightarrow> string \<Rightarrow> planned_job \<Rightarrow> (kubernetes_sandbox, string) result" where
  "kubernetes_create namespace job_id job =
     (let pod = ''crabforge-job-'' @ to_ascii_lowercase job_id in
      if length pod > 63 \<or> \<not> list_all (\<lambda>c. is_alnum c \<or> c = CHR ''-'') pod
      then Err (''job id '' @ job_id @ '' does not fit a pod name'')
      else Ok \<lparr>ku_namespace = namespace, ku_pod = pod, ku_image = pn_image job,
        ku_budget = max (pn_timeout_minutes job) 1 * 60\<rparr>)"

definition pod_manifest :: "kubernetes_sandbox \<Rightarrow> json" where
  "pod_manifest k = (let deadline = ku_budget k + DEADLINE_SLACK in
     JObj [
       (''apiVersion'', JStr ''v1''),
       (''kind'', JStr ''Pod''),
       (''metadata'', JObj [
         (''name'', JStr (ku_pod k)),
         (''namespace'', JStr (ku_namespace k)),
         (''labels'', JObj [(''app.kubernetes.io/name'', JStr ''crabforge-job''),
           (''app.kubernetes.io/managed-by'', JStr ''crabforge'')])]),
       (''spec'', JObj [
         (''restartPolicy'', JStr ''Never''),
         (''automountServiceAccountToken'', JBool False),
         (''enableServiceLinks'', JBool False),
         (''activeDeadlineSeconds'', JNum deadline),
         (''terminationGracePeriodSeconds'', JNum 5),
         (''securityContext'', JObj [(''runAsNonRoot'', JBool True), (''runAsUser'', JNum RUN_AS),
           (''runAsGroup'', JNum RUN_AS), (''fsGroup'', JNum RUN_AS),
           (''seccompProfile'', JObj [(''type'', JStr ''RuntimeDefault'')])]),
         (''containers'', JArr [JObj [
           (''name'', JStr ''job''),
           (''image'', JStr (ku_image k)),
           (''command'', JArr [JStr ''/bin/sh'', JStr ''-c'', JStr (''sleep '' @ show_int deadline)]),
           (''workingDir'', JStr ''/workspace''),
           (''securityContext'', JObj [(''allowPrivilegeEscalation'', JBool False), (''privileged'', JBool False),
             (''readOnlyRootFilesystem'', JBool True), (''capabilities'', JObj [(''drop'', JArr [JStr ''ALL''])])]),
           (''resources'', JObj [
             (''limits'', JObj [(''memory'', JStr POD_MEMORY_LIMIT), (''cpu'', JStr CPU_LIMIT)]),
             (''requests'', JObj [(''memory'', JStr ''256Mi''), (''cpu'', JStr ''100m'')])]),
           (''volumeMounts'', JArr [
             JObj [(''name'', JStr ''workspace''), (''mountPath'', JStr ''/workspace'')],
             JObj [(''name'', JStr ''tmp''), (''mountPath'', JStr ''/tmp'')]])]]),
         (''volumes'', JArr [
           JObj [(''name'', JStr ''workspace''), (''emptyDir'', JObj [])],
           JObj [(''name'', JStr ''tmp''), (''emptyDir'', JObj [])]])])])"

text \<open>A single quote closes the quoted string, is escaped, and opens it again.\<close>

definition shell_quote :: "string \<Rightarrow> string" where
  "shell_quote value = [CHR 0x27] @
     concat (map (\<lambda>c. if c = CHR 0x27 then [CHR 0x27, CHR 0x5C, CHR 0x27, CHR 0x27] else [c]) value) @ [CHR 0x27]"

definition with_environment :: "string \<Rightarrow> string btree_map \<Rightarrow> string" where
  "with_environment command env =
     concat (map (\<lambda>(key, value). ''export '' @ key @ ''='' @ shell_quote value @ ''; '') env) @ command"

definition kubectl_exec :: "kubernetes_sandbox \<Rightarrow> string \<Rightarrow> string btree_map \<Rightarrow> string list" where
  "kubectl_exec k command env = [''exec'', ku_pod k, ''--namespace'', ku_namespace k, ''--'', ''/bin/sh'', ''-c'',
     with_environment command env]"

text \<open>How the pod's start went: it is up, it failed, or the step's budget ran out first, with the
  cluster's reason if it gave one.\<close>

datatype pod_start = PodUp | PodFailed string | PodLate "string option"

definition kubernetes_step :: "int \<Rightarrow> int \<Rightarrow> pod_start \<Rightarrow> child_end \<Rightarrow> step_result" where
  "kubernetes_step timeout starting start c = (case start of
     PodFailed reason \<Rightarrow> step_infra reason
   | PodLate (Some reason) \<Rightarrow>
       step_infra (''the pod did not start within the step''@ [CHR 0x27] @''s '' @ show_int timeout @ ''s budget: '' @ reason)
   | PodLate None \<Rightarrow>
       step_infra (''the pod did not start within the step'' @ [CHR 0x27] @ ''s '' @ show_int timeout @ ''s budget'')
   | PodUp \<Rightarrow>
       (let timeout = max 0 (timeout - starting) in
        case c of
          NotStarted e \<Rightarrow> step_infra (''could not start kubectl: '' @ e)
        | Exited (Some x) \<Rightarrow> if x = 0 then step_ok else step_failed x
        | Exited None \<Rightarrow> step_failed (- 1)
        | WaitFailed e \<Rightarrow> step_infra (''waiting for the step: '' @ e)
        | StillRunning \<Rightarrow> step_timed_out timeout))"

section \<open>What the shell reads\<close>

text \<open>
  The part of POSIX quoting that matters: a word ends at an unquoted semicolon or space, single
  quotes keep every character as it is, and outside them a backslash keeps the next one. Any
  other unquoted character may mean something to the shell, so the reader refuses it.
\<close>

fun sh_word :: "bool \<Rightarrow> string \<Rightarrow> (string \<times> string) option" where
  "sh_word True [] = None"
| "sh_word True (c # cs) =
     (if c = CHR 0x27 then sh_word False cs else map_option (\<lambda>(w, r). (c # w, r)) (sh_word True cs))"
| "sh_word False [] = Some ([], [])"
| "sh_word False (c # cs) =
     (if c = CHR 0x27 then sh_word True cs
      else if c = CHR 0x5C then (case cs of d # ds \<Rightarrow> map_option (\<lambda>(w, r). (d # w, r)) (sh_word False ds) | [] \<Rightarrow> None)
      else if c = CHR '';'' \<or> c = CHR '' '' then Some ([], c # cs)
      else None)"

text \<open>The first \<open>n\<close> commands of a script, when they are exports.\<close>

fun sh_exports :: "nat \<Rightarrow> string \<Rightarrow> ((string \<times> string) list \<times> string) option" where
  "sh_exports 0 s = Some ([], s)"
| "sh_exports (Suc n) s = (case strip_prefix ''export '' s of
     None \<Rightarrow> None
   | Some r \<Rightarrow> (case split_once (CHR ''='') r of
       None \<Rightarrow> None
     | Some (key, r) \<Rightarrow> if \<not> is_env_name key then None
         else (case sh_word False r of
           None \<Rightarrow> None
         | Some (v, r) \<Rightarrow> (case strip_prefix ''; '' r of
             None \<Rightarrow> None
           | Some r \<Rightarrow> map_option (\<lambda>(env, r). ((key, v) # env, r)) (sh_exports n r)))))"

lemma sh_word_quoted:
  "sh_word True (concat (map (\<lambda>c. if c = CHR 0x27 then [CHR 0x27, CHR 0x5C, CHR 0x27, CHR 0x27] else [c]) v) @ CHR 0x27 # r)
     = map_option (\<lambda>(w, r'). (v @ w, r')) (sh_word False r)"
proof (induction v)
  case (Cons c v)
  then show ?case by (cases "sh_word False r") auto
qed (cases "sh_word False r"; auto)

lemma sh_word_shell_quote: "sh_word False (shell_quote v @ CHR '';'' # r) = Some (v, CHR '';'' # r)"
  using sh_word_quoted [of v "CHR '';'' # r"] by (simp add: shell_quote_def)

lemma env_name_no_eq: "is_env_name key \<Longrightarrow> CHR ''='' \<notin> set key"
  by (auto simp: is_env_name_def list_all_iff char_class_defs)

text \<open>Property C30: a variable's value stays text. Whatever the values of the environment contain,
  a shell that runs the script sets exactly those variables to exactly those values and is
  then left with the command as it was written.\<close>

theorem environment_is_literal:
  assumes "list_all (\<lambda>(key, _). is_env_name key) env"
  shows "sh_exports (length env) (with_environment command env) = Some (env, command)"
  using assms
proof (induction env)
  case Nil
  then show ?case by (simp add: with_environment_def)
next
  case (Cons kv env)
  obtain key v where kv: "kv = (key, v)" by (cases kv)
  have key: "is_env_name key" using Cons.prems by (simp add: kv)
  let ?rest = "with_environment command env"
  have script: "with_environment command (kv # env) = ''export '' @ key @ CHR ''='' # shell_quote v @ CHR '';'' # CHR '' '' # ?rest"
    by (simp add: with_environment_def kv)
  have name: "split_once (CHR ''='') (key @ CHR ''='' # shell_quote v @ CHR '';'' # CHR '' '' # ?rest) =
      Some (key, shell_quote v @ CHR '';'' # CHR '' '' # ?rest)"
    using env_name_no_eq [OF key] by (simp add: split_once_Some)
  have word: "sh_word False (shell_quote v @ CHR '';'' # CHR '' '' # ?rest) = Some (v, CHR '';'' # CHR '' '' # ?rest)"
    by (rule sh_word_shell_quote)
  have ih: "sh_exports (length env) ?rest = Some (env, command)" using Cons by simp
  show ?case
    unfolding script by (simp add: name word key ih kv)
qed

definition demo_environment :: "string btree_map" where
  "demo_environment = [(''A'', ''it'' @ [CHR 0x27] @ ''s; rm $HOME''), (''B'', [])]"

lemma environment_is_literal_witness:
  "sh_exports 2 (with_environment ''make'' demo_environment) = Some (demo_environment, ''make'')"
proof -
  have "list_all (\<lambda>(key, _). is_env_name key) demo_environment" by code_simp
  moreover have "length demo_environment = 2" by code_simp
  ultimately show ?thesis using environment_is_literal [of demo_environment "''make''"] by simp
qed

end
