(* ===== verification/Ci_Runner.thy ===== *)
theory Ci_Runner
  imports Ci_Sandbox Projector_Ci Forge_Bus
begin

text \<open>
  Running a job (\<open>forge-ci/src/runner.rs\<close>, \<open>queue.rs\<close>, \<open>service.rs\<close>): the steps under the job's
  time budget, the log that is cut into chunks, the queue of leases, and one turn of a runner:
  claim, announce, run, report, acknowledge. The sandbox, the share-group client, the broker, the
  JSON encoders and the clock are parameters.
\<close>

section \<open>The steps of a job\<close>

datatype job_outcome = OutSucceeded | OutFailed "int option" | OutTimedOut | OutInfraFailed

definition outcome_str :: "job_outcome \<Rightarrow> string" where
  "outcome_str d = (case d of OutSucceeded \<Rightarrow> ''success'' | OutFailed _ \<Rightarrow> ''failed'' | OutTimedOut \<Rightarrow> ''timed_out''
     | OutInfraFailed \<Rightarrow> ''infra_failed'')"

definition outcome_exit_code :: "job_outcome \<Rightarrow> int option" where
  "outcome_exit_code d = (case d of OutSucceeded \<Rightarrow> Some 0 | OutFailed c \<Rightarrow> c | _ \<Rightarrow> None)"

fun btree_put :: "string \<Rightarrow> 'v \<Rightarrow> 'v btree_map \<Rightarrow> 'v btree_map" where
  "btree_put k v [] = [(k, v)]"
| "btree_put k v ((k', v') # m) =
     (if k = k' then (k, v) # m else if k < k' then (k, v) # (k', v') # m else (k', v') # btree_put k v m)"

definition btree_from :: "(string \<times> 'v) list \<Rightarrow> 'v btree_map" where
  "btree_from kvs = foldl (\<lambda>m (k, v). btree_put k v m) [] kvs"

text \<open>What the sandbox does with the step of an index: the command, the environment and the time that
  is left (in milliseconds) give a result, the lines of output and the time it took.\<close>

type_synonym sandbox = "nat \<Rightarrow> string \<Rightarrow> string btree_map \<Rightarrow> int \<Rightarrow> step_result \<times> string list \<times> int"

text \<open>The answer comes with the lines of the log and the commands that were run, each with the time
  it was given and the time it took.\<close>

fun run_steps :: "sandbox \<Rightarrow> string btree_map \<Rightarrow> int \<Rightarrow> nat \<Rightarrow> int \<Rightarrow> ci_step list \<Rightarrow>
    job_outcome \<times> string list \<times> (string \<times> int \<times> int) list" where
  "run_steps sb env budget i elapsed [] = (OutSucceeded, [''=== job succeeded''], [])"
| "run_steps sb env budget i elapsed (s # ss) =
     (let header = ''=== step '' @ show_nat (i + 1) @ '': '' @ step_label s;
          remaining = max 0 (budget - elapsed)
      in if remaining = 0 then (OutTimedOut, [header, ''=== job timed out''], [])
      else (case sb i (st_run s) env remaining of (r, lines, spent) \<Rightarrow>
        let ran = (st_run s, remaining, spent) in
        (case sr_outcome r of
           StepSucceeded \<Rightarrow> (case run_steps sb env budget (i + 1) (elapsed + spent) ss of
             (d, log, calls) \<Rightarrow> (d, header # lines @ log, ran # calls))
         | StepFailed c \<Rightarrow> (OutFailed (Some c), header # lines @ [''=== step failed with exit code '' @ show_int c], [ran])
         | StepTimedOut \<Rightarrow> (OutTimedOut, header # lines @ [''=== job timed out''], [ran])
         | StepInfraFailed \<Rightarrow> (OutInfraFailed, header # lines @ [''=== could not run this step: '' @
             (case sr_detail r of Some e \<Rightarrow> e | None \<Rightarrow> ''unknown'')], [ran]))))"

definition run_job :: "planned_job \<Rightarrow> sandbox \<Rightarrow> job_outcome \<times> string list \<times> (string \<times> int \<times> int) list" where
  "run_job job sb = run_steps sb (btree_from (pn_env job)) (pn_timeout_minutes job * 60 * 1000) 0 0 (pn_steps job)"

text \<open>The result of the step of an index as it was run.\<close>

definition step_at :: "sandbox \<Rightarrow> string btree_map \<Rightarrow> nat \<Rightarrow> string \<times> int \<times> int \<Rightarrow> step_outcome" where
  "step_at sb env i call = sr_outcome (fst (sb i (fst call) env (fst (snd call))))"

lemma run_steps_calls:
  assumes "run_steps sb env budget i elapsed ss = (d, log, calls)"
  shows "map fst calls = map st_run (take (length calls) ss) \<and> length calls \<le> length ss \<and>
    (\<forall>k < length calls - 1. step_at sb env (i + k) (calls ! k) = StepSucceeded) \<and>
    (d = OutSucceeded \<longleftrightarrow> length calls = length ss \<and> (\<forall>k < length calls. step_at sb env (i + k) (calls ! k) = StepSucceeded))"
  using assms
proof (induction sb env budget i elapsed ss arbitrary: d log calls rule: run_steps.induct)
  case (2 sb env budget i elapsed s ss)
  define remaining where "remaining = max 0 (budget - elapsed)"
  note prem = "2.prems"(1) [unfolded run_steps.simps Let_def, folded remaining_def]
  show ?case
  proof (cases "remaining = 0")
    case True
    then show ?thesis using prem by auto
  next
    case False
    obtain r lines spent where call: "sb i (st_run s) env remaining = (r, lines, spent)" by (metis prod_cases3)
    show ?thesis
    proof (cases "sr_outcome r = StepSucceeded")
      case True
      obtain d' log' calls' where rest: "run_steps sb env budget (i + 1) (elapsed + spent) ss = (d', log', calls')"
        by (metis prod_cases3)
      note IH = "2.IH" [OF refl remaining_def False call [symmetric] refl refl True rest]
      have eq: "d = d'" "calls = (st_run s, remaining, spent) # calls'"
        using prem False call True rest by auto
      have first: "step_at sb env i (st_run s, remaining, spent) = StepSucceeded"
        by (simp add: step_at_def call True)
      have all: "(\<forall>k < length calls. step_at sb env (i + k) (calls ! k) = StepSucceeded) \<longleftrightarrow>
          (\<forall>k < length calls'. step_at sb env (i + 1 + k) (calls' ! k) = StepSucceeded)"
        using first by (auto simp: eq(2) All_less_Suc2)
      have most: "\<forall>k < length calls - 1. step_at sb env (i + k) (calls ! k) = StepSucceeded"
      proof (intro allI impI)
        fix k assume "k < length calls - 1"
        then show "step_at sb env (i + k) (calls ! k) = StepSucceeded"
          using first IH by (cases k) (auto simp: eq(2))
      qed
      show ?thesis using IH all most by (simp add: eq)
    next
      case False
      note failed = False
      have one: "d \<noteq> OutSucceeded \<and> calls = [(st_run s, remaining, spent)]"
        using prem \<open>remaining \<noteq> 0\<close> call failed by (auto split: step_outcome.splits)
      then show ?thesis using failed by (simp add: step_at_def call)
    qed
  qed
qed simp

lemma run_steps_time:
  assumes "run_steps sb env budget i elapsed ss = (d, log, calls)" "elapsed \<le> budget"
    and "\<forall>i c left. 0 < left \<longrightarrow> 0 \<le> snd (snd (sb i c env left)) \<and> snd (snd (sb i c env left)) \<le> left"
  shows "elapsed + sum_list (map (\<lambda>(_, _, spent). spent) calls) \<le> budget \<and>
    list_all (\<lambda>(_, given, _). 0 < given \<and> given \<le> budget - elapsed) calls"
  using assms
proof (induction sb env budget i elapsed ss arbitrary: d log calls rule: run_steps.induct)
  case (2 sb env budget i elapsed s ss)
  define remaining where "remaining = max 0 (budget - elapsed)"
  note prem = "2.prems"(1) [unfolded run_steps.simps Let_def, folded remaining_def]
  show ?case
  proof (cases "remaining = 0")
    case True
    then show ?thesis using prem "2.prems"(2) by auto
  next
    case False
    then have left: "0 < remaining" by (simp add: remaining_def)
    obtain r lines spent where call: "sb i (st_run s) env remaining = (r, lines, spent)" by (metis prod_cases3)
    have spent: "0 \<le> spent" "spent \<le> remaining"
      using "2.prems"(3) [rule_format, of remaining i "st_run s"] left call by simp_all
    show ?thesis
    proof (cases "sr_outcome r = StepSucceeded")
      case True
      obtain d' log' calls' where rest: "run_steps sb env budget (i + 1) (elapsed + spent) ss = (d', log', calls')"
        by (metis prod_cases3)
      have "elapsed + spent \<le> budget" using spent(2) "2.prems"(2) by (simp add: remaining_def)
      note IH = "2.IH" [OF refl remaining_def False call [symmetric] refl refl True rest this "2.prems"(3)]
      have "calls = (st_run s, remaining, spent) # calls'"
        using prem False call True rest by auto
      then show ?thesis using IH left spent(1) by (auto simp: list_all_iff remaining_def)
    next
      case False
      have "calls = [(st_run s, remaining, spent)]"
        using prem left call False by (auto split: step_outcome.splits)
      then show ?thesis using spent(2) left "2.prems"(2) by (simp add: remaining_def)
    qed
  qed
qed simp

text \<open>Property C28: a job is the script it says. The commands that run are the first steps of the job
  in order, all of them succeeded except possibly the last one, and the job succeeds exactly when
  every step ran and succeeded; when no step takes longer than it was given, the steps together
  stay within the job's time limit, whatever way the script was split into steps.\<close>

theorem run_job_first_failure:
  assumes "run_job job sb = (d, log, calls)"
  shows "map fst calls = map st_run (take (length calls) (pn_steps job)) \<and>
    (\<forall>k < length calls - 1. step_at sb (btree_from (pn_env job)) k (calls ! k) = StepSucceeded) \<and>
    (d = OutSucceeded \<longleftrightarrow> length calls = length (pn_steps job) \<and>
       (\<forall>k < length calls. step_at sb (btree_from (pn_env job)) k (calls ! k) = StepSucceeded)) \<and>
    (0 \<le> pn_timeout_minutes job \<and> (\<forall>i c left. 0 < left \<longrightarrow> 0 \<le> snd (snd (sb i c (btree_from (pn_env job)) left)) \<and>
        snd (snd (sb i c (btree_from (pn_env job)) left)) \<le> left) \<longrightarrow>
      sum_list (map (\<lambda>(_, _, spent). spent) calls) \<le> pn_timeout_minutes job * 60000)"
proof -
  have run: "run_steps sb (btree_from (pn_env job)) (pn_timeout_minutes job * 60 * 1000) 0 0 (pn_steps job) = (d, log, calls)"
    using assms(1) by (simp add: run_job_def)
  have "sum_list (map (\<lambda>(_, _, spent). spent) calls) \<le> pn_timeout_minutes job * 60000"
    if "0 \<le> pn_timeout_minutes job" and steps: "\<forall>i c left. 0 < left \<longrightarrow> 0 \<le> snd (snd (sb i c (btree_from (pn_env job)) left)) \<and>
        snd (snd (sb i c (btree_from (pn_env job)) left)) \<le> left"
  proof -
    have budget: "0 \<le> pn_timeout_minutes job * 60 * 1000" using that(1) by simp
    from run_steps_time [OF run budget steps] show ?thesis by simp
  qed
  with run_steps_calls [OF run] show ?thesis by simp
qed

definition demo_job :: planned_job where
  "demo_job = \<lparr>pn_name = ''test'', pn_image = ''rust'', pn_timeout_minutes = 5, pn_env = [],
     pn_steps = [\<lparr>st_name = None, st_run = ''a''\<rparr>, \<lparr>st_name = None, st_run = ''b''\<rparr>, \<lparr>st_name = None, st_run = ''c''\<rparr>]\<rparr>"

definition demo_sandbox :: sandbox where
  "demo_sandbox i c env left = (if c = ''b'' then step_failed 7 else step_ok, [c], min left 1000)"

lemma run_job_witness:
  "\<exists>log calls. run_job demo_job demo_sandbox = (OutFailed (Some 7), log, calls) \<and> map fst calls = [''a'', ''b''] \<and>
    sum_list (map (\<lambda>(_, _, spent). spent) calls) \<le> 300000"
proof -
  have run: "run_job demo_job demo_sandbox = (OutFailed (Some 7), [''=== step 1: a'', ''a'', ''=== step 2: b'', ''b'',
      ''=== step failed with exit code 7''], [(''a'', 300000 :: int, 1000 :: int), (''b'', 299000, 1000)])" by code_simp
  have "0 \<le> pn_timeout_minutes demo_job" by (simp add: demo_job_def)
  moreover have "\<forall>i c left. 0 < left \<longrightarrow> 0 \<le> snd (snd (demo_sandbox i c (btree_from (pn_env demo_job)) left)) \<and>
      snd (snd (demo_sandbox i c (btree_from (pn_env demo_job)) left)) \<le> left"
    by (simp add: demo_sandbox_def)
  ultimately have "sum_list (map (\<lambda>(_, _, spent). spent) [(''a'', 300000 :: int, 1000 :: int), (''b'', 299000, 1000)])
      \<le> pn_timeout_minutes demo_job * 60000"
    using run_job_first_failure [OF run] by blast
  then show ?thesis using run by (simp add: demo_job_def)
qed

section \<open>The log\<close>

definition LOG_CHUNK_BYTES :: int where "LOG_CHUNK_BYTES = 65536"

record topic_log =
  tg_buffer :: string
  tg_sequence :: int
  tg_pending :: "(int \<times> string) list"

definition topic_log_new :: topic_log where
  "topic_log_new = \<lparr>tg_buffer = [], tg_sequence = 0, tg_pending = []\<rparr>"

definition seal :: "topic_log \<Rightarrow> topic_log" where
  "seal l = (if tg_buffer l = [] then l else
     l\<lparr>tg_buffer := [], tg_pending := tg_pending l @ [(tg_sequence l, tg_buffer l)], tg_sequence := tg_sequence l + 1\<rparr>)"

definition log_line :: "string \<Rightarrow> topic_log \<Rightarrow> topic_log" where
  "log_line line l = (let l = l\<lparr>tg_buffer := tg_buffer l @ line @ [CHR 0x0A]\<rparr> in
     if int (length (tg_buffer l)) \<ge> LOG_CHUNK_BYTES then seal l else l)"

text \<open>The encoders of the records on the three topics a runner deals with.\<close>

record queued_job =
  qj_job_id :: string
  qj_run_id :: string
  qj_repo_id :: string
  qj_head_oid :: string
  qj_job :: planned_job

record 'j ci_codec =
  cc_event :: "ci_event envelope \<Rightarrow> 'j"
  cc_fmt :: "int \<Rightarrow> string option"
  cc_queued :: "queued_job \<Rightarrow> 'j"
  cc_chunk :: "string \<Rightarrow> int \<Rightarrow> string \<Rightarrow> bool \<Rightarrow> 'j"

definition ci_record :: "'j ci_codec \<Rightarrow> string \<times> int \<Rightarrow> ci_event \<Rightarrow> 'j pending_record" where
  "ci_record c minted ev = pending_event ci_event_topic (cc_event c) (cc_fmt c)
     (envelope_new ci_event_type ci_event_aggregate_id (fst minted) (snd minted) ev None)"

definition chunk_record :: "'j ci_codec \<Rightarrow> string \<Rightarrow> int \<times> string \<Rightarrow> bool \<Rightarrow> 'j pending_record" where
  "chunk_record c job chunk eof = pending_state CI_LOGS job (cc_chunk c job (fst chunk) (snd chunk) eof)"

text \<open>\<open>flush\<close> empties the pending chunks before it writes them.\<close>

definition flush_records :: "'j ci_codec \<Rightarrow> string \<Rightarrow> bool \<Rightarrow> topic_log \<Rightarrow> 'j pending_record list \<times> topic_log" where
  "flush_records c job final_chunk l = (let l = seal l in
     if tg_pending l = [] \<and> \<not> final_chunk then ([], l)
     else (map (\<lambda>chunk. chunk_record c job chunk False) (tg_pending l) @
         (if final_chunk then [chunk_record c job (tg_sequence l, []) True] else []),
       l\<lparr>tg_pending := []\<rparr>))"

definition log_all :: "string list \<Rightarrow> topic_log \<Rightarrow> topic_log" where
  "log_all lines l = foldl (\<lambda>l line. log_line line l) l lines"

text \<open>Everything a log holds, and what it must keep to.\<close>

definition log_text :: "topic_log \<Rightarrow> string" where
  "log_text l = concat (map snd (tg_pending l)) @ tg_buffer l"

definition log_ok :: "topic_log \<Rightarrow> bool" where
  "log_ok l \<longleftrightarrow> map fst (tg_pending l) = map int [0..<length (tg_pending l)] \<and>
     tg_sequence l = int (length (tg_pending l)) \<and> list_all (\<lambda>(_, chunk). chunk \<noteq> []) (tg_pending l)"

lemma seal_ok: "log_ok l \<Longrightarrow> log_ok (seal l) \<and> log_text (seal l) = log_text l \<and> tg_buffer (seal l) = []"
  by (auto simp: seal_def log_ok_def log_text_def)

lemma log_line_ok: "log_ok l \<Longrightarrow> log_ok (log_line line l) \<and> log_text (log_line line l) = log_text l @ line @ [CHR 0x0A]"
  using seal_ok [of "l\<lparr>tg_buffer := tg_buffer l @ line @ [CHR 0x0A]\<rparr>"]
  by (auto simp: log_line_def Let_def log_ok_def log_text_def)

lemma log_all_ok:
  "log_ok l \<Longrightarrow> log_ok (log_all lines l) \<and> log_text (log_all lines l) = log_text l @ concat (map (\<lambda>x. x @ [CHR 0x0A]) lines)"
proof (induction lines arbitrary: l)
  case (Cons x lines)
  from log_line_ok [OF Cons.prems] Cons.IH [of "log_line x l"] show ?case by (simp add: log_all_def)
qed (simp add: log_all_def)

text \<open>The log is complete. Whatever lines a job prints, the chunks of its final flush
  are numbered from zero without a gap, none of them is empty, put together they are exactly the
  lines in order, and one end marker with the next number follows them.\<close>

theorem log_is_complete:
  "\<exists>chunks. fst (flush_records c job True (log_all lines topic_log_new)) =
      map (\<lambda>chunk. chunk_record c job chunk False) chunks @ [chunk_record c job (int (length chunks), []) True] \<and>
    map fst chunks = map int [0..<length chunks] \<and> [] \<notin> snd ` set chunks \<and>
    concat (map snd chunks) = concat (map (\<lambda>x. x @ [CHR 0x0A]) lines)"
proof -
  have new: "log_ok topic_log_new" "log_text topic_log_new = []"
    by (simp_all add: log_ok_def log_text_def topic_log_new_def)
  note all = log_all_ok [OF new(1), of lines]
  let ?l = "seal (log_all lines topic_log_new)"
  have ok: "log_ok ?l" "log_text ?l = concat (map (\<lambda>x. x @ [CHR 0x0A]) lines)" "tg_buffer ?l = []"
    using seal_ok [OF conjunct1 [OF all]] all new(2) by simp_all
  then show ?thesis
    by (intro exI [of _ "tg_pending ?l"])
       (auto simp: flush_records_def Let_def log_ok_def log_text_def list_all_iff)
qed

end
