(* ===== verification/Ci_Service.thy ===== *)
theory Ci_Service
  imports Ci_Runner
begin

text \<open>
  The queue of jobs and one turn of a runner (\<open>forge-ci/src/queue.rs\<close>, \<open>service.rs\<close>): a lease is
  handed out of the batch the last poll acquired, the job is claimed by a compare-and-swap on its
  row, started, run, its log flushed, its result reported, and the lease accepted. The
  share-group client is outside: what a poll returns and whether a call fails are arguments, and
  the calls made to it are kept in order.
\<close>

section \<open>The queue\<close>

definition RUNNER_GROUP :: string where "RUNNER_GROUP = ''forge.ci.runners''"

datatype disposition = DispDone | DispRelease | DispReject

datatype ack_type = AckAccept | AckRelease | AckReject

record 'j share_record =
  sh_value :: "'j option"
  sh_offset :: int
  sh_delivery_count :: int

record 'j lease =
  ls_job :: queued_job
  ls_delivery :: int
  ls_record :: "'j share_record"

datatype 'j share_call = Acknowledge "'j share_record" ack_type | Commit

record 'j job_queue =
  jq_acquired :: "'j share_record list"
  jq_calls :: "'j share_call list"

text \<open>How the client answers: a poll, an acknowledgement, a commit.\<close>

record 'j queue_env =
  qe_poll :: "('j share_record list, string) result"
  qe_ack :: "'j share_record \<Rightarrow> string option"
  qe_commit :: "string option"

definition queue_open :: "'j job_queue" where
  "queue_open = \<lparr>jq_acquired = [], jq_calls = []\<rparr>"

definition acknowledge :: "'j queue_env \<Rightarrow> 'j share_record \<Rightarrow> ack_type \<Rightarrow> 'j job_queue \<Rightarrow> (unit, string) result \<times> 'j job_queue" where
  "acknowledge env r a q = (case qe_ack env r of
     Some e \<Rightarrow> (Err e, q) | None \<Rightarrow> (Ok (), q\<lparr>jq_calls := jq_calls q @ [Acknowledge r a]\<rparr>))"

definition commit_acks :: "'j queue_env \<Rightarrow> 'j job_queue \<Rightarrow> (unit, string) result \<times> 'j job_queue" where
  "commit_acks env q = (case qe_commit env of
     Some e \<Rightarrow> (Err e, q) | None \<Rightarrow> (Ok (), q\<lparr>jq_calls := jq_calls q @ [Commit]\<rparr>))"

definition decode_job :: "('j \<Rightarrow> queued_job option) \<Rightarrow> 'j share_record \<Rightarrow> queued_job option" where
  "decode_job from_slice r = (case sh_value r of None \<Rightarrow> None | Some bytes \<Rightarrow> from_slice bytes)"

text \<open>The loop of \<open>next\<close> over the acquired records; \<open>jq_acquired\<close> is what is still to be looked at.\<close>

fun hand_out ::
    "('j \<Rightarrow> queued_job option) \<Rightarrow> 'j queue_env \<Rightarrow> 'j share_record list \<Rightarrow> 'j job_queue \<Rightarrow>
      ('j lease option, string) result \<times> 'j job_queue" where
  "hand_out from_slice env [] q = (case commit_acks env (q\<lparr>jq_acquired := []\<rparr>) of
     (Err e, q') \<Rightarrow> (Err e, q') | (Ok _, q') \<Rightarrow> (Ok None, q'))"
| "hand_out from_slice env (r # rs) q = (case decode_job from_slice r of
     Some job \<Rightarrow> (Ok (Some \<lparr>ls_job = job, ls_delivery = max 1 (sh_delivery_count r), ls_record = r\<rparr>),
       q\<lparr>jq_acquired := rs\<rparr>)
   | None \<Rightarrow> (case acknowledge env r AckReject (q\<lparr>jq_acquired := rs\<rparr>) of
       (Err e, q') \<Rightarrow> (Err e, q') | (Ok _, q') \<Rightarrow> hand_out from_slice env rs q'))"

definition queue_next ::
    "('j \<Rightarrow> queued_job option) \<Rightarrow> 'j queue_env \<Rightarrow> 'j job_queue \<Rightarrow> ('j lease option, string) result \<times> 'j job_queue" where
  "queue_next from_slice env q =
     (if jq_acquired q = [] then
        (case qe_poll env of Err e \<Rightarrow> (Err e, q) | Ok rs \<Rightarrow> hand_out from_slice env rs q)
      else hand_out from_slice env (jq_acquired q) q)"

definition buffered :: "'j job_queue \<Rightarrow> nat" where
  "buffered q = length (jq_acquired q)"

definition ack_of :: "disposition \<Rightarrow> ack_type" where
  "ack_of d = (case d of DispDone \<Rightarrow> AckAccept | DispRelease \<Rightarrow> AckRelease | DispReject \<Rightarrow> AckReject)"

definition settle :: "'j queue_env \<Rightarrow> 'j lease \<Rightarrow> disposition \<Rightarrow> 'j job_queue \<Rightarrow> (unit, string) result \<times> 'j job_queue" where
  "settle env l d q = (case acknowledge env (ls_record l) (ack_of d) q of
     (Err e, q') \<Rightarrow> (Err e, q') | (Ok _, q') \<Rightarrow> commit_acks env q')"

section \<open>A turn of the runner\<close>

datatype service_error = SvcQueue string | SvcStore sql_error | SvcWrite write_error

definition UUID_NIL :: string where "UUID_NIL = ''00000000-0000-0000-0000-000000000000''"

definition uuid_or_nil :: "(string \<Rightarrow> string option) \<Rightarrow> string \<Rightarrow> string" where
  "uuid_or_nil parse_uuid s = (case parse_uuid s of Some u \<Rightarrow> u | None \<Rightarrow> UUID_NIL)"

definition conclusion_of_outcome :: "job_outcome \<Rightarrow> job_conclusion" where
  "conclusion_of_outcome d = (case d of OutSucceeded \<Rightarrow> JobSuccess | OutFailed _ \<Rightarrow> JobFailed
     | OutTimedOut \<Rightarrow> JobTimedOut | OutInfraFailed \<Rightarrow> JobInfraFailed)"

text \<open>What a runner is given: the encoders, the reader of an identifier, where a job can run, the
  minted id and the time of the two events, and what happens to its three transactions.\<close>

record 'j runner_env =
  re_codec :: "'j ci_codec"
  re_uuid :: "string \<Rightarrow> string option"
  re_create :: "queued_job \<Rightarrow> (sandbox, string) result"
  re_start_minted :: "string \<times> int"
  re_finish_minted :: "string \<times> int"
  re_start_txn :: txn_env
  re_log_txn :: txn_env
  re_finish_txn :: txn_env

definition started_event :: "'j runner_env \<Rightarrow> queued_job \<Rightarrow> int \<Rightarrow> ci_event" where
  "started_event re job attempt = JobStarted (uuid_or_nil (re_uuid re) (qj_job_id job))
     (uuid_or_nil (re_uuid re) (qj_run_id job)) (uuid_or_nil (re_uuid re) (qj_repo_id job)) attempt 0"

definition finished_event :: "'j runner_env \<Rightarrow> queued_job \<Rightarrow> int \<Rightarrow> job_outcome \<Rightarrow> ci_event" where
  "finished_event re job attempt d = JobFinished (uuid_or_nil (re_uuid re) (qj_job_id job))
     (uuid_or_nil (re_uuid re) (qj_run_id job)) (uuid_or_nil (re_uuid re) (qj_repo_id job)) attempt
     (conclusion_of_outcome d) (outcome_exit_code d)"

text \<open>What the job does: its outcome and the lines of its log.\<close>

definition perform :: "'j runner_env \<Rightarrow> queued_job \<Rightarrow> job_outcome \<times> string list" where
  "perform re job = (case re_create re job of
     Ok sb \<Rightarrow> (case run_job (qj_job job) sb of (d, lines, _) \<Rightarrow> (d, lines))
   | Err reason \<Rightarrow> (OutInfraFailed, [''=== could not prepare a sandbox: '' @ reason]))"

definition execute ::
    "'j runner_env \<Rightarrow> queued_job \<Rightarrow> int \<Rightarrow> writer \<Rightarrow> (job_outcome, service_error) result \<times> writer \<times> 'j pending_record list" where
  "execute re job attempt w = (let c = re_codec re in
     case transact (re_start_txn re) [ci_record c (re_start_minted re) (started_event re job attempt)] w of
       (Err e, w1, l1) \<Rightarrow> (Err (SvcWrite e), w1, l1)
     | (Ok _, w1, l1) \<Rightarrow>
         (case perform re job of (outcome, lines) \<Rightarrow>
           (case transact (re_log_txn re) (fst (flush_records c (qj_job_id job) True (log_all lines topic_log_new))) w1 of
              (Err e, w2, l2) \<Rightarrow> (Err (SvcWrite e), w2, l1 @ l2)
            | (Ok _, w2, l2) \<Rightarrow>
                (case transact (re_finish_txn re) [ci_record c (re_finish_minted re) (finished_event re job attempt outcome)] w2 of
                   (Err e, w3, l3) \<Rightarrow> (Err (SvcWrite e), w3, l1 @ l2 @ l3)
                 | (Ok _, w3, l3) \<Rightarrow> (Ok outcome, w3, l1 @ l2 @ l3)))))"

text \<open>\<open>step\<close>: the table is the one every runner claims in; \<open>fault\<close> is a claim the database refuses.\<close>

definition runner_step ::
    "('j \<Rightarrow> queued_job option) \<Rightarrow> 'j queue_env \<Rightarrow> 'j queue_env \<Rightarrow> sql_error option \<Rightarrow> timestamp \<Rightarrow> 'j runner_env \<Rightarrow>
      'j job_queue \<Rightarrow> jobs_table \<Rightarrow> writer \<Rightarrow>
      (bool, service_error) result \<times> 'j job_queue \<times> jobs_table \<times> writer \<times> 'j pending_record list" where
  "runner_step from_slice next_env settle_env fault claimed_at re q jobs w =
     (case queue_next from_slice next_env q of
        (Err e, q1) \<Rightarrow> (Err (SvcQueue e), q1, jobs, w, [])
      | (Ok None, q1) \<Rightarrow> (Ok False, q1, jobs, w, [])
      | (Ok (Some l), q1) \<Rightarrow>
          (case fault of
             Some e \<Rightarrow> (Err (SvcStore e), q1, jobs, w, [])
           | None \<Rightarrow>
               (case claim_job (qj_job_id (ls_job l)) (ls_delivery l) 0 claimed_at jobs of
                  (False, jobs1) \<Rightarrow>
                    (case settle settle_env l DispDone q1 of
                       (Err e, q2) \<Rightarrow> (Err (SvcQueue e), q2, jobs1, w, [])
                     | (Ok _, q2) \<Rightarrow> (Ok True, q2, jobs1, w, []))
                | (True, jobs1) \<Rightarrow>
                    (case execute re (ls_job l) (ls_delivery l) w of
                       (Err e, w1, landed) \<Rightarrow> (Err e, q1, jobs1, w1, landed)
                     | (Ok outcome, w1, landed) \<Rightarrow>
                         (case settle settle_env l DispDone q1 of
                            (Err e, q2) \<Rightarrow> (Err (SvcQueue e), q2, jobs1, w1, landed)
                          | (Ok _, q2) \<Rightarrow> (Ok True, q2, jobs1, w1, landed))))))"

section \<open>What an acceptance means\<close>

definition rejections :: "'j share_record list \<Rightarrow> 'j share_call list" where
  "rejections rs = map (\<lambda>r. Acknowledge r AckReject) rs"

lemma hand_out_lease:
  "hand_out from_slice env rs q = (Ok (Some l), q') \<Longrightarrow>
    \<exists>skipped. rs = skipped @ ls_record l # jq_acquired q' \<and> list_all (\<lambda>r. decode_job from_slice r = None) skipped \<and>
      decode_job from_slice (ls_record l) = Some (ls_job l) \<and> 1 \<le> ls_delivery l \<and>
      jq_calls q' = jq_calls q @ rejections skipped"
proof (induction from_slice env rs q rule: hand_out.induct)
  case (1 from_slice env q)
  then show ?case by (auto split: prod.splits sum.splits)
next
  case (2 from_slice env r rs q)
  show ?case
  proof (cases "decode_job from_slice r")
    case (Some job)
    then show ?thesis using 2 by (intro exI [of _ "[]"]) (auto simp: rejections_def)
  next
    case None
    then have ack: "qe_ack env r = None" and
      rest: "hand_out from_slice env rs (q\<lparr>jq_acquired := rs, jq_calls := jq_calls q @ [Acknowledge r AckReject]\<rparr>) = (Ok (Some l), q')"
      using "2.prems" by (auto simp: acknowledge_def split: option.splits)
    have "acknowledge env r AckReject (q\<lparr>jq_acquired := rs\<rparr>) =
        (Ok (), q\<lparr>jq_acquired := rs, jq_calls := jq_calls q @ [Acknowledge r AckReject]\<rparr>)"
      by (simp add: acknowledge_def ack)
    from "2.IH" [OF None this [symmetric] refl rest] obtain skipped where
      "rs = skipped @ ls_record l # jq_acquired q'" "list_all (\<lambda>r. decode_job from_slice r = None) skipped"
      "decode_job from_slice (ls_record l) = Some (ls_job l)" "1 \<le> ls_delivery l"
      "jq_calls q' = jq_calls q @ Acknowledge r AckReject # rejections skipped"
      by auto
    with None show ?thesis by (intro exI [of _ "r # skipped"]) (simp add: rejections_def)
  qed
qed

text \<open>The lease is the first readable record of the batch; what was passed over is rejected.\<close>

lemma queue_next_lease:
  assumes "queue_next from_slice env q = (Ok (Some l), q')"
  obtains skipped where
    "(if jq_acquired q = [] then qe_poll env else Ok (jq_acquired q)) = Ok (skipped @ ls_record l # jq_acquired q')"
    and "list_all (\<lambda>r. decode_job from_slice r = None) skipped"
    and "decode_job from_slice (ls_record l) = Some (ls_job l)" and "1 \<le> ls_delivery l"
    and "jq_calls q' = jq_calls q @ rejections skipped"
proof -
  obtain rs where rs: "(if jq_acquired q = [] then qe_poll env else Ok (jq_acquired q)) = Ok rs"
    and out: "hand_out from_slice env rs q = (Ok (Some l), q')"
    using assms by (auto simp: queue_next_def split: if_splits sum.splits)
  from hand_out_lease [OF out] obtain skipped where "rs = skipped @ ls_record l # jq_acquired q'"
    "list_all (\<lambda>r. decode_job from_slice r = None) skipped"
    "decode_job from_slice (ls_record l) = Some (ls_job l)" "1 \<le> ls_delivery l"
    "jq_calls q' = jq_calls q @ rejections skipped" by blast
  with rs that show thesis by simp
qed

lemma settle_cases:
  assumes "settle env l d q = (answer, q')"
  shows "(answer = Ok () \<and> jq_calls q' = jq_calls q @ [Acknowledge (ls_record l) (ack_of d), Commit]) \<or> (\<exists>e. answer = Err e)"
  using assms by (auto simp: settle_def acknowledge_def commit_acks_def split: option.splits)

text \<open>Everything a job that ran puts on the log, in order.\<close>

definition job_records :: "'j runner_env \<Rightarrow> queued_job \<Rightarrow> int \<Rightarrow> 'j pending_record list" where
  "job_records re job attempt = (case perform re job of (d, lines) \<Rightarrow>
     ci_record (re_codec re) (re_start_minted re) (started_event re job attempt) #
     fst (flush_records (re_codec re) (qj_job_id job) True (log_all lines topic_log_new)) @
     [ci_record (re_codec re) (re_finish_minted re) (finished_event re job attempt d)])"

lemma execute_records:
  assumes "broker_truthful (re_start_txn re)" "broker_truthful (re_log_txn re)" "broker_truthful (re_finish_txn re)"
    and "execute re job attempt w = (Ok d, w', landed)"
  shows "landed = job_records re job attempt \<and> d = fst (perform re job)"
proof -
  obtain outcome lines where p: "perform re job = (outcome, lines)" by (cases "perform re job")
  let ?r1 = "[ci_record (re_codec re) (re_start_minted re) (started_event re job attempt)]"
  let ?r2 = "fst (flush_records (re_codec re) (qj_job_id job) True (log_all lines topic_log_new))"
  let ?r3 = "[ci_record (re_codec re) (re_finish_minted re) (finished_event re job attempt outcome)]"
  obtain a1 w1 l1 where t1: "transact (re_start_txn re) ?r1 w = (a1, w1, l1)" by (metis prod_cases3)
  obtain a2 w2 l2 where t2: "transact (re_log_txn re) ?r2 w1 = (a2, w2, l2)" by (metis prod_cases3)
  obtain a3 w3 l3 where t3: "transact (re_finish_txn re) ?r3 w2 = (a3, w3, l3)" by (metis prod_cases3)
  obtain o1 where o1: "a1 = Ok o1" using assms(4) by (cases a1) (auto simp: execute_def Let_def t1)
  obtain o2 where o2: "a2 = Ok o2" using assms(4) by (cases a2) (auto simp: execute_def Let_def t1 o1 p t2)
  obtain o3 where o3: "a3 = Ok o3" using assms(4) by (cases a3) (auto simp: execute_def Let_def t1 o1 p t2 o2 t3)
  have "l1 = ?r1" "l2 = ?r2" "l3 = ?r3"
    using transact_landed(1) [OF t1 assms(1) o1] transact_landed(1) [OF t2 assms(2) o2]
      transact_landed(1) [OF t3 assms(3) o3] by simp_all
  then show ?thesis using assms(4) by (auto simp: execute_def Let_def t1 o1 p t2 o2 t3 o3 job_records_def)
qed

text \<open>What a reader of the log must find for an attempt: the job has started; its log is there, in
  chunks numbered from zero that give all of its lines, with an end marker; and its result follows.
  The lines and the result are those of the script, or of a sandbox that could not be had.\<close>

definition log_written :: "'j ci_codec \<Rightarrow> string \<Rightarrow> string list \<Rightarrow> 'j pending_record list \<Rightarrow> bool" where
  "log_written c job lines rs \<longleftrightarrow> (\<exists>chunks.
     map pr_value rs = map (\<lambda>k. Some (cc_chunk c job (int k) (chunks ! k) False)) [0..<length chunks] @
       [Some (cc_chunk c job (int (length chunks)) [] True)] \<and>
     concat chunks = concat (map (\<lambda>line. line @ [CHR 0x0A]) lines) \<and>
     (\<forall>r\<in>set rs. pr_topic r = CI_LOGS \<and> pr_key r = job))"

definition result_of_job :: "'j runner_env \<Rightarrow> queued_job \<Rightarrow> string list \<Rightarrow> job_conclusion \<Rightarrow> int option \<Rightarrow> bool" where
  "result_of_job re job lines conclusion exit_code \<longleftrightarrow> (case re_create re job of
     Err reason \<Rightarrow> lines = [''=== could not prepare a sandbox: '' @ reason] \<and> conclusion = JobInfraFailed \<and> exit_code = None
   | Ok sb \<Rightarrow> (case run_job (qj_job job) sb of (d, printed, _) \<Rightarrow> lines = printed \<and>
       (d = OutSucceeded \<and> conclusion = JobSuccess \<and> exit_code = Some 0 \<or>
        d = OutFailed exit_code \<and> conclusion = JobFailed \<or>
        d = OutTimedOut \<and> conclusion = JobTimedOut \<and> exit_code = None \<or>
        d = OutInfraFailed \<and> conclusion = JobInfraFailed \<and> exit_code = None)))"

definition attempt_reported :: "'j runner_env \<Rightarrow> queued_job \<Rightarrow> int \<Rightarrow> 'j pending_record list \<Rightarrow> bool" where
  "attempt_reported re job attempt rs \<longleftrightarrow> (\<exists>started printed finished s f lines conclusion exit_code.
     rs = started # printed @ [finished] \<and> log_written (re_codec re) (qj_job_id job) lines printed \<and>
     pr_topic started = EVENTS_CI \<and> pr_value started = Some (cc_event (re_codec re) s) \<and>
     payload s = JobStarted (uuid_or_nil (re_uuid re) (qj_job_id job)) (uuid_or_nil (re_uuid re) (qj_run_id job))
       (uuid_or_nil (re_uuid re) (qj_repo_id job)) attempt 0 \<and>
     pr_topic finished = EVENTS_CI \<and> pr_value finished = Some (cc_event (re_codec re) f) \<and>
     payload f = JobFinished (uuid_or_nil (re_uuid re) (qj_job_id job)) (uuid_or_nil (re_uuid re) (qj_run_id job))
       (uuid_or_nil (re_uuid re) (qj_repo_id job)) attempt conclusion exit_code \<and>
     result_of_job re job lines conclusion exit_code)"

lemma flushed_log: "log_written c job lines (fst (flush_records c job True (log_all lines topic_log_new)))"
proof -
  obtain chunks where flushed: "fst (flush_records c job True (log_all lines topic_log_new)) =
      map (\<lambda>chunk. chunk_record c job chunk False) chunks @ [chunk_record c job (int (length chunks), []) True]"
    and numbers: "map fst chunks = map int [0..<length chunks]"
    and whole: "concat (map snd chunks) = concat (map (\<lambda>x. x @ [CHR 0x0A]) lines)"
    using log_is_complete [of c job lines] by blast
  have "fst (chunks ! k) = int k" if "k < length chunks" for k
    using arg_cong [OF numbers, of "\<lambda>l. l ! k"] that by simp
  then have "map pr_value (map (\<lambda>chunk. chunk_record c job chunk False) chunks) =
      map (\<lambda>k. Some (cc_chunk c job (int k) (map snd chunks ! k) False)) [0..<length (map snd chunks)]"
    by (intro nth_equalityI) (simp_all add: chunk_record_def pending_state_def)
  then show ?thesis unfolding log_written_def flushed
    by (intro exI [of _ "map snd chunks"]) (auto simp: whole chunk_record_def pending_state_def)
qed

lemma performed_result:
  "perform re job = (d, lines) \<Longrightarrow> result_of_job re job lines (conclusion_of_outcome d) (outcome_exit_code d)"
  by (cases d) (auto simp: perform_def result_of_job_def conclusion_of_outcome_def outcome_exit_code_def
      split: sum.splits prod.splits)

lemma ci_record_simps:
  "pr_topic (ci_record c minted ev) = EVENTS_CI"
  "pr_value (ci_record c minted ev) = Some (cc_event c (envelope_new ci_event_type ci_event_aggregate_id (fst minted) (snd minted) ev None))"
  "payload (envelope_new ty agg new_id at ev who) = ev"
  by (simp_all add: ci_record_def pending_event_def envelope_new_def ci_event_topic_def)

lemma job_records_reported: "attempt_reported re job attempt (job_records re job attempt)"
proof -
  obtain d lines where p: "perform re job = (d, lines)" by (cases "perform re job")
  let ?env = "\<lambda>minted ev. envelope_new ci_event_type ci_event_aggregate_id (fst minted) (snd minted) ev None"
  let ?log = "fst (flush_records (re_codec re) (qj_job_id job) True (log_all lines topic_log_new))"
  show ?thesis
    unfolding attempt_reported_def job_records_def p prod.case
    by (rule exI [of _ "ci_record (re_codec re) (re_start_minted re) (started_event re job attempt)"], rule exI [of _ ?log],
        rule exI [of _ "ci_record (re_codec re) (re_finish_minted re) (finished_event re job attempt d)"],
        rule exI [of _ "?env (re_start_minted re) (started_event re job attempt)"],
        rule exI [of _ "?env (re_finish_minted re) (finished_event re job attempt d)"], rule exI [of _ lines],
        rule exI [of _ "conclusion_of_outcome d"], rule exI [of _ "outcome_exit_code d"])
       (simp only: ci_record_simps flushed_log performed_result [OF p] started_event_def finished_event_def simp_thms)
qed

definition job_waiting :: "string \<Rightarrow> jobs_table \<Rightarrow> bool" where
  "job_waiting j jobs = (case tbl_get jobs j of Some r \<Rightarrow> jb_status r = ''queued'' | None \<Rightarrow> False)"

lemma claim_job_waiting: "claim_job j a lo at jobs = (b, jobs') \<Longrightarrow> b = job_waiting j jobs \<and> (\<not> b \<longrightarrow> jobs' = jobs)"
  using update_where_hit [of j "\<lambda>r. jb_status r = ''queued''"]
  by (fastforce simp: claim_job_def job_waiting_def)

lemma claimed_not_waiting: "claim_job j a lo at jobs = (b, jobs') \<Longrightarrow> tbl_wf jobs \<Longrightarrow> \<not> job_waiting j jobs'"
  by (auto simp: claim_job_def update_where_def job_waiting_def split: option.splits if_splits)

text \<open>Property C26: what an accepted job accounts for. When a runner does anything to the lease of a
  job that was waiting, the log has, in this order, the start of that attempt, every line the job
  printed, in chunks numbered without a gap and closed by an end marker, and the result: success
  exactly for a script that succeeded, the exit code of the step that failed, a timeout, or that the
  forge is to blame. A lease whose job was not waiting (another runner has it, the projection has
  not seen it yet, or the runner that had it died) is accepted too, without a trace in the log and
  with its row left alone, whether or not its result is known. A turn that succeeds accepts exactly
  the lease it was given.\<close>

theorem runner_step_accounts:
  assumes "broker_truthful (re_start_txn re)" "broker_truthful (re_log_txn re)" "broker_truthful (re_finish_txn re)"
    and "queue_next from_slice next_env q = (Ok (Some l), q1)"
    and "runner_step from_slice next_env settle_env fault now re q jobs w = (answer, q', jobs', w', landed)"
  shows "(job_waiting (qj_job_id (ls_job l)) jobs \<and> jq_calls q' \<noteq> jq_calls q1 \<longrightarrow>
      attempt_reported re (ls_job l) (ls_delivery l) landed) \<and>
    (\<not> job_waiting (qj_job_id (ls_job l)) jobs \<longrightarrow> landed = [] \<and> jobs' = jobs) \<and>
    (case answer of Ok worked \<Rightarrow> worked \<and> jq_calls q' = jq_calls q1 @ [Acknowledge (ls_record l) AckAccept, Commit]
     | Err _ \<Rightarrow> True)"
proof (cases fault)
  case (Some e)
  then show ?thesis using assms(4,5) by (auto simp: runner_step_def)
next
  case None
  obtain b jobs1 where claim: "claim_job (qj_job_id (ls_job l)) (ls_delivery l) 0 now jobs = (b, jobs1)" by fastforce
  note waiting = claim_job_waiting [OF claim]
  obtain a2 q2 where set: "settle settle_env l DispDone q1 = (a2, q2)" by fastforce
  note settled = settle_cases [OF set]
  show ?thesis
  proof (cases b)
    case False
    then show ?thesis
      using assms(5) waiting settled by (auto simp: runner_step_def assms(4) None claim set ack_of_def split: sum.splits)
  next
    case True
    obtain d w1 recs where run: "execute re (ls_job l) (ls_delivery l) w = (d, w1, recs)" by (metis prod_cases3)
    show ?thesis
    proof (cases d)
      case (Inl e)
      then show ?thesis using assms(5) waiting True by (auto simp: runner_step_def assms(4) None claim run)
    next
      case (Inr outcome)
      have "attempt_reported re (ls_job l) (ls_delivery l) recs"
        using execute_records [OF assms(1-3) run [unfolded Inr]] job_records_reported by simp
      then show ?thesis
        using assms(5) waiting settled True Inr
        by (auto simp: runner_step_def assms(4) None claim run set ack_of_def split: sum.splits)
    qed
  qed
qed

text \<open>
  Two ways a job is lost: its record is accepted, and nothing was run. A runner that was handed the
  record before the projection had written the job's row finds nothing to claim; and a record that
  is delivered again after its runner died in the middle finds the claim of the dead runner.
\<close>

lemma unprojected_job_is_dropped:
  assumes "queue_next from_slice next_env q = (Ok (Some l), q1)" "tbl_get jobs (qj_job_id (ls_job l)) = None"
    and "qe_ack settle_env (ls_record l) = None" "qe_commit settle_env = None"
  shows "runner_step from_slice next_env settle_env None now re q jobs w =
    (Ok True, q1\<lparr>jq_calls := jq_calls q1 @ [Acknowledge (ls_record l) AckAccept, Commit]\<rparr>, jobs, w, [])"
  using assms
  by (simp add: runner_step_def claim_job_def update_where_def settle_def acknowledge_def commit_acks_def ack_of_def)

lemma redelivered_job_is_dropped:
  assumes "queue_next from_slice next_env q = (Ok (Some l), q1)" "tbl_wf jobs"
    and "runner_step from_slice next_env settle_env None now re q jobs w = (Err (SvcWrite e), q', jobs', w', landed)"
    and "queue_next from_slice env2 r = (Ok (Some l2), r1)" "ls_job l2 = ls_job l"
    and "qe_ack settle2 (ls_record l2) = None" "qe_commit settle2 = None"
  shows "runner_step from_slice env2 settle2 None now2 re2 r jobs' w2 =
    (Ok True, r1\<lparr>jq_calls := jq_calls r1 @ [Acknowledge (ls_record l2) AckAccept, Commit]\<rparr>, jobs', w2, [])"
proof -
  let ?j = "qj_job_id (ls_job l)"
  obtain b jobs1 where claim: "claim_job ?j (ls_delivery l) 0 now jobs = (b, jobs1)" by fastforce
  have "jobs' = jobs1"
    using assms(3) by (auto simp: runner_step_def assms(1) claim split: bool.splits prod.splits sum.splits)
  then have "\<not> job_waiting ?j jobs'" using claimed_not_waiting [OF claim assms(2)] by simp
  moreover obtain b2 jobs2 where again: "claim_job ?j (ls_delivery l2) 0 now2 jobs' = (b2, jobs2)" by fastforce
  ultimately have "\<not> b2" "jobs2 = jobs'" using claim_job_waiting [OF again] by auto
  then show ?thesis
    using again assms(4-7) by (simp add: runner_step_def settle_def acknowledge_def commit_acks_def ack_of_def)
qed

section \<open>A queue with one unreadable record\<close>

text \<open>A stand-in for JSON: each kind of record is itself.\<close>

datatype ci_json = JsonEvent "ci_event envelope" | JsonJob queued_job | JsonChunk string int string bool | JsonOther

definition demo_ci_codec :: "ci_json ci_codec" where
  "demo_ci_codec = \<lparr>cc_event = JsonEvent, cc_fmt = (\<lambda>_. None), cc_queued = JsonJob, cc_chunk = JsonChunk\<rparr>"

definition read_job :: "ci_json \<Rightarrow> queued_job option" where
  "read_job v = (case v of JsonJob job \<Rightarrow> Some job | _ \<Rightarrow> None)"

definition demo_queued :: queued_job where
  "demo_queued = \<lparr>qj_job_id = ''j1'', qj_run_id = ''run'', qj_repo_id = ''repo'', qj_head_oid = ''c0'', qj_job = demo_job\<rparr>"

definition demo_share :: "ci_json share_record" where
  "demo_share = \<lparr>sh_value = Some (JsonJob demo_queued), sh_offset = 1, sh_delivery_count = 0\<rparr>"

definition demo_queue_env :: "ci_json queue_env" where
  "demo_queue_env = \<lparr>qe_poll = Ok [\<lparr>sh_value = Some JsonOther, sh_offset = 0, sh_delivery_count = 1\<rparr>, demo_share],
     qe_ack = (\<lambda>_. None), qe_commit = None\<rparr>"

definition landed_txn :: "nat \<Rightarrow> txn_env" where
  "landed_txn n = \<lparr>env_begin = None, env_acks = map (\<lambda>i. Some (Ok (int i))) [0..<n], env_commit = None, env_landed = True\<rparr>"

definition demo_runner :: "ci_json runner_env" where
  "demo_runner = \<lparr>re_codec = demo_ci_codec, re_uuid = Some, re_create = (\<lambda>_. Ok demo_sandbox),
     re_start_minted = (''e1'', 5), re_finish_minted = (''e2'', 6), re_start_txn = landed_txn 1,
     re_log_txn = landed_txn 2, re_finish_txn = landed_txn 1\<rparr>"

definition demo_jobs :: jobs_table where
  "demo_jobs = [(''j1'', queued_job_row ''run'' ''repo'' 4 \<lparr>pj_job_id = ''j1'', pj_name = ''test'', pj_image = ''rust''\<rparr>)]"

lemma runner_step_witness:
  "case runner_step read_job demo_queue_env demo_queue_env None 9 demo_runner queue_open demo_jobs
      \<lparr>fenced = False, aborted_process = False\<rparr> of (answer, q', jobs', w', landed) \<Rightarrow>
    answer = Ok True \<and> attempt_reported demo_runner demo_queued 1 landed \<and> length landed = 4 \<and> \<not> job_waiting ''j1'' jobs'"
proof -
  let ?w = "\<lparr>fenced = False, aborted_process = False\<rparr>"
  let ?l = "\<lparr>ls_job = demo_queued, ls_delivery = 1, ls_record = demo_share\<rparr>"
  let ?q1 = "\<lparr>jq_acquired = [], jq_calls = [Acknowledge \<lparr>sh_value = Some JsonOther, sh_offset = 0, sh_delivery_count = 1\<rparr> AckReject]\<rparr>"
  have lease: "queue_next read_job demo_queue_env queue_open = (Ok (Some ?l), ?q1)" by code_simp
  have truth: "broker_truthful (re_start_txn demo_runner)" "broker_truthful (re_log_txn demo_runner)"
    "broker_truthful (re_finish_txn demo_runner)"
    by (simp_all add: broker_truthful_def demo_runner_def landed_txn_def)
  obtain answer q' jobs' w' landed where run: "runner_step read_job demo_queue_env demo_queue_env None 9 demo_runner
      queue_open demo_jobs ?w = (answer, q', jobs', w', landed)" by (metis prod_cases5)
  have small: "case runner_step read_job demo_queue_env demo_queue_env None 9 demo_runner queue_open demo_jobs ?w of
      (answer, _, jobs', _, landed) \<Rightarrow> answer = Ok True \<and> length landed = 4 \<and> \<not> job_waiting ''j1'' jobs'" by code_simp
  then have facts: "answer = Ok True" "length landed = 4" "\<not> job_waiting ''j1'' jobs'" by (simp_all add: run)
  have "job_waiting (qj_job_id (ls_job ?l)) demo_jobs" by code_simp
  with runner_step_accounts [OF truth lease run] facts(1)
  have "attempt_reported demo_runner (ls_job ?l) (ls_delivery ?l) landed" by auto
  then show ?thesis using facts by (simp add: run)
qed

end
