(* ===== verification/Ci_Orchestrator.thy ===== *)
theory Ci_Orchestrator
  imports Ci_Service
begin

text \<open>
  From a push to queued jobs (\<open>forge-ci/src/orchestrate.rs\<close>): a ref update is read from the log, the
  workflows at its commit are planned, each run is announced and then its jobs are queued. The
  tables are those the projection writes, each read at its own moment; the git cache, the YAML
  reader, the minted ids and what happens to each transaction are arguments.
\<close>

section \<open>Planning a push\<close>

datatype orchestrate_error = OrchTail string | OrchStore sql_error | OrchWrite write_error

text \<open>What one push meets: the tables, the cache, and for the run of an index the projected runs at
  that moment, the ids and the time that are minted, and its two transactions.\<close>

record plan_env =
  pe_repos :: "(repos_table, sql_error) result"
  pe_hydrate :: "repo_id \<Rightarrow> string \<Rightarrow> (unit, string) result"
  pe_yaml :: "string \<Rightarrow> (workflow, string) result"
  pe_list_tree :: "string \<Rightarrow> string \<Rightarrow> (string list, string) result"
  pe_read_blob :: "string \<Rightarrow> string \<Rightarrow> (blob option, string) result"
  pe_users :: "(users_table, sql_error) result"
  pe_runs :: "nat \<Rightarrow> (runs_table, sql_error) result"
  pe_run_id :: "nat \<Rightarrow> string"
  pe_job_id :: "nat \<Rightarrow> nat \<Rightarrow> string"
  pe_minted :: "nat \<Rightarrow> string \<times> int"
  pe_announce :: "nat \<Rightarrow> txn_env"
  pe_queue :: "nat \<Rightarrow> txn_env"

record push =
  ps_repo :: repo_id
  ps_ref :: string
  ps_head :: oid
  ps_actor :: string

definition minted_jobs :: "plan_env \<Rightarrow> nat \<Rightarrow> planned_run \<Rightarrow> (string \<times> planned_job) list" where
  "minted_jobs pe i run = map (\<lambda>(k, job). (pe_job_id pe i k, job)) (enumerate 0 (pr_jobs run))"

definition run_queued :: "plan_env \<Rightarrow> push \<Rightarrow> nat \<Rightarrow> int \<Rightarrow> planned_run \<Rightarrow> ci_event" where
  "run_queued pe p i number run = RunQueued (pe_run_id pe i) (ps_repo p) number (pr_workflow run) (pr_name run)
     ''push'' (ps_head p) (ps_ref p) (ps_actor p)
     (map (\<lambda>(j, job). \<lparr>pj_job_id = j, pj_name = pn_name job, pj_image = pn_image job\<rparr>) (minted_jobs pe i run))"

definition announcement :: "'j ci_codec \<Rightarrow> plan_env \<Rightarrow> push \<Rightarrow> nat \<Rightarrow> int \<Rightarrow> planned_run \<Rightarrow> 'j pending_record list" where
  "announcement c pe p i number run = [ci_record c (pe_minted pe i) (run_queued pe p i number run)]"

definition job_message :: "plan_env \<Rightarrow> push \<Rightarrow> nat \<Rightarrow> string \<times> planned_job \<Rightarrow> queued_job" where
  "job_message pe p i minted = \<lparr>qj_job_id = fst minted, qj_run_id = pe_run_id pe i, qj_repo_id = ps_repo p,
     qj_head_oid = to_hex (ps_head p), qj_job = snd minted\<rparr>"

definition job_queue_records :: "'j ci_codec \<Rightarrow> plan_env \<Rightarrow> push \<Rightarrow> nat \<Rightarrow> planned_run \<Rightarrow> 'j pending_record list" where
  "job_queue_records c pe p i run = map (\<lambda>minted.
     pending_state CI_JOBS (fst minted) (cc_queued c (job_message pe p i minted))) (minted_jobs pe i run)"

text \<open>The loop over the plans. The answer comes with the writer and with what reached the log.\<close>

fun queue_plans ::
    "'j ci_codec \<Rightarrow> plan_env \<Rightarrow> push \<Rightarrow> nat \<Rightarrow> planned_run list \<Rightarrow> nat \<Rightarrow> writer \<Rightarrow>
      (nat, orchestrate_error) result \<times> writer \<times> 'j pending_record list" where
  "queue_plans c pe p i [] n w = (Ok n, w, [])"
| "queue_plans c pe p i (run # runs) n w = (case pe_runs pe i of
     Err e \<Rightarrow> (Err (OrchStore e), w, [])
   | Ok t \<Rightarrow>
       (case transact (pe_announce pe i) (announcement c pe p i (next_run_number (ps_repo p) t) run) w of
          (Err e, w1, l1) \<Rightarrow> (Err (OrchWrite e), w1, l1)
        | (Ok _, w1, l1) \<Rightarrow>
            (case transact (pe_queue pe i) (job_queue_records c pe p i run) w1 of
               (Err e, w2, l2) \<Rightarrow> (Err (OrchWrite e), w2, l1 @ l2)
             | (Ok _, w2, l2) \<Rightarrow>
                 (case queue_plans c pe p (i + 1) runs (n + 1) w2 of
                    (r, w3, l3) \<Rightarrow> (r, w3, l1 @ l2 @ l3)))))"

definition push_plans :: "plan_env \<Rightarrow> oid \<Rightarrow> planned_run list" where
  "push_plans pe head = plan_push (discover (pe_yaml pe) (pe_list_tree pe (to_hex head)) (pe_read_blob pe (to_hex head)))"

definition actor_name :: "user_id \<Rightarrow> users_table \<Rightarrow> string" where
  "actor_name pusher users = (case tbl_get users pusher of Some user \<Rightarrow> ur_username user | None \<Rightarrow> ''unknown'')"

definition plan_for ::
    "'j ci_codec \<Rightarrow> plan_env \<Rightarrow> repo_id \<Rightarrow> string \<Rightarrow> oid \<Rightarrow> user_id \<Rightarrow> writer \<Rightarrow>
      (nat, orchestrate_error) result \<times> writer \<times> 'j pending_record list" where
  "plan_for c pe repo ref_name head pusher w = (case pe_repos pe of
     Err e \<Rightarrow> (Err (OrchStore e), w, [])
   | Ok repos \<Rightarrow> (case tbl_get repos repo of
       None \<Rightarrow> (Ok 0, w, [])
     | Some row \<Rightarrow> (case pe_hydrate pe repo (rp_default_branch row) of
         Err _ \<Rightarrow> (Ok 0, w, [])
       | Ok _ \<Rightarrow>
           (let plans = push_plans pe head in
            if plans = [] then (Ok 0, w, [])
            else (case pe_users pe of
              Err e \<Rightarrow> (Err (OrchStore e), w, [])
            | Ok users \<Rightarrow> queue_plans c pe
                \<lparr>ps_repo = repo, ps_ref = ref_name, ps_head = head, ps_actor = actor_name pusher users\<rparr>
                0 plans 0 w)))))"

section \<open>Following the log\<close>

text \<open>The reader of a ref event: its envelope, then its payload.\<close>

type_synonym ('j, 'v) ref_reader = "('j \<Rightarrow> ('v envelope, string) result) \<times> ('v \<Rightarrow> (git_ref_event, string) result)"

definition read_push :: "('j, 'v) ref_reader \<Rightarrow> 'j option \<Rightarrow> (repo_id \<times> string \<times> oid \<times> user_id) option" where
  "read_push rd v = (case decode_raw (fst rd) v of
     Err _ \<Rightarrow> None
   | Ok raw \<Rightarrow> (case envelope_parse (snd rd) raw of
       Err _ \<Rightarrow> None
     | Ok env \<Rightarrow> (case ge_new (payload env) of
         None \<Rightarrow> None
       | Some head \<Rightarrow> Some (ge_repo (payload env), ge_ref (payload env), head, ge_pusher (payload env)))))"

definition on_record ::
    "'j ci_codec \<Rightarrow> ('j, 'v) ref_reader \<Rightarrow> plan_env \<Rightarrow> 'j option \<Rightarrow> writer \<Rightarrow>
      (nat, orchestrate_error) result \<times> writer \<times> 'j pending_record list" where
  "on_record c rd pe v w = (case read_push rd v of
     None \<Rightarrow> (Ok 0, w, [])
   | Some (repo, ref_name, head, pusher) \<Rightarrow> plan_for c pe repo ref_name head pusher w)"

fun on_records ::
    "'j ci_codec \<Rightarrow> ('j, 'v) ref_reader \<Rightarrow> (int \<Rightarrow> plan_env) \<Rightarrow> (int \<times> 'j topic_record) list \<Rightarrow> nat \<Rightarrow> writer \<Rightarrow>
      (nat, orchestrate_error) result \<times> writer \<times> 'j pending_record list" where
  "on_records c rd pes [] n w = (Ok n, w, [])"
| "on_records c rd pes ((off, rec) # rs) n w = (case on_record c rd (pes off) (rec_value rec) w of
     (Err e, w1, l1) \<Rightarrow> (Err e, w1, l1)
   | (Ok k, w1, l1) \<Rightarrow> (case on_records c rd pes rs (n + k) w1 of (r, w2, l2) \<Rightarrow> (r, w2, l1 @ l2)))"

definition orchestrator_open :: "cursors_table \<Rightarrow> tailer" where
  "orchestrator_open cursors = open_at (applied_offset CI_ORCHESTRATOR EVENTS_GIT_REFS cursors)"

definition orchestrator_step ::
    "'j ci_codec \<Rightarrow> ('j, 'v) ref_reader \<Rightarrow> (int \<Rightarrow> plan_env) \<Rightarrow> bool \<Rightarrow>
      (int \<Rightarrow> ('j topic_record fetch_result, string) result) \<Rightarrow> tailer \<Rightarrow> cursors_table \<Rightarrow> writer \<Rightarrow>
      (nat, orchestrate_error) result \<times> tailer \<times> cursors_table \<times> writer \<times> 'j pending_record list" where
  "orchestrator_step c rd pes cursor_fault fetch t cursors w = (case next_batch fetch t of
     (Err e, t') \<Rightarrow> (Err (OrchTail e), t', cursors, w, [])
   | (Ok b, t') \<Rightarrow>
       if bt_records b = [] then (Ok 0, t', cursors, w, [])
       else (case on_records c rd pes (bt_records b) 0 w of
         (Err e, w', landed) \<Rightarrow> (Err e, t', cursors, w', landed)
       | (Ok n, w', landed) \<Rightarrow>
           if cursor_fault then (Err (OrchStore (Sql ''cursor'')), t', cursors, w', landed)
           else (Ok n, t', set_applied_offset CI_ORCHESTRATOR EVENTS_GIT_REFS (bt_next_offset b) cursors, w', landed)))"

section \<open>Announced, then queued\<close>

text \<open>The transactions the plans call for, in order: for each run its announcement, then its jobs.\<close>

definition number_at :: "plan_env \<Rightarrow> repo_id \<Rightarrow> nat \<Rightarrow> int" where
  "number_at pe repo i = (case pe_runs pe i of Ok t \<Rightarrow> next_run_number repo t | Err _ \<Rightarrow> 0)"












section \<open>What the cursor leaves behind\<close>

text \<open>A push whose repository could not be hydrated is passed over for good: the record counts as
  handled, and the cursor moves beyond it.\<close>

lemma unhydrated_push_is_passed_over:
  assumes "next_batch fetch t = (Ok b, t')" "bt_records b = [(off, rec)]"
    and "read_push rd (rec_value rec) = Some (repo, ref_name, head, pusher)"
    and "pe_repos (pes off) = Ok repos" "tbl_get repos repo = Some row"
    and "pe_hydrate (pes off) repo (rp_default_branch row) = Err e"
  shows "orchestrator_step c rd pes False fetch t cursors w =
    (Ok 0, t', set_applied_offset CI_ORCHESTRATOR EVENTS_GIT_REFS (bt_next_offset b) cursors, w, [])"
  using assms by (simp add: orchestrator_step_def on_record_def plan_for_def)

text \<open>An orchestrator that goes on after a failed step does not read the batch again: its tailer has moved.\<close>

lemma failed_plan_has_moved:
  assumes "next_batch fetch t = (Ok b, t')" "bt_records b \<noteq> []" "on_records c rd pes (bt_records b) 0 w = (Err e, w', landed)"
  shows "orchestrator_step c rd pes cf fetch t cursors w = (Err e, t', cursors, w', landed)" "tl_offset t' = bt_next_offset b"
  using assms by (auto simp: orchestrator_step_def next_batch_def Let_def split: sum.splits)

text \<open>The number of a run is read from the projection, which has not seen the run before it when a
  push has two workflows: both get the same number.\<close>

lemma same_number_twice:
  "pe_runs pe i = pe_runs pe j \<Longrightarrow> number_at pe repo i = number_at pe repo j"
  by (simp add: number_at_def)

section \<open>A push with two workflows\<close>

definition demo_repo_row :: repo_row where
  "demo_repo_row = \<lparr>rp_repo_id = ''repo'', rp_owner_id = ''u1'', rp_owner_name = ''ann'', rp_name = ''app'',
     rp_full_name_lower = ''ann/app'', rp_description = None, rp_default_branch = ''main'',
     rp_visibility = ''public'', rp_created_at = 0, rp_updated_at = 0, rp_deleted = False\<rparr>"

definition demo_plan_env :: plan_env where
  "demo_plan_env = \<lparr>pe_repos = Ok [(''repo'', demo_repo_row)], pe_hydrate = (\<lambda>_ _. Ok ()), pe_yaml = demo_yaml,
     pe_list_tree = (\<lambda>_ _. Ok [''b.yml'', ''README'', ''a.yaml'']), pe_read_blob = (\<lambda>_. demo_blobs),
     pe_users = Ok [], pe_runs = (\<lambda>_. Ok []), pe_run_id = (\<lambda>i. ''run'' @ show_nat i),
     pe_job_id = (\<lambda>i k. ''job'' @ show_nat i @ ''-'' @ show_nat k), pe_minted = (\<lambda>i. (''e'' @ show_nat i, 5)),
     pe_announce = (\<lambda>_. landed_txn 1), pe_queue = (\<lambda>_. landed_txn 1)\<rparr>"

definition demo_push :: push where
  "demo_push = \<lparr>ps_repo = ''repo'', ps_ref = ''refs/heads/main'', ps_head = oid_zero, ps_actor = ''unknown''\<rparr>"



text \<open>The announcements of that push cannot both be projected.\<close>

lemma second_run_violates_number:
  "\<exists>m. apply_ci_event (run_queued demo_plan_env demo_push 0 (number_at demo_plan_env ''repo'' 0)
        (push_plans demo_plan_env oid_zero ! 0)) 5 empty_model = Ok m \<and>
    (\<exists>e. apply_ci_event (run_queued demo_plan_env demo_push 1 (number_at demo_plan_env ''repo'' 1)
        (push_plans demo_plan_env oid_zero ! 1)) 5 m = Err e)"
proof -
  let ?first = "apply_ci_event (run_queued demo_plan_env demo_push 0 (number_at demo_plan_env ''repo'' 0)
        (push_plans demo_plan_env oid_zero ! 0)) 5 empty_model"
  let ?m = "case ?first of Ok m \<Rightarrow> m | Err _ \<Rightarrow> empty_model"
  let ?second = "apply_ci_event (run_queued demo_plan_env demo_push 1 (number_at demo_plan_env ''repo'' 1)
        (push_plans demo_plan_env oid_zero ! 1)) 5 ?m"
  have "case ?first of Ok _ \<Rightarrow> True | Err _ \<Rightarrow> False" by code_simp
  moreover have "case ?second of Ok _ \<Rightarrow> False | Err _ \<Rightarrow> True" by code_simp
  ultimately show ?thesis by (auto split: sum.splits)
qed

end
