(* ===== verification/Git_Text.thy ===== *)
theory Git_Text
  imports Forge_Prelude
begin

text \<open>
  The text of a process's output, as the standard library reads it: which bytes are UTF-8
  (\<open>String::from_utf8\<close>), what the others are replaced by (\<open>String::from_utf8_lossy\<close>), and lines
  (\<open>str::lines\<close>). A string is its list of bytes, as in the rest of the model.
\<close>

section \<open>UTF-8\<close>

definition continues :: "nat \<Rightarrow> bool" where
  "continues b \<longleftrightarrow> 128 \<le> b \<and> b < 192"

text \<open>The byte at a position, zero behind the end, as the validator reads ahead.\<close>

definition peek :: "nat list \<Rightarrow> nat \<Rightarrow> nat" where
  "peek bs i = (if i < length bs then bs ! i else 0)"

text \<open>The first sequence: whether it encodes a character, and how many bytes it has.\<close>

definition utf8_step :: "nat list \<Rightarrow> bool \<times> nat" where
  "utf8_step bs = (let a = peek bs 0; b = peek bs 1; c = peek bs 2; d = peek bs 3 in
     if a < 128 then (True, 1)
     else if 194 \<le> a \<and> a < 224 then (if continues b then (True, 2) else (False, 1))
     else if 224 \<le> a \<and> a < 240 then
       (if \<not> (continues b \<and> (a = 224 \<longrightarrow> 160 \<le> b) \<and> (a = 237 \<longrightarrow> b < 160)) then (False, 1)
        else if \<not> continues c then (False, 2) else (True, 3))
     else if 240 \<le> a \<and> a < 245 then
       (if \<not> (continues b \<and> (a = 240 \<longrightarrow> 144 \<le> b) \<and> (a = 244 \<longrightarrow> b < 144)) then (False, 1)
        else if \<not> continues c then (False, 2)
        else if \<not> continues d then (False, 3) else (True, 4))
     else (False, 1))"

lemma utf8_step_pos: "0 < snd (utf8_step bs)"
  by (simp add: utf8_step_def Let_def)

function utf8_valid :: "nat list \<Rightarrow> bool" where
  "utf8_valid bs = (if bs = [] then True
     else if fst (utf8_step bs) then utf8_valid (drop (snd (utf8_step bs)) bs) else False)"
  by pat_completeness auto

termination
  by (relation "measure length") (auto simp: utf8_step_pos)

declare utf8_valid.simps [simp del]

lemma utf8_valid_Nil [simp]: "utf8_valid []"
  by (subst utf8_valid.simps) simp

definition REPLACEMENT :: string where
  "REPLACEMENT = [CHR 0xEF, CHR 0xBF, CHR 0xBD]"

function utf8_lossy :: "string \<Rightarrow> string" where
  "utf8_lossy s = (if s = [] then [] else
     (case utf8_step (map code s) of (valid, n) \<Rightarrow>
       (if valid then take n s else REPLACEMENT) @ utf8_lossy (drop n s)))"
  by pat_completeness auto

termination
proof (relation "measure length"; clarsimp)
  fix s :: string and v n assume "s \<noteq> []" "(v, n) = utf8_step (map code s)"
  then show "length s - n < length s" using utf8_step_pos [of "map code s"] by (cases s) (auto dest: sym)
qed

declare utf8_lossy.simps [simp del]

lemma utf8_lossy_Nil [simp]: "utf8_lossy [] = []"
  by (subst utf8_lossy.simps) simp

lemma peek_append: "i < length a \<Longrightarrow> peek (a @ b) i = peek a i"
  by (simp add: peek_def nth_append)

lemma peek_nonzero: "peek bs i \<noteq> 0 \<Longrightarrow> i < length bs"
  by (simp add: peek_def split: if_splits)

lemma continues_inside: "continues (peek bs i) \<Longrightarrow> i < length bs"
  by (rule peek_nonzero) (auto simp: continues_def)

text \<open>A complete character is not changed by what follows it.\<close>

lemma utf8_step_length: "bs \<noteq> [] \<Longrightarrow> fst (utf8_step bs) \<Longrightarrow> snd (utf8_step bs) \<le> length bs"
proof -
  assume ne: "bs \<noteq> []" and v: "fst (utf8_step bs)"
  have "snd (utf8_step bs) = 1 \<or> continues (peek bs (snd (utf8_step bs) - 1))"
    using v by (auto simp: utf8_step_def Let_def split: if_splits)
  then show ?thesis
    using continues_inside [of bs "snd (utf8_step bs) - 1"] utf8_step_pos [of bs] ne by (cases bs) auto
qed

lemma utf8_step_append:
  assumes "as \<noteq> []" "fst (utf8_step as)"
  shows "utf8_step (as @ bs) = utf8_step as"
proof -
  let ?n = "snd (utf8_step as)"
  have len: "?n \<le> length as" by (rule utf8_step_length [OF assms])
  have p: "peek (as @ bs) i = peek as i" if "i < ?n" for i
    using that len by (intro peek_append) simp
  have p0: "peek (as @ bs) 0 = peek as 0" by (rule p [OF utf8_step_pos])
  consider "?n = 1" "peek as 0 < 128"
    | "?n = 2" | "?n = 3" | "?n = 4"
    using assms(2) by (auto simp: utf8_step_def Let_def split: if_splits)
  then show ?thesis
  proof cases
    case 1
    then show ?thesis using p0 by (simp add: utf8_step_def Let_def)
  next
    case 2
    then have "194 \<le> peek as 0" "peek as 0 < 224" using assms(2) by (auto simp: utf8_step_def Let_def split: if_splits)
    moreover have "peek (as @ bs) 1 = peek as 1" using p 2 by simp
    ultimately show ?thesis using p0 by (simp add: utf8_step_def Let_def)
  next
    case 3
    then have "224 \<le> peek as 0" "peek as 0 < 240" using assms(2) by (auto simp: utf8_step_def Let_def split: if_splits)
    moreover have "peek (as @ bs) 1 = peek as 1" "peek (as @ bs) 2 = peek as 2" using p 3 by simp_all
    ultimately show ?thesis using p0 by (simp add: utf8_step_def Let_def)
  next
    case 4
    then have "peek (as @ bs) 1 = peek as 1" "peek (as @ bs) 2 = peek as 2" "peek (as @ bs) 3 = peek as 3"
      using p by simp_all
    then show ?thesis using p0 by (simp add: utf8_step_def Let_def)
  qed
qed

lemma utf8_valid_append: "utf8_valid as \<Longrightarrow> utf8_valid bs \<Longrightarrow> utf8_valid (as @ bs)"
proof (induction as rule: utf8_valid.induct)
  case (1 as)
  show ?case
  proof (cases "as = []")
    case False
    then have v: "fst (utf8_step as)" "utf8_valid (drop (snd (utf8_step as)) as)"
      using "1.prems"(1) False utf8_valid.simps [of as] by (auto split: if_splits)
    have "drop (snd (utf8_step as)) (as @ bs) = drop (snd (utf8_step as)) as @ bs"
      using utf8_step_length [OF False v(1)] by simp
    then show ?thesis
      using False v "1.IH" [OF False v(1) v(2) "1.prems"(2)] utf8_step_append [OF False v(1)]
      by (subst utf8_valid.simps) simp
  qed (use 1 in simp)
qed

lemma utf8_ascii: "\<forall>b\<in>set bs. b < 128 \<Longrightarrow> utf8_valid bs"
proof (induction bs)
  case (Cons b bs)
  then have "utf8_step (b # bs) = (True, 1)" by (simp add: utf8_step_def peek_def Let_def)
  then show ?case using Cons by (subst utf8_valid.simps) simp
qed simp

text \<open>Valid text is read as it is.\<close>

lemma utf8_lossy_valid: "utf8_valid (map code s) \<Longrightarrow> utf8_lossy s = s"
proof (induction s rule: utf8_lossy.induct)
  case (1 s)
  show ?case
  proof (cases "s = []")
    case False
    obtain v n where step: "utf8_step (map code s) = (v, n)" by fastforce
    have v: "v" "utf8_valid (map code (drop n s))"
      using "1.prems" False step utf8_valid.simps [of "map code s"] by (auto simp: drop_map split: if_splits)
    then show ?thesis
      using "1.IH" [OF False step [symmetric] v(2)] False step v(1) by (subst utf8_lossy.simps) simp
  qed simp
qed

section \<open>Lines\<close>

text \<open>A line that ends in a line feed loses it, and a carriage return before it.\<close>

definition str_lines :: "string \<Rightarrow> string list" where
  "str_lines content = (let parts = split_by (\<lambda>c. c = CHR 0x0A) content in
     map (\<lambda>l. case strip_suffix [CHR 0x0D] l of Some l' \<Rightarrow> l' | None \<Rightarrow> l) (butlast parts) @
     (if last parts = [] then [] else [last parts]))"

lemma split_records:
  "\<forall>l\<in>set ls. d \<notin> set l \<Longrightarrow> split_by (\<lambda>c. c = d) (concat (map (\<lambda>l. l @ [d]) ls)) = ls @ [[]]"
proof (induction ls)
  case (Cons l ls)
  then have "\<forall>c\<in>set l. c \<noteq> d" by auto
  with Cons show ?case using split_by_append [of "\<lambda>c. c = d" d l] by (simp add: split_by_none)
qed simp

lemma str_lines_concat:
  assumes "\<forall>l\<in>set ls. CHR 0x0A \<notin> set l \<and> CHR 0x0D \<notin> set l"
  shows "str_lines (concat (map (\<lambda>l. l @ [CHR 0x0A]) ls)) = ls"
proof -
  have "strip_suffix [CHR 0x0D] l = None" if "l \<in> set ls" for l
    using assms that by (cases "strip_suffix [CHR 0x0D] l") auto
  then show ?thesis using assms by (simp add: str_lines_def split_records Let_def map_idI)
qed

end
