(* ===== verification/Git_Refs.thy ===== *)
theory Git_Refs
  imports Git_Cache Git_Text
begin

text \<open>
  What the forge asks of the git binary about references, merges and objects
  (\<open>forge-git/src/cache.rs\<close>, \<open>merge.rs\<close>, \<open>import.rs\<close>): the commands and how their output is read.
  Git itself is a parameter, a function from arguments and its own state to how the process
  ended; what git documents about the commands on references is the hypothesis \<open>keeps_refs\<close>.
\<close>

section \<open>Running git\<close>

record git_output =
  go_success :: bool
  go_stdout :: string
  go_stderr :: string

datatype cache_error = GitFailed string string | GitIo string

type_synonym 'g git = "string list \<Rightarrow> 'g \<Rightarrow> (git_output, string) result \<times> 'g"

fun join_args :: "string list \<Rightarrow> string" where
  "join_args [] = []"
| "join_args [a] = a"
| "join_args (a # b # args) = a @ '' '' @ join_args (b # args)"

definition git_answer :: "string \<Rightarrow> (git_output, string) result \<Rightarrow> (string, cache_error) result" where
  "git_answer command r = (case r of
     Err e \<Rightarrow> Err (GitIo e)
   | Ok output \<Rightarrow> if go_success output then Ok (utf8_lossy (go_stdout output)) else Err (GitFailed command (trim (utf8_lossy (go_stderr output)))))"

definition run_git :: "'g git \<Rightarrow> string list \<Rightarrow> 'g \<Rightarrow> (string, cache_error) result \<times> 'g" where
  "run_git git args s = (case git args s of (r, s') \<Rightarrow> (git_answer (join_args args) r, s'))"

section \<open>References\<close>

definition LIST_REFS :: "string list" where
  "LIST_REFS = [''for-each-ref'', ''--format=%(refname) %(objectname)'']"

definition parse_ref_line :: "string \<Rightarrow> (string \<times> oid) option" where
  "parse_ref_line line = (case split_once (CHR '' '') line of
     None \<Rightarrow> None | Some (name, hex) \<Rightarrow> map_option (Pair name) (parse_oid_opt hex))"

definition cache_refs :: "'g git \<Rightarrow> 'g \<Rightarrow> ((string \<times> oid) list, cache_error) result \<times> 'g" where
  "cache_refs git s = (case run_git git LIST_REFS s of
     (Err e, s') \<Rightarrow> (Err e, s') | (Ok text, s') \<Rightarrow> (Ok (List.map_filter parse_ref_line (str_lines text)), s'))"

definition set_ref_args :: "string \<Rightarrow> oid \<Rightarrow> string list" where
  "set_ref_args name x = [''update-ref'', name, to_hex x]"

definition delete_ref_args :: "string \<Rightarrow> string list" where
  "delete_ref_args name = [''update-ref'', ''-d'', name]"

definition set_head_args :: "string \<Rightarrow> string list" where
  "set_head_args name = [''symbolic-ref'', ''HEAD'', name]"

fun run_each :: "'g git \<Rightarrow> string list list \<Rightarrow> 'g \<Rightarrow> (unit, cache_error) result \<times> 'g" where
  "run_each git [] s = (Ok (), s)"
| "run_each git (args # rest) s = (case run_git git args s of
     (Err e, s') \<Rightarrow> (Err e, s') | (Ok _, s') \<Rightarrow> run_each git rest s')"

text \<open>The commands of \<open>sync_refs\<close>: move what differs, delete what the log does not have, and point
  \<open>HEAD\<close> at the default branch when it exists.\<close>

definition sync_commands :: "(string \<times> oid) list \<Rightarrow> string \<Rightarrow> (string \<times> oid) list \<Rightarrow> string list list" where
  "sync_commands canonical default_branch existing =
     map (\<lambda>(name, x). set_ref_args name x) (filter (\<lambda>r. \<not> list_ex (\<lambda>old. old = r) existing) canonical) @
     map (\<lambda>(name, _). delete_ref_args name) (filter (\<lambda>(name, _). \<not> list_ex (\<lambda>(n, _). n = name) canonical) existing) @
     (let head = ''refs/heads/'' @ default_branch in
      if list_ex (\<lambda>(name, _). name = head) canonical then [set_head_args head] else [])"

definition sync_refs :: "'g git \<Rightarrow> (string \<times> oid) list \<Rightarrow> string \<Rightarrow> 'g \<Rightarrow> (unit, cache_error) result \<times> 'g" where
  "sync_refs git canonical default_branch s = (case cache_refs git s of
     (Err e, s') \<Rightarrow> (Err e, s')
   | (Ok existing, s') \<Rightarrow> run_each git (sync_commands canonical default_branch existing) s')"

section \<open>Merging\<close>

datatype merge_attempt = CleanMerge oid | MergeConflict "string list"

definition is_clean :: "merge_attempt \<Rightarrow> bool" where
  "is_clean a = (case a of CleanMerge _ \<Rightarrow> True | MergeConflict _ \<Rightarrow> False)"

definition conflicted_files :: "merge_attempt \<Rightarrow> string list" where
  "conflicted_files a = (case a of CleanMerge _ \<Rightarrow> [] | MergeConflict files \<Rightarrow> files)"

text \<open>\<open>sort\<close> and then \<open>dedup\<close>, which removes a name equal to the one before it.\<close>

definition read_merge_tree :: "git_output \<Rightarrow> (merge_attempt, cache_error) result" where
  "read_merge_tree output = (case str_lines (utf8_lossy (go_stdout output)) of
     [] \<Rightarrow> Err (GitFailed ''merge-tree'' (trim (utf8_lossy (go_stderr output))))
   | first # rest \<Rightarrow> (case parse_oid_opt (trim first) of
       None \<Rightarrow> Err (GitFailed ''merge-tree'' (trim (utf8_lossy (go_stderr output))))
     | Some tree \<Rightarrow>
         if go_success output then Ok (CleanMerge tree)
         else Ok (MergeConflict (remdups_adj (sort
           (List.map_filter (\<lambda>line. map_option snd (split_once (CHR 0x09) line)) rest))))))"

definition try_merge :: "'g git \<Rightarrow> string \<Rightarrow> string \<Rightarrow> 'g \<Rightarrow> (merge_attempt, cache_error) result \<times> 'g" where
  "try_merge git base head s = (case git [''merge-tree'', ''--write-tree'', base, head] s of
     (Err e, s') \<Rightarrow> (Err (GitIo e), s') | (Ok output, s') \<Rightarrow> (read_merge_tree output, s'))"

definition commit_merge :: "'g git \<Rightarrow> oid \<Rightarrow> oid \<Rightarrow> oid \<Rightarrow> string \<Rightarrow> 'g \<Rightarrow> (oid, cache_error) result \<times> 'g" where
  "commit_merge git tree base head message s =
     (case git [''commit-tree'', to_hex tree, ''-p'', to_hex base, ''-p'', to_hex head, ''-m'', message] s of
        (Err e, s') \<Rightarrow> (Err (GitIo e), s')
      | (Ok output, s') \<Rightarrow>
          (if \<not> go_success output then Err (GitFailed ''commit-tree'' (trim (utf8_lossy (go_stderr output))))
           else (case parse_oid_opt (trim (utf8_lossy (go_stdout output))) of
             Some x \<Rightarrow> Ok x
           | None \<Rightarrow> Err (GitFailed ''commit-tree'' ''commit-tree did not return an object id'')), s'))"

definition merge_base :: "'g git \<Rightarrow> string \<Rightarrow> string \<Rightarrow> 'g \<Rightarrow> (oid option, cache_error) result \<times> 'g" where
  "merge_base git a b s = (case run_git git [''merge-base'', a, b] s of
     (Ok text, s') \<Rightarrow> (Ok (parse_oid_opt (trim text)), s')
   | (Err (GitFailed _ _), s') \<Rightarrow> (Ok None, s')
   | (Err e, s') \<Rightarrow> (Err e, s'))"

definition resolve_rev :: "'g git \<Rightarrow> string \<Rightarrow> 'g \<Rightarrow> (oid option, cache_error) result \<times> 'g" where
  "resolve_rev git revision s =
     (case run_git git [''rev-parse'', ''--verify'', revision @ ''^{commit}''] s of
        (Ok text, s') \<Rightarrow> (Ok (parse_oid_opt (trim text)), s')
      | (Err (GitFailed _ _), s') \<Rightarrow> (Ok None, s')
      | (Err e, s') \<Rightarrow> (Err e, s'))"

definition is_ancestor :: "'g git \<Rightarrow> oid \<Rightarrow> oid \<Rightarrow> 'g \<Rightarrow> (bool, cache_error) result \<times> 'g" where
  "is_ancestor git ancestor descendant s =
     (case git [''merge-base'', ''--is-ancestor'', to_hex ancestor, to_hex descendant] s of
        (Err e, s') \<Rightarrow> (Err (GitIo e), s') | (Ok output, s') \<Rightarrow> (Ok (go_success output), s'))"

definition diff_between :: "'g git \<Rightarrow> string \<Rightarrow> string \<Rightarrow> 'g \<Rightarrow> (string, cache_error) result \<times> 'g" where
  "diff_between git base head s =
     run_git git [''diff'', ''--no-color'', ''--find-renames'', base @ ''...'' @ head] s"

text \<open>The objects of a listing with the kind git says they have.\<close>

fun kinds_of :: "'g git \<Rightarrow> string list \<Rightarrow> 'g \<Rightarrow> ((oid \<times> kind) list, cache_error) result \<times> 'g" where
  "kinds_of git [] s = (Ok [], s)"
| "kinds_of git (line # rest) s =
     (case (case split_whitespace line of [] \<Rightarrow> None | word # _ \<Rightarrow> parse_oid_opt word) of
        None \<Rightarrow> kinds_of git rest s
      | Some x \<Rightarrow> (case run_git git [''cat-file'', ''-t'', to_hex x] s of
          (Err e, s') \<Rightarrow> (Err e, s')
        | (Ok text, s') \<Rightarrow> (case kinds_of git rest s' of
            (Err e, s2) \<Rightarrow> (Err e, s2)
          | (Ok others, s2) \<Rightarrow> (Ok (case kind_parse (trim text) of
              Some k \<Rightarrow> (x, k) # others | None \<Rightarrow> others), s2))))"

definition objects_added_by :: "'g git \<Rightarrow> oid \<Rightarrow> oid list \<Rightarrow> 'g \<Rightarrow> ((oid \<times> kind) list, cache_error) result \<times> 'g" where
  "objects_added_by git commit excluding s =
     (case run_git git ([''rev-list'', ''--objects'', to_hex commit, ''--not''] @ map to_hex excluding) s of
        (Err e, s') \<Rightarrow> (Err e, s') | (Ok text, s') \<Rightarrow> kinds_of git (str_lines text) s')"

section \<open>Reading every object\<close>

text \<open>
  The output of \<open>cat-file --batch\<close> as bytes: a header line, the content, a line feed. A header
  that cannot be read is skipped; a content that is cut short is an error.
\<close>

definition take_line :: "bytes \<Rightarrow> bytes \<times> bytes" where
  "take_line bs = (let line = takeWhile (\<lambda>b. b \<noteq> 10) bs in
     (case dropWhile (\<lambda>b. b \<noteq> 10) bs of [] \<Rightarrow> (line, []) | nl # rest \<Rightarrow> (line @ [nl], rest)))"

definition bytes_text :: "bytes \<Rightarrow> string" where
  "bytes_text bs = map (\<lambda>b. char_of (unat b)) bs"

definition batch_header :: "bytes \<Rightarrow> (oid \<times> kind \<times> nat) option" where
  "batch_header line = (case split_by (\<lambda>c. c = CHR '' '') (trim_end (bytes_text line)) of
     x # k # n # _ \<Rightarrow> (case parse_oid_opt x of
       None \<Rightarrow> None
     | Some x \<Rightarrow> (case kind_parse k of
         None \<Rightarrow> None
       | Some k \<Rightarrow> Some (x, k, (case parse_unsigned (2 ^ 64) n of Some v \<Rightarrow> v | None \<Rightarrow> 0))))
   | _ \<Rightarrow> None)"

lemma take_line_shorter: "bs \<noteq> [] \<Longrightarrow> take_line bs = (line, rest) \<Longrightarrow> length rest < length bs"
proof -
  assume "bs \<noteq> []" "take_line bs = (line, rest)"
  moreover have "length (takeWhile (\<lambda>b. b \<noteq> 10) bs) + length (dropWhile (\<lambda>b. b \<noteq> 10) bs) = length bs"
    by (metis length_append takeWhile_dropWhile_id)
  ultimately show ?thesis by (auto simp: take_line_def Let_def split: list.splits)
qed

function read_batch :: "bytes \<Rightarrow> (git_object list, cache_error) result" where
  "read_batch bs =
     (if bs = [] then Ok []
      else (case take_line bs of (line, rest) \<Rightarrow>
        if \<not> utf8_valid (map unat line) then Err (GitIo ''stream did not contain valid UTF-8'')
        else (case batch_header line of
           None \<Rightarrow> read_batch rest
         | Some (x, k, n) \<Rightarrow>
             if length rest < n then Err (GitIo ''failed to fill whole buffer'')
             else and_then (read_batch (drop (n + 1) rest)) (\<lambda>others.
               Ok (\<lparr>ob_oid = x, ob_kind = k, ob_content = take n rest\<rparr> # others)))))"
  by pat_completeness auto

termination
  by (relation "measure length") (simp, use take_line_shorter [OF _ sym] in \<open>force+\<close>)

declare read_batch.simps [simp del]

definition read_all_objects :: "(bytes \<times> bool \<times> string, string) result \<Rightarrow> (git_object list, cache_error) result" where
  "read_all_objects r = (case r of
     Err e \<Rightarrow> Err (GitIo e)
   | Ok (stdout, success, stderr) \<Rightarrow> and_then (read_batch stdout) (\<lambda>objs.
       if success then Ok objs else Err (GitFailed ''cat-file --batch-all-objects'' stderr)))"

section \<open>The references after a sync\<close>

text \<open>A name git lists: text below \<open>refs/\<close> without a space or a line break.\<close>

definition listable :: "string \<Rightarrow> bool" where
  "listable name \<longleftrightarrow> utf8_valid (map code name) \<and> starts_with ''refs/'' name \<and> CHR '' '' \<notin> set name \<and> CHR 0x0A \<notin> set name \<and> CHR 0x0D \<notin> set name"

definition ref_listing :: "(string \<times> oid) list \<Rightarrow> string" where
  "ref_listing refs = concat (map (\<lambda>(name, x). name @ CHR '' '' # to_hex x @ [CHR 0x0A]) refs)"

text \<open>What git documents. \<open>refs_of s\<close> are the references a repository has, as \<open>for-each-ref\<close> shows
  them: by name, each once. \<open>for-each-ref\<close> prints them and changes nothing, an \<open>update-ref\<close> that
  succeeds has set or deleted the one reference it names, and \<open>symbolic-ref\<close> moves none. Nothing is
  said of setting a reference to the id of zeros, which git takes for a deletion.\<close>

definition keeps_refs :: "'g git \<Rightarrow> ('g \<Rightarrow> (string \<times> oid) list) \<Rightarrow> bool" where
  "keeps_refs git refs_of \<longleftrightarrow> (\<forall>s.
     sorted (map fst (refs_of s)) \<and> distinct (map fst (refs_of s)) \<and>
     (\<forall>output s'. git LIST_REFS s = (Ok output, s') \<and> go_success output \<longrightarrow>
       s' = s \<and> go_stdout output = ref_listing (refs_of s)) \<and>
     (\<forall>name x output s'. starts_with ''refs/'' name \<and> x \<noteq> oid_zero \<and> git (set_ref_args name x) s = (Ok output, s') \<and> go_success output \<longrightarrow>
       map_of (refs_of s') = (map_of (refs_of s))(name \<mapsto> x)) \<and>
     (\<forall>name output s'. starts_with ''refs/'' name \<and> git (delete_ref_args name) s = (Ok output, s') \<and> go_success output \<longrightarrow>
       map_of (refs_of s') = (map_of (refs_of s))(name := None)) \<and>
     (\<forall>name output s'. git (set_head_args name) s = (Ok output, s') \<and> go_success output \<longrightarrow>
       refs_of s' = refs_of s))"

lemma run_git_Ok: "run_git git args s = (Ok text, s') \<longleftrightarrow>
    (\<exists>output. git args s = (Ok output, s') \<and> go_success output \<and> utf8_lossy (go_stdout output) = text)"
  by (auto simp: run_git_def git_answer_def split: prod.splits sum.splits if_splits)

lemma keeps_refsD:
  assumes "keeps_refs git refs_of"
  shows "distinct (map fst (refs_of s))"
    and "run_git git LIST_REFS s = (Ok text, s') \<Longrightarrow> s' = s \<and> text = utf8_lossy (ref_listing (refs_of s))"
    and "run_git git (set_ref_args name x) s = (Ok text, s') \<Longrightarrow> starts_with ''refs/'' name \<Longrightarrow> x \<noteq> oid_zero \<Longrightarrow>
      map_of (refs_of s') = (map_of (refs_of s))(name \<mapsto> x)"
    and "run_git git (delete_ref_args name) s = (Ok text, s') \<Longrightarrow> starts_with ''refs/'' name \<Longrightarrow>
      map_of (refs_of s') = (map_of (refs_of s))(name := None)"
    and "run_git git (set_head_args name) s = (Ok text, s') \<Longrightarrow> refs_of s' = refs_of s"
  using assms unfolding keeps_refs_def run_git_Ok by (metis, metis, metis, metis, metis)

lemma hex_plain: "c \<in> set (to_hex x) \<Longrightarrow> is_alnum c"
proof -
  assume "c \<in> set (to_hex x)"
  then obtain b where "c \<in> set (hex_byte b)" by (auto simp: to_hex_def)
  then have "c = digit_char (unat b div 16) \<or> c = digit_char (unat b mod 16)" by (auto simp: hex_byte_def)
  moreover have "unat b div 16 < 16" "unat b mod 16 < 16" using unsigned_less [of b, where ?'a = nat] by simp_all
  ultimately obtain n where n: "n < 16" "c = digit_char n" by blast
  then show ?thesis by (auto simp: code_digit_char is_alnum_def is_digit_def is_upper_def is_lower_def)
qed

lemma not_alnum_breaks [simp]: "\<not> is_alnum (CHR 0x0A)" "\<not> is_alnum (CHR 0x0D)" "\<not> is_alnum (CHR '' '')"
  by code_simp+

lemma read_ref_listing:
  assumes "list_all (\<lambda>(name, x). listable name \<and> oid_wf x) refs"
  shows "List.map_filter parse_ref_line (str_lines (ref_listing refs)) = refs"
proof -
  let ?line = "\<lambda>(name, x). name @ CHR '' '' # to_hex x"
  have line: "CHR 0x0A \<notin> set l \<and> CHR 0x0D \<notin> set l" if "l \<in> ?line ` set refs" for l
    using that assms hex_plain by (fastforce simp: list_all_iff listable_def)
  have "ref_listing refs = concat (map (\<lambda>l. l @ [CHR 0x0A]) (map ?line refs))"
    by (auto simp: ref_listing_def comp_def intro!: arg_cong [of _ _ concat])
  then have lines: "str_lines (ref_listing refs) = map ?line refs"
    using str_lines_concat [of "map ?line refs"] line by simp
  have "parse_ref_line (name @ CHR '' '' # to_hex x) = Some (name, x)" if "listable name" "oid_wf x" for name x
  proof -
    have "split_once (CHR '' '') (name @ CHR '' '' # to_hex x) = Some (name, to_hex x)"
      using that(1) by (simp add: split_once_Some listable_def)
    then show ?thesis using that(2) by (simp add: parse_ref_line_def parse_oid_hex)
  qed
  then have parsed: "List.map_filter parse_ref_line (map ?line refs) = refs"
    using assms by (induction refs) (auto simp: List.map_filter_def)
  show ?thesis unfolding lines by (rule parsed)
qed

lemma ref_listing_text:
  "list_all (\<lambda>(name, x). listable name \<and> oid_wf x) refs \<Longrightarrow> utf8_valid (map code (ref_listing refs))"
proof (induction refs)
  case (Cons r refs)
  obtain name x where r: "r = (name, x)" by (cases r)
  have "utf8_valid (map code (CHR '' '' # to_hex x @ [CHR 0x0A]))"
    using hex_plain [of _ x]
    by (intro utf8_ascii) (fastforce simp: code_def is_alnum_def is_digit_def is_upper_def is_lower_def)
  then show ?case
    using Cons utf8_valid_append [of "map code name"] utf8_valid_append [of "map code (CHR '' '' # to_hex x @ [CHR 0x0A])"]
    by (simp add: r ref_listing_def listable_def)
qed (simp add: ref_listing_def)

lemma run_each_append:
  "run_each git (before @ after) s = (Ok (), s') \<longleftrightarrow> (\<exists>m. run_each git before s = (Ok (), m) \<and> run_each git after m = (Ok (), s'))"
  by (induction before arbitrary: s) (auto split: prod.splits sum.splits)

lemma run_each_sets:
  assumes "keeps_refs git refs_of" "run_each git (map (\<lambda>(name, x). set_ref_args name x) ps) s = (Ok (), s')"
    and "distinct (map fst ps)" "list_all (\<lambda>(name, x). starts_with ''refs/'' name \<and> x \<noteq> oid_zero) ps"
  shows "map_of (refs_of s') n = (case map_of ps n of Some x \<Rightarrow> Some x | None \<Rightarrow> map_of (refs_of s) n)"
  using assms(2-4)
proof (induction ps arbitrary: s)
  case (Cons p ps)
  obtain name x where p: "p = (name, x)" by (cases p)
  from Cons.prems(1) obtain out m where m: "run_git git (set_ref_args name x) s = (Ok out, m)"
    "run_each git (map (\<lambda>(name, x). set_ref_args name x) ps) m = (Ok (), s')"
    by (auto simp: p split: prod.splits sum.splits)
  have "map_of (refs_of m) = (map_of (refs_of s))(name \<mapsto> x)"
    using keeps_refsD(3) [OF assms(1) m(1)] Cons.prems(3) by (simp add: p)
  moreover have "map_of ps name = None" using Cons.prems(2) by (simp add: p map_of_eq_None_iff)
  ultimately show ?case
    using Cons.IH [OF m(2)] Cons.prems(2,3) by (auto simp: p split: option.splits)
qed simp

lemma run_each_deletes:
  assumes "keeps_refs git refs_of" "run_each git (map (\<lambda>(name, x). delete_ref_args name) ps) s = (Ok (), s')"
    and "list_all (\<lambda>(name, _). starts_with ''refs/'' name) ps"
  shows "map_of (refs_of s') n = (if n \<in> fst ` set ps then None else map_of (refs_of s) n)"
  using assms(2,3)
proof (induction ps arbitrary: s)
  case (Cons p ps)
  obtain name x where p: "p = (name, x)" by (cases p)
  from Cons.prems(1) obtain out m where m: "run_git git (delete_ref_args (fst p)) s = (Ok out, m)"
    "run_each git (map (\<lambda>(name, x). delete_ref_args name) ps) m = (Ok (), s')"
    by (auto simp: p split: prod.splits sum.splits)
  have "map_of (refs_of m) = (map_of (refs_of s))(fst p := None)"
    using keeps_refsD(4) [OF assms(1) m(1)] Cons.prems(2) by (simp add: p)
  with Cons.IH [OF m(2)] Cons.prems(2) show ?case by auto
qed simp

text \<open>The cache mirrors the log: when \<open>sync_refs\<close> succeeds, whatever references the cache had
  before, its references are exactly those of the log.\<close>

lemma sync_refs_exact:
  assumes "keeps_refs git refs_of"
    and "list_all (\<lambda>(name, x). listable name \<and> oid_wf x) (refs_of s)"
    and "distinct (map fst canonical)" "list_all (\<lambda>(name, x). starts_with ''refs/'' name \<and> x \<noteq> oid_zero) canonical"
    and "sync_refs git canonical default_branch s = (Ok (), s')"
  shows "map_of (refs_of s') name = map_of canonical name"
proof -
  let ?old = "refs_of s"
  let ?sets = "filter (\<lambda>r. \<not> list_ex (\<lambda>old. old = r) ?old) canonical"
  let ?dels = "filter (\<lambda>(name, _). \<not> list_ex (\<lambda>(n, _). n = name) canonical) ?old"
  obtain existing s1 where list: "cache_refs git s = (Ok existing, s1)"
    and run: "run_each git (sync_commands canonical default_branch existing) s1 = (Ok (), s')"
    using assms(5) by (auto simp: sync_refs_def split: prod.splits sum.splits)
  from list obtain listing where listing: "run_git git LIST_REFS s = (Ok listing, s1)"
    and ex: "existing = List.map_filter parse_ref_line (str_lines listing)"
    by (auto simp: cache_refs_def split: prod.splits sum.splits)
  have old: "existing = ?old" "s1 = s"
    using keeps_refsD(2) [OF assms(1) listing] ex utf8_lossy_valid [OF ref_listing_text [OF assms(2)]]
      read_ref_listing [OF assms(2)] by simp_all
  obtain m1 m2 where m1: "run_each git (map (\<lambda>(name, x). set_ref_args name x) ?sets) s = (Ok (), m1)"
    and m2: "run_each git (map (\<lambda>(name, _). delete_ref_args name) ?dels) m1 = (Ok (), m2)"
    and m3: "run_each git (let head = ''refs/heads/'' @ default_branch in
      if list_ex (\<lambda>(name, _). name = head) canonical then [set_head_args head] else []) m2 = (Ok (), s')"
    using run unfolding sync_commands_def old run_each_append by blast
  have "refs_of s' = refs_of m2"
    using m3 keeps_refsD(5) [OF assms(1)] by (auto simp: Let_def split: if_splits prod.splits sum.splits)
  moreover have "map_of (refs_of m1) name = (case map_of ?sets name of Some x \<Rightarrow> Some x | None \<Rightarrow> map_of ?old name)"
    by (rule run_each_sets [OF assms(1) m1]) (use assms(3,4) in \<open>auto simp: distinct_map_filter list_all_iff\<close>)
  moreover have "map_of (refs_of m2) name = (if name \<in> fst ` set ?dels then None else map_of (refs_of m1) name)"
    by (rule run_each_deletes [OF assms(1) m2]) (use assms(2) in \<open>auto simp: list_all_iff listable_def\<close>)
  moreover have "(name \<in> fst ` set ?dels) \<longleftrightarrow> map_of canonical name = None \<and> map_of ?old name \<noteq> None"
    by (force simp: list_ex_iff map_of_eq_None_iff image_iff)
  moreover have "(case map_of ?sets name of Some x \<Rightarrow> Some x | None \<Rightarrow> map_of ?old name) = map_of canonical name"
    if "map_of canonical name = Some x" for x
  proof (cases "(name, x) \<in> set ?old")
    case True
    then have "map_of ?sets name = None"
      using assms(3) that by (auto simp: map_of_eq_None_iff list_ex_iff) (metis map_of_is_SomeI option.inject)
    then show ?thesis using True keeps_refsD(1) [OF assms(1)] that by (simp add: map_of_is_SomeI)
  next
    case False
    then have "(name, x) \<in> set ?sets" using map_of_SomeD [OF that] by (auto simp: list_ex_iff)
    moreover have "distinct (map fst ?sets)" using assms(3) by (simp add: distinct_map_filter)
    ultimately have "map_of ?sets name = Some x" by (simp add: map_of_is_SomeI)
    then show ?thesis using that by simp
  qed
  moreover have "map_of ?sets name = None" if "map_of canonical name = None"
    using that by (auto simp: map_of_eq_None_iff)
  ultimately show ?thesis by (cases "map_of canonical name") auto
qed

text \<open>A git whose state is a table of references, listed by name.\<close>

definition sorted_refs :: "(string, oid) table \<Rightarrow> (string \<times> oid) list" where
  "sorted_refs t = map (\<lambda>name. (name, the (tbl_get t name))) (sort (remdups (map fst t)))"

lemma sorted_refs_fst [simp]: "map fst (sorted_refs t) = sort (remdups (map fst t))"
  by (simp add: sorted_refs_def comp_def)

lemma sorted_refs_get: "map_of (sorted_refs t) name = tbl_get t name"
proof (cases "tbl_get t name")
  case None
  then have "name \<notin> fst ` set t" by (simp add: tbl_get_def map_of_eq_None_iff)
  then have "name \<notin> fst ` set (sorted_refs t)" by (simp add: sorted_refs_def image_image)
  then show ?thesis using None by (simp add: map_of_eq_None_iff)
next
  case (Some x)
  then have "(name, x) \<in> set t" by (simp add: tbl_get_def map_of_SomeD)
  then have "name \<in> set (map fst t)" by force
  then have "(name, x) \<in> set (sorted_refs t)" using Some by (force simp: sorted_refs_def)
  moreover have "distinct (map fst (sorted_refs t))" by simp
  ultimately show ?thesis using Some by (simp add: map_of_is_SomeI)
qed

definition table_git :: "(string, oid) table git" where
  "table_git args s = (let fine = (\<lambda>out. Ok \<lparr>go_success = True, go_stdout = out, go_stderr = []\<rparr>) in
     if args = LIST_REFS then (fine (ref_listing (sorted_refs s)), s)
     else (case args of
       [a, b, c] \<Rightarrow>
         if a = ''symbolic-ref'' then (fine [], s)
         else if b = ''-d'' then (fine [], tbl_del c s)
         else (case parse_oid_opt c of Some x \<Rightarrow> if to_hex x = c then (fine [], tbl_put b x s) else (Err ''bad oid'', s)
               | None \<Rightarrow> (Err ''bad oid'', s))
     | _ \<Rightarrow> (Err ''usage'', s)))"

lemma to_hex_inject: "to_hex x = to_hex y \<Longrightarrow> x = y"
proof (cases x; cases y)
  fix a b assume "to_hex x = to_hex y" and ab: "x = Oid a" "y = Oid b"
  then have "hex_chunks (concat (map hex_byte a)) = hex_chunks (concat (map hex_byte b))" by (simp add: to_hex_def)
  then show "x = y" by (simp add: hex_chunks_hex ab)
qed

lemma table_git_keeps: "keeps_refs table_git sorted_refs"
  unfolding keeps_refs_def
proof (intro allI conjI impI; (elim conjE)?)
  fix name x out and s s' :: "(string, oid) table"
  assume "starts_with ''refs/'' name" "table_git (set_ref_args name x) s = (Ok out, s')"
  then have "s' = tbl_put name x s"
    by (auto simp: table_git_def Let_def set_ref_args_def LIST_REFS_def starts_with_iff
        split: option.splits if_splits dest: to_hex_inject)
  then show "map_of (sorted_refs s') = (map_of (sorted_refs s))(name \<mapsto> x)"
    by (simp add: fun_eq_iff sorted_refs_get tbl_get_put)
next
  fix name out and s s' :: "(string, oid) table"
  assume "starts_with ''refs/'' name" "table_git (delete_ref_args name) s = (Ok out, s')"
  then have "s' = tbl_del name s" by (auto simp: table_git_def Let_def delete_ref_args_def LIST_REFS_def)
  then show "map_of (sorted_refs s') = (map_of (sorted_refs s))(name := None)"
    by (simp add: fun_eq_iff sorted_refs_get tbl_get_del)
qed (auto simp: table_git_def Let_def LIST_REFS_def set_head_args_def)

section \<open>What is printed is read back\<close>

definition batch_line :: "git_object \<Rightarrow> string" where
  "batch_line ob = to_hex (ob_oid ob) @ '' '' @ kind_as_str (ob_kind ob) @ '' '' @ show_nat (length (ob_content ob))"

definition batch_text :: "git_object list \<Rightarrow> bytes" where
  "batch_text objs = concat (map (\<lambda>ob. str_bytes (batch_line ob) @ [10] @ ob_content ob @ [10]) objs)"

lemma bytes_text_str [simp]: "bytes_text (str_bytes s) = s"
proof -
  have "char_of (unat (of_nat (code c) :: byte)) = c" for c by (simp only: unat_of_small [OF code_less]) (simp add: code_def)
  then show ?thesis by (simp add: bytes_text_def str_bytes_def comp_def)
qed

lemma ws_back_printable:
  assumes "33 \<le> a" "a < 127"
  shows "ws_back (a # r) = 0"
proof -
  have one: "ws_front [a] = 0" using assms by (simp add: ws_front_def)
  have two: "ws_front (b # [a]) \<noteq> 2" for b using assms by (simp add: ws_front_def)
  have three: "ws_front (d # b # [a]) \<noteq> 3" for b d using assms by (simp add: ws_front_def)
  have less: "ws_front [b] \<noteq> 2" "ws_front [b] \<noteq> 3" "ws_front [d, b] \<noteq> 3" for b d by (simp_all add: ws_front_def)
  show ?thesis
  proof (cases r)
    case Nil
    then show ?thesis using one by (simp add: ws_back_def)
  next
    case (Cons b r')
    then show ?thesis using one two [of b] three [of _ b] less by (cases r') (simp_all add: ws_back_def numeral_3_eq_3 numeral_2_eq_2)
  qed
qed

lemma trim_end_line: "33 \<le> code c \<Longrightarrow> code c < 127 \<Longrightarrow> trim_end (s @ [c, CHR 0x0A]) = s @ [c]"
proof -
  assume c: "33 \<le> code c" "code c < 127"
  let ?t = "c # rev s"
  have "ws_back (map code (CHR 0x0A # ?t)) = 1" by (simp add: ws_back_def ws_front_def code_def)
  then have "trim_with ws_back (CHR 0x0A # ?t) = trim_with ws_back ?t"
    by (subst trim_with.simps) (simp add: Let_def)
  moreover have "ws_back (map code ?t) = 0"
    using c by (simp add: ws_back_printable)
  ultimately show ?thesis by (simp add: trim_end_def trim_with_none)
qed

lemma show_nat_alnum: "c \<in> set (show_nat n) \<Longrightarrow> is_digit c"
  using show_nat_digits [of n] by (simp add: list_all_iff)

lemma batch_line_chars: "c \<in> set (batch_line ob) \<Longrightarrow> 32 \<le> code c \<and> code c < 127"
proof -
  assume "c \<in> set (batch_line ob)"
  then have "is_alnum c \<or> c = CHR '' ''"
    using hex_plain show_nat_alnum
    by (cases "ob_kind ob") (auto simp: batch_line_def kind_as_str_def is_alnum_def is_digit_def is_lower_def code_def)
  then show ?thesis by (auto simp: is_alnum_def is_digit_def is_upper_def is_lower_def code_def)
qed

lemma batch_line_words: "split_by (\<lambda>c. c = CHR '' '') (batch_line ob) =
    [to_hex (ob_oid ob), kind_as_str (ob_kind ob), show_nat (length (ob_content ob))]"
proof -
  have hex: "\<forall>c\<in>set (to_hex (ob_oid ob)). c \<noteq> CHR '' ''" using hex_plain not_alnum_breaks by metis
  have kind: "\<forall>c\<in>set (kind_as_str (ob_kind ob)). c \<noteq> CHR '' ''"
    by (cases "ob_kind ob") (simp_all add: kind_as_str_def)
  have num: "\<forall>c\<in>set (show_nat (length (ob_content ob))). c \<noteq> CHR '' ''"
    using show_nat_alnum by (fastforce simp: is_digit_def code_def)
  have "batch_line ob = to_hex (ob_oid ob) @ CHR '' '' # kind_as_str (ob_kind ob) @ CHR '' '' # show_nat (length (ob_content ob))"
    by (simp add: batch_line_def)
  then show ?thesis
    using split_by_append [of "\<lambda>c. c = CHR '' ''" "CHR '' ''"] hex kind num by (simp add: split_by_none)
qed

lemma batch_header_line:
  assumes "oid_wf (ob_oid ob)" "length (ob_content ob) < 2 ^ 64"
  shows "batch_header (str_bytes (batch_line ob) @ [10]) = Some (ob_oid ob, ob_kind ob, length (ob_content ob))"
proof -
  have newline: "bytes_text [10] = [CHR 0x0A]" by (simp add: bytes_text_def char_of_def) code_simp
  obtain s c where s: "show_nat (length (ob_content ob)) = s @ [c]"
    using show_nat_not_Nil rev_exhaust by metis
  then have c: "33 \<le> code c" "code c < 127"
    using show_nat_alnum [of c "length (ob_content ob)"] by (auto simp: is_digit_def)
  have "batch_line ob = (to_hex (ob_oid ob) @ '' '' @ kind_as_str (ob_kind ob) @ '' '' @ s) @ [c]"
    by (simp add: batch_line_def s)
  then have "trim_end (batch_line ob @ [CHR 0x0A]) = batch_line ob"
    using trim_end_line [OF c, of "to_hex (ob_oid ob) @ '' '' @ kind_as_str (ob_kind ob) @ '' '' @ s"] by simp
  then have "trim_end (bytes_text (str_bytes (batch_line ob) @ [10])) = batch_line ob"
    using newline bytes_text_str [of "batch_line ob"] by (simp add: bytes_text_def)
  then show ?thesis
    using assms by (simp add: batch_header_def batch_line_words parse_oid_hex kind_str_round_trip parse_show_nat)
qed

lemma read_batch_one:
  assumes "oid_wf (ob_oid ob)" "length (ob_content ob) < 2 ^ 64" "read_batch rest = Ok objs"
  shows "read_batch (str_bytes (batch_line ob) @ [10] @ ob_content ob @ [10] @ rest) = Ok (ob # objs)"
proof -
  let ?line = "str_bytes (batch_line ob)" and ?more = "ob_content ob @ [10] @ rest"
  have small: "b \<noteq> 10 \<and> unat b < 128" if b: "b \<in> set ?line" for b
  proof -
    obtain c where c: "c \<in> set (batch_line ob)" "b = of_nat (code c)"
      using b by (auto simp: str_bytes_def)
    then have "unat b = code c" using unat_of_small [OF code_less] by simp
    then show ?thesis using batch_line_chars [OF c(1)] by auto
  qed
  have take: "take_line (?line @ [10] @ ?more) = (?line @ [10], ?more)"
    using small by (simp add: take_line_def takeWhile_append dropWhile_append)
  have utf8: "utf8_valid (map unat (?line @ [10]))" using small by (intro utf8_ascii) auto
  show ?thesis
    using take utf8 assms(3) batch_header_line [OF assms(1,2)]
    by (subst read_batch.simps) simp
qed

text \<open>Property C36: an import reads what git prints. Whatever the objects are (their contents are
  arbitrary bytes, line feeds and further header lines included), reading the output of
  \<open>cat-file --batch\<close> gives exactly these objects in order, bit for bit.\<close>

theorem import_reads_every_object:
  assumes "list_all (\<lambda>ob. oid_wf (ob_oid ob) \<and> length (ob_content ob) < 2 ^ 64) objs"
  shows "read_all_objects (Ok (batch_text objs, True, stderr)) = Ok objs"
proof -
  have "read_batch (batch_text objs) = Ok objs"
    using assms
  proof (induction objs)
    case Nil
    then show ?case by (simp add: batch_text_def read_batch.simps)
  next
    case (Cons ob objs)
    then show ?case using read_batch_one [of ob "batch_text objs" objs] by (simp add: batch_text_def)
  qed
  then show ?thesis by (simp add: read_all_objects_def)
qed

lemma import_reads_witness:
  "read_all_objects (Ok (batch_text [\<lparr>ob_oid = oid_zero, ob_kind = Blob, ob_content = [10, 0, 255]\<rparr>], True, [])) =
    Ok [\<lparr>ob_oid = oid_zero, ob_kind = Blob, ob_content = [10, 0, 255]\<rparr>]"
  by (rule import_reads_every_object) (simp add: oid_zero_def oid_wf_def)

end
