(* ===== verification/Git_Browse.thy ===== *)
theory Git_Browse
  imports Git_Refs "HOL-Library.Product_Lexorder" "HOL-Library.Char_ord" "HOL-Library.List_Lexorder" "HOL-Library.Multiset"
begin

text \<open>
  Reading a repository's contents (\<open>forge-git/src/browse.rs\<close>): directories, files, commits, and
  which paths and revisions may be handed to git at all. Git is the parameter of \<open>Git_Refs\<close>;
  \<open>lower\<close> is the Unicode lower case of the standard library.
\<close>

section \<open>Directories\<close>

datatype entry_kind = EntryFile | EntryDirectory | EntryExecutable | EntrySymlink | EntrySubmodule

definition entry_kind_from_mode :: "string \<Rightarrow> entry_kind" where
  "entry_kind_from_mode mode =
     (if mode = ''040000'' \<or> mode = ''40000'' then EntryDirectory
      else if mode = ''100755'' then EntryExecutable
      else if mode = ''120000'' then EntrySymlink
      else if mode = ''160000'' then EntrySubmodule else EntryFile)"

record tree_entry =
  te_name :: string
  te_path :: string
  te_oid :: oid
  te_kind :: entry_kind
  te_size :: "nat option"

definition is_directory :: "tree_entry \<Rightarrow> bool" where
  "is_directory e \<longleftrightarrow> te_kind e = EntryDirectory"

definition trim_end_slashes :: "string \<Rightarrow> string" where
  "trim_end_slashes p = rev (dropWhile (\<lambda>c. c = CHR ''/'') (rev p))"

definition parse_tree_line :: "string \<Rightarrow> string \<Rightarrow> tree_entry option" where
  "parse_tree_line line parent = (case split_once (CHR 0x09) line of
     None \<Rightarrow> None
   | Some (meta, name) \<Rightarrow> (case split_whitespace meta of
       mode # typ # hex # rest \<Rightarrow> (case parse_oid_opt hex of
           None \<Rightarrow> None
         | Some x \<Rightarrow> Some \<lparr>te_name = name,
             te_path = (if parent = [] then name else trim_end_slashes parent @ ''/'' @ name),
             te_oid = x, te_kind = entry_kind_from_mode mode,
             te_size = (case rest of [] \<Rightarrow> None | n # _ \<Rightarrow> parse_unsigned (2 ^ 64) n)\<rparr>)
     | _ \<Rightarrow> None))"

definition tree_spec :: "string \<Rightarrow> string \<Rightarrow> string" where
  "tree_spec revision path =
     (if path = [] then revision @ ''^{tree}'' else revision @ '':'' @ trim_end_slashes path)"

definition read_tree :: "(string \<Rightarrow> string) \<Rightarrow> string \<Rightarrow> string \<Rightarrow> tree_entry list" where
  "read_tree lower path out = sort_key (\<lambda>e. (\<not> is_directory e, lower (te_name e)))
     (List.map_filter (\<lambda>line. parse_tree_line line path)
       (filter (\<lambda>line. line \<noteq> []) (split_by (\<lambda>c. c = CHR 0x00) out)))"

definition list_tree :: "(string \<Rightarrow> string) \<Rightarrow> 'g git \<Rightarrow> string \<Rightarrow> string \<Rightarrow> 'g \<Rightarrow> (tree_entry list, cache_error) result \<times> 'g" where
  "list_tree lower git revision path s =
     (case run_git git [''ls-tree'', ''--long'', ''-z'', tree_spec revision path] s of
        (Err e, s') \<Rightarrow> (Err e, s') | (Ok out, s') \<Rightarrow> (Ok (read_tree lower path out), s'))"

section \<open>Files\<close>

datatype file_blob = TextFile string nat | BinaryFile nat

definition file_blob_size :: "file_blob \<Rightarrow> nat" where
  "file_blob_size b = (case b of TextFile _ n \<Rightarrow> n | BinaryFile n \<Rightarrow> n)"

definition is_binary :: "file_blob \<Rightarrow> bool" where
  "is_binary b = (case b of TextFile _ _ \<Rightarrow> False | BinaryFile _ \<Rightarrow> True)"

definition cat_file :: "'g git \<Rightarrow> string \<Rightarrow> 'g \<Rightarrow> ((kind \<times> string) option, cache_error) result \<times> 'g" where
  "cat_file git spec s = (case run_git git [''cat-file'', ''-t'', spec] s of
     (Err (GitFailed _ _), s') \<Rightarrow> (Ok None, s')
   | (Err e, s') \<Rightarrow> (Err e, s')
   | (Ok k, s') \<Rightarrow> (case kind_parse (trim k) of
       None \<Rightarrow> (Ok None, s')
     | Some k \<Rightarrow> (case git [''cat-file'', ''blob'', spec] s' of
         (Err e, s2) \<Rightarrow> (Err (GitIo e), s2)
       | (Ok output, s2) \<Rightarrow> (Ok (if go_success output then Some (k, go_stdout output) else None), s2))))"

definition blob_of :: "string \<Rightarrow> file_blob" where
  "blob_of raw = (if utf8_valid (map code raw) \<and> CHR 0x00 \<notin> set raw then TextFile raw (length raw) else BinaryFile (length raw))"

definition read_blob :: "'g git \<Rightarrow> string \<Rightarrow> string \<Rightarrow> 'g \<Rightarrow> (file_blob option, cache_error) result \<times> 'g" where
  "read_blob git revision path s = (case cat_file git (revision @ '':'' @ path) s of
     (Err e, s') \<Rightarrow> (Err e, s')
   | (Ok None, s') \<Rightarrow> (Ok None, s')
   | (Ok (Some (k, raw)), s') \<Rightarrow> (Ok (if k \<noteq> Blob then None else Some (blob_of raw)), s'))"

text \<open>\<open>find_file\<close>: the first candidate that names a file that can be read.\<close>

definition same_name :: "string \<Rightarrow> string \<Rightarrow> bool" where
  "same_name a b \<longleftrightarrow> to_ascii_lowercase a = to_ascii_lowercase b"

fun find_among :: "'g git \<Rightarrow> string \<Rightarrow> tree_entry list \<Rightarrow> string list \<Rightarrow> 'g \<Rightarrow> ((string \<times> file_blob) option, cache_error) result \<times> 'g" where
  "find_among git revision entries [] s = (Ok None, s)"
| "find_among git revision entries (candidate # rest) s =
     (case List.find (\<lambda>e. same_name (te_name e) candidate \<and> \<not> is_directory e) entries of
        None \<Rightarrow> find_among git revision entries rest s
      | Some entry \<Rightarrow> (case read_blob git revision (te_path entry) s of
          (Err e, s') \<Rightarrow> (Err e, s')
        | (Ok (Some b), s') \<Rightarrow> (Ok (Some (te_name entry, b)), s')
        | (Ok None, s') \<Rightarrow> find_among git revision entries rest s'))"

definition find_file :: "(string \<Rightarrow> string) \<Rightarrow> 'g git \<Rightarrow> string \<Rightarrow> string list \<Rightarrow> 'g \<Rightarrow> ((string \<times> file_blob) option, cache_error) result \<times> 'g" where
  "find_file lower git revision candidates s = (case list_tree lower git revision [] s of
     (Err e, s') \<Rightarrow> (Err e, s') | (Ok entries, s') \<Rightarrow> find_among git revision entries candidates s')"

section \<open>Commits\<close>

record git_commit =
  gc_oid :: oid
  gc_author_name :: string
  gc_author_email :: string
  gc_authored_at :: int
  gc_summary :: string
  gc_body :: "string option"
  gc_parents :: "oid list"

definition commit_short :: "git_commit \<Rightarrow> string" where
  "commit_short c = take 7 (to_hex (gc_oid c))"

definition is_merge :: "git_commit \<Rightarrow> bool" where
  "is_merge c \<longleftrightarrow> length (gc_parents c) > 1"

text \<open>\<open>str::parse\<close> to a signed integer of 64 bits.\<close>

definition parse_i64 :: "string \<Rightarrow> int option" where
  "parse_i64 s = (case s of
     [] \<Rightarrow> None
   | c # ds \<Rightarrow>
       if c = CHR ''-'' then
         (if ds \<noteq> [] \<and> list_all is_digit ds \<and> digits_value 0 ds \<le> 2 ^ 63 then Some (- int (digits_value 0 ds)) else None)
       else map_option int (parse_unsigned (2 ^ 63) s))"

definition message_parts :: "string \<Rightarrow> string \<times> string option" where
  "message_parts message = (case split_once (CHR 0x0A) (trim_end message) of
     None \<Rightarrow> (trim (trim_end message), None)
   | Some (first, rest) \<Rightarrow> (trim first, if trim rest = [] then None else Some (trim rest)))"

definition parse_commit_record :: "string \<Rightarrow> git_commit option" where
  "parse_commit_record rec = (case split_by (\<lambda>c. c = CHR 0x1F) rec of
     hex # name # email # at # parents # rest \<Rightarrow> (case (parse_oid_opt (trim hex), parse_i64 (trim at)) of
         (Some x, Some t) \<Rightarrow>
           (let (summary, body) = message_parts (case rest of [] \<Rightarrow> [] | message # _ \<Rightarrow> message) in
            Some \<lparr>gc_oid = x, gc_author_name = name, gc_author_email = email, gc_authored_at = t,
              gc_summary = summary, gc_body = body,
              gc_parents = List.map_filter parse_oid_opt (split_whitespace parents)\<rparr>)
       | _ \<Rightarrow> None)
   | _ \<Rightarrow> None)"

definition HISTORY_FORMAT :: string where
  "HISTORY_FORMAT = ''--pretty=format:%x1e%H%x1f%an%x1f%ae%x1f%at%x1f%P%x1f%B''"

definition read_history :: "string \<Rightarrow> git_commit list" where
  "read_history out = List.map_filter parse_commit_record
     (filter (\<lambda>rec. trim rec \<noteq> []) (split_by (\<lambda>c. c = CHR 0x1E) out))"

definition history :: "'g git \<Rightarrow> string \<Rightarrow> nat \<Rightarrow> nat \<Rightarrow> 'g \<Rightarrow> (git_commit list, cache_error) result \<times> 'g" where
  "history git revision limit skip s =
     (case run_git git [''rev-list'', ''--max-count='' @ show_nat limit, ''--skip='' @ show_nat skip, HISTORY_FORMAT, revision] s of
        (Ok out, s') \<Rightarrow> (Ok (read_history out), s')
      | (Err (GitFailed _ _), s') \<Rightarrow> (Ok [], s')
      | (Err e, s') \<Rightarrow> (Err e, s'))"

definition commit_at :: "'g git \<Rightarrow> string \<Rightarrow> 'g \<Rightarrow> (git_commit option, cache_error) result \<times> 'g" where
  "commit_at git revision s = (case history git revision 1 0 s of
     (Err e, s') \<Rightarrow> (Err e, s') | (Ok [], s') \<Rightarrow> (Ok None, s') | (Ok (c # _), s') \<Rightarrow> (Ok (Some c), s'))"

definition commits_between :: "'g git \<Rightarrow> string \<Rightarrow> string \<Rightarrow> nat \<Rightarrow> 'g \<Rightarrow> (git_commit list, cache_error) result \<times> 'g" where
  "commits_between git base head limit s = (case history git head limit 0 s of
     (Err e, s') \<Rightarrow> (Err e, s')
   | (Ok commits, s') \<Rightarrow> (case history git base 1000 0 s' of
       (r, s2) \<Rightarrow> (let base_commits = map gc_oid (case r of Ok cs \<Rightarrow> cs | Err _ \<Rightarrow> []) in
         (Ok (filter (\<lambda>c. gc_oid c \<notin> set base_commits) commits), s2))))"

definition commit_diff :: "'g git \<Rightarrow> string \<Rightarrow> 'g \<Rightarrow> (string, cache_error) result \<times> 'g" where
  "commit_diff git revision s = run_git git [''show'', ''--format='', ''--no-color'', ''--find-renames'', revision] s"

section \<open>Branches and tags\<close>

definition refs_below :: "string \<Rightarrow> 'g git \<Rightarrow> 'g \<Rightarrow> ((string \<times> oid) list, cache_error) result \<times> 'g" where
  "refs_below prefix git s = (case cache_refs git s of
     (Err e, s') \<Rightarrow> (Err e, s')
   | (Ok refs, s') \<Rightarrow> (Ok (List.map_filter (\<lambda>(name, x). map_option (\<lambda>short. (short, x)) (strip_prefix prefix name)) refs), s'))"

definition branches :: "'g git \<Rightarrow> 'g \<Rightarrow> ((string \<times> oid) list, cache_error) result \<times> 'g" where
  "branches git s = refs_below ''refs/heads/'' git s"

definition tags :: "'g git \<Rightarrow> 'g \<Rightarrow> ((string \<times> oid) list, cache_error) result \<times> 'g" where
  "tags git s = refs_below ''refs/tags/'' git s"

definition is_empty_repo :: "'g git \<Rightarrow> 'g \<Rightarrow> (bool, cache_error) result \<times> 'g" where
  "is_empty_repo git s = (case cache_refs git s of (Err e, s') \<Rightarrow> (Err e, s') | (Ok refs, s') \<Rightarrow> (Ok (refs = []), s'))"

section \<open>What may be handed to git\<close>

definition is_safe_path :: "string \<Rightarrow> bool" where
  "is_safe_path path \<longleftrightarrow> \<not> starts_with ''/'' path \<and> \<not> starts_with ''-'' path \<and> \<not> contains_str ''..'' path \<and>
     CHR 0x00 \<notin> set path \<and> CHR '':'' \<notin> set path \<and> length path \<le> 4096"

definition is_safe_revision :: "string \<Rightarrow> bool" where
  "is_safe_revision revision \<longleftrightarrow> revision \<noteq> [] \<and> \<not> starts_with ''-'' revision \<and> length revision \<le> 255 \<and>
     \<not> contains_str ''..'' revision \<and> CHR 0x00 \<notin> set revision \<and>
     list_all (\<lambda>c. is_alnum c \<or> c \<in> set ''-_./'') revision"

section \<open>Words\<close>

definition word_text :: "string \<Rightarrow> bool" where
  "word_text w \<longleftrightarrow> w \<noteq> [] \<and> list_all (\<lambda>c. 33 \<le> code c \<and> code c < 127) w"

lemma split_from_word:
  "list_all (\<lambda>c. 33 \<le> code c \<and> code c < 127) w \<Longrightarrow> split_whitespace_from acc (w @ rest) = split_whitespace_from (acc @ w) rest"
proof (induction w arbitrary: acc)
  case (Cons c w)
  then have "ws_front (map code (c # w @ rest)) = 0"
    by (auto simp: ws_front_def split: list.splits)
  then have "split_whitespace_from acc (c # w @ rest) = split_whitespace_from (acc @ [c]) (w @ rest)"
    by (subst split_whitespace_from.simps) (simp add: Let_def)
  then show ?case using Cons by simp
qed simp

lemma split_from_space:
  "split_whitespace_from acc (CHR '' '' # rest) = (if acc = [] then [] else [acc]) @ split_whitespace_from [] rest"
proof -
  have "ws_front (map code (CHR '' '' # rest)) = 1" by (simp add: ws_front_def code_def)
  then show ?thesis by (subst split_whitespace_from.simps) (simp add: Let_def)
qed

lemma split_spaces: "split_whitespace (replicate n (CHR '' '') @ rest) = split_whitespace rest"
  by (induction n) (simp_all add: split_whitespace_def split_from_space)

lemma split_word: "word_text w \<Longrightarrow> split_whitespace (w @ CHR '' '' # rest) = w # split_whitespace rest"
  using split_from_word [of w "[]"] by (simp add: split_whitespace_def split_from_space word_text_def)

lemma split_last: "word_text w \<Longrightarrow> split_whitespace w = [w]"
  using split_from_word [of w "[]" "[]"]
  by (simp add: split_whitespace_def word_text_def split_whitespace_from.simps [of _ "[]"])

lemma word_alnum: "w \<noteq> [] \<Longrightarrow> (\<And>c. c \<in> set w \<Longrightarrow> is_alnum c) \<Longrightarrow> word_text w"
  by (fastforce simp: word_text_def list_all_iff is_alnum_def is_digit_def is_upper_def is_lower_def)

lemma word_hex: "oid_wf x \<Longrightarrow> word_text (to_hex x)"
proof (rule word_alnum)
  assume "oid_wf x"
  then have "length (to_hex x) \<noteq> 0" by (cases x) (simp add: to_hex_def oid_wf_def)
  then show "to_hex x \<noteq> []" by auto
qed (rule hex_plain)

lemma word_nat: "word_text (show_nat n)"
  using show_nat_digits [of n] by (intro word_alnum) (auto simp: list_all_iff is_alnum_def)

section \<open>A directory is listed in full\<close>

text \<open>An entry as \<open>ls-tree --long -z\<close> prints it: the size right-aligned, or a dash.\<close>

record tree_item =
  ti_mode :: string
  ti_type :: string
  ti_oid :: oid
  ti_size :: "nat option"
  ti_name :: string

definition size_text :: "nat option \<Rightarrow> string" where
  "size_text n = (case n of Some v \<Rightarrow> show_nat v | None \<Rightarrow> ''-'')"

definition tree_line :: "tree_item \<Rightarrow> string" where
  "tree_line i = ti_mode i @ CHR '' '' # ti_type i @ CHR '' '' # to_hex (ti_oid i) @ CHR '' '' #
     replicate (7 - length (size_text (ti_size i))) (CHR '' '') @ size_text (ti_size i) @ CHR 0x09 # ti_name i"

definition tree_text :: "tree_item list \<Rightarrow> string" where
  "tree_text items = concat (map (\<lambda>i. tree_line i @ [CHR 0x00]) items)"

definition item_ok :: "tree_item \<Rightarrow> bool" where
  "item_ok i \<longleftrightarrow> word_text (ti_mode i) \<and> word_text (ti_type i) \<and> oid_wf (ti_oid i) \<and>
     (\<forall>v. ti_size i = Some v \<longrightarrow> v < 2 ^ 64) \<and> CHR 0x00 \<notin> set (ti_name i)"

definition entry_of :: "string \<Rightarrow> tree_item \<Rightarrow> tree_entry" where
  "entry_of path i = \<lparr>te_name = ti_name i,
     te_path = (if path = [] then ti_name i else trim_end_slashes path @ ''/'' @ ti_name i),
     te_oid = ti_oid i, te_kind = entry_kind_from_mode (ti_mode i), te_size = ti_size i\<rparr>"

lemma word_size: "word_text (size_text n)"
proof (cases n)
  case None
  then show ?thesis by (simp add: size_text_def word_text_def code_def)
qed (simp add: size_text_def word_nat)

lemma read_size: "\<forall>v. n = Some v \<longrightarrow> v < 2 ^ 64 \<Longrightarrow> parse_unsigned (2 ^ 64) (size_text n) = n"
proof (cases n)
  case None
  have "parse_unsigned (2 ^ 64) ''-'' = None" by (simp add: parse_unsigned_def is_digit_def code_def)
  then show ?thesis by (simp add: size_text_def None)
qed (simp add: size_text_def parse_show_nat)

lemma word_no_control: "word_text w \<Longrightarrow> CHR 0x09 \<notin> set w \<and> CHR 0x00 \<notin> set w"
  by (auto simp: word_text_def list_all_iff code_def)

lemma parse_tree_line_item:
  assumes "item_ok i"
  shows "parse_tree_line (tree_line i) path = Some (entry_of path i)"
proof -
  let ?meta = "ti_mode i @ CHR '' '' # ti_type i @ CHR '' '' # to_hex (ti_oid i) @ CHR '' '' #
     replicate (7 - length (size_text (ti_size i))) (CHR '' '') @ size_text (ti_size i)"
  have ok: "word_text (ti_mode i)" "word_text (ti_type i)" "word_text (to_hex (ti_oid i))" "word_text (size_text (ti_size i))"
    using assms word_hex word_size by (simp_all add: item_ok_def)
  have "CHR 0x09 \<notin> set ?meta" using ok [THEN word_no_control] by auto
  then have "split_once (CHR 0x09) (tree_line i) = Some (?meta, ti_name i)"
    using split_once_Some [of "CHR 0x09" "tree_line i" ?meta "ti_name i"] by (simp add: tree_line_def)
  moreover have "split_whitespace ?meta = [ti_mode i, ti_type i, to_hex (ti_oid i), size_text (ti_size i)]"
    using ok by (simp add: split_word split_spaces split_last)
  ultimately show ?thesis
    using assms by (simp add: parse_tree_line_def parse_oid_hex item_ok_def read_size [simplified] entry_of_def)
qed

text \<open>A directory is listed in full. From what git prints about the entries of a
  directory, whatever their names (only a zero byte is impossible), the listing has exactly these
  entries, each with its name, path, object, kind and size; directories come before files, and each
  group is in the order of its names without regard to case.\<close>

theorem read_tree_exact:
  assumes "list_all item_ok items"
  shows "mset (read_tree lower path (tree_text items)) = mset (map (entry_of path) items) \<and>
    sorted (map (\<lambda>e. (\<not> is_directory e, lower (te_name e))) (read_tree lower path (tree_text items)))"
proof -
  have no_zero: "CHR 0x00 \<notin> set (tree_line i)" and some: "tree_line i \<noteq> []" if "i \<in> set items" for i
  proof -
    have ok: "item_ok i" using assms that by (simp add: list_all_iff)
    then have "word_text (ti_mode i)" "word_text (ti_type i)" "word_text (to_hex (ti_oid i))" "word_text (size_text (ti_size i))"
      using word_hex word_size by (simp_all add: item_ok_def)
    then show "CHR 0x00 \<notin> set (tree_line i)" using ok word_no_control by (auto simp: tree_line_def item_ok_def)
  qed (simp add: tree_line_def)
  have "split_by (\<lambda>c. c = CHR 0x00) (tree_text items) = map tree_line items @ [[]]"
    using split_records [of "map tree_line items" "CHR 0x00"] no_zero by (auto simp: tree_text_def comp_def)
  moreover have "filter (\<lambda>line. line \<noteq> []) (map tree_line items) = map tree_line items"
    using some by (auto simp: filter_id_conv)
  moreover have "List.map_filter (\<lambda>line. parse_tree_line line path) (map tree_line items) = map (entry_of path) items"
    using assms by (induction items) (auto simp: List.map_filter_def parse_tree_line_item)
  ultimately have "read_tree lower path (tree_text items) =
      sort_key (\<lambda>e. (\<not> is_directory e, lower (te_name e))) (map (entry_of path) items)"
    by (simp add: read_tree_def)
  then show ?thesis by simp
qed

definition demo_items :: "tree_item list" where
  "demo_items = [\<lparr>ti_mode = ''100644'', ti_type = ''blob'', ti_oid = oid_zero, ti_size = Some 42, ti_name = ''a file''\<rparr>,
     \<lparr>ti_mode = ''040000'', ti_type = ''tree'', ti_oid = oid_zero, ti_size = None, ti_name = ''src''\<rparr>]"

lemma read_tree_witness:
  "mset (read_tree id ''doc/'' (tree_text demo_items)) = mset (map (entry_of ''doc/'') demo_items)"
proof -
  have "list_all item_ok demo_items"
    by (simp add: demo_items_def item_ok_def word_text_def code_def oid_zero_def oid_wf_def)
  from read_tree_exact [OF this] show ?thesis by blast
qed

section \<open>Observations\<close>

text \<open>\<open>rev-list\<close> prints a line \<open>commit <id>\<close> before the record of every commit, also when a format is
  given. Since the record separator comes after that line, it is read as the end of the message of
  the commit before, which so gets a body it does not have.\<close>

lemma next_header_in_body:
  "message_parts (''fix'' @ [CHR 0x0A] @ ''commit 12ab'' @ [CHR 0x0A]) = (''fix'', Some ''commit 12ab'')"
  by code_simp

end
