(* ===== verification/Git_Http.thy ===== *)
theory Git_Http
  imports Git_Browse Command_History Read_Model
begin

text \<open>
  Git over HTTP (\<open>forge-githttp/src\<close>): how a request finds its repository and brings the cache level
  with the log (\<open>service.rs\<close>, \<open>lib.rs\<close>), how a push is decided inside git's \<open>pre-receive\<close> hook
  (\<open>receive.rs\<close>), and the packet framing (\<open>pktline.rs\<close>). Git, gzip, the UUID reader and the database
  are parameters; the command service, the object writer and the reference sync are the model's own.
\<close>

section \<open>Packets\<close>

fun show_hex :: "nat \<Rightarrow> string" where
  "show_hex n = (if n < 16 then [digit_char n] else show_hex (n div 16) @ [digit_char (n mod 16)])"

declare show_hex.simps [simp del]

definition pkt_encode :: "bytes \<Rightarrow> bytes" where
  "pkt_encode body = (let hex = show_hex (length body + 4) in
     str_bytes (replicate (4 - length hex) (CHR ''0'') @ hex) @ body)"

definition pkt_flush :: bytes where
  "pkt_flush = str_bytes ''0000''"

definition service_header :: "string \<Rightarrow> bytes" where
  "service_header service = pkt_encode (str_bytes (''# service='' @ service @ [CHR 0x0A])) @ pkt_flush"

section \<open>Errors\<close>

datatype git_problem =
    NoCommandService
  | NoLogWriter
  | ReadingObjects cache_error
  | StoringObjects store_error
  | MovingRefs command_error
  | BadRepoId
  | BadOwnerId
  | NoRepoNamed
  | ServiceFailed string

datatype githttp_error =
    NoSuchRepo
  | Unauthorized
  | UnsupportedService string
  | GitProblem git_problem
  | IoProblem string
  | StoreProblem sql_error
  | HydrateProblem "string hydrate_error"
  | CacheProblem cache_error

text \<open>The status, the code and the message of the response.\<close>

definition git_response :: "githttp_error \<Rightarrow> int \<times> string \<times> string" where
  "git_response e = (case e of
     NoSuchRepo \<Rightarrow> (404, ''not_found'', ''no such repository'')
   | UnsupportedService s \<Rightarrow> (403, ''unsupported_service'', ''service '' @ [CHR 0x27] @ s @ [CHR 0x27] @ '' is not supported'')
   | Unauthorized \<Rightarrow> (401, ''unauthorized'', ''not authorized'')
   | _ \<Rightarrow> (500, ''internal'', ''internal error''))"

section \<open>Finding a repository\<close>

text \<open>What a request meets: the repositories of the read model, the reader of UUIDs, the log, and git
  with the state \<open>'g\<close> of the directory it runs in. Every repository has a cache of its own.\<close>

record 'g git_env =
  gv_repos :: "(repos_table, sql_error) result"
  gv_uuid :: "string \<Rightarrow> string option"
  gv_fuel :: nat
  gv_sha1 :: "bytes \<Rightarrow> bytes"
  gv_fetch :: "repo_id \<Rightarrow> int \<Rightarrow> (bytes topic_record fetch_result, string) result"
  gv_git :: "'g git"
  gv_exists :: "'g \<Rightarrow> bool"
  gv_made :: "(unit, string) result"

type_synonym 'g caches = "repo_id \<Rightarrow> git_cache \<times> 'g"

definition cache_init :: "'g git_env \<Rightarrow> string \<Rightarrow> 'g \<Rightarrow> (unit, cache_error) result \<times> 'g" where
  "cache_init env default_branch s =
     (if gv_exists env s then (Ok (), s)
      else (case gv_made env of
        Err e \<Rightarrow> (Err (GitIo e), s)
      | Ok _ \<Rightarrow> run_each (gv_git env)
          [[''init'', ''--bare'', ''--quiet'', ''--initial-branch='' @ default_branch], [''config'', ''gc.auto'', ''0'']] s))"

text \<open>\<open>Cache::hydrate\<close>: the repository exists, then its objects are replayed. \<open>None\<close>: the log has
  more batches than the fuel.\<close>

definition cache_hydrate ::
    "'g git_env \<Rightarrow> repo_id \<Rightarrow> string \<Rightarrow> git_cache \<times> 'g \<Rightarrow> ((hydrated, githttp_error) result \<times> git_cache \<times> 'g) option" where
  "cache_hydrate env rid default_branch cs = (case cs of (c, s) \<Rightarrow>
     (case cache_init env default_branch s of
        (Err e, s') \<Rightarrow> Some (Err (CacheProblem e), c, s')
      | (Ok _, s') \<Rightarrow> map_option (\<lambda>(r, c'). (case r of Err e \<Rightarrow> Err (HydrateProblem e) | Ok h \<Rightarrow> Ok h, c', s'))
          (hydrate (gv_fuel env) (gv_sha1 env) (gv_fetch env rid) c)))"

definition repo_row_named :: "string \<Rightarrow> string \<Rightarrow> repos_table \<Rightarrow> repo_row option" where
  "repo_row_named owner repo t = repo_by_full_name (to_ascii_lowercase (owner @ ''/'' @ repo)) t"

definition prepare ::
    "'g git_env \<Rightarrow> service option \<Rightarrow> string \<Rightarrow> string \<Rightarrow> 'g caches \<Rightarrow> ((repo_id, githttp_error) result \<times> 'g caches) option" where
  "prepare env commands owner repo cs = (case gv_repos env of
     Err e \<Rightarrow> Some (Err (StoreProblem e), cs)
   | Ok t \<Rightarrow> (case repo_row_named owner repo t of
       None \<Rightarrow> Some (Err NoSuchRepo, cs)
     | Some row \<Rightarrow>
         if rp_deleted row then Some (Err NoSuchRepo, cs)
         else (case gv_uuid env (rp_repo_id row) of
           None \<Rightarrow> Some (Err (GitProblem BadRepoId), cs)
         | Some rid \<Rightarrow> (case cache_hydrate env rid (rp_default_branch row) (cs rid) of
             None \<Rightarrow> None
           | Some (Err e, c) \<Rightarrow> Some (Err e, cs(rid := c))
           | Some (Ok _, c) \<Rightarrow> (case commands of
               None \<Rightarrow> Some (Ok rid, cs(rid := c))
             | Some svc \<Rightarrow>
                 (let canonical = refs_for rid svc in
                  if canonical = [] then Some (Ok rid, cs(rid := c))
                  else (case sync_refs (gv_git env) canonical (rp_default_branch row) (snd c) of
                    (Err e, s') \<Rightarrow> Some (Err (CacheProblem e), cs(rid := (fst c, s')))
                  | (Ok _, s') \<Rightarrow> Some (Ok rid, cs(rid := (fst c, s'))))))))))"

definition pusher_for :: "'g git_env \<Rightarrow> repo_id \<Rightarrow> (user_id, githttp_error) result" where
  "pusher_for env repo = (case gv_repos env of
     Err e \<Rightarrow> Err (StoreProblem e)
   | Ok t \<Rightarrow> (case tbl_get t repo of
       None \<Rightarrow> Err NoSuchRepo
     | Some row \<Rightarrow> ok_or (gv_uuid env (rp_owner_id row)) (GitProblem BadOwnerId)))"

section \<open>Serving\<close>

text \<open>A git service process: its arguments, the protocol in its environment and its input.\<close>

type_synonym 'g serve = "string list \<Rightarrow> string option \<Rightarrow> bytes option \<Rightarrow> 'g \<Rightarrow> (git_output, string) result \<times> 'g"

definition protocol_from_header :: "string option \<Rightarrow> string option" where
  "protocol_from_header v = (case v of
     Some line \<Rightarrow> if starts_with ''version='' line then Some line else None | None \<Rightarrow> None)"

definition run_git_service ::
    "'g serve \<Rightarrow> string \<Rightarrow> string \<Rightarrow> string list \<Rightarrow> bytes option \<Rightarrow> string option \<Rightarrow> 'g \<Rightarrow> (string, githttp_error) result \<times> 'g" where
  "run_git_service serve service path args input protocol s =
     (case serve (service # args @ [path]) protocol input s of
        (Err e, s') \<Rightarrow> (Err (IoProblem e), s')
      | (Ok output, s') \<Rightarrow>
          (if go_success output then Ok (go_stdout output)
           else Err (GitProblem (ServiceFailed (trim (utf8_lossy (go_stderr output))))), s'))"

definition repo_name_of :: "string \<Rightarrow> string" where
  "repo_name_of segment = (case strip_suffix ''.git'' segment of Some r \<Rightarrow> r | None \<Rightarrow> segment)"

text \<open>What a git endpoint has: where the cache of a repository lives, the services that accept
  pushes, and the token of its hook.\<close>

record git_state =
  gt_path :: "repo_id \<Rightarrow> string"
  gt_commands :: "service option"
  gt_writer :: "writer option"
  gt_hook_token :: string

definition accepts_pushes :: "git_state \<Rightarrow> bool" where
  "accepts_pushes st \<longleftrightarrow> gt_commands st \<noteq> None \<and> gt_writer st \<noteq> None"

text \<open>A response: its content type and its body. \<open>serving\<close> runs one service in the cache a request
  was prepared on.\<close>

type_synonym 'g reply = "((string \<times> bytes, githttp_error) result \<times> 'g caches) option"

definition serving ::
    "'g serve \<Rightarrow> git_state \<Rightarrow> string \<Rightarrow> string list \<Rightarrow> bytes option \<Rightarrow> string option \<Rightarrow> (bytes \<Rightarrow> string \<times> bytes) \<Rightarrow>
      repo_id \<Rightarrow> 'g caches \<Rightarrow> (string \<times> bytes, githttp_error) result \<times> 'g caches" where
  "serving serve st service args input protocol answer rid cs =
     (case run_git_service serve service (gt_path st rid) args input protocol (snd (cs rid)) of
        (Err e, s') \<Rightarrow> (Err e, cs(rid := (fst (cs rid), s')))
      | (Ok out, s') \<Rightarrow> (Ok (answer (str_bytes out)), cs(rid := (fst (cs rid), s'))))"

definition info_refs ::
    "'g git_env \<Rightarrow> 'g serve \<Rightarrow> git_state \<Rightarrow> string \<Rightarrow> string \<Rightarrow> string option \<Rightarrow> string option \<Rightarrow> 'g caches \<Rightarrow> 'g reply" where
  "info_refs env serve st owner repo service header cs =
     (let name = (case service of Some v \<Rightarrow> v | None \<Rightarrow> []);
          push = (name = ''git-receive-pack'' \<and> accepts_pushes st)
      in if \<not> (name = ''git-upload-pack'' \<or> push) then Some (Err (UnsupportedService name), cs)
         else map_option (\<lambda>(r, cs'). (case r of
             Err e \<Rightarrow> (Err e, cs')
           | Ok rid \<Rightarrow> serving serve st (if push then ''receive-pack'' else ''upload-pack'')
               [''--stateless-rpc'', ''--advertise-refs''] None (if push then None else protocol_from_header header)
               (\<lambda>advertisement. (''application/x-'' @ name @ ''-advertisement'', service_header name @ advertisement))
               rid cs'))
           (prepare env (gt_commands st) owner (repo_name_of repo) cs))"

definition decoded_body :: "(bytes \<Rightarrow> (bytes, string) result) \<Rightarrow> string option \<Rightarrow> bytes \<Rightarrow> (bytes, githttp_error) result" where
  "decoded_body gunzip encoding body =
     (if encoding = Some ''gzip'' then (case gunzip body of Ok b \<Rightarrow> Ok b | Err e \<Rightarrow> Err (IoProblem e)) else Ok body)"

definition do_upload_pack ::
    "'g git_env \<Rightarrow> 'g serve \<Rightarrow> (bytes \<Rightarrow> (bytes, string) result) \<Rightarrow> git_state \<Rightarrow> string \<Rightarrow> string \<Rightarrow> string option \<Rightarrow>
      string option \<Rightarrow> bytes \<Rightarrow> 'g caches \<Rightarrow> 'g reply" where
  "do_upload_pack env serve gunzip st owner repo encoding header body cs =
     map_option (\<lambda>(r, cs'). (case and_then r (\<lambda>rid. and_then (decoded_body gunzip encoding body) (\<lambda>b. Ok (rid, b))) of
         Err e \<Rightarrow> (Err e, cs')
       | Ok (rid, request) \<Rightarrow> serving serve st ''upload-pack'' [''--stateless-rpc''] (Some request)
           (protocol_from_header header) (Pair ''application/x-git-upload-pack-result'') rid cs'))
       (prepare env (gt_commands st) owner (repo_name_of repo) cs)"

text \<open>\<open>again\<close> is the second reading of the repositories, which \<open>receive_pack\<close> makes before it writes
  the hook into the cache; \<open>installed\<close> is what writing it gave.\<close>

definition receive_pack ::
    "'g git_env \<Rightarrow> 'g serve \<Rightarrow> git_state \<Rightarrow> (repos_table, sql_error) result \<Rightarrow> (unit, string) result \<Rightarrow> repo_id \<Rightarrow> string \<Rightarrow> string \<Rightarrow>
      bytes \<Rightarrow> 'g caches \<Rightarrow> (string \<times> bytes, githttp_error) result \<times> 'g caches" where
  "receive_pack env serve st again installed rid owner repo request cs = (case again of
     Err e \<Rightarrow> (Err (StoreProblem e), cs)
   | Ok t \<Rightarrow> (case repo_row_named owner repo t of
       None \<Rightarrow> (Err NoSuchRepo, cs)
     | Some row \<Rightarrow> (case gv_uuid env (rp_repo_id row) of
         None \<Rightarrow> (Err (GitProblem BadRepoId), cs)
       | Some _ \<Rightarrow> (case installed of
           Err e \<Rightarrow> (Err (IoProblem e), cs)
         | Ok _ \<Rightarrow> serving serve st ''receive-pack'' [''--stateless-rpc''] (Some request) None
             (Pair ''application/x-git-receive-pack-result'') rid cs))))"

definition do_receive_pack ::
    "'g git_env \<Rightarrow> 'g serve \<Rightarrow> (bytes \<Rightarrow> (bytes, string) result) \<Rightarrow> git_state \<Rightarrow> (repos_table, sql_error) result \<Rightarrow>
      (unit, string) result \<Rightarrow> string \<Rightarrow> string \<Rightarrow> string option \<Rightarrow> bytes \<Rightarrow> 'g caches \<Rightarrow> 'g reply" where
  "do_receive_pack env serve gunzip st again installed owner repo encoding body cs =
     (if \<not> accepts_pushes st then Some (Err (UnsupportedService ''git-receive-pack''), cs)
      else map_option (\<lambda>(r, cs'). (case and_then r (\<lambda>rid. and_then (decoded_body gunzip encoding body) (\<lambda>b. Ok (rid, b))) of
          Err e \<Rightarrow> (Err e, cs')
        | Ok (rid, request) \<Rightarrow> receive_pack env serve st again installed rid owner (repo_name_of repo) request cs'))
        (prepare env (gt_commands st) owner (repo_name_of repo) cs))"

section \<open>Deciding a push\<close>

record proposed_update =
  pu_old :: oid
  pu_new :: oid
  pu_name :: string

definition parse_hook_line :: "string \<Rightarrow> proposed_update option" where
  "parse_hook_line line = (case split_whitespace line of
     a # b # name # _ \<Rightarrow> (case (parse_oid_opt a, parse_oid_opt b) of
         (Some x, Some y) \<Rightarrow> Some \<lparr>pu_old = x, pu_new = y, pu_name = name\<rparr> | _ \<Rightarrow> None)
   | _ \<Rightarrow> None)"

definition parse_hook_input :: "string \<Rightarrow> proposed_update list" where
  "parse_hook_input input = List.map_filter parse_hook_line (str_lines input)"

definition to_ref_update :: "proposed_update \<Rightarrow> ref_update" where
  "to_ref_update p = \<lparr>ru_name = pu_name p,
     expected_old = (if oid_is_zero (pu_old p) then None else Some (pu_old p)),
     ru_new = (if oid_is_zero (pu_new p) then None else Some (pu_new p))\<rparr>"

text \<open>
  \<open>accept_push\<close>: the objects of the quarantine first, through the object writer, then the
  references through the command service. \<open>envs\<close> gives each of the object transactions its fate;
  \<open>None\<close> means that there were more batches than fates. The last component is what landed.
\<close>

definition store_pushed ::
    "(bytes \<Rightarrow> bytes) \<Rightarrow> repo_id \<Rightarrow> txn_env list \<Rightarrow> (git_object list, cache_error) result option \<Rightarrow> writer \<Rightarrow>
      ((unit, githttp_error) result \<times> writer \<times> bytes pending_record list) option" where
  "store_pushed sha1 repo envs quarantine w = (case quarantine of
     None \<Rightarrow> Some (Ok (), w, [])
   | Some (Err e) \<Rightarrow> Some (Err (GitProblem (ReadingObjects e)), w, [])
   | Some (Ok objects) \<Rightarrow>
       if objects = [] then Some (Ok (), w, [])
       else map_option (\<lambda>(r, w', l). (case r of Err e \<Rightarrow> Err (GitProblem (StoringObjects e)) | Ok _ \<Rightarrow> Ok (), w', l))
         (put_all sha1 repo envs objects w))"

definition accept_push ::
    "bytes codec \<Rightarrow> cmd_env \<Rightarrow> (bytes \<Rightarrow> bytes) \<Rightarrow> txn_env list \<Rightarrow> repo_id \<Rightarrow> user_id \<Rightarrow>
      (git_object list, cache_error) result option \<Rightarrow> proposed_update list \<Rightarrow> git_state \<Rightarrow>
      ((ref_result list, githttp_error) result \<times> git_state \<times> bytes pending_record list) option" where
  "accept_push cd env sha1 envs repo pusher quarantine proposed st = (case gt_commands st of
     None \<Rightarrow> Some (Err (GitProblem NoCommandService), st, [])
   | Some svc \<Rightarrow> (case gt_writer st of
       None \<Rightarrow> Some (Err (GitProblem NoLogWriter), st, [])
     | Some w \<Rightarrow> (case store_pushed sha1 repo envs quarantine w of
         None \<Rightarrow> None
       | Some (Err e, w', l) \<Rightarrow> Some (Err e, st\<lparr>gt_writer := Some w'\<rparr>, l)
       | Some (Ok _, w', l) \<Rightarrow>
           (case update_refs cd env repo (map to_ref_update proposed) pusher svc of
              (r, svc', l') \<Rightarrow> Some (case r of Err e \<Rightarrow> Err (GitProblem (MovingRefs e)) | Ok results \<Rightarrow> Ok results,
                st\<lparr>gt_writer := Some w', gt_commands := Some svc'\<rparr>, l @ l')))))"

definition show_oid_debug :: "oid option \<Rightarrow> string" where
  "show_oid_debug x = (case x of None \<Rightarrow> ''None'' | Some x \<Rightarrow> ''Some('' @ to_hex x @ '')'')"

definition show_rejection :: "ref_rejection \<Rightarrow> string" where
  "show_rejection r = (case r of
     Stale want seen \<Rightarrow> ''stale info: expected '' @ show_oid_debug want @ '', found '' @ show_oid_debug seen
   | DeletingMissing \<Rightarrow> ''deleting a reference that does not exist''
   | BadName \<Rightarrow> ''reference name is not allowed'')"

definition rejection_lines :: "ref_result list \<Rightarrow> string list" where
  "rejection_lines results = List.map_filter (\<lambda>r. case outcome r of
     Ok _ \<Rightarrow> None | Err e \<Rightarrow> Some (rr_name r @ '': '' @ show_rejection e)) results"

fun join_lines :: "string list \<Rightarrow> string" where
  "join_lines [] = []"
| "join_lines [l] = l"
| "join_lines (l # m # ls) = l @ CHR 0x0A # join_lines (m # ls)"

unbundle bit_operations_syntax

definition hook_token_matches :: "git_state \<Rightarrow> string \<Rightarrow> bool" where
  "hook_token_matches st presented \<longleftrightarrow> gt_hook_token st \<noteq> [] \<and> length presented = length (gt_hook_token st) \<and>
     foldl (\<lambda>acc (a, b). acc OR (a XOR b)) (0 :: byte) (zip (str_bytes presented) (str_bytes (gt_hook_token st))) = 0"

record hook_request =
  hr_token :: "string option"
  hr_repo :: "string option"
  hr_quarantine :: "string option"
  hr_body :: string

definition hook_repo :: "'g git_env \<Rightarrow> hook_request \<Rightarrow> repo_id option" where
  "hook_repo genv req = (case hr_repo req of None \<Rightarrow> None | Some v \<Rightarrow> gv_uuid genv v)"

definition hook_quarantine :: "hook_request \<Rightarrow> string option" where
  "hook_quarantine req = (case hr_quarantine req of None \<Rightarrow> None | Some dir \<Rightarrow> if dir = [] then None else Some dir)"

text \<open>\<open>read_objects\<close> is what reading the objects of a quarantine directory gives.\<close>

definition pre_receive_hook ::
    "'g git_env \<Rightarrow> (string \<Rightarrow> (git_object list, cache_error) result) \<Rightarrow> bytes codec \<Rightarrow> cmd_env \<Rightarrow> (bytes \<Rightarrow> bytes) \<Rightarrow>
      txn_env list \<Rightarrow> hook_request \<Rightarrow> git_state \<Rightarrow>
      ((int \<times> string, githttp_error) result \<times> git_state \<times> bytes pending_record list) option" where
  "pre_receive_hook genv read_objects cd env sha1 envs req st =
     (if \<not> hook_token_matches st (case hr_token req of Some t \<Rightarrow> t | None \<Rightarrow> []) then Some (Err Unauthorized, st, [])
      else (case hook_repo genv req of
        None \<Rightarrow> Some (Err (GitProblem NoRepoNamed), st, [])
      | Some repo \<Rightarrow> (case pusher_for genv repo of
          Err e \<Rightarrow> Some (Err e, st, [])
        | Ok pusher \<Rightarrow>
            map_option (\<lambda>(r, st', landed).
                (and_then r (\<lambda>results. let lines = rejection_lines results in
                   Ok (if lines = [] then (200, ''ok'') else (409, join_lines lines))), st', landed))
              (accept_push cd env sha1 envs repo pusher (map_option read_objects (hook_quarantine req))
                (parse_hook_input (hr_body req)) st))))"

section \<open>What is advertised is the log\<close>

lemma cache_hydrate_cases:
  assumes "cache_hydrate env rid default_branch cs = Some (r, c', s')"
  shows "s' = snd (cache_init env default_branch (snd cs))"
    and "tbl_get (loose c') x = Some (k, content) \<Longrightarrow>
      tbl_get (loose (fst cs)) x = Some (k, content) \<or> compute_oid (gv_sha1 env) k content = x"
proof -
  obtain c s where cs: "cs = (c, s)" by (cases cs)
  obtain i s1 where i: "cache_init env default_branch s = (i, s1)" by (metis prod.collapse)
  show "s' = snd (cache_init env default_branch (snd cs))"
    using assms by (cases i) (auto simp: cache_hydrate_def cs i)
  assume get: "tbl_get (loose c') x = Some (k, content)"
  show "tbl_get (loose (fst cs)) x = Some (k, content) \<or> compute_oid (gv_sha1 env) k content = x"
  proof (cases i)
    case (Inl e)
    then show ?thesis using assms get by (simp add: cache_hydrate_def cs i)
  next
    case (Inr u)
    then obtain h where "hydrate (gv_fuel env) (gv_sha1 env) (gv_fetch env rid) c = Some (h, c')"
      using assms by (auto simp: cache_hydrate_def cs i)
    from hydrate_loose [OF this get] show ?thesis by (simp add: cs)
  qed
qed

lemma map_of_refs_for:
  assumes "tbl_wf (sv_refs svc)"
  shows "map_of (refs_for rid svc) name = refs_get (sv_refs svc) rid name"
  using for_repo_exact [OF assms, of rid name] unfolding refs_for_def
  by (cases "refs_get (sv_refs svc) rid name") (auto simp: map_of_eq_None_iff image_iff map_of_is_SomeI)

text \<open>Property C9: what is advertised is the log. Let git keep its references as it documents (it
  lists them by name, and sets or deletes the one it is told to), let those the cache had be plain
  names below \<open>refs/\<close>, and those of the log be below \<open>refs/\<close> and not the id of zeros. A request that is let through named a repository that exists and is not
  deleted; when the command service has references for it, those git then lists in its cache are
  exactly the ones of the command service, whatever the cache had before; no object has entered the
  cache that does not hash to its id; and no other cache was touched. When the command service has
  none, the references are left as they were.\<close>

theorem prepare_serves_log:
  assumes "keeps_refs (gv_git env) listed_refs" "gv_repos env = Ok t" "repo_row_named owner repo t = Some row"
    and "gv_uuid env (rp_repo_id row) = Some rid"
    and "tbl_wf (sv_refs svc)" "\<forall>name x. refs_get (sv_refs svc) rid name = Some x \<longrightarrow> starts_with ''refs/'' name \<and> x \<noteq> oid_zero"
    and "fresh = snd (cache_init env (rp_default_branch row) (snd (cs rid)))"
    and "list_all (\<lambda>(name, x). listable name \<and> oid_wf x) (listed_refs fresh)"
    and "prepare env (Some svc) owner repo cs = Some (Ok rid', cs')"
  shows "rid' = rid \<and> \<not> rp_deleted row \<and> (\<forall>r. r \<noteq> rid \<longrightarrow> cs' r = cs r) \<and>
    (if refs_for rid svc = [] then snd (cs' rid) = fresh
     else \<forall>name. map_of (listed_refs (snd (cs' rid))) name = refs_get (sv_refs svc) rid name) \<and>
    (\<forall>x k content. tbl_get (loose (fst (cs' rid))) x = Some (k, content) \<longrightarrow>
      tbl_get (loose (fst (cs rid))) x = Some (k, content) \<or> compute_oid (gv_sha1 env) k content = x)"
proof -
  obtain u c s1 where hydrated: "cache_hydrate env rid (rp_default_branch row) (cs rid) = Some (Ok u, c, s1)"
    using assms(2-4,9) by (auto simp: prepare_def split: if_splits option.splits prod.splits sum.splits)
  note kept = cache_hydrate_cases [OF hydrated]
  have s1: "s1 = fresh" using kept(1) assms(7) by simp
  have live: "\<not> rp_deleted row" using assms(2,3,9) by (auto simp: prepare_def)
  show ?thesis
  proof (cases "refs_for rid svc = []")
    case True
    then have "rid' = rid" "cs' = cs(rid := (c, s1))"
      using assms(2-4,9) hydrated live by (auto simp: prepare_def)
    then show ?thesis using True s1 live kept(2) by simp
  next
    case False
    obtain s2 where sync: "sync_refs (gv_git env) (refs_for rid svc) (rp_default_branch row) s1 = (Ok (), s2)"
      and out: "rid' = rid" "cs' = cs(rid := (c, s2))"
      using assms(2-4,9) hydrated live False
      by (auto simp: prepare_def Let_def split: prod.splits sum.splits)
    have "distinct (map fst (refs_for rid svc))" "list_all (\<lambda>(name, x). starts_with ''refs/'' name \<and> x \<noteq> oid_zero) (refs_for rid svc)"
      using for_repo_exact [OF assms(5), of rid] assms(6) by (auto simp: refs_for_def list_all_iff)
    from sync_refs_exact [OF assms(1) assms(8) [folded s1] this sync] map_of_refs_for [OF assms(5)]
    show ?thesis using False live kept(2) out by simp
  qed
qed

text \<open>A small endpoint: one repository, one push so far, and a cache that still lists an old branch.\<close>

definition demo_row :: repo_row where
  "demo_row = \<lparr>rp_repo_id = ''r1'', rp_owner_id = ''u1'', rp_owner_name = ''Octo'', rp_name = ''Hello'',
     rp_full_name_lower = ''octo/hello'', rp_description = None, rp_default_branch = ''main'', rp_visibility = ''private'',
     rp_created_at = 0, rp_updated_at = 0, rp_deleted = False\<rparr>"

definition demo_service :: service where
  "demo_service = (fresh_service 1)\<lparr>sv_refs := ref_set [] ''r1'' ''refs/heads/main'' (Some (demo_oid 1))\<rparr>"

definition demo_genv :: "(string, oid) table git_env" where
  "demo_genv = \<lparr>gv_repos = Ok [(''r1'', demo_row)], gv_uuid = Some, gv_fuel = 2, gv_sha1 = toy_hash,
     gv_fetch = (\<lambda>_. whole_log_fetch []), gv_git = table_git, gv_exists = (\<lambda>_. True), gv_made = Ok ()\<rparr>"

definition demo_caches :: "(string, oid) table caches" where
  "demo_caches = (\<lambda>_. (\<lparr>loose = [], cursor = 0\<rparr>, [(''refs/heads/old'', demo_oid 4)]))"

lemma demo_hydrate: "\<exists>h c. cache_hydrate demo_genv rid b (demo_caches rid) = Some (Ok h, c, [(''refs/heads/old'', demo_oid 4)])"
  by (simp add: cache_hydrate_def cache_init_def demo_genv_def demo_caches_def hydrate_def whole_log_fetch_def open_at_def
      next_batch_def numeral_2_eq_2 visible_def mark_applied_def hydrate_init_def assemble_def split: prod.splits sum.splits)

lemma demo_fields [simp]: "gv_repos demo_genv = Ok [(''r1'', demo_row)]" "gv_uuid demo_genv = Some" "gv_git demo_genv = table_git"
  "rp_repo_id demo_row = ''r1''" "rp_default_branch demo_row = ''main''" "\<not> rp_deleted demo_row"
  by (simp_all add: demo_genv_def demo_row_def)

lemma prepare_witness:
  "\<exists>cs'. prepare demo_genv (Some (demo_service)) ''Octo'' ''Hello'' demo_caches = Some (Ok ''r1'', cs') \<and>
    map_of (sorted_refs (snd (cs' ''r1''))) ''refs/heads/main'' = refs_get (sv_refs (demo_service)) ''r1'' ''refs/heads/main'' \<and>
    map_of (sorted_refs (snd (cs' ''r1''))) ''refs/heads/old'' = refs_get (sv_refs (demo_service)) ''r1'' ''refs/heads/old''"
proof -
  let ?svc = "demo_service" and ?old = "[(''refs/heads/old'', demo_oid 4)]"
  have row: "repo_row_named ''Octo'' ''Hello'' [(''r1'', demo_row)] = Some demo_row" by code_simp
  have sync: "fst (sync_refs table_git (refs_for ''r1'' ?svc) ''main'' ?old) = Ok ()" by code_simp
  have canonical: "list_all (\<lambda>(name, x). starts_with ''refs/'' name \<and> x \<noteq> oid_zero) (refs_for ''r1'' ?svc)" "refs_for ''r1'' ?svc \<noteq> []" by code_simp+
  obtain s2 where synced: "sync_refs table_git (refs_for ''r1'' ?svc) ''main'' ?old = (Ok (), s2)"
    using sync by (metis prod.collapse)
  obtain h c where "cache_hydrate demo_genv ''r1'' ''main'' (demo_caches ''r1'') = Some (Ok h, c, ?old)"
    using demo_hydrate by blast
  then obtain cs' where run: "prepare demo_genv (Some ?svc) ''Octo'' ''Hello'' demo_caches = Some (Ok ''r1'', cs')"
    using row synced canonical(2) by (auto simp: prepare_def Let_def)
  have "distinct (map fst (sv_refs ?svc))" by code_simp
  then have wf: "tbl_wf (sv_refs ?svc)" by (simp add: tbl_wf_def)
  have names: "\<forall>name x. refs_get (sv_refs ?svc) ''r1'' name = Some x \<longrightarrow> starts_with ''refs/'' name \<and> x \<noteq> oid_zero"
    using canonical(1) for_repo_exact [OF wf, of "''r1''"] by (fastforce simp: refs_for_def list_all_iff)
  have fresh: "?old = snd (cache_init demo_genv (rp_default_branch demo_row) (snd (demo_caches ''r1'')))"
    by (simp add: cache_init_def demo_genv_def demo_caches_def)
  have old: "list_all (\<lambda>(name, x). listable name \<and> oid_wf x) (sorted_refs ?old)" by code_simp
  have git: "keeps_refs (gv_git demo_genv) sorted_refs" "gv_uuid demo_genv (rp_repo_id demo_row) = Some ''r1''"
    using table_git_keeps by simp_all
  show ?thesis
    using prepare_serves_log [OF git(1) demo_fields(1) row git(2) wf names fresh old run] canonical(2) run by simp
qed


section \<open>Objects first, then references\<close>

definition pushed_records :: "repo_id \<Rightarrow> git_object list \<Rightarrow> bytes pending_record list" where
  "pushed_records repo objs = concat (map (object_records (repo_objects repo)) objs)"

definition hashed :: "(bytes \<Rightarrow> bytes) \<Rightarrow> git_object \<Rightarrow> bool" where
  "hashed sha1 ob \<longleftrightarrow> compute_oid sha1 (ob_kind ob) (ob_content ob) = ob_oid ob"

lemma concat_chunks_BATCH [simp]: "concat (chunks BATCH xs) = xs"
  by (simp add: concat_chunks BATCH_def)

lemma objects_elsewhere: "list_all (\<lambda>p. pr_topic p = repo_objects repo) l \<Longrightarrow> topic_records GIT_REFS l = []"
  by (induction l) (auto simp: repo_objects_def GIT_REFS_def)

lemma put_all_cases:
  assumes "put_all sha1 repo envs objs w = Some (r, w', l)" "list_all broker_truthful envs"
  shows "topic_records GIT_REFS l = []" and "r = Ok n \<Longrightarrow> l = pushed_records repo objs \<and> list_all (hashed sha1) objs"
proof -
  show "topic_records GIT_REFS l = []"
    using objects_elsewhere put_groups_topic [OF assms(1) [unfolded put_all_def]] by blast
  assume "r = Ok n"
  with put_groups_Ok [OF _ assms(2)] assms(1) show "l = pushed_records repo objs \<and> list_all (hashed sha1) objs"
    unfolding put_all_def pushed_records_def hashed_def by force
qed

lemma store_pushed_cases:
  assumes "store_pushed sha1 repo envs quarantine w = Some (r, w', l)" "list_all broker_truthful envs"
  shows "topic_records GIT_REFS l = [] \<and> (r = Ok () \<longrightarrow>
      (\<exists>objs. (case quarantine of None \<Rightarrow> objs = [] | Some q \<Rightarrow> q = Ok objs) \<and>
        l = pushed_records repo objs \<and> list_all (hashed sha1) objs))"
proof (cases "\<exists>objs. quarantine = Some (Ok objs) \<and> objs \<noteq> []")
  case True
  then obtain objs where q: "quarantine = Some (Ok objs)" "objs \<noteq> []" by blast
  then obtain r0 where put: "put_all sha1 repo envs objs w = Some (r0, w', l)"
    and r: "r = (case r0 of Err e \<Rightarrow> Err (GitProblem (StoringObjects e)) | Ok _ \<Rightarrow> Ok ())"
    using assms(1) by (auto simp: store_pushed_def)
  from put_all_cases [OF put assms(2)] q r show ?thesis by (cases r0) auto
next
  case False
  then show ?thesis using assms(1)
    by (auto simp: store_pushed_def pushed_records_def split: option.splits sum.splits if_splits)
qed

lemma accept_push_cases:
  assumes "broker_truthful (txn env)" "list_all broker_truthful envs" "gt_commands st = Some svc"
    and "accept_push cd env sha1 envs repo pusher quarantine proposed st = Some (answer, st', landed)"
  shows "\<exists>svc'. gt_commands st' = Some svc' \<and>
    (if \<exists>results. answer = Ok results \<and> list_all (\<lambda>x. outcome x = Ok ()) results
     then let us = map to_ref_update proposed in
       \<exists>objs. (case quarantine of None \<Rightarrow> objs = [] | Some q \<Rightarrow> q = Ok objs) \<and> list_all (hashed sha1) objs \<and>
         list_all (\<lambda>u. ref_check (sv_refs svc) repo u = Ok ()) us \<and>
         landed = pushed_records repo objs @ update_records cd env repo pusher 0 us \<and>
         sv_refs svc' = sv_refs (set_refs repo us svc)
     else sv_refs svc' = sv_refs svc \<and> (topic_records GIT_REFS landed = [] \<or> \<not> alive svc'))"
proof (cases "gt_writer st")
  case None
  then show ?thesis using assms(3,4) by (auto simp: accept_push_def)
next
  case (Some w)
  then obtain r w' l where store: "store_pushed sha1 repo envs quarantine w = Some (r, w', l)"
    using assms(3,4) by (auto simp: accept_push_def split: option.splits)
  note stored = store_pushed_cases [OF store assms(2)]
  show ?thesis
  proof (cases r)
    case (Inl e)
    then show ?thesis using assms(3,4) Some store stored(1) by (auto simp: accept_push_def)
  next
    case (Inr u)
    let ?us = "map to_ref_update proposed"
    obtain a svc' l' where upd: "update_refs cd env repo ?us pusher svc = (a, svc', l')" by (metis prod_cases3)
    have out: "answer = (case a of Err e \<Rightarrow> Err (GitProblem (MovingRefs e)) | Ok results \<Rightarrow> Ok results)"
      "gt_commands st' = Some svc'" "landed = l @ l'"
      using assms(3,4) Some store upd Inr by (auto simp: accept_push_def)
    from update_refs_cases [OF assms(1) upd] show ?thesis
      using out stored Inr
      by (cases a; cases "list_all (\<lambda>u. ref_check (sv_refs svc) repo u = Ok ()) ?us")
         (auto simp: Let_def set_refs_def check_all_def list_all_iff)
  qed
qed

lemma rejection_lines_none: "rejection_lines results = [] \<longleftrightarrow> list_all (\<lambda>x. outcome x = Ok ()) results"
  by (induction results) (auto simp: rejection_lines_def map_filter_simps split: sum.splits)

lemma hook_token_exact: "hook_token_matches st t \<longleftrightarrow> t \<noteq> [] \<and> t = gt_hook_token st"
  by (auto simp: hook_token_matches_def fold_differences str_bytes_inject)

text \<open>Property C7: a push is decided once, by the holder of the token, and its objects come first.
  The hook answers 200 only when it presented the token; then every object of the quarantine
  hashes to its id and is in the topic of the repository before the first record about a
  reference, every update saw the current value of its reference, and exactly those references
  have moved, together. On any other answer no reference has moved, and the log of references
  has nothing new while the process lives.\<close>

theorem push_decided_once:
  assumes "broker_truthful (txn env)" "list_all broker_truthful envs" "gt_commands st = Some svc"
    and "pre_receive_hook genv read_objects cd env sha1 envs req st = Some (answer, st', landed)"
  shows "\<exists>svc'. gt_commands st' = Some svc' \<and>
    (if \<exists>m. answer = Ok (200, m)
     then hr_token req = Some (gt_hook_token st) \<and>
       (\<exists>repo pusher objs. let us = map to_ref_update (parse_hook_input (hr_body req)) in
         hook_repo genv req = Some repo \<and> pusher_for genv repo = Ok pusher \<and>
         (case hook_quarantine req of None \<Rightarrow> objs = [] | Some dir \<Rightarrow> read_objects dir = Ok objs) \<and>
         list_all (hashed sha1) objs \<and>
         list_all (\<lambda>u. refs_get (sv_refs svc) repo (ru_name u) = expected_old u) us \<and>
         landed = pushed_records repo objs @ update_records cd env repo pusher 0 us \<and>
         sv_refs svc' = foldl (\<lambda>m u. ref_set m repo (ru_name u) (ru_new u)) (sv_refs svc) us)
     else sv_refs svc' = sv_refs svc \<and> (topic_records GIT_REFS landed = [] \<or> \<not> alive svc'))"
proof (cases "gt_hook_token st \<noteq> [] \<and> hr_token req = Some (gt_hook_token st) \<and>
    (\<exists>repo pusher. hook_repo genv req = Some repo \<and> pusher_for genv repo = Ok pusher)")
  case False
  then have "st' = st \<and> landed = [] \<and> (\<exists>e. answer = Err e)"
    using assms(4) by (auto simp: pre_receive_hook_def hook_token_exact split: if_splits option.splits sum.splits)
  then show ?thesis using assms(3) by auto
next
  case True
  then obtain repo pusher where who: "hook_repo genv req = Some repo" "pusher_for genv repo = Ok pusher" by blast
  with True assms(4) obtain r where push: "accept_push cd env sha1 envs repo pusher (map_option read_objects (hook_quarantine req))
      (parse_hook_input (hr_body req)) st = Some (r, st', landed)"
    and answer: "answer = and_then r (\<lambda>results. let lines = rejection_lines results in
      Ok (if lines = [] then (200, ''ok'') else (409, join_lines lines)))"
    by (auto simp: pre_receive_hook_def hook_token_exact)
  have "(\<exists>m. answer = Ok (200, m)) \<longleftrightarrow> (\<exists>results. r = Ok results \<and> list_all (\<lambda>x. outcome x = Ok ()) results)"
    by (cases r) (auto simp: answer Let_def rejection_lines_none)
  with accept_push_cases [OF assms(1-3) push] True who show ?thesis
    by (fastforce simp: Let_def set_refs_def list_all_iff ref_check_Ok_iff split: option.splits if_splits)
qed


text \<open>A codec that writes references as git does and says nothing of events.\<close>

definition hex_codec :: "bytes codec" where
  "hex_codec = \<lparr>enc_claim = (\<lambda>_. []), dec_claim = (\<lambda>_. None),
     enc_ref = (\<lambda>x. str_bytes (to_hex x)), dec_ref = (\<lambda>b. parse_oid_opt (bytes_text b)),
     enc_user = (\<lambda>_. []), dec_user = (\<lambda>_. None), enc_repo = (\<lambda>_. []), dec_repo = (\<lambda>_. None),
     enc_issue = (\<lambda>_. []), dec_issue = (\<lambda>_. None), enc_pr = (\<lambda>_. []), dec_pr = (\<lambda>_. None),
     enc_git = (\<lambda>_. []), dec_git = (\<lambda>_. None), fmt_time = (\<lambda>_. Some ''now'')\<rparr>"

definition demo_endpoint :: git_state where
  "demo_endpoint = \<lparr>gt_path = id, gt_commands = Some (demo_service), gt_writer = Some (sv_writer (demo_service)),
     gt_hook_token = ''t0k''\<rparr>"

definition demo_request :: "string \<Rightarrow> hook_request" where
  "demo_request line = \<lparr>hr_token = Some ''t0k'', hr_repo = Some ''r1'', hr_quarantine = None, hr_body = line @ [CHR 0x0A]\<rparr>"

text \<open>What git writes to the hook is read back: one line per update.\<close>

definition hook_line :: "proposed_update \<Rightarrow> string" where
  "hook_line p = to_hex (pu_old p) @ CHR '' '' # to_hex (pu_new p) @ CHR '' '' # pu_name p"

lemma parse_hook_line_shown:
  assumes "oid_wf (pu_old p)" "oid_wf (pu_new p)" "word_text (pu_name p)"
  shows "parse_hook_line (hook_line p) = Some p"
  using assms by (simp add: hook_line_def parse_hook_line_def split_word split_last word_hex parse_oid_hex)

lemma hook_input_read:
  assumes "list_all (\<lambda>p. oid_wf (pu_old p) \<and> oid_wf (pu_new p) \<and> word_text (pu_name p)) ps"
  shows "parse_hook_input (concat (map (\<lambda>p. hook_line p @ [CHR 0x0A]) ps)) = ps"
proof -
  have no_break: "CHR 0x0A \<notin> set w \<and> CHR 0x0D \<notin> set w" if "word_text w" for w
    using that by (auto simp: word_text_def list_all_iff code_def)
  have "CHR 0x0A \<notin> set l \<and> CHR 0x0D \<notin> set l" if "l \<in> hook_line ` set ps" for l
    using that assms no_break [OF word_hex] no_break by (force simp: hook_line_def list_all_iff)
  then have "str_lines (concat (map (\<lambda>p. hook_line p @ [CHR 0x0A]) ps)) = map hook_line ps"
    using str_lines_concat [of "map hook_line ps"] by (simp add: comp_def)
  moreover have "List.map_filter parse_hook_line (map hook_line ps) = ps"
    using assms by (induction ps) (simp_all add: map_filter_simps parse_hook_line_shown)
  ultimately show ?thesis by (simp add: parse_hook_input_def)
qed

definition demo_update :: proposed_update where
  "demo_update = \<lparr>pu_old = demo_oid 1, pu_new = demo_oid 9, pu_name = ''refs/heads/main''\<rparr>"

lemma demo_line: "parse_hook_input (hr_body (demo_request (hook_line demo_update))) = [demo_update]"
  using hook_input_read [of "[demo_update]"]
  by (simp add: demo_request_def demo_update_def oid_wf_def demo_oid_def word_text_def code_def)

lemma demo_gate:
  "hook_token_matches demo_endpoint (case hr_token (demo_request line) of Some t \<Rightarrow> t | None \<Rightarrow> [])"
  "hook_repo demo_genv (demo_request line) = Some ''r1''" "pusher_for demo_genv ''r1'' = Ok ''u1''"
  "hook_quarantine (demo_request line) = None"
  by (simp_all add: hook_token_exact demo_endpoint_def demo_request_def hook_repo_def hook_quarantine_def pusher_for_def tbl_get_def
      demo_row_def ok_or_def)

lemma push_decided_witness:
  "\<exists>st' svc' landed. pre_receive_hook demo_genv (\<lambda>_. Ok []) hex_codec (demo_env ''x'') toy_hash []
      (demo_request (hook_line demo_update)) demo_endpoint
      = Some (Ok (200, ''ok''), st', landed) \<and>
    gt_commands st' = Some svc' \<and> refs_get (sv_refs svc') ''r1'' ''refs/heads/main'' = Some (demo_oid 9)"
proof -
  let ?req = "demo_request (hook_line demo_update)"
  let ?push = "accept_push hex_codec (demo_env ''x'') toy_hash [] ''r1'' ''u1'' None
    [demo_update] demo_endpoint"
  have "map_option fst ?push = Some (Ok [\<lparr>rr_name = ''refs/heads/main'', outcome = Ok ()\<rparr>])" by code_simp
  then obtain st' landed where "?push = Some (Ok [\<lparr>rr_name = ''refs/heads/main'', outcome = Ok ()\<rparr>], st', landed)" by auto
  then have run: "pre_receive_hook demo_genv (\<lambda>_. Ok []) hex_codec (demo_env ''x'') toy_hash [] ?req demo_endpoint
      = Some (Ok (200, ''ok''), st', landed)"
    by (simp add: pre_receive_hook_def demo_gate demo_line Let_def rejection_lines_none)
  have truth: "broker_truthful (txn (demo_env ''x''))" by (simp add: broker_truthful_def demo_env_def)
  have cmds: "gt_commands demo_endpoint = Some (demo_service)" by (simp add: demo_endpoint_def)
  have moved: "ru_name (to_ref_update demo_update) = ''refs/heads/main''" "ru_new (to_ref_update demo_update) = Some (demo_oid 9)"
    by code_simp+
  have "list_all broker_truthful []" by simp
  from push_decided_once [OF truth this cmds run] run show ?thesis
    by (auto simp: demo_gate demo_line Let_def refs_get_set moved)
qed

section \<open>Observations\<close>

text \<open>A line of the hook's input that does not parse is dropped, and a push of nothing is accepted: git
  then moves references the log never hears of.\<close>

lemma accept_nothing:
  assumes "gt_commands st = Some svc" "gt_writer st = Some w"
  shows "accept_push cd env sha1 envs repo pusher None [] st = Some (Ok [], st, [])"
  using assms by (cases st) (simp add: accept_push_def store_pushed_def update_refs_def)

lemma unreadable_push_is_accepted:
  assumes "parse_hook_input (hr_body (demo_request line)) = []"
  shows "pre_receive_hook demo_genv (\<lambda>_. Ok []) cd env sha1 [] (demo_request line) demo_endpoint = Some (Ok (200, ''ok''), demo_endpoint, [])"
proof -
  have "accept_push cd env sha1 [] ''r1'' ''u1'' None [] demo_endpoint = Some (Ok [], demo_endpoint, [])"
    by (rule accept_nothing) (simp_all add: demo_endpoint_def)
  with assms show ?thesis by (simp add: pre_receive_hook_def demo_gate Let_def rejection_lines_none)
qed

lemma short_id_is_unreadable: "parse_hook_input (hr_body (demo_request ''12ab 34cd refs/heads/main'')) = []"
  by code_simp

text \<open>Nothing here looks at the visibility of a repository: a private one is served to anyone.\<close>

lemma private_is_served:
  "prepare (env\<lparr>gv_repos := Ok (map (\<lambda>(k, r). (k, r\<lparr>rp_visibility := v\<rparr>)) t)\<rparr>) commands owner repo cs =
   prepare (env\<lparr>gv_repos := Ok t\<rparr>) commands owner repo cs"
proof -
  have "repo_row_named owner repo (map (\<lambda>(k, r). (k, r\<lparr>rp_visibility := v\<rparr>)) t) =
      map_option (\<lambda>r. r\<lparr>rp_visibility := v\<rparr>) (repo_row_named owner repo t)"
    unfolding repo_row_named_def repo_by_full_name_def by (induction t) auto
  moreover have "cache_hydrate (env\<lparr>gv_repos := a\<rparr>) rid b c = cache_hydrate env rid b c" for a rid b c
    by (cases env) (simp add: cache_hydrate_def cache_init_def cong: if_cong sum.case_cong prod.case_cong)
  ultimately show ?thesis
    by (cases "repo_row_named owner repo t")
       (simp_all add: prepare_def Let_def cong: if_cong option.case_cong sum.case_cong prod.case_cong)
qed

text \<open>The name is cut at the first space in the sense of Unicode; git allows a no-break space in it.\<close>

lemma name_cut_at_no_break_space: "split_whitespace (''a'' @ [CHR 0xC2, CHR 0xA0] @ ''b'') = [''a'', ''b'']"
  by code_simp

text \<open>The prefix of a packet is four digits as long as its length fits into them.\<close>

lemma service_header_fetch:
  "service_header ''git-upload-pack'' = str_bytes (''001e# service=git-upload-pack'' @ [CHR 0x0A] @ ''0000'')"
  by code_simp

lemma show_hex_length: "n < 16 ^ k \<Longrightarrow> 0 < k \<Longrightarrow> length (show_hex n) \<le> k"
proof (induction k arbitrary: n)
  case (Suc k)
  show ?case
  proof (cases "n < 16")
    case False
    with Suc.prems have "0 < k" "n div 16 < 16 ^ k" by (auto intro!: gr0I simp: less_mult_imp_div_less)
    from Suc.IH [OF this(2,1)] False show ?thesis by (subst show_hex.simps) simp
  qed (subst show_hex.simps, simp)
qed simp

lemma pkt_encode_length: "length bytes + 4 < 16 ^ 4 \<Longrightarrow> length (pkt_encode bytes) = length bytes + 4"
  using show_hex_length [of "length bytes + 4" 4] by (simp add: pkt_encode_def Let_def)

end
