(* ===== verification/Git_Merge.thy ===== *)
theory Git_Merge
  imports Git_Http
begin

text \<open>
  Performing a merge (\<open>forge-githttp/src/merge.rs\<close>): git computes it in the cache, what it made goes
  to the topic of the repository, and the command service moves the branch together with the event.
  Git and the reader of loose objects are parameters; the object writer and \<open>merge_pull\<close> are the
  model's own.
\<close>

section \<open>The merge\<close>

datatype merge_error =
    MergeConflicts "string list"
  | MergeStale
  | MergeNotOpen
  | BadHead
  | BadBase
  | BadPullId
  | MergeGit cache_error
  | LooseObject string
  | NotWritten oid
  | MergeStore store_error
  | MergeCommand command_error

record actor =
  ac_id :: user_id
  ac_name :: string
  ac_email :: string

text \<open>Git with the author it commits for, and the objects it wrote, as \<open>loose::read\<close> finds them.\<close>

record 'g merge_env =
  me_git :: "'g git"
  me_commit :: "string \<Rightarrow> string \<Rightarrow> 'g git"
  me_loose :: "oid \<Rightarrow> 'g \<Rightarrow> ((kind \<times> bytes) option, string) result"
  me_uuid :: "string \<Rightarrow> pr_id option"

definition merge_message :: "pull_row \<Rightarrow> string" where
  "merge_message pr = ''Merge pull request #'' @ show_int (pl_number pr) @ '' from '' @ pl_source_branch pr @
     [CHR 0x0A, CHR 0x0A] @ pl_title pr"

fun read_listed ::
    "(oid \<Rightarrow> 'g \<Rightarrow> ((kind \<times> bytes) option, string) result) \<Rightarrow> 'g \<Rightarrow> (oid \<times> kind) list \<Rightarrow> (git_object list, merge_error) result" where
  "read_listed read s [] = Ok []"
| "read_listed read s ((x, k) # listed) = (case read x s of
     Err e \<Rightarrow> Err (LooseObject e)
   | Ok None \<Rightarrow> Err (NotWritten x)
   | Ok (Some (_, content)) \<Rightarrow> and_then (read_listed read s listed) (\<lambda>obs.
       Ok (\<lparr>ob_oid = x, ob_kind = k, ob_content = content\<rparr> # obs)))"

definition collect_new_objects ::
    "'g merge_env \<Rightarrow> oid \<Rightarrow> oid list \<Rightarrow> 'g \<Rightarrow> (git_object list, merge_error) result \<times> 'g" where
  "collect_new_objects env x parents s = (case objects_added_by (me_git env) x parents s of
     (Err e, s') \<Rightarrow> (Err (MergeGit e), s')
   | (Ok listed, s') \<Rightarrow> (read_listed (me_loose env) s' listed, s'))"

text \<open>Everything up to the merge commit and the objects it added: what the cache computes.\<close>

definition compute_merge ::
    "'g merge_env \<Rightarrow> pull_row \<Rightarrow> actor \<Rightarrow> 'g \<Rightarrow> (oid \<times> oid \<times> oid \<times> git_object list, merge_error) result \<times> 'g" where
  "compute_merge env pr who s =
     (if \<not> pull_is_open pr then (Err MergeNotOpen, s)
      else (case parse_oid_opt (pl_head_oid pr) of
        None \<Rightarrow> (Err BadHead, s)
      | Some head \<Rightarrow> (case parse_oid_opt (pl_base_oid pr) of
          None \<Rightarrow> (Err BadBase, s)
        | Some base \<Rightarrow> (case resolve_rev (me_git env) (pl_target_branch pr) s of
            (Err e, s1) \<Rightarrow> (Err (MergeGit e), s1)
          | (Ok current, s1) \<Rightarrow>
              if current \<noteq> Some base then (Err MergeStale, s1)
              else (case try_merge (me_git env) (pl_target_branch pr) (to_hex head) s1 of
                (Err e, s2) \<Rightarrow> (Err (MergeGit e), s2)
              | (Ok (MergeConflict files), s2) \<Rightarrow> (Err (MergeConflicts files), s2)
              | (Ok (CleanMerge tree), s2) \<Rightarrow>
                  (case commit_merge (me_commit env (ac_name who) (ac_email who)) tree base head (merge_message pr) s2 of
                     (Err e, s3) \<Rightarrow> (Err (MergeGit e), s3)
                   | (Ok x, s3) \<Rightarrow> (case collect_new_objects env x [base, head] s3 of
                       (Err e, s4) \<Rightarrow> (Err e, s4)
                     | (Ok objs, s4) \<Rightarrow> (Ok (head, base, x, objs), s4))))))))"

text \<open>\<open>perform\<close>. \<open>None\<close>: there were more batches than fates in \<open>envs\<close>. The last component is
  what landed in the log.\<close>

definition perform_merge ::
    "'g merge_env \<Rightarrow> bytes codec \<Rightarrow> cmd_env \<Rightarrow> (bytes \<Rightarrow> bytes) \<Rightarrow> txn_env list \<Rightarrow> repo_id \<Rightarrow> pull_row \<Rightarrow> actor \<Rightarrow>
      'g \<Rightarrow> writer \<Rightarrow> service \<Rightarrow> ((oid \<times> committed, merge_error) result \<times> 'g \<times> writer \<times> service \<times> bytes pending_record list) option" where
  "perform_merge env cd cenv sha1 envs repo pr who s w svc = (case compute_merge env pr who s of
     (Err e, s') \<Rightarrow> Some (Err e, s', w, svc, [])
   | (Ok (head, base, x, objs), s') \<Rightarrow> (case put_all sha1 repo envs objs w of
       None \<Rightarrow> None
     | Some (Err e, w', l) \<Rightarrow> Some (Err (MergeStore e), s', w', svc, l)
     | Some (Ok _, w', l) \<Rightarrow> (case me_uuid env (pl_pr_id pr) of
         None \<Rightarrow> Some (Err BadPullId, s', w', svc, l)
       | Some pid \<Rightarrow>
           (case merge_pull cd cenv \<lparr>mp_repo = repo, mp_pr = pid, mp_target_branch = pl_target_branch pr,
                mp_expected_base = base, mp_expected_head = head, mp_merge_commit = x,
                mp_merged_by = ac_id who, mp_merged_by_name = ac_name who\<rparr> svc of
              (Err (StaleMerge _ _), svc', l') \<Rightarrow> Some (Err MergeStale, s', w', svc', l @ l')
            | (Err e, svc', l') \<Rightarrow> Some (Err (MergeCommand e), s', w', svc', l @ l')
            | (Ok (_, committed), svc', l') \<Rightarrow> Some (Ok (x, committed), s', w', svc', l @ l')))))"

definition refresh_mergeability ::
    "'g merge_env \<Rightarrow> 'j codec \<Rightarrow> cmd_env \<Rightarrow> repo_id \<Rightarrow> pull_row \<Rightarrow> 'g \<Rightarrow> service \<Rightarrow>
      (bool, merge_error) result \<times> 'g \<times> service \<times> 'j pending_record list" where
  "refresh_mergeability env cd cenv repo pr s svc = (case parse_oid_opt (pl_head_oid pr) of
     None \<Rightarrow> (Err BadHead, s, svc, [])
   | Some head \<Rightarrow> (case parse_oid_opt (pl_base_oid pr) of
       None \<Rightarrow> (Err BadBase, s, svc, [])
     | Some base \<Rightarrow> (case try_merge (me_git env) (to_hex base) (to_hex head) s of
         (Err e, s') \<Rightarrow> (Err (MergeGit e), s', svc, [])
       | (Ok trial, s') \<Rightarrow> (case me_uuid env (pl_pr_id pr) of
           None \<Rightarrow> (Err BadPullId, s', svc, [])
         | Some pid \<Rightarrow>
             (case record_mergeability cd cenv repo pid head base (is_clean trial) (conflicted_files trial) svc of
                (Err e, svc', l) \<Rightarrow> (Err (MergeCommand e), s', svc', l)
              | (Ok _, svc', l) \<Rightarrow> (Ok (is_clean trial), s', svc', l))))))"

section \<open>Objects land before the branch moves\<close>

lemma read_listed_Ok:
  "read_listed read s listed = Ok objs \<Longrightarrow>
     map (\<lambda>ob. (ob_oid ob, ob_kind ob)) objs = listed \<and> list_all (\<lambda>ob. \<exists>k. read (ob_oid ob) s = Ok (Some (k, ob_content ob))) objs"
  by (induction read s listed arbitrary: objs rule: read_listed.induct)
     (auto simp: and_then_Ok_iff split: sum.splits option.splits)

lemma collect_new_objects_Ok:
  "collect_new_objects env x parents s = (Ok objs, s') \<Longrightarrow>
     objects_added_by (me_git env) x parents s = (Ok (map (\<lambda>ob. (ob_oid ob, ob_kind ob)) objs), s') \<and>
     list_all (\<lambda>ob. \<exists>k. me_loose env (ob_oid ob) s' = Ok (Some (k, ob_content ob))) objs"
  using read_listed_Ok by (fastforce simp: collect_new_objects_def split: prod.splits sum.splits)

text \<open>The run of git behind a merge: the target branch is found at the base, the merge with the head
  is clean, its tree is committed with base and head as parents, and what the commit added to
  them is listed and read. Each command starts in the state the one before it left.\<close>

definition merge_computed ::
    "'g merge_env \<Rightarrow> pull_row \<Rightarrow> actor \<Rightarrow> 'g \<Rightarrow> oid \<Rightarrow> oid \<Rightarrow> oid \<Rightarrow> git_object list \<Rightarrow> 'g \<Rightarrow> bool" where
  "merge_computed env pr who s head base x objs s' \<longleftrightarrow> (\<exists>s1 s2 s3 tree.
     resolve_rev (me_git env) (pl_target_branch pr) s = (Ok (Some base), s1) \<and>
     try_merge (me_git env) (pl_target_branch pr) (to_hex head) s1 = (Ok (CleanMerge tree), s2) \<and>
     commit_merge (me_commit env (ac_name who) (ac_email who)) tree base head (merge_message pr) s2 = (Ok x, s3) \<and>
     objects_added_by (me_git env) x [base, head] s3 = (Ok (map (\<lambda>ob. (ob_oid ob, ob_kind ob)) objs), s') \<and>
     list_all (\<lambda>ob. \<exists>k. me_loose env (ob_oid ob) s' = Ok (Some (k, ob_content ob))) objs)"

lemma compute_merge_Ok:
  assumes "compute_merge env pr who s = (Ok (head, base, x, objs), s')"
  shows "pull_is_open pr \<and> parse_oid_opt (pl_head_oid pr) = Some head \<and> parse_oid_opt (pl_base_oid pr) = Some base \<and>
    merge_computed env pr who s head base x objs s'"
proof -
  from assms obtain s1 s2 s3 tree where "pull_is_open pr" "parse_oid_opt (pl_head_oid pr) = Some head"
    "parse_oid_opt (pl_base_oid pr) = Some base" "resolve_rev (me_git env) (pl_target_branch pr) s = (Ok (Some base), s1)"
    "try_merge (me_git env) (pl_target_branch pr) (to_hex head) s1 = (Ok (CleanMerge tree), s2)"
    "commit_merge (me_commit env (ac_name who) (ac_email who)) tree base head (merge_message pr) s2 = (Ok x, s3)"
    "collect_new_objects env x [base, head] s3 = (Ok objs, s')"
    by (auto simp: compute_merge_def split: if_splits option.splits sum.splits prod.splits merge_attempt.splits)
  with collect_new_objects_Ok [OF this(7)] show ?thesis unfolding merge_computed_def by blast
qed

text \<open>Property C8: a branch never names an object the log does not have. A merge that succeeds was
  of an open pull request whose base was both the branch in the cache and the branch in the log;
  git, run from the given state on, merged its head cleanly, committed the tree with base and head
  as parents and listed the objects that are new. Every one of them, as read back from the cache,
  hashes to its id and is in the topic of the repository before the three records that say that
  the pull request was merged, that the branch moved from the base to the merge commit, and
  where it is now. Of the references of every repository only that branch has moved, to the merge
  commit. On every error no reference has moved, and the log of references has nothing new
  while the process lives.\<close>

theorem merge_objects_first:
  assumes "broker_truthful (txn cenv)" "list_all broker_truthful envs"
    and "CHR ''/'' \<notin> set repo" "CHR ''/'' \<notin> set q"
    and "perform_merge env cd cenv sha1 envs repo pr who s w svc = Some (answer, s', w', svc', landed)"
  shows "case answer of
      Ok (x, committed) \<Rightarrow> pull_is_open pr \<and>
        (\<exists>head base objs moved pid. parse_oid_opt (pl_head_oid pr) = Some head \<and> parse_oid_opt (pl_base_oid pr) = Some base \<and>
          me_uuid env (pl_pr_id pr) = Some pid \<and>
          refs_get (sv_refs svc) repo (''refs/heads/'' @ pl_target_branch pr) = Some base \<and>
          merge_computed env pr who s head base x objs s' \<and>
          list_all (hashed sha1) objs \<and> landed = pushed_records repo objs @ moved \<and>
          merge_told cd \<lparr>mp_repo = repo, mp_pr = pid, mp_target_branch = pl_target_branch pr, mp_expected_base = base,
            mp_expected_head = head, mp_merge_commit = x, mp_merged_by = ac_id who, mp_merged_by_name = ac_name who\<rparr> moved) \<and>
        refs_get (sv_refs svc') q name = (if q = repo \<and> name = ''refs/heads/'' @ pl_target_branch pr then Some x
          else refs_get (sv_refs svc) q name)
    | Err e \<Rightarrow> sv_refs svc' = sv_refs svc \<and> (topic_records GIT_REFS landed = [] \<or> \<not> alive svc')"
proof (cases "fst (compute_merge env pr who s)")
  case (Inl e)
  then have "answer = Err e" "svc' = svc" "landed = []"
    using assms(5) by (auto simp: perform_merge_def split: prod.splits)
  then show ?thesis by simp
next
  case (Inr r)
  then obtain head base x objs s1 where c: "compute_merge env pr who s = (Ok (head, base, x, objs), s1)"
    by (metis prod.collapse)
  obtain r1 w1 l where put: "put_all sha1 repo envs objs w = Some (r1, w1, l)"
    using assms(5) c by (auto simp: perform_merge_def split: option.splits)
  note objects = put_all_cases [OF put assms(2)]
  show ?thesis
  proof (cases "\<exists>n pid. r1 = Ok n \<and> me_uuid env (pl_pr_id pr) = Some pid")
    case False
    then have "svc' = svc" "landed = l" "\<exists>e. answer = Err e"
      using assms(5) c put by (auto simp: perform_merge_def split: sum.splits option.splits)
    then show ?thesis using objects(1) by auto
  next
    case True
    then obtain n pid where n: "r1 = Ok n" and pid: "me_uuid env (pl_pr_id pr) = Some pid" by blast
    let ?req = "\<lparr>mp_repo = repo, mp_pr = pid, mp_target_branch = pl_target_branch pr, mp_expected_base = base,
      mp_expected_head = head, mp_merge_commit = x, mp_merged_by = ac_id who, mp_merged_by_name = ac_name who\<rparr>"
    obtain a svc1 l' where m: "merge_pull cd cenv ?req svc = (a, svc1, l')" by (metis prod_cases3)
    have out: "svc' = svc1" "landed = l @ l'"
      "answer = (case a of Err (StaleMerge _ _) \<Rightarrow> Err MergeStale | Err e \<Rightarrow> Err (MergeCommand e) | Ok (_, k) \<Rightarrow> Ok (x, k))"
      using assms(5) c put n pid m by (auto simp: perform_merge_def split: sum.splits command_error.splits)
    show ?thesis
    proof (cases a)
      case (Inl e)
      with merge_pull_cases [OF assms(1) m] out objects(1) show ?thesis
        by (cases e) (auto split: if_splits)
    next
      case (Inr k)
      with merge_pull_cases [OF assms(1) m]
      have moved: "refs_get (sv_refs svc) repo (''refs/heads/'' @ pl_target_branch pr) = Some base" "merge_told cd ?req l'"
        "sv_refs svc1 = ref_set (sv_refs svc) repo (''refs/heads/'' @ pl_target_branch pr) (Some x)"
        by (auto split: if_splits)
      have a: "answer = Ok (x, snd k)" "s' = s1" using out(3) assms(5) c put n pid m Inr
        by (auto simp: perform_merge_def case_prod_beta)
      have "refs_get (sv_refs svc') q name = (if q = repo \<and> name = ''refs/heads/'' @ pl_target_branch pr then Some x
          else refs_get (sv_refs svc) q name)"
        by (simp add: out(1) moved(3) refs_get_set ref_key_no_slash [OF assms(4,3)])
      with moved compute_merge_Ok [OF c] objects(2) [OF n] out(2) pid show ?thesis
        unfolding a by (simp only: sum.case prod.case) blast
    qed
  qed
qed

text \<open>A git that finds the branch at its base, merges cleanly and lists the merge commit as new.\<close>

definition demo_merge_commit :: oid where
  "demo_merge_commit = compute_oid toy_hash Commit []"

definition demo_merge_git :: "unit git" where
  "demo_merge_git args s = (Ok \<lparr>go_success = True, go_stdout =
     (if hd args = ''rev-parse'' then to_hex (demo_oid 1)
      else if hd args = ''merge-tree'' then to_hex (demo_oid 8)
      else if hd args = ''cat-file'' then ''commit''
      else to_hex demo_merge_commit), go_stderr = []\<rparr>, s)"

definition demo_merge_env :: "unit merge_env" where
  "demo_merge_env = \<lparr>me_git = demo_merge_git, me_commit = (\<lambda>_ _. demo_merge_git),
     me_loose = (\<lambda>_ _. Ok (Some (Commit, []))), me_uuid = Some\<rparr>"

definition demo_pull :: pull_row where
  "demo_pull = \<lparr>pl_pr_id = ''p1'', pl_repo_id = ''r1'', pl_number = 2, pl_title = ''fix'', pl_body = None, pl_author_id = ''u2'',
     pl_author_name = ''hubot'', pl_state = ''open'', pl_source_branch = ''fix'', pl_target_branch = ''main'',
     pl_head_oid = to_hex (demo_oid 2), pl_base_oid = to_hex (demo_oid 1), pl_merge_check = None, pl_merge_commit_oid = None,
     pl_merged_by_name = None, pl_comment_count = 0, pl_created_at = 0, pl_updated_at = 0, pl_merged_at = None, pl_closed_at = None\<rparr>"

definition demo_merge ::
    "((oid \<times> committed, merge_error) result \<times> unit \<times> writer \<times> service \<times> bytes pending_record list) option" where
  "demo_merge = perform_merge demo_merge_env hex_codec (demo_env ''x'') toy_hash [txn (demo_env ''x'')] ''r1'' demo_pull
     \<lparr>ac_id = ''u1'', ac_name = ''Octo'', ac_email = ''o@x''\<rparr> () (sv_writer (demo_service)) (demo_service)"

lemma word_output:
  assumes "word_text w"
  shows "utf8_lossy w = w" "trim w = w" "str_lines w = [w]"
proof -
  have plain: "\<forall>b\<in>set (map code w). b < 128" "list_all (\<lambda>c. 33 \<le> code c \<and> code c < 127) w" "\<forall>c\<in>set w. c \<noteq> CHR 0x0A" "w \<noteq> []"
    using assms by (auto simp: word_text_def list_all_iff code_def)
  show "utf8_lossy w = w" by (rule utf8_lossy_valid [OF utf8_ascii [OF plain(1)]])
  show "trim w = w" by (rule trim_ascii [OF plain(2)])
  show "str_lines w = [w]" using split_by_none [of w "\<lambda>c. c = CHR 0x0A"] plain(3,4) by (simp add: str_lines_def Let_def)
qed

lemma demo_computed:
  "compute_merge demo_merge_env demo_pull who () =
     (Ok (demo_oid 2, demo_oid 1, demo_merge_commit, [\<lparr>ob_oid = demo_merge_commit, ob_kind = Commit, ob_content = []\<rparr>]), ())"
proof -
  have wf: "oid_wf (demo_oid b)" "oid_wf demo_merge_commit" for b
    by (simp_all add: oid_wf_def demo_oid_def demo_merge_commit_def compute_oid_def toy_hash_def)
  have hex: "utf8_lossy (to_hex x) = to_hex x" "trim (to_hex x) = to_hex x" "str_lines (to_hex x) = [to_hex x]"
    "split_whitespace (to_hex x) = [to_hex x]" "parse_oid_opt (to_hex x) = Some x" if "oid_wf x" for x
    using word_output [OF word_hex [OF that]] split_last [OF word_hex [OF that]] parse_oid_hex [OF that] by auto
  have word: "word_text ''commit''" by (simp add: word_text_def code_def)
  have kind: "kind_parse ''commit'' = Some Commit" by (simp add: kind_parse_def)
  show ?thesis
    by (simp add: compute_merge_def demo_merge_env_def demo_merge_git_def demo_pull_def pull_is_open_def resolve_rev_def run_git_def
        git_answer_def try_merge_def read_merge_tree_def commit_merge_def collect_new_objects_def objects_added_by_def
        hex [OF wf(1)] hex [OF wf(2)] word_output [OF word] kind)
qed

lemma put_small:
  assumes "hashed sha1 ob" "ob_content ob = []" "\<not> fenced w"
  shows "put_all sha1 repo [txn (demo_env ''x'')] [ob] w = Some (Ok 1, w, pushed_records repo [ob])"
proof -
  have "chunks BATCH [ob] = [[ob]]" by (simp add: BATCH_def chunks.simps [of 64 "[ob]"] chunks.simps [of 64 "[]"])
  moreover have "\<exists>p. object_records (repo_objects repo) ob = [p]"
    using assms(2) by (auto simp: object_records_def encode_object_def Let_def)
  then obtain p where p: "object_records (repo_objects repo) ob = [p]" by blast
  then have "batch_records sha1 (repo_objects repo) [ob] = Ok [p]"
    using assms(1) by (simp add: frame_verify_def hashed_def)
  moreover have "transact (txn (demo_env ''x'')) [p] w = (Ok [(pr_topic p, 0)], w, [p])"
    using assms(3) by (simp add: transact_def demo_env_def numeral_eq_Suc)
  ultimately show ?thesis using p by (simp add: put_all_def pushed_records_def)
qed

lemma merge_objects_first_witness:
  "\<exists>k s' w' svc' objs moved. demo_merge = Some (Ok (demo_merge_commit, k), s', w', svc', pushed_records ''r1'' objs @ moved) \<and>
    map pr_topic moved = [EVENTS_PRS, EVENTS_GIT_REFS, GIT_REFS] \<and> refs_get (sv_refs svc') ''r1'' ''refs/heads/main'' = Some demo_merge_commit"
proof -
  let ?ob = "\<lparr>ob_oid = demo_merge_commit, ob_kind = Commit, ob_content = []\<rparr>" and ?w = "sv_writer (demo_service)"
  let ?req = "\<lparr>mp_repo = ''r1'', mp_pr = ''p1'', mp_target_branch = ''main'', mp_expected_base = demo_oid 1,
    mp_expected_head = demo_oid 2, mp_merge_commit = demo_merge_commit, mp_merged_by = ''u1'', mp_merged_by_name = ''Octo''\<rparr>"
  let ?who = "\<lparr>ac_id = ''u1'', ac_name = ''Octo'', ac_email = ''o@x''\<rparr>"
  note computed = demo_computed [of ?who]
  have "\<not> fenced ?w" by (simp add: demo_service_def fresh_service_def)
  then have stored: "put_all toy_hash ''r1'' [txn (demo_env ''x'')] [?ob] ?w = Some (Ok 1, ?w, pushed_records ''r1'' [?ob])"
    by (intro put_small) (simp_all add: hashed_def demo_merge_commit_def)
  have "(case fst (merge_pull hex_codec (demo_env ''x'') ?req (demo_service)) of Ok _ \<Rightarrow> True | Err _ \<Rightarrow> False)" by code_simp
  then obtain pid k svc' l where "merge_pull hex_codec (demo_env ''x'') ?req (demo_service) = (Ok (pid, k), svc', l)"
    by (auto split: sum.splits) (metis prod.collapse)
  then obtain s' w' landed where run: "demo_merge = Some (Ok (demo_merge_commit, k), s', w', svc', landed)"
    using stored computed by (auto simp: demo_merge_def perform_merge_def) (simp add: demo_merge_env_def demo_pull_def)
  have "broker_truthful (txn (demo_env ''x''))" by (simp add: broker_truthful_def demo_env_def)
  then have truth: "broker_truthful (txn (demo_env ''x''))" "list_all broker_truthful [txn (demo_env ''x'')]" by simp_all
  have id: "CHR ''/'' \<notin> set ''r1''" by simp
  from merge_objects_first [OF truth id id run [unfolded demo_merge_def], of "''refs/heads/main''"]
  obtain objs moved req where "landed = pushed_records ''r1'' objs @ moved" "merge_told hex_codec req moved"
    "refs_get (sv_refs svc') ''r1'' ''refs/heads/main'' = Some demo_merge_commit"
    by (auto simp: demo_pull_def)
  then show ?thesis using run by (intro exI conjI) (auto simp: merge_told_def)
qed

end
