(* ===== verification/Store_Auth.thy ===== *)
theory Store_Auth
  imports Read_Tables Value_Types
begin

text \<open>
  Sessions, access tokens (\<open>forge-store/src/auth.rs\<close>) and the schema ledger
  (\<open>forge-store/src/migrate.rs\<close>). Only hashes of credentials are stored. The data definition
  language of the database is a parameter, and it may leave a failed script half done.
\<close>

section \<open>Sessions\<close>

record session_row =
  ss_user_id :: user_id
  ss_created_at :: timestamp
  ss_expires_at :: timestamp

type_synonym sessions_table = "(string, session_row) table"

definition create_session ::
    "string \<Rightarrow> user_id \<Rightarrow> timestamp \<Rightarrow> timestamp \<Rightarrow> sessions_table \<Rightarrow> (sessions_table, sql_error) result" where
  "create_session session_hash user expires now t =
     (if tbl_get t session_hash \<noteq> None then Err (Sql ''web_sessions'')
      else Ok (tbl_put session_hash \<lparr>ss_user_id = user, ss_created_at = now, ss_expires_at = expires\<rparr> t))"

definition session_at :: "timestamp \<Rightarrow> string \<Rightarrow> sessions_table \<Rightarrow> session_row option" where
  "session_at now session_hash t = (case tbl_get t session_hash of
     None \<Rightarrow> None | Some s \<Rightarrow> if ss_expires_at s > now then Some s else None)"

definition delete_session :: "string \<Rightarrow> sessions_table \<Rightarrow> sessions_table" where
  "delete_session session_hash t = tbl_del session_hash t"

text \<open>\<open>DELETE .. WHERE\<close>, with the number of rows it took.\<close>

definition delete_where :: "('r \<Rightarrow> bool) \<Rightarrow> ('k, 'r) table \<Rightarrow> nat \<times> ('k, 'r) table" where
  "delete_where P t = (length (rows_where P t), filter (\<lambda>(_, r). \<not> P r) t)"

definition delete_sessions_for :: "user_id \<Rightarrow> sessions_table \<Rightarrow> nat \<times> sessions_table" where
  "delete_sessions_for user t = delete_where (\<lambda>s. ss_user_id s = user) t"

definition purge_expired_sessions :: "timestamp \<Rightarrow> sessions_table \<Rightarrow> nat \<times> sessions_table" where
  "purge_expired_sessions now t = delete_where (\<lambda>s. ss_expires_at s < now) t"

lemma delete_where_get:
  assumes "tbl_wf t"
  shows "tbl_get (snd (delete_where P t)) k = (case tbl_get t k of Some r \<Rightarrow> if P r then None else Some r | None \<Rightarrow> None)"
  using assms unfolding tbl_wf_def delete_where_def tbl_get_def
  by (induction t) (auto split: option.splits simp: map_of_eq_None_iff dest: map_of_SomeD)

lemma delete_where_wf: "tbl_wf t \<Longrightarrow> tbl_wf (snd (delete_where P t))"
  unfolding tbl_wf_def delete_where_def by (simp add: distinct_map_filter)

text \<open>The operations as a client sees them: who is signed in with a session at a time.\<close>

definition signed_in :: "timestamp \<Rightarrow> sessions_table \<Rightarrow> string \<Rightarrow> user_id option" where
  "signed_in now t h = map_option ss_user_id (session_at now h t)"

lemma signed_in_simps:
  assumes "tbl_wf t"
  shows "create_session h user expires created t = Ok t' \<Longrightarrow>
      signed_in now t' = (signed_in now t)(h := if expires > now then Some user else None)"
    and "signed_in now (delete_session h t) = (signed_in now t)(h := None)"
    and "signed_in now (snd (delete_sessions_for user t)) =
      (\<lambda>k. if signed_in now t k = Some user then None else signed_in now t k)"
    and "past \<le> now \<Longrightarrow> signed_in now (snd (purge_expired_sessions past t)) = signed_in now t"
  using assms
  by (auto simp: fun_eq_iff signed_in_def session_at_def create_session_def delete_session_def tbl_get_put tbl_get_del
      delete_sessions_for_def purge_expired_sessions_def delete_where_get split: option.splits if_splits)

section \<open>Access tokens\<close>

record token_row =
  tk_token_id :: string
  tk_user_id :: user_id
  tk_name :: string
  tk_token_hash :: string
  tk_scopes :: "string list"
  tk_created_at :: timestamp
  tk_expires_at :: "timestamp option"
  tk_revoked_at :: "timestamp option"
  tk_last_used_at :: "timestamp option"

type_synonym tokens_table = "(string, token_row) table"

definition is_usable :: "token_row \<Rightarrow> timestamp \<Rightarrow> bool" where
  "is_usable r now \<longleftrightarrow> tk_revoked_at r = None \<and> (case tk_expires_at r of None \<Rightarrow> True | Some expiry \<Rightarrow> expiry > now)"

definition tokens_set :: "token_row \<Rightarrow> token_row \<Rightarrow> token_row" where
  "tokens_set old excluded = old\<lparr>
     tk_name := tk_name excluded, tk_scopes := tk_scopes excluded,
     tk_expires_at := tk_expires_at excluded, tk_revoked_at := tk_revoked_at excluded\<rparr>"

definition upsert_token :: "token_row \<Rightarrow> tokens_table \<Rightarrow> (tokens_table, sql_error) result" where
  "upsert_token = upsert_row ''access_tokens'' tk_token_id tk_token_hash tokens_set"

definition token_by_hash :: "string \<Rightarrow> tokens_table \<Rightarrow> token_row option" where
  "token_by_hash h t = map_option snd (List.find (\<lambda>(_, r). tk_token_hash r = h) t)"

definition tokens_for :: "user_id \<Rightarrow> tokens_table \<Rightarrow> token_row list" where
  "tokens_for user t = rows_where (\<lambda>r. tk_user_id r = user) t"

definition touch_token :: "string \<Rightarrow> timestamp \<Rightarrow> tokens_table \<Rightarrow> tokens_table" where
  "touch_token token now t = snd (update_where token (\<lambda>_. True) (\<lambda>r. r\<lparr>tk_last_used_at := Some now\<rparr>) t)"

text \<open>The two writers of the table do not disturb each other: a replayed creation keeps the time of
  the last use, and a use keeps everything else.\<close>

lemma token_columns_disjoint:
  assumes "upsert_token tk t = Ok t'" "tbl_get t (tk_token_id tk) = Some old"
  shows "map_option tk_last_used_at (tbl_get t' (tk_token_id tk)) = Some (tk_last_used_at old)"
    and "map_option (\<lambda>r. is_usable r now) (tbl_get (touch_token k s t) j) = map_option (\<lambda>r. is_usable r now) (tbl_get t j)"
  using assms
  by (auto simp: upsert_token_def upsert_row_def stored_row_def tokens_set_def Let_def tbl_get_put touch_token_def
      update_where_def is_usable_def split: if_splits option.splits)

interpretation tokens: upserted tk_token_id tk_token_hash tokens_set
  by unfold_locales (auto simp: tokens_set_def)

section \<open>The schema ledger\<close>

record migration =
  mg_version :: int
  mg_name :: string
  mg_sql :: string

text \<open>The text of the one script is embedded from a file; it is an argument here.\<close>

definition MIGRATIONS :: "string \<Rightarrow> migration list" where
  "MIGRATIONS schema_sql = [\<lparr>mg_version = 1, mg_name = ''schema'', mg_sql = schema_sql\<rparr>]"

text \<open>A database: the ledger, absent before the first run, and the rest, which a script changes.\<close>

record 'd schema_db =
  sd_ledger :: "(int \<times> string) list option"
  sd_data :: 'd

text \<open>A statement may fail; a ledger that is not there is no failure of reading the version.\<close>

definition current_version :: "sql_error option \<Rightarrow> 'd schema_db \<Rightarrow> (int option, sql_error) result" where
  "current_version fault db = (case fault of
     Some e \<Rightarrow> Err e
   | None \<Rightarrow> Ok (case sd_ledger db of
       None \<Rightarrow> None | Some [] \<Rightarrow> None | Some ((v, _) # rest) \<Rightarrow> Some (fold max (map fst rest) v)))"

definition expected_version :: "migration list \<Rightarrow> int" where
  "expected_version ms = (if ms = [] then 0 else mg_version (last ms))"

definition is_current :: "sql_error option \<Rightarrow> migration list \<Rightarrow> 'd schema_db \<Rightarrow> (bool, sql_error) result" where
  "is_current fault ms db = and_then (current_version fault db) (\<lambda>version.
     Ok ((case version of None \<Rightarrow> 0 | Some v \<Rightarrow> v) = expected_version ms))"

definition ensure_ledger :: "sql_error option \<Rightarrow> 'd schema_db \<Rightarrow> (unit, sql_error) result \<times> 'd schema_db" where
  "ensure_ledger fault db = (case fault of
     Some e \<Rightarrow> (Err e, db)
   | None \<Rightarrow> (Ok (), case sd_ledger db of None \<Rightarrow> db\<lparr>sd_ledger := Some []\<rparr> | Some _ \<Rightarrow> db))"

definition applied_versions :: "sql_error option \<Rightarrow> 'd schema_db \<Rightarrow> (int list, sql_error) result" where
  "applied_versions fault db = (case fault of
     Some e \<Rightarrow> Err e
   | None \<Rightarrow> (case sd_ledger db of None \<Rightarrow> Err (Sql ''schema_migrations'') | Some l \<Rightarrow> Ok (map fst l)))"

text \<open>\<open>ddl\<close> runs a script, \<open>recorded\<close> is whether the row of the ledger could be written.\<close>

definition apply_migration ::
    "(string \<Rightarrow> 'd \<Rightarrow> (unit, sql_error) result \<times> 'd) \<Rightarrow> (int \<Rightarrow> sql_error option) \<Rightarrow> migration \<Rightarrow> 'd schema_db \<Rightarrow>
      (unit, sql_error) result \<times> 'd schema_db" where
  "apply_migration ddl recorded m db = (case ddl (mg_sql m) (sd_data db) of
     (Err e, d) \<Rightarrow> (Err e, db\<lparr>sd_data := d\<rparr>)
   | (Ok _, d) \<Rightarrow> (case recorded (mg_version m) of
       Some e \<Rightarrow> (Err e, db\<lparr>sd_data := d\<rparr>)
     | None \<Rightarrow> (Ok (), db\<lparr>sd_data := d,
         sd_ledger := map_option (\<lambda>l. l @ [(mg_version m, mg_name m)]) (sd_ledger db)\<rparr>)))"

fun apply_all ::
    "(string \<Rightarrow> 'd \<Rightarrow> (unit, sql_error) result \<times> 'd) \<Rightarrow> (int \<Rightarrow> sql_error option) \<Rightarrow> int list \<Rightarrow> migration list \<Rightarrow> 'd schema_db \<Rightarrow>
      (int list, sql_error) result \<times> 'd schema_db" where
  "apply_all ddl recorded applied [] db = (Ok [], db)"
| "apply_all ddl recorded applied (m # ms) db =
     (if mg_version m \<in> set applied then apply_all ddl recorded applied ms db
      else (case apply_migration ddl recorded m db of
        (Err e, db') \<Rightarrow> (Err e, db')
      | (Ok _, db') \<Rightarrow> (case apply_all ddl recorded applied ms db' of
          (Err e, db2) \<Rightarrow> (Err e, db2) | (Ok vs, db2) \<Rightarrow> (Ok (mg_version m # vs), db2))))"

definition migrate_run ::
    "(string \<Rightarrow> 'd \<Rightarrow> (unit, sql_error) result \<times> 'd) \<Rightarrow> (string \<Rightarrow> sql_error option) \<Rightarrow> (int \<Rightarrow> sql_error option) \<Rightarrow>
      migration list \<Rightarrow> 'd schema_db \<Rightarrow> (int list, sql_error) result \<times> 'd schema_db" where
  "migrate_run ddl fault recorded ms db = (case ensure_ledger (fault ''create'') db of
     (Err e, db1) \<Rightarrow> (Err e, db1)
   | (Ok _, db1) \<Rightarrow> (case applied_versions (fault ''select'') db1 of
       Err e \<Rightarrow> (Err e, db1) | Ok applied \<Rightarrow> apply_all ddl recorded applied ms db1))"

text \<open>What the ledger lists; nothing before the first run.\<close>

definition ledger_versions :: "'d schema_db \<Rightarrow> int list" where
  "ledger_versions db = (case sd_ledger db of None \<Rightarrow> [] | Some l \<Rightarrow> map fst l)"

lemma apply_all_ledger:
  assumes "apply_all ddl recorded applied ms db = (r, db')" "sd_ledger db = Some l"
  shows "\<exists>new. sd_ledger db' = Some (l @ new) \<and> set (map fst new) \<subseteq> set (map mg_version ms) - set applied \<and>
    (\<forall>vs. r = Ok vs \<longrightarrow> map fst new = vs \<and> set vs = set (map mg_version ms) - set applied)"
  using assms
proof (induction ms arbitrary: db l r)
  case (Cons m ms)
  show ?case
  proof (cases "mg_version m \<in> set applied")
    case True
    with Cons.prems Cons.IH [of db r l] show ?thesis by auto
  next
    case False
    obtain a db1 where a: "apply_migration ddl recorded m db = (a, db1)" by (metis prod.collapse)
    show ?thesis
    proof (cases a)
      case (Inl e)
      then show ?thesis using Cons.prems False a
        by (auto simp: apply_migration_def split: prod.splits sum.splits option.splits)
    next
      case (Inr u)
      then have l1: "sd_ledger db1 = Some (l @ [(mg_version m, mg_name m)])"
        using a Cons.prems(2) by (auto simp: apply_migration_def split: prod.splits sum.splits option.splits)
      obtain r2 where r2: "apply_all ddl recorded applied ms db1 = (r2, db')"
        using Cons.prems(1) False a Inr by (auto split: prod.splits sum.splits)
      have r: "r = (case r2 of Err e \<Rightarrow> Err e | Ok vs \<Rightarrow> Ok (mg_version m # vs))"
        using Cons.prems(1) False a Inr r2 by (cases r2) auto
      from Cons.IH [OF r2 l1] obtain new where new: "sd_ledger db' = Some (l @ (mg_version m, mg_name m) # new)"
        "set (map fst new) \<subseteq> set (map mg_version ms) - set applied"
        "\<forall>vs. r2 = Ok vs \<longrightarrow> map fst new = vs \<and> set vs = set (map mg_version ms) - set applied" by auto
      show ?thesis
      proof (intro exI [of _ "(mg_version m, mg_name m) # new"] conjI)
        show "set (map fst ((mg_version m, mg_name m) # new)) \<subseteq> set (map mg_version (m # ms)) - set applied"
          using new(2) False by auto
        show "\<forall>vs. r = Ok vs \<longrightarrow> map fst ((mg_version m, mg_name m) # new) = vs \<and>
            set vs = set (map mg_version (m # ms)) - set applied"
          using new(3) False r by (cases r2) auto
      qed (use new(1) in simp)
    qed
  qed
qed auto

lemma apply_all_nothing: "set (map mg_version ms) \<subseteq> set applied \<Longrightarrow> apply_all ddl recorded applied ms db = (Ok [], db)"
  by (induction ms) auto

lemma fold_max: "fold max vs (v :: int) = Max (insert v (set vs))"
  by (simp add: Max.set_eq_fold [symmetric])

text \<open>Migrating is done once. When a run succeeds, the versions it reports are exactly
  those the ledger did not have, the database is current afterwards (for scripts in ascending
  order that the ledger has not run ahead of), and running again does nothing, whatever the scripts
  would do.\<close>

theorem migrations_run_once:
  assumes "sorted (map mg_version ms)" "ms \<noteq> []"
    and "set (ledger_versions db) \<subseteq> set (map mg_version ms)"
    and "migrate_run ddl fault recorded ms db = (Ok vs, db')"
  shows "set vs = set (map mg_version ms) - set (ledger_versions db) \<and> is_current None ms db' = Ok True \<and>
    migrate_run ddl' (\<lambda>_. None) recorded' ms db' = (Ok [], db')"
proof -
  obtain db1 l where l: "ensure_ledger (fault ''create'') db = (Ok (), db1)" "sd_ledger db1 = Some l" "map fst l = ledger_versions db"
    and run: "apply_all ddl recorded (ledger_versions db) ms db1 = (Ok vs, db')"
    using assms(4) by (cases "sd_ledger db")
      (auto simp: migrate_run_def ensure_ledger_def applied_versions_def ledger_versions_def split: option.splits)
  from apply_all_ledger [OF run l(2)] obtain new where new: "sd_ledger db' = Some (l @ new)" "map fst new = vs"
    "set vs = set (map mg_version ms) - set (ledger_versions db)" by blast
  have all: "set (map fst (l @ new)) = set (map mg_version ms)" using new assms(3) l(3) by auto
  have again: "migrate_run ddl' (\<lambda>_. None) recorded' ms db' = (Ok [], db')"
    using new(1) all by (simp add: migrate_run_def ensure_ledger_def applied_versions_def apply_all_nothing)
  have "mg_version (last ms) = Max (set (map mg_version ms))"
  proof (rule Max_eqI [symmetric])
    show "mg_version (last ms) \<in> set (map mg_version ms)" using assms(2) by simp
    show "v \<le> mg_version (last ms)" if "v \<in> set (map mg_version ms)" for v
      using that assms(1,2) by (auto simp: last_conv_nth sorted_iff_nth_mono in_set_conv_nth)
  qed simp
  moreover have "current_version None db' = Ok (Some (Max (set (map fst (l @ new)))))"
  proof (cases "l @ new")
    case Nil
    then show ?thesis using all assms(2) by simp
  next
    case (Cons p rest)
    then show ?thesis using new(1) by (cases p) (simp add: current_version_def fold_max)
  qed
  ultimately have "is_current None ms db' = Ok True" using all assms(2) by (simp add: is_current_def expected_version_def)
  with new(3) again show ?thesis by blast
qed

lemma migrations_witness:
  "\<exists>db'. migrate_run (\<lambda>_ d. (Ok (), d + 1)) (\<lambda>_. None) (\<lambda>_. None) (MIGRATIONS ''x'') \<lparr>sd_ledger = None, sd_data = 0 :: nat\<rparr> = (Ok [1], db') \<and>
    is_current None (MIGRATIONS ''x'') db' = Ok True"
proof -
  let ?r = "migrate_run (\<lambda>_ d. (Ok (), d + 1)) (\<lambda>_. None) (\<lambda>_. None) (MIGRATIONS ''x'') \<lparr>sd_ledger = None, sd_data = 0 :: nat\<rparr>"
  have "fst ?r = Ok [1]" by code_simp
  then obtain db' where run: "?r = (Ok [1], db')" by (metis prod.collapse)
  from migrations_run_once [OF _ _ _ run] run show ?thesis by (simp add: MIGRATIONS_def ledger_versions_def)
qed

text \<open>A script that fails half way leaves its part behind and no row in the ledger, so the next run
  starts it again from the beginning.\<close>

lemma failed_script_runs_again:
  "migrate_run (\<lambda>_ d. (Err (Sql ''x''), d + 1)) (\<lambda>_. None) recorded (MIGRATIONS s) \<lparr>sd_ledger = None, sd_data = 0 :: nat\<rparr> =
     (Err (Sql ''x''), \<lparr>sd_ledger = Some [], sd_data = 1\<rparr>)"
  by (simp add: migrate_run_def MIGRATIONS_def ensure_ledger_def apply_migration_def applied_versions_def)

end
