(* ===== verification/Web_Pages.thy ===== *)
theory Web_Pages
  imports Git_Merge Forge_Auth
begin

text \<open>
  What the web interface shows (\<open>forge-web/src/pages.rs\<close>, \<open>error.rs\<close>, the viewer of
  \<open>state.rs\<close>): every page as the record its template is filled from, and the functions that make
  the texts on it. Templates, Unicode tables, the calendar, markdown and highlighting are
  parameters.
\<close>

section \<open>Who is looking\<close>

record viewer =
  vw_user_id :: user_id
  vw_username :: string
  vw_session_hash :: string
  vw_scopes :: "scope list"

definition viewer_allows :: "viewer \<Rightarrow> scope \<Rightarrow> bool" where
  "viewer_allows v needed = allows (vw_scopes v) needed"

section \<open>Errors\<close>

text \<open>The texts of refused commands and merges are not modelled; the error itself is what is shown.\<close>

datatype web_error =
    PageNotFound
  | NeedsSignIn
  | Forbidden
  | RefusedForm string
  | RefusedCommand command_error
  | RefusedMerge merge_error
  | BadCsrf
  | WebStore sql_error
  | WebInternal string

definition web_status :: "web_error \<Rightarrow> int" where
  "web_status e = (case e of
     PageNotFound \<Rightarrow> 404 | NeedsSignIn \<Rightarrow> 401 | Forbidden \<Rightarrow> 403
   | RefusedForm _ \<Rightarrow> 422 | RefusedCommand _ \<Rightarrow> 422 | RefusedMerge _ \<Rightarrow> 422
   | BadCsrf \<Rightarrow> 400 | WebStore _ \<Rightarrow> 500 | WebInternal _ \<Rightarrow> 500)"

datatype notice = Notice string | ErrorNotice web_error

definition public_message :: "web_error \<Rightarrow> notice" where
  "public_message e = (case e of
     WebStore _ \<Rightarrow> Notice ''Something went wrong on our side.''
   | WebInternal _ \<Rightarrow> Notice ''Something went wrong on our side.''
   | other \<Rightarrow> ErrorNotice other)"

section \<open>Texts\<close>

text \<open>The characters of a text in UTF-8, each as its bytes.\<close>

function utf8_chars :: "string \<Rightarrow> string list" where
  "utf8_chars [] = []"
| "utf8_chars (c # cs) =
     (c # takeWhile (\<lambda>d. 128 \<le> code d \<and> code d < 192) cs) # utf8_chars (dropWhile (\<lambda>d. 128 \<le> code d \<and> code d < 192) cs)"
  by pat_completeness auto

termination
  by (relation "measure length") (auto simp: less_Suc_eq_le length_dropWhile_le)

fun words_of :: "(string \<Rightarrow> bool) \<Rightarrow> string list \<Rightarrow> string list \<Rightarrow> string list list" where
  "words_of alnum word [] = (if word = [] then [] else [word])"
| "words_of alnum word (c # cs) =
     (if alnum c then words_of alnum (word @ [c]) cs
      else (if word = [] then [] else [word]) @ words_of alnum [] cs)"

definition initials :: "(string \<Rightarrow> bool) \<Rightarrow> (string \<Rightarrow> string) \<Rightarrow> string \<Rightarrow> string" where
  "initials alnum lower name = (case words_of alnum [] (utf8_chars name) of
     [] \<Rightarrow> ''?''
   | [one] \<Rightarrow> lower (concat (take 2 one))
   | first # second # _ \<Rightarrow> lower (concat (take 1 first @ take 1 second)))"

definition short_oid :: "string \<Rightarrow> string" where
  "short_oid x = concat (take 7 (utf8_chars x))"

fun human_steps :: "(nat \<times> string) list \<Rightarrow> nat \<Rightarrow> string" where
  "human_steps [] n = show_nat n @ '' B''"
| "human_steps ((unit, label) # steps) n =
     (if n \<ge> unit then
        (let whole = n div unit; frac = n mod unit * 10 div unit in
         if frac = 0 then show_nat whole @ '' '' @ label
         else show_nat whole @ ''.'' @ show_nat frac @ '' '' @ label)
      else human_steps steps n)"

definition human :: "nat \<Rightarrow> string" where
  "human n = human_steps [(2 ^ 30, ''GiB''), (2 ^ 20, ''MiB''), (2 ^ 10, ''KiB'')] n"

definition human_size :: "nat option \<Rightarrow> string" where
  "human_size n = (case n of None \<Rightarrow> [] | Some b \<Rightarrow> human b)"

definition icon_for :: "entry_kind \<Rightarrow> string" where
  "icon_for k = (case k of
     EntryDirectory \<Rightarrow> [CHR 0xE2, CHR 0x96, CHR 0xB8]
   | EntrySymlink \<Rightarrow> [CHR 0xE2, CHR 0x86, CHR 0xB3]
   | EntrySubmodule \<Rightarrow> [CHR 0xE2, CHR 0x97, CHR 0x88]
   | EntryExecutable \<Rightarrow> [CHR 0xE2, CHR 0x96, CHR 0xB9]
   | EntryFile \<Rightarrow> [CHR 0xC2, CHR 0xB7])"

definition kind_for :: "entry_kind \<Rightarrow> string" where
  "kind_for k = (case k of
     EntryDirectory \<Rightarrow> ''directory'' | EntrySymlink \<Rightarrow> ''symlink'' | EntrySubmodule \<Rightarrow> ''submodule''
   | EntryExecutable \<Rightarrow> ''executable file'' | EntryFile \<Rightarrow> ''file'')"

datatype month =
  January | February | March | April | May | June | July | August | September | October | November | December

definition month_name :: "month \<Rightarrow> string" where
  "month_name m = (case m of
     January \<Rightarrow> ''Jan'' | February \<Rightarrow> ''Feb'' | March \<Rightarrow> ''Mar'' | April \<Rightarrow> ''Apr'' | May \<Rightarrow> ''May'' | June \<Rightarrow> ''Jun''
   | July \<Rightarrow> ''Jul'' | August \<Rightarrow> ''Aug'' | September \<Rightarrow> ''Sep'' | October \<Rightarrow> ''Oct'' | November \<Rightarrow> ''Nov''
   | December \<Rightarrow> ''Dec'')"

text \<open>\<open>date\<close> is the calendar: the day, month and year of a time it can represent. The difference
  saturates at the ends of 64 bits.\<close>

definition saturating_sub :: "int \<Rightarrow> int \<Rightarrow> int" where
  "saturating_sub a b = max (- (2 ^ 63)) (min (2 ^ 63 - 1) (a - b))"

definition relative_time :: "(int \<Rightarrow> (int \<times> month \<times> int) option) \<Rightarrow> int \<Rightarrow> int \<Rightarrow> string" where
  "relative_time date now unix_seconds =
     (let delta = saturating_sub now unix_seconds in
      if delta < 60 then ''just now''
      else if delta < 3600 then show_int (delta div 60) @ '' minutes ago''
      else if delta < 86400 then show_int (delta div 3600) @ '' hours ago''
      else if delta < 604800 then show_int (delta div 86400) @ '' days ago''
      else (case date unix_seconds of
        None \<Rightarrow> ''unknown''
      | Some (day, m, year) \<Rightarrow> show_int day @ '' '' @ month_name m @ '' '' @ show_int year))"

section \<open>Pages\<close>

record page_chrome =
  pg_viewer :: "viewer option"
  pg_csrf :: string

text \<open>What every page of a repository has; the form for a new issue has nothing else.\<close>

record repo_page = page_chrome +
  pg_tab :: string
  pg_owner :: string
  pg_repo :: string
  pg_description :: "string option"
  pg_private :: bool
  pg_default_branch :: string
  pg_open_issues :: int

record entry_view =
  ev_name :: string
  ev_url :: string
  ev_icon :: string
  ev_kind :: string
  ev_size :: string

record readme_view =
  rd_name :: string
  rd_html :: string

record commit_view =
  cw_oid :: string
  cw_short :: string
  cw_summary :: string
  cw_author :: string
  cw_initials :: string
  cw_when :: string

record tree_page = repo_page +
  tp_revision :: string
  tp_path :: string
  tp_parent_url :: string
  tp_clone_url :: string
  tp_empty :: bool
  tp_entries :: "entry_view list"
  tp_latest :: "commit_view option"
  tp_readme :: "readme_view option"

record blob_page = repo_page +
  bp_revision :: string
  bp_path :: string
  bp_size :: string
  bp_binary :: bool
  bp_highlighted :: string

record commits_page = repo_page +
  cp_revision :: string
  cp_commits :: "commit_view list"

record commit_page = repo_page +
  cm_oid :: string
  cm_summary :: string
  cm_body :: "string option"
  cm_author :: string
  cm_initials :: string
  cm_when :: string
  cm_diff :: string

record issue_line =
  il_number :: int
  il_title :: string
  il_author :: string
  il_comments :: int

record issues_page = repo_page +
  ip_closed_issues :: int
  ip_showing_open :: bool
  ip_can_write :: bool
  ip_issues :: "issue_line list"

record comment_view =
  cv_author :: string
  cv_initials :: string
  cv_body :: string

record issue_page = repo_page +
  is_number :: int
  is_title :: string
  is_open_issue :: bool
  is_author :: string
  is_author_initials :: string
  is_body :: string
  is_comments :: "comment_view list"
  is_comment_count :: int
  is_can_write :: bool

record pull_line =
  ln_number :: int
  ln_title :: string
  ln_author :: string
  ln_source_branch :: string
  ln_target_branch :: string
  ln_merged :: bool

record pulls_page = repo_page +
  pp_showing_open :: bool
  pp_open_count :: int
  pp_closed_count :: int
  pp_pulls :: "pull_line list"

record review_view =
  rw_reviewer :: string
  rw_initials :: string
  rw_verdict_label :: string
  rw_verdict_class :: string
  rw_body :: "string option"

record check_job_view =
  cj_name :: string
  cj_status :: string
  cj_status_class :: string
  cj_glyph :: string

record check_view =
  ck_name :: string
  ck_status :: string
  ck_status_class :: string
  ck_glyph :: string
  ck_number :: int
  ck_jobs :: "check_job_view list"

record pull_page = repo_page +
  pd_number :: int
  pd_title :: string
  pd_state_label :: string
  pd_state_class :: string
  pd_open :: bool
  pd_merged :: bool
  pd_mergeable :: bool
  pd_conflicted :: bool
  pd_conflicts :: "string list"
  pd_author :: string
  pd_author_initials :: string
  pd_body :: "string option"
  pd_source_branch :: string
  pd_target_branch :: string
  pd_head_oid :: string
  pd_head_short :: string
  pd_merge_commit :: string
  pd_merged_by :: "string option"
  pd_commit_count :: int
  pd_reviews :: "review_view list"
  pd_checks :: "check_view list"
  pd_checks_passed :: bool
  pd_diff :: string
  pd_can_write :: bool

record repo_line =
  rl_name :: string
  rl_description :: "string option"

record profile_page = page_chrome +
  pf_username :: string
  pf_initials :: string
  pf_repos :: "repo_line list"

record login_page = page_chrome +
  lg_error :: "notice option"

record register_page = page_chrome +
  rg_error :: "notice option"

record error_page = page_chrome +
  er_status :: int
  er_message :: notice

definition error_response :: "web_error \<Rightarrow> int \<times> error_page" where
  "error_response e = (web_status e,
     \<lparr>pg_viewer = None, pg_csrf = [], er_status = web_status e, er_message = public_message e\<rparr>)"

text \<open>The answers: a page, the text of a file, or a redirect, possibly with a cookie.\<close>

datatype web_page =
    TreeP tree_page
  | BlobP blob_page
  | RawFile bytes
  | CommitsP commits_page
  | CommitP commit_page
  | IssuesP issues_page
  | IssueP issue_page
  | NewIssueP repo_page
  | PullsP pulls_page
  | PullP pull_page
  | ProfileP profile_page
  | LoginP login_page
  | RegisterP register_page
  | RedirectTo string
  | CookieRedirect string string
  | Stylesheet string

section \<open>Dates and names\<close>

text \<open>A commit time from any clock is rendered, and one in the future is not a negative age.\<close>

lemma relative_time_future: "now \<le> t \<Longrightarrow> relative_time date now t = ''just now''"
  by (simp add: relative_time_def saturating_sub_def)

text \<open>An internal failure says nothing of its detail.\<close>

lemma internal_is_vague: "web_status e = 500 \<Longrightarrow> public_message e = Notice ''Something went wrong on our side.''"
  by (cases e) (simp_all add: web_status_def public_message_def)

end
