(* ===== verification/Web_Access.thy ===== *)
theory Web_Access
  imports Store_Auth Web_Pages Projector_Loop
begin

text \<open>
  Who asks, and what they may open (\<open>forge-web/src/session.rs\<close>, \<open>state.rs\<close>, the function
  \<open>open_repo\<close> of \<open>routes/repo.rs\<close>, and \<open>routes/auth.rs\<close>). A request reads the rows of the read
  model, the sessions and the cache of a repository; every statement may fail. The password hash,
  the random source and the digest are parameters. A handler is a function of the state that
  answers, leaves a state and says what landed in the log; \<open>None\<close> is a log with more batches than
  the fuel.
\<close>

section \<open>State\<close>

text \<open>In seconds. Times are kept in microseconds, the precision of the database.\<close>

definition SESSION_LIFETIME :: int where
  "SESSION_LIFETIME = 14 * 24 * 60 * 60"

definition MICROS :: int where
  "MICROS = 1000000"

text \<open>
  The environment of a request. \<open>we_fault\<close> gives the statements that fail; \<open>we_later\<close> is the read
  model after the wait for a projection, and \<open>we_applied\<close> what the watch of a topic shows within
  the budget (\<open>None\<close>: the process has no projector for it). \<open>we_cmd\<close> is the environment of the
  first, the second command of the request, \<open>we_txns\<close> the fates of the object transactions.
\<close>

record 'g web_env =
  we_now :: timestamp
  we_sha :: "bytes \<Rightarrow> bytes"
  we_secret :: bytes
  we_secure :: bool
  we_minted :: "(string, string) result"
  we_verify :: "string \<Rightarrow> string \<Rightarrow> bool"
  we_hash :: "string \<Rightarrow> (string, string) result"
  we_model :: read_model
  we_later :: read_model
  we_fault :: "string \<Rightarrow> sql_error option"
  we_applied :: "string \<Rightarrow> int list option"
  we_git :: "'g git_env"
  we_merge :: "'g merge_env"
  we_codec :: "bytes codec"
  we_cmd :: "nat \<Rightarrow> cmd_env"
  we_txns :: "txn_env list"
  we_alnum :: "string \<Rightarrow> bool"
  we_lower :: "string \<Rightarrow> string"
  we_date :: "int \<Rightarrow> (int \<times> month \<times> int) option"
  we_markdown :: "string \<Rightarrow> string"
  we_highlight :: "string \<Rightarrow> string \<Rightarrow> string"
  we_css :: "string \<Rightarrow> string"

record 'g web_state =
  wb_sessions :: sessions_table
  wb_commands :: "service option"
  wb_writer :: "writer option"
  wb_caches :: "'g caches"

type_synonym ('a, 'g) handler =
  "'g web_state \<Rightarrow> (('a, web_error) result \<times> 'g web_state \<times> bytes pending_record list) option"

text \<open>The question mark operator for handlers, and the ways into one.\<close>

definition chain :: "('a, 'g) handler \<Rightarrow> ('a \<Rightarrow> ('b, 'g) handler) \<Rightarrow> ('b, 'g) handler" where
  "chain m f st = (case m st of
     None \<Rightarrow> None
   | Some (Err e, st', l) \<Rightarrow> Some (Err e, st', l)
   | Some (Ok x, st', l) \<Rightarrow> map_option (\<lambda>(r, st2, l2). (r, st2, l @ l2)) (f x st'))"

definition answer_with :: "('a, web_error) result \<Rightarrow> ('a, 'g) handler" where
  "answer_with r st = Some (r, st, [])"

definition require :: "bool \<Rightarrow> web_error \<Rightarrow> (unit, 'g) handler" where
  "require c e = answer_with (if c then Ok () else Err e)"

definition query :: "'g web_env \<Rightarrow> string \<Rightarrow> 'a \<Rightarrow> ('a, sql_error) result" where
  "query env statement x = (case we_fault env statement of None \<Rightarrow> Ok x | Some e \<Rightarrow> Err e)"

definition web_query :: "'g web_env \<Rightarrow> string \<Rightarrow> 'a \<Rightarrow> ('a, 'g) handler" where
  "web_query env statement x = answer_with (case query env statement x of Ok y \<Rightarrow> Ok y | Err e \<Rightarrow> Err (WebStore e))"

text \<open>One reading of the repository's cache; what an error of git becomes is up to the page.\<close>

definition in_cache ::
    "repo_id \<Rightarrow> ('g \<Rightarrow> ('a, cache_error) result \<times> 'g) \<Rightarrow> (('a, cache_error) result, 'g) handler" where
  "in_cache rid f st = (case f (snd (wb_caches st rid)) of
     (r, s') \<Rightarrow> Some (Ok r, st\<lparr>wb_caches := (wb_caches st)(rid := (fst (wb_caches st rid), s'))\<rparr>, []))"

text \<open>One command, if the process has a command service.\<close>

definition command ::
    "(service \<Rightarrow> ('a, bytes) answer) \<Rightarrow> (('a, command_error) result, 'g) handler" where
  "command f st = (case wb_commands st of
     None \<Rightarrow> Some (Err (WebInternal ''the command service is not running''), st, [])
   | Some svc \<Rightarrow> (case f svc of (r, svc', l) \<Rightarrow> Some (Ok r, st\<lparr>wb_commands := Some svc'\<rparr>, l)))"

definition commands_running :: "(unit, 'g) handler" where
  "commands_running st = require (wb_commands st \<noteq> None) (WebInternal ''the command service is not running'') st"

text \<open>A command that wrote nothing to the topic counts as caught up.\<close>

definition await_projection :: "'g web_env \<Rightarrow> string \<Rightarrow> int option \<Rightarrow> bool" where
  "await_projection env topic off = (case off of
     None \<Rightarrow> True
   | Some n \<Rightarrow> (case we_applied env topic of None \<Rightarrow> False | Some shown \<Rightarrow> wait_for_offset shown n))"

section \<open>Who is asking\<close>

record req_headers =
  rh_cookies :: "string list"
  rh_fetch_site :: "string option"

definition viewer_from :: "'g web_env \<Rightarrow> req_headers \<Rightarrow> 'g web_state \<Rightarrow> viewer option" where
  "viewer_from env hs st = (case read_cookie (rh_cookies hs) SESSION_COOKIE of
     None \<Rightarrow> None
   | Some cookie \<Rightarrow>
       (let h = digest (we_sha env) cookie in
        case query env ''session'' (session_at (we_now env) h (wb_sessions st)) of
          Ok (Some s) \<Rightarrow> (case query env ''users.by_id'' (tbl_get (rm_users (we_model env)) (ss_user_id s)) of
              Ok (Some u) \<Rightarrow> Some \<lparr>vw_user_id = ur_user_id u, vw_username = ur_username u, vw_session_hash = h,
                vw_scopes = scopes_new scope_all\<rparr>
            | _ \<Rightarrow> None)
        | _ \<Rightarrow> None))"

definition session_text :: "viewer option \<Rightarrow> string" where
  "session_text v = (case v of None \<Rightarrow> [] | Some v \<Rightarrow> vw_session_hash v)"

definition csrf_token :: "'g web_env \<Rightarrow> viewer option \<Rightarrow> string" where
  "csrf_token env v = token_for (we_sha env) (we_secret env) (session_text v)"

definition is_genuine :: "'g web_env \<Rightarrow> viewer option \<Rightarrow> req_headers \<Rightarrow> string \<Rightarrow> bool" where
  "is_genuine env v hs presented \<longleftrightarrow>
     \<not> is_cross_site (rh_fetch_site hs) \<and> csrf_verify (we_sha env) (we_secret env) (session_text v) presented"

section \<open>What may be opened\<close>

definition may_see :: "viewer option \<Rightarrow> repo_row \<Rightarrow> bool" where
  "may_see v row \<longleftrightarrow> rp_visibility row \<noteq> ''private'' \<or> (case v of Some v \<Rightarrow> vw_user_id v = rp_owner_id row | None \<Rightarrow> False)"

definition hydrated_cache :: "'g web_env \<Rightarrow> repo_id \<Rightarrow> string \<Rightarrow> (unit, 'g) handler" where
  "hydrated_cache env rid default_branch st = map_option (\<lambda>(r, c).
       ((case r of Err e \<Rightarrow> Err (WebInternal ''cache'') | Ok _ \<Rightarrow> Ok ()), st\<lparr>wb_caches := (wb_caches st)(rid := c)\<rparr>, []))
     (cache_hydrate (we_git env) rid default_branch (wb_caches st rid))"

definition open_repo :: "'g web_env \<Rightarrow> viewer option \<Rightarrow> string \<Rightarrow> string \<Rightarrow> (repo_row \<times> repo_id, 'g) handler" where
  "open_repo env v owner repo =
     chain (web_query env ''repos.by_full_name'' (repo_row_named owner repo (rm_repos (we_model env)))) (\<lambda>found.
     case found of
       None \<Rightarrow> answer_with (Err PageNotFound)
     | Some row \<Rightarrow>
         chain (require (\<not> rp_deleted row) PageNotFound) (\<lambda>_.
         chain (require (may_see v row) PageNotFound) (\<lambda>_.
         chain (answer_with (ok_or (gv_uuid (we_git env) (rp_repo_id row))
           (WebInternal ''stored repository id is not a uuid''))) (\<lambda>rid.
         chain (hydrated_cache env rid (rp_default_branch row)) (\<lambda>_.
         answer_with (Ok (row, rid)))))))"

section \<open>Signing in, out and up\<close>

definition MIN_PASSWORD :: nat where
  "MIN_PASSWORD = 8"

definition DUMMY_HASH :: string where
  "DUMMY_HASH = ''$argon2id$v=19$m=19456,t=2,p=1$AAAAAAAAAAAAAAAAAAAAAA$AAAAAAAAAAAAAAAAAAAAAAAAAAAAAAAAAAAAAAAAAAA''"

definition login_page_of :: "'g web_env \<Rightarrow> notice option \<Rightarrow> web_page" where
  "login_page_of env problem = LoginP \<lparr>pg_viewer = None, pg_csrf = csrf_token env None, lg_error = problem\<rparr>"

definition register_page_of :: "'g web_env \<Rightarrow> notice option \<Rightarrow> web_page" where
  "register_page_of env problem = RegisterP \<lparr>pg_viewer = None, pg_csrf = csrf_token env None, rg_error = problem\<rparr>"

definition login_form :: "'g web_env \<Rightarrow> req_headers \<Rightarrow> (web_page, 'g) handler" where
  "login_form env hs st = answer_with (Ok (case viewer_from env hs st of
     Some _ \<Rightarrow> RedirectTo ''/'' | None \<Rightarrow> login_page_of env None)) st"

definition register_form :: "'g web_env \<Rightarrow> req_headers \<Rightarrow> (web_page, 'g) handler" where
  "register_form env hs st = answer_with (Ok (case viewer_from env hs st of
     Some _ \<Rightarrow> RedirectTo ''/'' | None \<Rightarrow> register_page_of env None)) st"

text \<open>The end of both: a fresh secret, its hash in the table, the secret in a cookie.\<close>

definition insert_session :: "'g web_env \<Rightarrow> string \<Rightarrow> user_id \<Rightarrow> (unit, 'g) handler" where
  "insert_session env secret user st = (case and_then (query env ''create_session'' ()) (\<lambda>_.
       create_session (digest (we_sha env) secret) user (we_now env + SESSION_LIFETIME * MICROS) (we_now env) (wb_sessions st)) of
     Err e \<Rightarrow> Some (Err (WebStore e), st, [])
   | Ok sessions \<Rightarrow> Some (Ok (), st\<lparr>wb_sessions := sessions\<rparr>, []))"

definition start_session :: "'g web_env \<Rightarrow> user_id \<Rightarrow> string \<Rightarrow> (web_page, 'g) handler" where
  "start_session env user target =
     chain (answer_with (case we_minted env of Ok s \<Rightarrow> Ok s | Err e \<Rightarrow> Err (WebInternal e))) (\<lambda>secret.
     chain (insert_session env secret user) (\<lambda>_.
     answer_with (Ok (CookieRedirect (session_cookie secret (nat SESSION_LIFETIME) (we_secure env)) (''/'' @ target)))))"

definition login :: "'g web_env \<Rightarrow> req_headers \<Rightarrow> string \<Rightarrow> string \<Rightarrow> string \<Rightarrow> (web_page, 'g) handler" where
  "login env hs csrf username password =
     chain (require (is_genuine env None hs csrf) BadCsrf) (\<lambda>_.
     chain (web_query env ''users.by_username_lower''
       (user_by_username_lower (to_ascii_lowercase username) (rm_users (we_model env)))) (\<lambda>user.
     let matched = we_verify env password (case user of Some u \<Rightarrow> ur_password_hash u | None \<Rightarrow> DUMMY_HASH);
         refused = answer_with (Ok (login_page_of env (Some (Notice ''Incorrect username or password.'')))) in
     case user of
       Some u \<Rightarrow> if matched then start_session env (ur_user_id u) (ur_username u) else refused
     | None \<Rightarrow> refused))"

definition register ::
    "'g web_env \<Rightarrow> req_headers \<Rightarrow> string \<Rightarrow> string \<Rightarrow> string \<Rightarrow> string \<Rightarrow> (web_page, 'g) handler" where
  "register env hs csrf username email password =
     chain (require (is_genuine env None hs csrf) BadCsrf) (\<lambda>_.
     chain commands_running (\<lambda>_.
     if chars_count password < MIN_PASSWORD
     then answer_with (Ok (register_page_of env (Some (Notice ''Passwords must be at least 8 characters.''))))
     else
       chain (answer_with (case we_hash env password of Ok h \<Rightarrow> Ok h | Err e \<Rightarrow> Err (WebInternal e))) (\<lambda>password_hash.
       chain (command (register_user (we_codec env) (we_cmd env 0) username email password_hash)) (\<lambda>r.
       case r of
         Err e \<Rightarrow> answer_with (Ok (register_page_of env (Some (ErrorNotice (RefusedCommand e)))))
       | Ok (uid, _) \<Rightarrow> start_session env uid username))))"

definition remove_session :: "'g web_env \<Rightarrow> viewer option \<Rightarrow> (unit, 'g) handler" where
  "remove_session env v st = (case v of
     None \<Rightarrow> Some (Ok (), st, [])
   | Some u \<Rightarrow> (case query env ''delete_session'' () of
       Err e \<Rightarrow> Some (Err (WebStore e), st, [])
     | Ok _ \<Rightarrow> Some (Ok (), st\<lparr>wb_sessions := delete_session (vw_session_hash u) (wb_sessions st)\<rparr>, [])))"

definition logout :: "'g web_env \<Rightarrow> req_headers \<Rightarrow> string \<Rightarrow> (web_page, 'g) handler" where
  "logout env hs csrf st =
     (let v = viewer_from env hs st in
      chain (require (is_genuine env v hs csrf) BadCsrf) (\<lambda>_.
      chain (remove_session env v) (\<lambda>_.
      answer_with (Ok (CookieRedirect (clear_session_cookie (we_secure env)) ''/'')))) st)"

definition home :: "'g web_env \<Rightarrow> req_headers \<Rightarrow> (web_page, 'g) handler" where
  "home env hs st = answer_with (Ok (case viewer_from env hs st of
     Some v \<Rightarrow> RedirectTo (''/'' @ vw_username v) | None \<Rightarrow> RedirectTo ''/login'')) st"

section \<open>Handlers\<close>

lemma handler_simps [simp]:
  "chain (answer_with r) f st = (case r of Err e \<Rightarrow> Some (Err e, st, []) | Ok x \<Rightarrow> f x st)"
  "chain (require c e) g st = (if c then g () st else Some (Err e, st, []))"
  by (auto simp: chain_def answer_with_def require_def option.map_ident option.map_id id_def split: sum.splits)

lemma query_cases: "query env s x = Ok x \<or> (\<exists>e. query env s x = Err e)"
  by (simp add: query_def split: option.splits)

lemma chain_query [simp]:
  "chain (web_query env s x) f st = (case query env s x of Err e \<Rightarrow> Some (Err (WebStore e), st, []) | Ok y \<Rightarrow> f y st)"
  by (simp add: web_query_def split: sum.splits)

end
