(* ===== verification/Web_Routes.thy ===== *)
theory Web_Routes
  imports Web_Access
begin

text \<open>
  The pages and forms of the web interface: browsing a repository (\<open>routes/repo.rs\<close>), issues
  (\<open>routes/issues.rs\<close>), pull requests (\<open>routes/pulls.rs\<close>), profiles (\<open>routes/profile.rs\<close>), the
  stylesheets (\<open>static_files.rs\<close>) and the table of routes (\<open>lib.rs\<close>).
\<close>

section \<open>Starting a request\<close>

definition get_viewer :: "'g web_env \<Rightarrow> req_headers \<Rightarrow> (viewer option, 'g) handler" where
  "get_viewer env hs st = answer_with (Ok (viewer_from env hs st)) st"

text \<open>What every form that changes a repository begins with.\<close>

definition form_viewer :: "'g web_env \<Rightarrow> req_headers \<Rightarrow> string \<Rightarrow> (viewer, 'g) handler" where
  "form_viewer env hs csrf = chain (get_viewer env hs) (\<lambda>v. case v of
     None \<Rightarrow> answer_with (Err NeedsSignIn)
   | Some u \<Rightarrow> chain (require (is_genuine env (Some u) hs csrf) BadCsrf) (\<lambda>_. answer_with (Ok u)))"

definition get_counters :: "'g web_env \<Rightarrow> repo_row \<Rightarrow> (counters, 'g) handler" where
  "get_counters env row = web_query env ''counters'' (counters_of (rp_repo_id row) (rm_counters (we_model env)))"

section \<open>Browsing\<close>

definition README_NAMES :: "string list" where
  "README_NAMES = [''README.md'', ''README'', ''README.txt'', ''readme.md'']"

definition split_revision :: "string \<Rightarrow> string option \<times> string" where
  "split_revision rest =
     (let rest = dropWhile (\<lambda>c. c = CHR ''/'') rest in
      if rest = [] then (None, [])
      else (case split_once (CHR ''/'') rest of
        Some (revision, path) \<Rightarrow> (Some revision, path) | None \<Rightarrow> (Some rest, [])))"

definition commit_view_of :: "'g web_env \<Rightarrow> git_commit \<Rightarrow> commit_view" where
  "commit_view_of env c = \<lparr>cw_oid = to_hex (gc_oid c), cw_short = commit_short c, cw_summary = gc_summary c,
     cw_author = gc_author_name c, cw_initials = initials (we_alnum env) (we_lower env) (gc_author_name c),
     cw_when = relative_time (we_date env) (we_now env div MICROS) (gc_authored_at c)\<rparr>"

definition entry_view_of :: "string \<Rightarrow> string \<Rightarrow> string \<Rightarrow> tree_entry \<Rightarrow> entry_view" where
  "entry_view_of owner repo revision e = \<lparr>ev_name = te_name e,
     ev_url = ''/'' @ owner @ ''/'' @ repo @ (if is_directory e then ''/tree/'' else ''/blob/'') @ revision @ ''/'' @ te_path e,
     ev_icon = icon_for (te_kind e), ev_kind = kind_for (te_kind e), ev_size = human_size (te_size e)\<rparr>"

text \<open>What a directory page reads from git: the entries and the README of a repository that is not
  empty. An error of the README is no error of the page.\<close>

definition tree_contents ::
    "'g web_env \<Rightarrow> repo_id \<Rightarrow> string \<Rightarrow> string \<Rightarrow> string \<Rightarrow> string \<Rightarrow> (entry_view list \<times> readme_view option, 'g) handler" where
  "tree_contents env rid owner repo revision path =
     chain (in_cache rid (list_tree (we_lower env) (gv_git (we_git env)) revision path)) (\<lambda>r. case r of
       Err _ \<Rightarrow> answer_with (Err PageNotFound)
     | Ok entries \<Rightarrow>
         (let views = map (entry_view_of owner repo revision) entries in
          if path \<noteq> [] then answer_with (Ok (views, None))
          else chain (in_cache rid (find_file (we_lower env) (gv_git (we_git env)) revision README_NAMES)) (\<lambda>found.
            answer_with (Ok (views, (case found of
              Ok (Some (name, TextFile content _)) \<Rightarrow> Some \<lparr>rd_name = name, rd_html = we_markdown env content\<rparr>
            | _ \<Rightarrow> None))))))"

definition latest_commit :: "'g web_env \<Rightarrow> repo_id \<Rightarrow> string \<Rightarrow> (commit_view option, 'g) handler" where
  "latest_commit env rid revision =
     chain (in_cache rid (history (gv_git (we_git env)) revision 1 0)) (\<lambda>r.
     answer_with (Ok (case r of Ok (c # _) \<Rightarrow> Some (commit_view_of env c) | _ \<Rightarrow> None)))"

definition render_tree ::
    "'g web_env \<Rightarrow> req_headers \<Rightarrow> string \<Rightarrow> string \<Rightarrow> string option \<Rightarrow> string \<Rightarrow> (web_page, 'g) handler" where
  "render_tree env hs owner repo wanted path =
     chain (get_viewer env hs) (\<lambda>v.
     chain (open_repo env v owner repo) (\<lambda>(row, rid).
     let revision = (case wanted of Some r \<Rightarrow> r | None \<Rightarrow> rp_default_branch row) in
     chain (require (is_safe_revision revision \<and> is_safe_path path) PageNotFound) (\<lambda>_.
     chain (in_cache rid (is_empty_repo (gv_git (we_git env)))) (\<lambda>r. case r of
       Err _ \<Rightarrow> answer_with (Err (WebInternal ''cache''))
     | Ok blank \<Rightarrow>
         chain (if blank then answer_with (Ok ([], None)) else tree_contents env rid owner repo revision path) (\<lambda>(entries, readme).
         chain (if blank then answer_with (Ok None) else latest_commit env rid revision) (\<lambda>latest.
         chain (get_counters env row) (\<lambda>c.
         answer_with (Ok (TreeP \<lparr>pg_viewer = v, pg_csrf = csrf_token env v, pg_tab = ''code'', pg_owner = rp_owner_name row,
           pg_repo = rp_name row, pg_description = rp_description row, pg_private = (rp_visibility row = ''private''),
           pg_default_branch = rp_default_branch row, pg_open_issues = open_issues c,
           tp_revision = revision, tp_path = path,
           tp_parent_url = ''/'' @ owner @ ''/'' @ repo @ ''/tree/'' @ revision @ ''/'' @
             (case rsplit_once (CHR ''/'') path of Some (head, _) \<Rightarrow> head | None \<Rightarrow> []),
           tp_clone_url = ''/'' @ rp_owner_name row @ ''/'' @ rp_name row @ ''.git'',
           tp_empty = blank, tp_entries = entries, tp_latest = latest, tp_readme = readme\<rparr>)))))))))"

definition tree_page_for :: "'g web_env \<Rightarrow> req_headers \<Rightarrow> string \<Rightarrow> string \<Rightarrow> string \<Rightarrow> (web_page, 'g) handler" where
  "tree_page_for env hs owner repo rest =
     (case split_revision rest of (revision, path) \<Rightarrow> render_tree env hs owner repo revision path)"

definition root_page_for :: "'g web_env \<Rightarrow> req_headers \<Rightarrow> string \<Rightarrow> string \<Rightarrow> (web_page, 'g) handler" where
  "root_page_for env hs owner repo = render_tree env hs owner repo None []"

text \<open>The file that \<open>blob\<close> and \<open>raw\<close> read, with the revision and the path it was found at.\<close>

definition opened_file ::
    "'g web_env \<Rightarrow> viewer option \<Rightarrow> string \<Rightarrow> string \<Rightarrow> string \<Rightarrow> (repo_row \<times> string \<times> string \<times> file_blob, 'g) handler" where
  "opened_file env v owner repo rest =
     chain (open_repo env v owner repo) (\<lambda>(row, rid).
     let (wanted, path) = split_revision rest;
         revision = (case wanted of Some r \<Rightarrow> r | None \<Rightarrow> rp_default_branch row) in
     chain (require (is_safe_revision revision \<and> is_safe_path path) PageNotFound) (\<lambda>_.
     chain (in_cache rid (read_blob (gv_git (we_git env)) revision path)) (\<lambda>r. case r of
       Ok (Some b) \<Rightarrow> answer_with (Ok (row, revision, path, b))
     | _ \<Rightarrow> answer_with (Err PageNotFound))))"

definition blob_page_for :: "'g web_env \<Rightarrow> req_headers \<Rightarrow> string \<Rightarrow> string \<Rightarrow> string \<Rightarrow> (web_page, 'g) handler" where
  "blob_page_for env hs owner repo rest =
     chain (get_viewer env hs) (\<lambda>v.
     chain (opened_file env v owner repo rest) (\<lambda>(row, revision, path, b).
     chain (get_counters env row) (\<lambda>c.
     answer_with (Ok (BlobP \<lparr>pg_viewer = v, pg_csrf = csrf_token env v, pg_tab = ''code'', pg_owner = rp_owner_name row,
       pg_repo = rp_name row, pg_description = rp_description row, pg_private = (rp_visibility row = ''private''),
       pg_default_branch = rp_default_branch row, pg_open_issues = open_issues c,
       bp_revision = revision, bp_path = path, bp_size = human (file_blob_size b),
       bp_binary = is_binary b,
       bp_highlighted = (case b of TextFile content _ \<Rightarrow> we_highlight env path content | BinaryFile _ \<Rightarrow> [])\<rparr>)))))"

definition raw_file :: "'g web_env \<Rightarrow> req_headers \<Rightarrow> string \<Rightarrow> string \<Rightarrow> string \<Rightarrow> (web_page, 'g) handler" where
  "raw_file env hs owner repo rest =
     chain (get_viewer env hs) (\<lambda>v.
     chain (opened_file env v owner repo rest) (\<lambda>(row, revision, path, b).
     answer_with (Ok (RawFile (case b of TextFile content _ \<Rightarrow> str_bytes content | BinaryFile _ \<Rightarrow> [])))))"

definition commits_page_for :: "'g web_env \<Rightarrow> req_headers \<Rightarrow> string \<Rightarrow> string \<Rightarrow> string \<Rightarrow> (web_page, 'g) handler" where
  "commits_page_for env hs owner repo revision =
     chain (get_viewer env hs) (\<lambda>v.
     chain (open_repo env v owner repo) (\<lambda>(row, rid).
     chain (require (is_safe_revision revision) PageNotFound) (\<lambda>_.
     chain (in_cache rid (history (gv_git (we_git env)) revision 50 0)) (\<lambda>r. case r of
       Err _ \<Rightarrow> answer_with (Err (WebInternal ''cache''))
     | Ok commits \<Rightarrow>
         chain (get_counters env row) (\<lambda>c.
         answer_with (Ok (CommitsP \<lparr>pg_viewer = v, pg_csrf = csrf_token env v, pg_tab = ''commits'', pg_owner = rp_owner_name row,
           pg_repo = rp_name row, pg_description = rp_description row, pg_private = (rp_visibility row = ''private''),
           pg_default_branch = rp_default_branch row, pg_open_issues = open_issues c,
           cp_revision = revision, cp_commits = map (commit_view_of env) commits\<rparr>)))))))"

definition commit_page_for :: "'g web_env \<Rightarrow> req_headers \<Rightarrow> string \<Rightarrow> string \<Rightarrow> string \<Rightarrow> (web_page, 'g) handler" where
  "commit_page_for env hs owner repo x =
     chain (get_viewer env hs) (\<lambda>v.
     chain (open_repo env v owner repo) (\<lambda>(row, rid).
     chain (require (is_safe_revision x) PageNotFound) (\<lambda>_.
     chain (in_cache rid (commit_at (gv_git (we_git env)) x)) (\<lambda>r. case r of
       Err _ \<Rightarrow> answer_with (Err (WebInternal ''cache''))
     | Ok None \<Rightarrow> answer_with (Err PageNotFound)
     | Ok (Some c) \<Rightarrow>
         chain (in_cache rid (commit_diff (gv_git (we_git env)) x)) (\<lambda>diff.
         chain (get_counters env row) (\<lambda>counts.
         answer_with (Ok (CommitP \<lparr>pg_viewer = v, pg_csrf = csrf_token env v, pg_tab = ''commits'', pg_owner = rp_owner_name row,
           pg_repo = rp_name row, pg_description = rp_description row, pg_private = (rp_visibility row = ''private''),
           pg_default_branch = rp_default_branch row, pg_open_issues = open_issues counts,
           cm_oid = to_hex (gc_oid c), cm_summary = gc_summary c, cm_body = gc_body c,
           cm_author = gc_author_name c, cm_initials = initials (we_alnum env) (we_lower env) (gc_author_name c),
           cm_when = relative_time (we_date env) (we_now env div MICROS) (gc_authored_at c),
           cm_diff = (case diff of Ok d \<Rightarrow> d | Err _ \<Rightarrow> [])\<rparr>))))))))"

section \<open>Issues\<close>

definition issues_page_for :: "'g web_env \<Rightarrow> req_headers \<Rightarrow> string \<Rightarrow> string \<Rightarrow> string option \<Rightarrow> (web_page, 'g) handler" where
  "issues_page_for env hs owner repo state =
     chain (get_viewer env hs) (\<lambda>v.
     chain (open_repo env v owner repo) (\<lambda>(row, rid).
     let showing_open = (state \<noteq> Some ''closed'') in
     chain (web_query env ''issues.list'' (issues_list (rp_repo_id row) showing_open None (page_size 50) (rm_issues (we_model env)))) (\<lambda>issues.
     chain (get_counters env row) (\<lambda>c.
     answer_with (Ok (IssuesP \<lparr>pg_viewer = v, pg_csrf = csrf_token env v, pg_tab = ''issues'', pg_owner = rp_owner_name row,
       pg_repo = rp_name row, pg_description = rp_description row, pg_private = (rp_visibility row = ''private''),
       pg_default_branch = rp_default_branch row, pg_open_issues = open_issues c,
       ip_closed_issues = closed_issues c, ip_showing_open = showing_open, ip_can_write = (v \<noteq> None),
       ip_issues = map (\<lambda>i. \<lparr>il_number = ir_number i, il_title = ir_title i, il_author = ir_author_name i,
         il_comments = ir_comment_count i\<rparr>) issues\<rparr>))))))"

definition new_issue_page_for :: "'g web_env \<Rightarrow> req_headers \<Rightarrow> string \<Rightarrow> string \<Rightarrow> (web_page, 'g) handler" where
  "new_issue_page_for env hs owner repo =
     chain (get_viewer env hs) (\<lambda>v.
     chain (require (v \<noteq> None) NeedsSignIn) (\<lambda>_.
     chain (open_repo env v owner repo) (\<lambda>(row, rid).
     chain (get_counters env row) (\<lambda>c.
     answer_with (Ok (NewIssueP \<lparr>pg_viewer = v, pg_csrf = csrf_token env v, pg_tab = ''issues'', pg_owner = rp_owner_name row,
       pg_repo = rp_name row, pg_description = rp_description row, pg_private = (rp_visibility row = ''private''),
       pg_default_branch = rp_default_branch row, pg_open_issues = open_issues c\<rparr>))))))"

text \<open>A stored identifier, read as a UUID.\<close>

definition stored_id :: "'g web_env \<Rightarrow> string \<Rightarrow> string \<Rightarrow> (string, 'g) handler" where
  "stored_id env what text_id =
     answer_with (ok_or (gv_uuid (we_git env) text_id) (WebInternal (''stored '' @ what @ '' id is not a uuid'')))"

definition parse_repo :: "'g web_env \<Rightarrow> string \<Rightarrow> (repo_id, 'g) handler" where
  "parse_repo env text_id = stored_id env ''repository'' text_id"

text \<open>What a command answers, as the answer of a form.\<close>

definition form_command ::
    "(service \<Rightarrow> ('a, bytes) answer) \<Rightarrow> ('a, 'g) handler" where
  "form_command f = chain (command f) (\<lambda>r. answer_with (case r of Ok x \<Rightarrow> Ok x | Err e \<Rightarrow> Err (RefusedCommand e)))"

definition create_issue_form ::
    "'g web_env \<Rightarrow> req_headers \<Rightarrow> string \<Rightarrow> string \<Rightarrow> string \<Rightarrow> string \<Rightarrow> string \<Rightarrow> (web_page, 'g) handler" where
  "create_issue_form env hs owner repo csrf title body =
     chain (form_viewer env hs csrf) (\<lambda>v.
     chain (open_repo env (Some v) owner repo) (\<lambda>(row, _).
     chain commands_running (\<lambda>_.
     chain (parse_repo env (rp_repo_id row)) (\<lambda>rid.
     chain (stored_id env ''user'' (vw_user_id v)) (\<lambda>author.
     chain (form_command (open_issue (we_codec env) (we_cmd env 0) rid author (vw_username v) title (Some body))) (\<lambda>(issue, _).
     chain (web_query env ''issues.by_id'' (tbl_get (rm_issues (we_later env)) issue)) (\<lambda>found.
     answer_with (Ok (RedirectTo (''/'' @ rp_owner_name row @ ''/'' @ rp_name row @ ''/issues/'' @
       show_int (case found of Some i \<Rightarrow> ir_number i | None \<Rightarrow> 1)))))))))))"

definition issue_page_for :: "'g web_env \<Rightarrow> req_headers \<Rightarrow> string \<Rightarrow> string \<Rightarrow> int \<Rightarrow> (web_page, 'g) handler" where
  "issue_page_for env hs owner repo number =
     chain (get_viewer env hs) (\<lambda>v.
     chain (open_repo env v owner repo) (\<lambda>(row, rid).
     chain (web_query env ''issues.by_number'' (issue_by_number (rp_repo_id row) number (rm_issues (we_model env)))) (\<lambda>found.
     case found of None \<Rightarrow> answer_with (Err PageNotFound) | Some i \<Rightarrow>
     chain (web_query env ''comments'' (comments_of (ir_issue_id i) (page_size 100) (rm_comments (we_model env)))) (\<lambda>comments.
     chain (get_counters env row) (\<lambda>c.
     answer_with (Ok (IssueP \<lparr>pg_viewer = v, pg_csrf = csrf_token env v, pg_tab = ''issues'', pg_owner = rp_owner_name row,
       pg_repo = rp_name row, pg_description = rp_description row, pg_private = (rp_visibility row = ''private''),
       pg_default_branch = rp_default_branch row, pg_open_issues = open_issues c,
       is_number = ir_number i, is_title = ir_title i, is_open_issue = issue_is_open i, is_author = ir_author_name i,
       is_author_initials = initials (we_alnum env) (we_lower env) (ir_author_name i),
       is_body = we_markdown env (case ir_body i of Some b \<Rightarrow> b | None \<Rightarrow> []),
       is_comments = map (\<lambda>m. \<lparr>cv_author = cr_author_name m,
         cv_initials = initials (we_alnum env) (we_lower env) (cr_author_name m), cv_body = we_markdown env (cr_body m)\<rparr>) comments,
       is_comment_count = ir_comment_count i, is_can_write = (v \<noteq> None)\<rparr>)))))))"

text \<open>The comment first, when there is one, then the change of state: two commands of one form.\<close>

definition comment_form ::
    "'g web_env \<Rightarrow> req_headers \<Rightarrow> string \<Rightarrow> string \<Rightarrow> int \<Rightarrow> string \<Rightarrow> string \<Rightarrow> string \<Rightarrow> (web_page, 'g) handler" where
  "comment_form env hs owner repo number csrf body action =
     chain (form_viewer env hs csrf) (\<lambda>v.
     chain (open_repo env (Some v) owner repo) (\<lambda>(row, _).
     chain (web_query env ''issues.by_number'' (issue_by_number (rp_repo_id row) number (rm_issues (we_model env)))) (\<lambda>found.
     case found of None \<Rightarrow> answer_with (Err PageNotFound) | Some i \<Rightarrow>
     chain commands_running (\<lambda>_.
     chain (parse_repo env (rp_repo_id row)) (\<lambda>rid.
     chain (stored_id env ''issue'' (ir_issue_id i)) (\<lambda>issue.
     chain (stored_id env ''user'' (vw_user_id v)) (\<lambda>author.
     chain (if trim body = [] then answer_with (Ok ())
       else chain (form_command (comment_on_issue (we_codec env) (we_cmd env 0) rid issue author (vw_username v) body)) (\<lambda>_.
         answer_with (Ok ()))) (\<lambda>_.
     chain (if action = ''close'' \<or> action = ''reopen''
       then chain (form_command (set_issue_state (we_codec env) (we_cmd env 1) rid issue author (action = ''reopen''))) (\<lambda>_.
         answer_with (Ok ()))
       else answer_with (Ok ())) (\<lambda>_.
     answer_with (Ok (RedirectTo (''/'' @ rp_owner_name row @ ''/'' @ rp_name row @ ''/issues/'' @ show_int number))))))))))))"

end
