(* ===== verification/Web_Pulls.thy ===== *)
theory Web_Pulls
  imports Web_Routes
begin

text \<open>
  Pull requests (\<open>routes/pulls.rs\<close>), profiles (\<open>routes/profile.rs\<close>), stylesheets
  (\<open>static_files.rs\<close>), and the table of routes with its handlers (\<open>lib.rs\<close>).
\<close>

section \<open>Pull requests\<close>

definition check_class :: "string \<Rightarrow> string" where
  "check_class status =
     (if status = ''success'' then ''success''
      else if status = ''failed'' \<or> status = ''timed_out'' then ''failed''
      else if status = ''infra_failed'' then ''infra''
      else if status = ''running'' then ''running''
      else if status = ''queued'' then ''queued'' else ''unknown'')"

definition check_glyph :: "string \<Rightarrow> string" where
  "check_glyph status =
     (if status = ''success'' then [CHR 0xE2, CHR 0x9C, CHR 0x93]
      else if status = ''failed'' \<or> status = ''timed_out'' then [CHR 0xE2, CHR 0x9C, CHR 0x95]
      else if status = ''infra_failed'' then ''!''
      else if status = ''running'' then [CHR 0xE2, CHR 0x97, CHR 0x90]
      else [CHR 0xE2, CHR 0x97, CHR 0x8B])"

definition pulls_page_for :: "'g web_env \<Rightarrow> req_headers \<Rightarrow> string \<Rightarrow> string \<Rightarrow> string option \<Rightarrow> (web_page, 'g) handler" where
  "pulls_page_for env hs owner repo state =
     chain (get_viewer env hs) (\<lambda>v.
     chain (open_repo env v owner repo) (\<lambda>(row, rid).
     let showing_open = (state \<noteq> Some ''closed''); listed = pulls_list (rp_repo_id row); t = rm_pulls (we_model env) in
     chain (web_query env ''pulls.list'' (listed showing_open (page_size 50) t)) (\<lambda>pulls.
     chain (web_query env ''pulls.list_open'' (listed True (page_size 100) t)) (\<lambda>open_ones.
     chain (web_query env ''pulls.list_closed'' (listed False (page_size 100) t)) (\<lambda>closed_ones.
     chain (get_counters env row) (\<lambda>c.
     answer_with (Ok (PullsP \<lparr>pg_viewer = v, pg_csrf = csrf_token env v, pg_tab = ''pulls'', pg_owner = rp_owner_name row,
       pg_repo = rp_name row, pg_description = rp_description row, pg_private = (rp_visibility row = ''private''),
       pg_default_branch = rp_default_branch row, pg_open_issues = open_issues c,
       pp_showing_open = showing_open, pp_open_count = int (length open_ones), pp_closed_count = int (length closed_ones),
       pp_pulls = map (\<lambda>p. \<lparr>ln_number = pl_number p, ln_title = pl_title p, ln_author = pl_author_name p,
         ln_source_branch = pl_source_branch p, ln_target_branch = pl_target_branch p, ln_merged = pull_is_merged p\<rparr>) pulls\<rparr>))))))))"

definition review_view_of :: "'g web_env \<Rightarrow> review_row \<Rightarrow> review_view" where
  "review_view_of env r = \<lparr>rw_reviewer = rv_reviewer_name r,
     rw_initials = initials (we_alnum env) (we_lower env) (rv_reviewer_name r),
     rw_verdict_label = (if rv_verdict r = ''approve'' then ''Approved''
       else if rv_verdict r = ''request_changes'' then ''Changes requested'' else ''Commented''),
     rw_verdict_class = rv_verdict r, rw_body = map_option (we_markdown env) (rv_body r)\<rparr>"

definition check_view_of :: "run_row \<Rightarrow> job_row list \<Rightarrow> check_view" where
  "check_view_of run jobs = \<lparr>ck_name = last (split_by (\<lambda>c. c = CHR ''/'') (rn_workflow run)),
     ck_status = rn_status run, ck_status_class = check_class (rn_status run), ck_glyph = check_glyph (rn_status run),
     ck_number = rn_number run,
     ck_jobs = map (\<lambda>j. \<lparr>cj_name = jb_name j, cj_status = jb_status j, cj_status_class = check_class (jb_status j),
       cj_glyph = check_glyph (jb_status j)\<rparr>) jobs\<rparr>"

fun checks_of :: "'g web_env \<Rightarrow> run_row list \<Rightarrow> (check_view list, 'g) handler" where
  "checks_of env [] = answer_with (Ok [])"
| "checks_of env (run # runs) =
     chain (web_query env ''ci.jobs_of'' (jobs_of (rn_run_id run) (rm_jobs (we_model env)))) (\<lambda>jobs.
     chain (checks_of env runs) (\<lambda>views. answer_with (Ok (check_view_of run jobs # views))))"

definition checks_passed :: "run_row list \<Rightarrow> bool" where
  "checks_passed runs \<longleftrightarrow> list_all (\<lambda>run. rn_status run = ''success'') runs"

definition pull_page_for :: "'g web_env \<Rightarrow> req_headers \<Rightarrow> string \<Rightarrow> string \<Rightarrow> int \<Rightarrow> (web_page, 'g) handler" where
  "pull_page_for env hs owner repo number =
     chain (get_viewer env hs) (\<lambda>v.
     chain (open_repo env v owner repo) (\<lambda>(row, rid).
     chain (web_query env ''pulls.by_number'' (pull_by_number (rp_repo_id row) number (rm_pulls (we_model env)))) (\<lambda>found.
     case found of None \<Rightarrow> answer_with (Err PageNotFound) | Some pr \<Rightarrow>
     chain (web_query env ''pulls.reviews'' (reviews_of (pl_pr_id pr) (rm_reviews (we_model env)))) (\<lambda>reviews.
     chain (in_cache rid (diff_between (gv_git (we_git env)) (pl_base_oid pr) (pl_head_oid pr))) (\<lambda>diff.
     chain (in_cache rid (commits_between (gv_git (we_git env)) (pl_base_oid pr) (pl_head_oid pr) 100)) (\<lambda>between.
     chain (get_counters env row) (\<lambda>c.
     chain (web_query env ''ci.runs_for_commit'' (runs_for_commit (pl_head_oid pr) (page_size 20) (rm_runs (we_model env)))) (\<lambda>runs.
     chain (checks_of env runs) (\<lambda>checks.
     let state_word = (if pull_is_merged pr then (''Merged'', ''merged'') else if pull_is_open pr then (''Open'', ''open'')
       else (''Closed'', ''closed'')) in
     answer_with (Ok (PullP \<lparr>pg_viewer = v, pg_csrf = csrf_token env v, pg_tab = ''pulls'', pg_owner = rp_owner_name row,
       pg_repo = rp_name row, pg_description = rp_description row, pg_private = (rp_visibility row = ''private''),
       pg_default_branch = rp_default_branch row, pg_open_issues = open_issues c,
       pd_number = pl_number pr, pd_title = pl_title pr, pd_state_label = fst state_word, pd_state_class = snd state_word,
       pd_open = pull_is_open pr, pd_merged = pull_is_merged pr, pd_mergeable = (mergeability pr = Clean),
       pd_conflicted = (mergeability pr = Conflict), pd_conflicts = conflicts pr, pd_author = pl_author_name pr,
       pd_author_initials = initials (we_alnum env) (we_lower env) (pl_author_name pr),
       pd_body = map_option (we_markdown env) (pl_body pr), pd_source_branch = pl_source_branch pr,
       pd_target_branch = pl_target_branch pr, pd_head_oid = pl_head_oid pr, pd_head_short = short_oid (pl_head_oid pr),
       pd_merge_commit = (case pl_merge_commit_oid pr of Some x \<Rightarrow> x | None \<Rightarrow> []), pd_merged_by = pl_merged_by_name pr,
       pd_commit_count = (case between of Ok cs \<Rightarrow> int (length cs) | Err _ \<Rightarrow> 0),
       pd_reviews = map (review_view_of env) reviews, pd_checks = checks, pd_checks_passed = checks_passed runs,
       pd_diff = (case diff of Ok d \<Rightarrow> d | Err _ \<Rightarrow> []), pd_can_write = (v \<noteq> None)\<rparr>)))))))))))"

definition review_form ::
    "'g web_env \<Rightarrow> req_headers \<Rightarrow> string \<Rightarrow> string \<Rightarrow> int \<Rightarrow> string \<Rightarrow> string \<Rightarrow> string \<Rightarrow> (web_page, 'g) handler" where
  "review_form env hs owner repo number csrf body verdict =
     chain (form_viewer env hs csrf) (\<lambda>v.
     chain (open_repo env (Some v) owner repo) (\<lambda>(row, _).
     chain (web_query env ''pulls.by_number'' (pull_by_number (rp_repo_id row) number (rm_pulls (we_model env)))) (\<lambda>found.
     case found of None \<Rightarrow> answer_with (Err PageNotFound) | Some pr \<Rightarrow>
     chain commands_running (\<lambda>_.
     chain (answer_with (ok_or (review_verdict_parse verdict) (RefusedForm ''unknown review verdict''))) (\<lambda>decided.
     chain (parse_repo env (rp_repo_id row)) (\<lambda>rid.
     chain (stored_id env ''pull'' (pl_pr_id pr)) (\<lambda>pid.
     chain (stored_id env ''user'' (vw_user_id v)) (\<lambda>reviewer.
     chain (form_command (review_pull (we_codec env) (we_cmd env 0) rid pid reviewer (vw_username v) decided (Some body))) (\<lambda>_.
     answer_with (Ok (RedirectTo (''/'' @ rp_owner_name row @ ''/'' @ rp_name row @ ''/pulls/'' @ show_int number))))))))))))"

text \<open>Performing the merge in the cache of the repository, with the writer of git objects.\<close>

definition merging :: "'g web_env \<Rightarrow> repo_id \<Rightarrow> repo_id \<Rightarrow> pull_row \<Rightarrow> actor \<Rightarrow> (oid \<times> committed, 'g) handler" where
  "merging env cache_id rid pr who st = (case (wb_writer st, wb_commands st) of
     (Some w, Some svc) \<Rightarrow>
       map_option (\<lambda>(r, s', w', svc', l).
         ((case r of
             Ok m \<Rightarrow> Ok m
           | Err (MergeConflicts files) \<Rightarrow> Err (RefusedMerge (MergeConflicts files))
           | Err MergeStale \<Rightarrow> Err (RefusedMerge MergeStale)
           | Err _ \<Rightarrow> Err (WebInternal ''merge'')),
          st\<lparr>wb_writer := Some w', wb_commands := Some svc',
             wb_caches := (wb_caches st)(cache_id := (fst (wb_caches st cache_id), s'))\<rparr>, l))
       (perform_merge (we_merge env) (we_codec env) (we_cmd env 0) (gv_sha1 (we_git env)) (we_txns env) rid pr who
          (snd (wb_caches st cache_id)) w svc)
   | (None, _) \<Rightarrow> Some (Err (WebInternal ''no log writer is configured''), st, [])
   | (_, None) \<Rightarrow> Some (Err (WebInternal ''the command service is not running''), st, []))"

definition writer_configured :: "(unit, 'g) handler" where
  "writer_configured st = require (wb_writer st \<noteq> None) (WebInternal ''no log writer is configured'') st"

definition merge_form ::
    "'g web_env \<Rightarrow> req_headers \<Rightarrow> string \<Rightarrow> string \<Rightarrow> int \<Rightarrow> string \<Rightarrow> string \<Rightarrow> (web_page, 'g) handler" where
  "merge_form env hs owner repo number csrf expected_head =
     chain (form_viewer env hs csrf) (\<lambda>v.
     chain (open_repo env (Some v) owner repo) (\<lambda>(row, cache_id).
     chain (web_query env ''pulls.by_number'' (pull_by_number (rp_repo_id row) number (rm_pulls (we_model env)))) (\<lambda>found.
     case found of None \<Rightarrow> answer_with (Err PageNotFound) | Some pr \<Rightarrow>
     chain (require (pl_head_oid pr = expected_head)
       (RefusedForm ''the branch moved while you were reviewing; reload and check the changes'')) (\<lambda>_.
     chain commands_running (\<lambda>_.
     chain writer_configured (\<lambda>_.
     chain (parse_repo env (rp_repo_id row)) (\<lambda>rid.
     chain (stored_id env ''user'' (vw_user_id v)) (\<lambda>uid.
     chain (merging env cache_id rid pr \<lparr>ac_id = uid, ac_name = vw_username v,
       ac_email = vw_username v @ ''@users.noreply.crabforge''\<rparr>) (\<lambda>_.
     answer_with (Ok (RedirectTo (''/'' @ rp_owner_name row @ ''/'' @ rp_name row @ ''/pulls/'' @ show_int number))))))))))))"

section \<open>Profiles and stylesheets\<close>

definition profile_page_for :: "'g web_env \<Rightarrow> req_headers \<Rightarrow> string \<Rightarrow> (web_page, 'g) handler" where
  "profile_page_for env hs username =
     chain (get_viewer env hs) (\<lambda>v.
     chain (web_query env ''users.by_username_lower''
       (user_by_username_lower (to_ascii_lowercase username) (rm_users (we_model env)))) (\<lambda>found.
     case found of None \<Rightarrow> answer_with (Err PageNotFound) | Some u \<Rightarrow>
     chain (web_query env ''repos.for_owner''
       (repos_for_owner (ur_user_id u) None (page_size 50) (rm_repos (we_model env)))) (\<lambda>rows.
     answer_with (Ok (ProfileP \<lparr>pg_viewer = v, pg_csrf = csrf_token env v, pf_username = ur_username u,
       pf_initials = initials (we_alnum env) (we_lower env) (ur_username u),
       pf_repos = map (\<lambda>r. \<lparr>rl_name = rp_name r, rl_description = rp_description r\<rparr>) (filter (may_see v) rows)\<rparr>)))))"

text \<open>\<open>we_css\<close>: the embedded stylesheet and the generated theme.\<close>

definition serve_static :: "'g web_env \<Rightarrow> string \<Rightarrow> (web_page, 'g) handler" where
  "serve_static env name =
     (if name = ''app.css'' \<or> name = ''syntax-dark.css''
      then answer_with (Ok (Stylesheet (we_css env name)))
      else answer_with (Err PageNotFound))"

section \<open>Routes\<close>

datatype web_target =
    StaticT string
  | HomeT
  | LoginT
  | RegisterT
  | LogoutT
  | ProfileT string
  | RootT string string
  | TreeT string string string
  | BlobT string string string
  | RawT string string string
  | CommitsT string string string
  | CommitT string string string
  | IssuesT string string
  | NewIssueT string string
  | IssueT string string string
  | CommentsT string string string
  | PullsT string string
  | PullT string string string
  | ReviewsT string string string
  | MergeT string string string

fun joined :: "string list \<Rightarrow> string" where
  "joined [] = []"
| "joined [s] = s"
| "joined (s # t # ts) = s @ ''/'' @ joined (t # ts)"

text \<open>The segments of a path to its handler; a fixed segment goes before a parameter. A parameter
  is never empty, and neither is what a wildcard takes.\<close>

definition web_route :: "string list \<Rightarrow> web_target option" where
  "web_route path = (case path of
     [] \<Rightarrow> Some HomeT
   | [a] \<Rightarrow> if a = ''login'' then Some LoginT else if a = ''register'' then Some RegisterT
       else if a = ''logout'' then Some LogoutT else if a = [] then None else Some (ProfileT a)
   | [a, b] \<Rightarrow> if a = [] \<or> b = [] then None else if a = ''static'' then Some (StaticT b) else Some (RootT a b)
   | a # b # c # rest \<Rightarrow>
       (if a = [] \<or> b = [] then None
        else if c = ''tree'' \<and> joined rest \<noteq> [] then Some (TreeT a b (joined rest))
        else if c = ''blob'' \<and> joined rest \<noteq> [] then Some (BlobT a b (joined rest))
        else if c = ''raw'' \<and> joined rest \<noteq> [] then Some (RawT a b (joined rest))
        else (case rest of
          [] \<Rightarrow> if c = ''issues'' then Some (IssuesT a b) else if c = ''pulls'' then Some (PullsT a b) else None
        | [d] \<Rightarrow> if d = [] then None
            else if c = ''commits'' then Some (CommitsT a b d) else if c = ''commit'' then Some (CommitT a b d)
            else if c = ''issues'' then Some (if d = ''new'' then NewIssueT a b else IssueT a b d)
            else if c = ''pulls'' then Some (PullT a b d) else None
        | [d, e] \<Rightarrow> if d = [] then None
            else if c = ''issues'' \<and> e = ''comments'' then Some (CommentsT a b d)
            else if c = ''pulls'' \<and> e = ''reviews'' then Some (ReviewsT a b d)
            else if c = ''pulls'' \<and> e = ''merge'' then Some (MergeT a b d) else None
        | _ \<Rightarrow> None)))"

datatype web_form =
    Credentials string string string
  | Registration string string string string
  | SignOut string
  | NewIssueForm string string string
  | CommentForm string string string
  | ReviewForm string string string
  | MergeForm string string

text \<open>What \<open>GET\<close> and \<open>POST\<close> of a target do; \<open>None\<close> is answered before any handler, because the
  method, the form or the number in the path is not what the route takes.\<close>

definition web_get :: "'g web_env \<Rightarrow> req_headers \<Rightarrow> string option \<Rightarrow> web_target \<Rightarrow> (web_page, 'g) handler option" where
  "web_get env hs state target = (case target of
     StaticT name \<Rightarrow> Some (serve_static env name)
   | HomeT \<Rightarrow> Some (home env hs)
   | LoginT \<Rightarrow> Some (login_form env hs)
   | RegisterT \<Rightarrow> Some (register_form env hs)
   | ProfileT u \<Rightarrow> Some (profile_page_for env hs u)
   | RootT a b \<Rightarrow> Some (root_page_for env hs a b)
   | TreeT a b rest \<Rightarrow> Some (tree_page_for env hs a b rest)
   | BlobT a b rest \<Rightarrow> Some (blob_page_for env hs a b rest)
   | RawT a b rest \<Rightarrow> Some (raw_file env hs a b rest)
   | CommitsT a b d \<Rightarrow> Some (commits_page_for env hs a b d)
   | CommitT a b d \<Rightarrow> Some (commit_page_for env hs a b d)
   | IssuesT a b \<Rightarrow> Some (issues_page_for env hs a b state)
   | NewIssueT a b \<Rightarrow> Some (new_issue_page_for env hs a b)
   | IssueT a b d \<Rightarrow> map_option (issue_page_for env hs a b) (parse_i64 d)
   | PullsT a b \<Rightarrow> Some (pulls_page_for env hs a b state)
   | PullT a b d \<Rightarrow> map_option (pull_page_for env hs a b) (parse_i64 d)
   | _ \<Rightarrow> None)"

definition web_post :: "'g web_env \<Rightarrow> req_headers \<Rightarrow> web_target \<Rightarrow> web_form \<Rightarrow> (web_page, 'g) handler option" where
  "web_post env hs target form = (case (target, form) of
     (LoginT, Credentials csrf username password) \<Rightarrow> Some (login env hs csrf username password)
   | (RegisterT, Registration csrf username email password) \<Rightarrow> Some (register env hs csrf username email password)
   | (LogoutT, SignOut csrf) \<Rightarrow> Some (logout env hs csrf)
   | (IssuesT a b, NewIssueForm csrf title body) \<Rightarrow> Some (create_issue_form env hs a b csrf title body)
   | (CommentsT a b d, CommentForm csrf body action) \<Rightarrow>
       map_option (\<lambda>n. comment_form env hs a b n csrf body action) (parse_i64 d)
   | (ReviewsT a b d, ReviewForm csrf body verdict) \<Rightarrow>
       map_option (\<lambda>n. review_form env hs a b n csrf body verdict) (parse_i64 d)
   | (MergeT a b d, MergeForm csrf head) \<Rightarrow> map_option (\<lambda>n. merge_form env hs a b n csrf head) (parse_i64 d)
   | _ \<Rightarrow> None)"

end
