(* ===== verification/Web_Safety.thy ===== *)
theory Web_Safety
  imports Web_Pulls
begin

text \<open>
  What the web interface promises: pages only read; a form acts for a signed-in viewer, from the
  forge's own page, in a repository the viewer may see; a private repository cannot be told from
  a missing one; and the life of a session.
\<close>

section \<open>Requests\<close>

datatype web_request = GetPage "string option" web_target | PostForm web_target web_form

definition web_serve :: "'g web_env \<Rightarrow> req_headers \<Rightarrow> web_request \<Rightarrow> (web_page, 'g) handler option" where
  "web_serve env hs req = (case req of
     GetPage state target \<Rightarrow> web_get env hs state target | PostForm target form \<Rightarrow> web_post env hs target form)"

section \<open>Handlers that only read\<close>

text \<open>Hydrating and running git change nothing but the disposable caches.\<close>

definition kept :: "'g web_state \<Rightarrow> 'g web_state \<Rightarrow> bool" where
  "kept st st' \<longleftrightarrow> wb_sessions st' = wb_sessions st \<and> wb_commands st' = wb_commands st \<and> wb_writer st' = wb_writer st"

definition reading :: "('a, 'g) handler \<Rightarrow> bool" where
  "reading h \<longleftrightarrow> (\<forall>st r st' l. h st = Some (r, st', l) \<longrightarrow> l = [] \<and> kept st st')"

named_theorems reads

lemma reading_chain [reads]:
  assumes "reading m" "\<And>x. reading (f x)"
  shows "reading (chain m f)"
  unfolding reading_def
proof (intro allI impI)
  fix st r st' l assume run: "chain m f st = Some (r, st', l)"
  then obtain a st1 l1 where m: "m st = Some (a, st1, l1)" by (cases "m st") (auto simp: chain_def)
  with assms(1) have one: "l1 = []" "kept st st1" by (auto simp: reading_def)
  show "l = [] \<and> kept st st'"
  proof (cases a)
    case (Inl e)
    then show ?thesis using run m one by (auto simp: chain_def)
  next
    case (Inr x)
    then obtain l2 where "f x st1 = Some (r, st', l2)" "l = l1 @ l2" using run m by (auto simp: chain_def)
    with assms(2) [of x] one show ?thesis by (auto simp: reading_def kept_def)
  qed
qed

lemma reading_answer [reads]: "reading (answer_with r)"
  by (simp add: reading_def answer_with_def kept_def)

lemma reading_parts [reads]:
  "reading (require c e)" "reading (web_query env s x)" "reading (in_cache rid g)" "reading (hydrated_cache env rid b)"
  "reading (get_viewer env hs)" "reading commands_running" "reading writer_configured"
  by (auto simp: reading_def kept_def require_def answer_with_def web_query_def in_cache_def hydrated_cache_def get_viewer_def
      commands_running_def writer_configured_def split: prod.splits)

text \<open>The branches of a handler.\<close>

lemma reading_cases [reads]:
  "reading a \<Longrightarrow> (\<And>y. reading (b y)) \<Longrightarrow> reading (case x of None \<Rightarrow> a | Some y \<Rightarrow> b y)"
  "(\<And>e. reading (f e)) \<Longrightarrow> (\<And>y. reading (g y)) \<Longrightarrow> reading (case r of Err e \<Rightarrow> f e | Ok y \<Rightarrow> g y)"
  "(\<And>y z. reading (h y z)) \<Longrightarrow> reading (case p of (y, z) \<Rightarrow> h y z)"
  "reading i \<Longrightarrow> reading j \<Longrightarrow> reading (if c then i else j)"
  "(\<And>v. reading (k v)) \<Longrightarrow> reading (let v = t in k v)"
  by (auto split: option.splits sum.splits prod.splits)

lemma reading_ids [reads]: "reading (stored_id env what t)" "reading (parse_repo env t)" "reading (get_counters env row)"
  unfolding parse_repo_def stored_id_def get_counters_def by (intro reads)+

lemma reading_open [reads]: "reading (open_repo env v owner repo)" "reading (form_viewer env hs csrf)"
  unfolding open_repo_def form_viewer_def by (intro reads)+

lemma reading_checks [reads]: "reading (checks_of env runs)"
  by (induction runs) (simp_all only: checks_of.simps, (intro reads | assumption)+)

lemma reading_tree [reads]: "reading (tree_contents env rid owner repo revision path)" "reading (latest_commit env rid revision)"
  "reading (opened_file env v owner repo rest)" "reading (render_tree env hs owner repo wanted path)"
  unfolding tree_contents_def latest_commit_def opened_file_def render_tree_def by (intro reads)+

lemma reading_pages:
  "reading (tree_page_for env hs owner repo rest)" "reading (root_page_for env hs owner repo)"
  "reading (blob_page_for env hs owner repo rest)" "reading (raw_file env hs owner repo rest)"
  "reading (commits_page_for env hs owner repo rest)" "reading (commit_page_for env hs owner repo rest)"
  "reading (issues_page_for env hs owner repo state)" "reading (new_issue_page_for env hs owner repo)"
  "reading (issue_page_for env hs owner repo n)" "reading (pulls_page_for env hs owner repo state)"
  "reading (pull_page_for env hs owner repo n)" "reading (profile_page_for env hs owner)" "reading (serve_static env name)"
  unfolding tree_page_for_def root_page_for_def blob_page_for_def raw_file_def commits_page_for_def commit_page_for_def
    issues_page_for_def new_issue_page_for_def issue_page_for_def pulls_page_for_def pull_page_for_def profile_page_for_def
    serve_static_def
  by (intro reads)+

lemma reading_entries: "reading (home env hs)" "reading (login_form env hs)" "reading (register_form env hs)"
  by (auto simp: reading_def kept_def home_def login_form_def register_form_def answer_with_def)

lemma web_get_reads: "web_get env hs state target = Some h \<Longrightarrow> reading h"
  using reading_pages reading_entries by (auto simp: web_get_def split: web_target.splits)

section \<open>Forms\<close>

lemma form_viewer_guard:
  "chain (form_viewer env hs csrf) f st = (case viewer_from env hs st of
     None \<Rightarrow> Some (Err NeedsSignIn, st, [])
   | Some v \<Rightarrow> if is_genuine env (Some v) hs csrf then f v st else Some (Err BadCsrf, st, []))"
  by (simp add: form_viewer_def get_viewer_def chain_def answer_with_def require_def option.map_ident option.map_id id_def
      split: option.splits)

definition openable :: "'g web_env \<Rightarrow> viewer option \<Rightarrow> string \<Rightarrow> string \<Rightarrow> bool" where
  "openable env v owner repo \<longleftrightarrow> (case repo_row_named owner repo (rm_repos (we_model env)) of
     None \<Rightarrow> False | Some row \<Rightarrow> \<not> rp_deleted row \<and> may_see v row)"

definition closed_error :: "'g web_env \<Rightarrow> web_error" where
  "closed_error env = (case we_fault env ''repos.by_full_name'' of Some e \<Rightarrow> WebStore e | None \<Rightarrow> PageNotFound)"

lemma open_closed: "\<not> openable env v owner repo \<Longrightarrow> open_repo env v owner repo st = Some (Err (closed_error env), st, [])"
  by (auto simp: openable_def open_repo_def closed_error_def query_def answer_with_def split: option.splits)

lemma chain_closed:
  "\<not> openable env v owner repo \<Longrightarrow> chain (open_repo env v owner repo) f st = Some (Err (closed_error env), st, [])"
  by (simp add: chain_def [of "open_repo env v owner repo"] open_closed)

lemma chain_viewer: "chain (get_viewer env hs) f st = f (viewer_from env hs st) st"
  by (simp add: chain_def [of "get_viewer env hs"] get_viewer_def answer_with_def option.map_ident option.map_id id_def)

lemma chain_remove:
  "chain (remove_session env v) f st = (case v of
     None \<Rightarrow> f () st
   | Some u \<Rightarrow> (case we_fault env ''delete_session'' of
       Some e \<Rightarrow> Some (Err (WebStore e), st, [])
     | None \<Rightarrow> f () (st\<lparr>wb_sessions := delete_session (vw_session_hash u) (wb_sessions st)\<rparr>)))"
  by (simp add: chain_def remove_session_def query_def option.map_ident option.map_id id_def split: option.splits)

lemma chain_assoc: "chain (chain m f) g = chain m (\<lambda>x. chain (f x) g)"
  by (rule ext) (auto simp: chain_def map_option_case split: option.splits sum.splits prod.splits)

definition target_repo :: "web_target \<Rightarrow> (string \<times> string) option" where
  "target_repo target = (case target of
     RootT a b \<Rightarrow> Some (a, b) | TreeT a b _ \<Rightarrow> Some (a, b) | BlobT a b _ \<Rightarrow> Some (a, b) | RawT a b _ \<Rightarrow> Some (a, b)
   | CommitsT a b _ \<Rightarrow> Some (a, b) | CommitT a b _ \<Rightarrow> Some (a, b) | IssuesT a b \<Rightarrow> Some (a, b)
   | NewIssueT a b \<Rightarrow> Some (a, b) | IssueT a b _ \<Rightarrow> Some (a, b) | CommentsT a b _ \<Rightarrow> Some (a, b)
   | PullsT a b \<Rightarrow> Some (a, b) | PullT a b _ \<Rightarrow> Some (a, b) | ReviewsT a b _ \<Rightarrow> Some (a, b)
   | MergeT a b _ \<Rightarrow> Some (a, b) | _ \<Rightarrow> None)"

definition form_csrf :: "web_form \<Rightarrow> string" where
  "form_csrf form = (case form of
     Credentials csrf _ _ \<Rightarrow> csrf | Registration csrf _ _ _ \<Rightarrow> csrf | SignOut csrf \<Rightarrow> csrf | NewIssueForm csrf _ _ \<Rightarrow> csrf
   | CommentForm csrf _ _ \<Rightarrow> csrf | ReviewForm csrf _ _ \<Rightarrow> csrf | MergeForm csrf _ \<Rightarrow> csrf)"

text \<open>A viewer is the holder of a session that has not expired.\<close>

lemma viewer_fromD:
  assumes "viewer_from env hs st = Some v"
  obtains cookie s u where "read_cookie (rh_cookies hs) SESSION_COOKIE = Some cookie"
    "vw_session_hash v = digest (we_sha env) cookie" "tbl_get (wb_sessions st) (vw_session_hash v) = Some s"
    "we_now env < ss_expires_at s" "tbl_get (rm_users (we_model env)) (ss_user_id s) = Some u" "vw_user_id v = ur_user_id u"
  using assms
  by (auto simp: viewer_from_def query_def session_at_def Let_def split: option.splits sum.splits if_splits)

lemma is_genuine_iff:
  "is_genuine env v hs presented \<longleftrightarrow> rh_fetch_site hs \<noteq> Some ''cross-site'' \<and> presented = csrf_token env v"
  by (simp add: is_genuine_def is_cross_site_def csrf_verify_exact csrf_token_def)

lemma guarded_form:
  assumes "chain (form_viewer env hs csrf) (\<lambda>v. chain (open_repo env (Some v) owner repo) (k v)) st = Some (r, st', l)"
    and "st' \<noteq> st \<or> l \<noteq> []"
  shows "\<exists>v. viewer_from env hs st = Some v \<and> is_genuine env (Some v) hs csrf \<and> openable env (Some v) owner repo"
proof -
  obtain v where v: "viewer_from env hs st = Some v" "is_genuine env (Some v) hs csrf"
    "chain (open_repo env (Some v) owner repo) (k v) st = Some (r, st', l)"
    using assms unfolding form_viewer_guard by (auto split: option.splits if_splits)
  then have "openable env (Some v) owner repo" using assms(2) chain_closed [of env "Some v" owner repo "k v" st] by auto
  with v show ?thesis by blast
qed

lemma form_shapes:
  "\<exists>k. create_issue_form env hs a b csrf t1 t2 = chain (form_viewer env hs csrf) (\<lambda>v. chain (open_repo env (Some v) a b) (k v))"
  "\<exists>k. comment_form env hs a b n csrf t1 t2 = chain (form_viewer env hs csrf) (\<lambda>v. chain (open_repo env (Some v) a b) (k v))"
  "\<exists>k. review_form env hs a b n csrf t1 t2 = chain (form_viewer env hs csrf) (\<lambda>v. chain (open_repo env (Some v) a b) (k v))"
  "\<exists>k. merge_form env hs a b n csrf t1 = chain (form_viewer env hs csrf) (\<lambda>v. chain (open_repo env (Some v) a b) (k v))"
  unfolding create_issue_form_def comment_form_def review_form_def merge_form_def
  by (rule exI, rule refl)+

lemma repo_form_cases:
  assumes "web_post env hs target form = Some h" "target \<noteq> LoginT" "target \<noteq> RegisterT" "target \<noteq> LogoutT"
  obtains owner repo k where "target_repo target = Some (owner, repo)"
    "h = chain (form_viewer env hs (form_csrf form)) (\<lambda>v. chain (open_repo env (Some v) owner repo) (k v))"
proof -
  have "\<exists>owner repo k. target_repo target = Some (owner, repo) \<and>
    h = chain (form_viewer env hs (form_csrf form)) (\<lambda>v. chain (open_repo env (Some v) owner repo) (k v))"
    using assms by (auto simp: web_post_def target_repo_def form_csrf_def form_shapes split: web_target.splits web_form.splits)
  with that show ?thesis by blast
qed

text \<open>Property C10: forms act for the person who sent them. Whatever form is posted (signing in and
  up apart): if anything changes, in the log, the sessions, the services or a cache, then the request
  carried the cookie of a session that has not expired, did not come from another site, presented
  the form token of that very session, and, unless it was a sign-out, which names none, named a
  repository that the account of the session may see.\<close>

theorem forms_are_guarded:
  assumes "web_serve env hs (PostForm target form) = Some h" "target \<noteq> LoginT" "target \<noteq> RegisterT"
    and "h st = Some (r, st', l)" "st' \<noteq> st \<or> l \<noteq> []"
  shows "\<exists>v s. viewer_from env hs st = Some v \<and> tbl_get (wb_sessions st) (vw_session_hash v) = Some s \<and>
    we_now env < ss_expires_at s \<and> rh_fetch_site hs \<noteq> Some ''cross-site'' \<and> form_csrf form = csrf_token env (Some v) \<and>
    (target = LogoutT \<or> (\<exists>owner repo. target_repo target = Some (owner, repo) \<and> openable env (Some v) owner repo))"
proof -
  have post: "web_post env hs target form = Some h" using assms(1) by (simp add: web_serve_def)
  have "\<exists>v. viewer_from env hs st = Some v \<and> is_genuine env (Some v) hs (form_csrf form) \<and>
    (target = LogoutT \<or> (\<exists>owner repo. target_repo target = Some (owner, repo) \<and> openable env (Some v) owner repo))"
  proof (cases "target = LogoutT")
    case True
    then obtain csrf where form: "form = SignOut csrf" "h = logout env hs csrf"
      using post by (auto simp: web_post_def split: web_form.splits)
    with assms(4,5) show ?thesis
      by (auto simp: True logout_def Let_def chain_remove answer_with_def form_csrf_def split: option.splits if_splits)
  next
    case False
    from repo_form_cases [OF post assms(2,3) False] obtain owner repo k where "target_repo target = Some (owner, repo)"
      "h = chain (form_viewer env hs (form_csrf form)) (\<lambda>v. chain (open_repo env (Some v) owner repo) (k v))" .
    with guarded_form [of env hs "form_csrf form" owner repo k st r st' l] assms(4,5) show ?thesis by auto
  qed
  then obtain v where v: "viewer_from env hs st = Some v" "is_genuine env (Some v) hs (form_csrf form)"
    "target = LogoutT \<or> (\<exists>owner repo. target_repo target = Some (owner, repo) \<and> openable env (Some v) owner repo)" by blast
  from v(1) obtain s where "tbl_get (wb_sessions st) (vw_session_hash v) = Some s" "we_now env < ss_expires_at s"
    by (rule viewer_fromD)
  with v show ?thesis unfolding is_genuine_iff by blast
qed

section \<open>Private repositories\<close>

definition without :: "'g web_env \<Rightarrow> repo_id \<Rightarrow> 'g web_env" where
  "without env k = env\<lparr>we_model := (we_model env)\<lparr>rm_repos := tbl_del k (rm_repos (we_model env))\<rparr>\<rparr>"

lemma without_fields:
  "query (without env k) = query env" "we_fault (without env k) = we_fault env" "we_sha (without env k) = we_sha env"
  "we_secret (without env k) = we_secret env" "we_now (without env k) = we_now env"
  "rm_users (we_model (without env k)) = rm_users (we_model env)"
  by (simp_all add: without_def query_def fun_eq_iff)

lemma without_same [simp]:
  "viewer_from (without env k) hs st = viewer_from env hs st" "is_genuine (without env k) v hs csrf = is_genuine env v hs csrf"
  "closed_error (without env k) = closed_error env"
  unfolding viewer_from_def is_genuine_def closed_error_def without_fields by (rule refl)+

text \<open>What every request to a repository that cannot be opened is answered.\<close>

definition closed_answer :: "'g web_env \<Rightarrow> req_headers \<Rightarrow> web_request \<Rightarrow> 'g web_state \<Rightarrow> web_error" where
  "closed_answer env hs req st = (case req of
     GetPage _ target \<Rightarrow> (if viewer_from env hs st = None \<and> (\<exists>a b. target = NewIssueT a b) then NeedsSignIn else closed_error env)
   | PostForm _ form \<Rightarrow> (case viewer_from env hs st of None \<Rightarrow> NeedsSignIn
       | Some v \<Rightarrow> if is_genuine env (Some v) hs (form_csrf form) then closed_error env else BadCsrf))"

lemma closed_answer_without: "closed_answer (without env k) hs req st = closed_answer env hs req st"
  unfolding closed_answer_def without_same by (rule refl)

lemma closed_requests:
  assumes "web_serve env hs req = Some h" "target_repo (case req of GetPage _ t \<Rightarrow> t | PostForm t _ \<Rightarrow> t) = Some (owner, repo)"
    and closed: "\<not> openable env (viewer_from env hs st) owner repo"
  shows "h st = Some (Err (closed_answer env hs req st), st, [])"
proof (cases req)
  case (GetPage state target)
  then show ?thesis using assms(1,2) closed
    by (cases target) (auto simp: web_serve_def web_get_def target_repo_def closed_answer_def tree_page_for_def root_page_for_def
        render_tree_def blob_page_for_def raw_file_def opened_file_def commits_page_for_def commit_page_for_def
        issues_page_for_def new_issue_page_for_def issue_page_for_def pulls_page_for_def pull_page_for_def
        chain_assoc chain_viewer chain_closed split: prod.splits)
next
  case (PostForm target form)
  then have post: "web_post env hs target form = Some h" and t: "target_repo target = Some (owner, repo)"
    using assms(1,2) by (simp_all add: web_serve_def)
  from t have "target \<noteq> LoginT" "target \<noteq> RegisterT" "target \<noteq> LogoutT" by (auto simp: target_repo_def)
  from repo_form_cases [OF post this] obtain k where
    "h = chain (form_viewer env hs (form_csrf form)) (\<lambda>v. chain (open_repo env (Some v) owner repo) (k v))" using t by auto
  then show ?thesis using closed
    by (auto simp: PostForm closed_answer_def form_viewer_guard chain_closed split: option.splits)
qed

lemma row_named_without:
  assumes "rows_ok rp_repo_id rp_full_name_lower t" "repo_row_named owner repo t = Some row"
  shows "repo_row_named owner repo (tbl_del (rp_repo_id row) t) = None"
proof -
  let ?name = "to_ascii_lowercase (owner @ ''/'' @ repo)"
  have wf: "tbl_wf t" using assms(1) by simp
  obtain k where "(k, row) \<in> set t" "rp_full_name_lower row = ?name"
    using assms(2) by (fastforce simp: repo_row_named_def repo_by_full_name_def find_Some_iff dest: nth_mem)
  then have row: "tbl_get t k = Some row" "rp_full_name_lower row = ?name" using tbl_get_in [OF wf] by auto
  then have k: "k = rp_repo_id row" using rows_ok_pk [OF assms(1)] by metis
  have "rp_full_name_lower r \<noteq> ?name" if "(k', r) \<in> set (tbl_del (rp_repo_id row) t)" for k' r
  proof -
    have "tbl_get t k' = Some r" "k' \<noteq> rp_repo_id row"
      using that tbl_get_in [of "tbl_del (rp_repo_id row) t" k' r] wf by (auto split: if_splits)
    then show ?thesis using assms(1) row k unfolding rows_ok_iff by metis
  qed
  then show ?thesis by (auto simp: repo_row_named_def repo_by_full_name_def find_None_iff)
qed

text \<open>Property C11: a private repository cannot be told from one that does not exist. For every page
  and every form of a repository whose row the asker may not see, the answer is the one a forge
  without that row gives, an error, and nothing changes.\<close>

theorem private_is_missing:
  assumes "model_ok (we_model env)"
    and "repo_row_named owner repo (rm_repos (we_model env)) = Some row" "\<not> may_see (viewer_from env hs st) row"
    and "target_repo (case req of GetPage _ t \<Rightarrow> t | PostForm t _ \<Rightarrow> t) = Some (owner, repo)"
    and "web_serve env hs req = Some h" "web_serve (without env (rp_repo_id row)) hs req = Some h'"
  shows "h st = h' st \<and> (\<exists>e. h st = Some (Err e, st, []))"
proof -
  have "rows_ok rp_repo_id rp_full_name_lower (rm_repos (we_model env))" using assms(1) by (simp add: model_ok_def)
  from row_named_without [OF this assms(2)]
  have "\<not> openable (without env (rp_repo_id row)) (viewer_from (without env (rp_repo_id row)) hs st) owner repo"
    by (simp add: openable_def without_def)
  from closed_requests [OF assms(6,4) this]
  have "h' st = Some (Err (closed_answer env hs req st), st, [])" by (simp add: closed_answer_without)
  moreover have "\<not> openable env (viewer_from env hs st) owner repo" using assms(2,3) by (simp add: openable_def)
  from closed_requests [OF assms(5,4) this] have "h st = Some (Err (closed_answer env hs req st), st, [])" .
  ultimately show ?thesis by simp
qed

text \<open>The list on a profile hides them as well, as long as the owner's repositories fit on its one page:
  the page is cut before the filter, so a private repository can push a public one off it.\<close>

lemma profile_hides_private:
  assumes "\<not> may_see v row" "rows_ok rp_repo_id rp_full_name_lower t" "tbl_get t (rp_repo_id row) = Some row"
    and "length (rows_where (\<lambda>r. rp_owner_id r = owner \<and> \<not> rp_deleted r) t) \<le> n"
  shows "set (filter (may_see v) (repos_for_owner owner None n (tbl_del (rp_repo_id row) t))) =
    set (filter (may_see v) (repos_for_owner owner None n t))"
proof -
  let ?P = "\<lambda>r. rp_owner_id r = owner \<and> \<not> rp_deleted r" and ?k = "rp_repo_id row"
  have wf: "tbl_wf t" "tbl_wf (tbl_del ?k t)" using assms(2) by simp_all
  have rows: "set (rows_where Q t') = {r. Q r \<and> (\<exists>k. tbl_get t' k = Some r)}" if "tbl_wf t'" for Q :: "repo_row \<Rightarrow> bool" and t'
    using tbl_get_in [OF that] by (force simp: rows_where_def)
  have short: "length (rows_where ?P (tbl_del ?k t)) \<le> length (rows_where ?P t)"
    unfolding rows_where_def tbl_del_def by (induction t) auto
  have all: "set (take n (desc_by rp_repo_id xs)) = set xs" if "length xs \<le> n" for xs
    using that by (simp add: desc_by_def)
  have same: "may_see v r \<Longrightarrow> (\<exists>k. tbl_get (tbl_del ?k t) k = Some r) \<longleftrightarrow> (\<exists>k. tbl_get t k = Some r)" for r
    using assms(1,3) by auto (metis option.inject)
  have "set (repos_for_owner owner None n t') = set (rows_where ?P t')" if "length (rows_where ?P t') \<le> n" for t'
    unfolding repos_for_owner_def using all [OF that] by simp
  from this [OF assms(4)] this [of "tbl_del ?k t"] short assms(4) show ?thesis
    by (auto simp: rows [OF wf(1)] rows [OF wf(2)] simp del: tbl_get_del) (use same in blast)+
qed

lemma profile_page_leaks:
  "\<exists>row t. \<not> may_see None row \<and> tbl_get t (rp_repo_id row) = Some row \<and> rows_ok rp_repo_id rp_full_name_lower t \<and>
     filter (may_see None) (repos_for_owner ''u1'' None 1 t) = [] \<and>
     filter (may_see None) (repos_for_owner ''u1'' None 1 (tbl_del (rp_repo_id row) t)) \<noteq> []"
proof (intro exI conjI)
  let ?pub = "demo_row\<lparr>rp_repo_id := ''r0'', rp_full_name_lower := ''octo/x'', rp_visibility := ''public''\<rparr>"
  let ?t = "[(''r0'', ?pub), (''r1'', demo_row)]"
  show "\<not> may_see None demo_row" "tbl_get ?t (rp_repo_id demo_row) = Some demo_row"
    "rows_ok rp_repo_id rp_full_name_lower ?t" "filter (may_see None) (repos_for_owner ''u1'' None 1 ?t) = []"
    "filter (may_see None) (repos_for_owner ''u1'' None 1 (tbl_del (rp_repo_id demo_row) ?t)) \<noteq> []" by code_simp+
qed

text \<open>Nothing but seeing it is asked of who merges, closes or reviews: every signed-in viewer may act on
  a public repository.\<close>

lemma visible_is_enough: "openable env None owner repo \<Longrightarrow> openable env (Some v) owner repo"
  by (auto simp: openable_def may_see_def split: option.splits)

section \<open>The life of a session\<close>

lemma start_session_Ok:
  "start_session env user target st = Some (Ok page, st', l) \<longleftrightarrow>
     (\<exists>secret sessions. we_minted env = Ok secret \<and> we_fault env ''create_session'' = None \<and>
       create_session (digest (we_sha env) secret) user (we_now env + SESSION_LIFETIME * MICROS) (we_now env) (wb_sessions st)
         = Ok sessions \<and>
       page = CookieRedirect (session_cookie secret (nat SESSION_LIFETIME) (we_secure env)) (''/'' @ target) \<and>
       st' = st\<lparr>wb_sessions := sessions\<rparr> \<and> l = [])"
  by (auto simp: start_session_def chain_def [of "insert_session env s user" for s] insert_session_def answer_with_def
      query_def and_then_Ok_iff split: sum.splits option.splits)

lemma login_Ok:
  assumes "login env hs csrf username password st = Some (Ok (CookieRedirect cookie target), st', l)"
  obtains u where "user_by_username_lower (to_ascii_lowercase username) (rm_users (we_model env)) = Some u"
    "we_verify env password (ur_password_hash u)" "is_genuine env None hs csrf"
    "start_session env (ur_user_id u) (ur_username u) st = Some (Ok (CookieRedirect cookie target), st', l)"
  using assms
  by (auto simp: login_def query_def Let_def answer_with_def login_page_of_def split: option.splits if_splits sum.splits)

text \<open>With a database that answers, a viewer is who the sessions say is signed in, while the account
  is there.\<close>

lemma viewer_signed_in:
  assumes "\<forall>q. we_fault env q = None"
  shows "map_option vw_user_id (viewer_from env hs st) =
    Option.bind (read_cookie (rh_cookies hs) SESSION_COOKIE) (\<lambda>c.
    Option.bind (signed_in (we_now env) (wb_sessions st) (digest (we_sha env) c)) (\<lambda>uid.
    map_option ur_user_id (tbl_get (rm_users (we_model env)) uid)))"
  using assms
  by (auto simp: viewer_from_def query_def signed_in_def Let_def bind_eq_None_conv split: option.splits)

lemma logout_signs_out:
  assumes "\<forall>q. we_fault env q = None" "rh_fetch_site hs \<noteq> Some ''cross-site''" "tbl_wf (wb_sessions st)"
  shows "\<exists>page st2. logout env hs (csrf_token env (viewer_from env hs st)) st = Some (Ok page, st2, []) \<and>
    viewer_from env hs st2 = None"
proof (cases "viewer_from env hs st")
  case None
  then show ?thesis using assms(2)
    by (simp add: logout_def is_genuine_iff chain_remove answer_with_def)
next
  case (Some v)
  then obtain cookie where c: "read_cookie (rh_cookies hs) SESSION_COOKIE = Some cookie"
    "vw_session_hash v = digest (we_sha env) cookie" by (rule viewer_fromD)
  let ?st = "st\<lparr>wb_sessions := delete_session (vw_session_hash v) (wb_sessions st)\<rparr>"
  have "logout env hs (csrf_token env (Some v)) st =
      Some (Ok (CookieRedirect (clear_session_cookie (we_secure env)) ''/''), ?st, [])"
    using Some assms(1,2)
    by (simp add: logout_def is_genuine_iff chain_remove answer_with_def)
  moreover have "map_option vw_user_id (viewer_from env hs ?st) = None"
    using assms(3) c by (simp add: viewer_signed_in [OF assms(1)] signed_in_simps(2))
  ultimately show ?thesis using Some by auto
qed

text \<open>Property C12: the life of a session. A login that answers with a cookie has found the account of
  the name and verified the password; the cookie carries the minted secret. Later, on any request
  that presents this secret, with the account still there and the database answering, the viewer is
  that account for fourteen days and nobody after; and when it is presented to log out, with the
  token the viewer's own pages carry and not from another site, then in the state that leaves the
  same request has no viewer.\<close>

theorem session_lifecycle:
  assumes "tbl_wf (wb_sessions st)"
    and "login env hs csrf username password st = Some (Ok (CookieRedirect cookie target), st', l)"
  shows "\<exists>u secret. user_by_username_lower (to_ascii_lowercase username) (rm_users (we_model env)) = Some u \<and>
    we_verify env password (ur_password_hash u) \<and> we_minted env = Ok secret \<and> l = [] \<and>
    cookie = session_cookie secret (nat SESSION_LIFETIME) (we_secure env) \<and>
    (\<forall>env' :: 'g web_env. \<forall>hs'. we_sha env' = we_sha env \<and> (\<forall>q. we_fault env' q = None) \<and>
      map_option ur_user_id (tbl_get (rm_users (we_model env')) (ur_user_id u)) = Some (ur_user_id u) \<and>
      read_cookie (rh_cookies hs') SESSION_COOKIE = Some secret \<longrightarrow>
        map_option vw_user_id (viewer_from env' hs' st') =
          (if we_now env' < we_now env + SESSION_LIFETIME * MICROS then Some (ur_user_id u) else None) \<and>
        (rh_fetch_site hs' \<noteq> Some ''cross-site'' \<longrightarrow> (\<exists>page st2.
          logout env' hs' (csrf_token env' (viewer_from env' hs' st')) st' = Some (Ok page, st2, []) \<and>
          viewer_from env' hs' st2 = None)))"
proof -
  from login_Ok [OF assms(2)] obtain u where u:
    "user_by_username_lower (to_ascii_lowercase username) (rm_users (we_model env)) = Some u"
    "we_verify env password (ur_password_hash u)"
    "start_session env (ur_user_id u) (ur_username u) st = Some (Ok (CookieRedirect cookie target), st', l)" .
  from u(3) obtain secret sessions where s: "we_minted env = Ok secret"
    "create_session (digest (we_sha env) secret) (ur_user_id u) (we_now env + SESSION_LIFETIME * MICROS) (we_now env) (wb_sessions st)
      = Ok sessions"
    "cookie = session_cookie secret (nat SESSION_LIFETIME) (we_secure env)" "st' = st\<lparr>wb_sessions := sessions\<rparr>" "l = []"
    unfolding start_session_Ok by blast
  have wf: "tbl_wf (wb_sessions st')" using assms(1) s(2,4) by (auto simp: create_session_def split: if_splits)
  have later: "signed_in now (wb_sessions st') = (signed_in now (wb_sessions st))
      (digest (we_sha env) secret := if we_now env + SESSION_LIFETIME * MICROS > now then Some (ur_user_id u) else None)" for now
    using signed_in_simps(1) [OF assms(1) s(2)] s(4) by simp
  show ?thesis
    by (intro exI [of _ u] exI [of _ secret])
      (use u(1,2) s(1,3,5) in \<open>simp add: viewer_signed_in later logout_signs_out wf bind_eq_None_conv\<close>)
qed

section \<open>A small forge\<close>

text \<open>One account, its private repository, and a session of it.\<close>

definition demo_user :: user_row where
  "demo_user = \<lparr>ur_user_id = ''u1'', ur_username = ''Octo'', ur_username_lower = ''octo'', ur_email = ''o@x'',
     ur_password_hash = ''pw'', ur_display_name = None, ur_bio = None, ur_state = ''active'', ur_created_at = 0, ur_updated_at = 0\<rparr>"

definition demo_web :: "(string, oid) table web_env" where
  "demo_web = \<lparr>we_now = 0, we_sha = (\<lambda>b. b), we_secret = [7], we_secure = True, we_minted = Ok ''s2'',
     we_verify = (\<lambda>p h. p = h), we_hash = Ok, we_model = empty_model\<lparr>rm_users := [(''u1'', demo_user)], rm_repos := [(''r1'', demo_row)]\<rparr>,
     we_later = empty_model, we_fault = (\<lambda>_. None), we_applied = (\<lambda>_. None), we_git = demo_genv,
     we_merge = \<lparr>me_git = table_git, me_commit = (\<lambda>_ _. table_git), me_loose = (\<lambda>_ _. Ok None), me_uuid = Some\<rparr>,
     we_codec = hex_codec, we_cmd = (\<lambda>_. demo_env ''x''), we_txns = [], we_alnum = (\<lambda>_. True), we_lower = (\<lambda>s. s),
     we_date = (\<lambda>_. None), we_markdown = (\<lambda>s. s), we_highlight = (\<lambda>_ s. s), we_css = (\<lambda>_. [])\<rparr>"

definition demo_web_state :: "(string, oid) table web_state" where
  "demo_web_state = \<lparr>wb_sessions = [(digest (\<lambda>b. b) ''s1'', \<lparr>ss_user_id = ''u1'', ss_created_at = 0, ss_expires_at = 10\<rparr>)],
     wb_commands = Some demo_service, wb_writer = None, wb_caches = demo_caches\<rparr>"

definition demo_headers :: "string \<Rightarrow> req_headers" where
  "demo_headers secret = \<lparr>rh_cookies = [''crabforge_session='' @ secret], rh_fetch_site = Some ''same-origin''\<rparr>"

definition demo_viewer :: viewer where
  "demo_viewer = \<lparr>vw_user_id = ''u1'', vw_username = ''Octo'', vw_session_hash = digest (\<lambda>b. b) ''s1'',
     vw_scopes = scopes_new scope_all\<rparr>"

lemma demo_web_fields:
  "we_now demo_web = 0" "we_sha demo_web = (\<lambda>b. b)" "we_minted demo_web = Ok ''s2''" "we_verify demo_web = (\<lambda>p h. p = h)"
  "rm_users (we_model demo_web) = [(''u1'', demo_user)]" "rm_repos (we_model demo_web) = [(''r1'', demo_row)]"
  "we_fault demo_web = (\<lambda>_. None)"
  "wb_sessions demo_web_state = [(digest (\<lambda>b. b) ''s1'', \<lparr>ss_user_id = ''u1'', ss_created_at = 0, ss_expires_at = 10\<rparr>)]"
  by (simp_all add: demo_web_def demo_web_state_def)

lemma demo_words:
  "read_cookie [''crabforge_session=s1''] SESSION_COOKIE = Some ''s1'' \<and> read_cookie [''crabforge_session=s2''] SESSION_COOKIE = Some ''s2'' \<and>
   read_cookie [''crabforge_session=x''] SESSION_COOKIE = Some ''x'' \<and>
   digest (\<lambda>b. b) ''x'' \<noteq> digest (\<lambda>b. b) ''s1'' \<and> digest (\<lambda>b. b) ''s2'' \<noteq> digest (\<lambda>b. b) ''s1'' \<and>
   to_ascii_lowercase ''Octo/Hello'' = ''octo/hello'' \<and> to_ascii_lowercase ''OCTO'' = ''octo'' \<and>
   to_ascii_lowercase ''octo/hello'' = ''octo/hello''"
  by code_simp

lemmas demo_request_simps =
  demo_web_fields demo_words viewer_from_def query_def session_at_def Let_def tbl_get_def demo_headers_def

lemma demo_viewer_from: "viewer_from demo_web (demo_headers ''s1'') demo_web_state = Some demo_viewer"
  by (simp add: demo_request_simps demo_viewer_def demo_user_def)

lemma demo_open:
  "\<exists>st. open_repo demo_web (Some demo_viewer) ''Octo'' ''Hello'' demo_web_state = Some (Ok (demo_row, ''r1''), st, []) \<and>
     wb_commands st = Some demo_service"
proof -
  have row: "repo_row_named ''Octo'' ''Hello'' (rm_repos (we_model demo_web)) = Some demo_row"
    "may_see (Some demo_viewer) demo_row"
    by (simp_all add: repo_row_named_def demo_words demo_web_fields repo_by_full_name_def demo_row_def may_see_def demo_viewer_def)
  have env: "we_git demo_web = demo_genv" "we_fault demo_web = (\<lambda>_. None)" "wb_caches demo_web_state = demo_caches"
    "wb_commands demo_web_state = Some demo_service" by (simp_all add: demo_web_def demo_web_state_def)
  obtain h c where "cache_hydrate demo_genv ''r1'' ''main'' (demo_caches ''r1'') = Some (Ok h, c, [(''refs/heads/old'', demo_oid 4)])"
    using demo_hydrate by blast
  then show ?thesis
    by (simp add: open_repo_def row env query_def chain_def [of "hydrated_cache demo_web rid b" for rid b] hydrated_cache_def
        answer_with_def)
qed

lemma forms_are_guarded_witness:
  "\<exists>h r st' l v. web_serve demo_web (demo_headers ''s1'')
      (PostForm (IssuesT ''Octo'' ''Hello'') (NewIssueForm (csrf_token demo_web (Some demo_viewer)) ''bug'' [])) = Some h \<and>
    h demo_web_state = Some (r, st', l) \<and> l \<noteq> [] \<and> viewer_from demo_web (demo_headers ''s1'') demo_web_state = Some v \<and>
    openable demo_web (Some v) ''Octo'' ''Hello''"
proof -
  let ?form = "NewIssueForm (csrf_token demo_web (Some demo_viewer)) ''bug'' []" and ?hs = "demo_headers ''s1''"
  let ?h = "create_issue_form demo_web ?hs ''Octo'' ''Hello'' (csrf_token demo_web (Some demo_viewer)) ''bug'' []"
  have serve: "web_serve demo_web ?hs (PostForm (IssuesT ''Octo'' ''Hello'') ?form) = Some ?h"
    by (simp add: web_serve_def web_post_def)
  obtain st1 where st1: "open_repo demo_web (Some demo_viewer) ''Octo'' ''Hello'' demo_web_state = Some (Ok (demo_row, ''r1''), st1, [])"
    "wb_commands st1 = Some demo_service" using demo_open by blast
  obtain r svc l where cmd: "open_issue hex_codec (demo_env ''x'') ''r1'' ''u1'' ''Octo'' ''bug'' (Some []) demo_service = (r, svc, l)"
    by (metis prod_cases3)
  have "snd (snd (open_issue hex_codec (demo_env ''x'') ''r1'' ''u1'' ''Octo'' ''bug'' (Some []) demo_service)) \<noteq> []" by code_simp
  then have l: "l \<noteq> []" by (simp add: cmd)
  have genuine: "is_genuine demo_web (Some demo_viewer) ?hs (csrf_token demo_web (Some demo_viewer))"
    by (simp add: is_genuine_iff demo_headers_def)
  have env: "we_git demo_web = demo_genv" "we_fault demo_web = (\<lambda>_. None)" "we_codec demo_web = hex_codec"
    "we_cmd demo_web = (\<lambda>_. demo_env ''x'')" "vw_user_id demo_viewer = ''u1''" "vw_username demo_viewer = ''Octo''"
    by (simp_all add: demo_web_def demo_viewer_def)
  have "\<exists>r st' l. ?h demo_web_state = Some (r, st', l) \<and> l \<noteq> []"
    unfolding create_issue_form_def
    by (cases r) (auto simp: form_viewer_guard demo_viewer_from genuine chain_def [of "open_repo e v a b" for e v a b] st1 commands_running_def
        chain_def [of commands_running] require_def answer_with_def parse_repo_def stored_id_def env form_command_def
        chain_def [of "command c" for c] chain_def [of "chain (command c) f" for c f] command_def cmd l query_def)
  then obtain r st' l where run: "?h demo_web_state = Some (r, st', l)" "l \<noteq> []" by blast
  from forms_are_guarded [OF serve _ _ run(1)] run(2) obtain v where
    "viewer_from demo_web ?hs demo_web_state = Some v" "openable demo_web (Some v) ''Octo'' ''Hello''"
    by (auto simp: target_repo_def)
  with serve run show ?thesis by blast
qed

lemma private_is_missing_witness:
  "\<exists>h h' e. web_serve demo_web (demo_headers ''x'') (GetPage None (RootT ''octo'' ''hello'')) = Some h \<and>
    web_serve (without demo_web ''r1'') (demo_headers ''x'') (GetPage None (RootT ''octo'' ''hello'')) = Some h' \<and>
    h demo_web_state = h' demo_web_state \<and> h demo_web_state = Some (Err e, demo_web_state, [])"
proof -
  have ok: "model_ok (we_model demo_web)"
    by (simp add: model_ok_def demo_web_def rows_ok_def tbl_wf_def empty_model_def clash_def demo_user_def demo_row_def)
  have row: "repo_row_named ''octo'' ''hello'' (rm_repos (we_model demo_web)) = Some demo_row"
    "\<not> may_see (viewer_from demo_web (demo_headers ''x'') demo_web_state) demo_row"
    by (simp_all add: demo_request_simps repo_row_named_def repo_by_full_name_def demo_row_def may_see_def)
  let ?req = "GetPage None (RootT ''octo'' ''hello'')"
  have served: "web_serve env (demo_headers ''x'') ?req = Some (root_page_for env (demo_headers ''x'') ''octo'' ''hello'')"
    for env :: "(string, oid) table web_env" by (simp add: web_serve_def web_get_def)
  have "target_repo (case ?req of GetPage _ t \<Rightarrow> t | PostForm t _ \<Rightarrow> t) = Some (''octo'', ''hello'')"
    by (simp add: target_repo_def)
  from private_is_missing [OF ok row this served served, unfolded demo_fields] served show ?thesis by blast
qed

lemma session_lifecycle_witness:
  "\<exists>cookie target st' l. login demo_web (demo_headers ''x'') (csrf_token demo_web None) ''OCTO'' ''pw'' demo_web_state
      = Some (Ok (CookieRedirect cookie target), st', l) \<and>
    map_option vw_user_id (viewer_from demo_web (demo_headers ''s2'') st') = Some ''u1'' \<and>
    (\<exists>page st2. logout demo_web (demo_headers ''s2'') (csrf_token demo_web (viewer_from demo_web (demo_headers ''s2'') st')) st'
       = Some (Ok page, st2, []) \<and> viewer_from demo_web (demo_headers ''s2'') st2 = None)"
proof -
  have wf: "tbl_wf (wb_sessions demo_web_state)" by (simp add: tbl_wf_def demo_web_fields)
  have facts: "user_by_username_lower (to_ascii_lowercase ''OCTO'') (rm_users (we_model demo_web)) = Some demo_user"
    "we_minted demo_web = Ok ''s2''" "map_option ur_user_id (tbl_get (rm_users (we_model demo_web)) (ur_user_id demo_user)) = Some ''u1''"
    "ur_user_id demo_user = ''u1''" "read_cookie (rh_cookies (demo_headers ''s2'')) SESSION_COOKIE = Some ''s2''"
    "rh_fetch_site (demo_headers ''s2'') \<noteq> Some ''cross-site''" "we_now demo_web < we_now demo_web + SESSION_LIFETIME * MICROS"
    by (simp_all add: demo_request_simps user_by_username_lower_def demo_user_def SESSION_LIFETIME_def MICROS_def)
  have up: "we_fault demo_web q = None" for q by (simp add: demo_web_def)
  have "(case create_session (digest (we_sha demo_web) ''s2'') ''u1'' (we_now demo_web + SESSION_LIFETIME * MICROS) (we_now demo_web)
    (wb_sessions demo_web_state) of Ok _ \<Rightarrow> True | Err _ \<Rightarrow> False)" by (simp add: create_session_def demo_request_simps)
  then obtain sessions where made: "create_session (digest (we_sha demo_web) ''s2'') ''u1''
      (we_now demo_web + SESSION_LIFETIME * MICROS) (we_now demo_web) (wb_sessions demo_web_state) = Ok sessions"
    by (auto split: sum.splits)
  have verified: "we_verify demo_web ''pw'' (ur_password_hash demo_user)" by (simp add: demo_web_fields demo_user_def)
  have "login demo_web (demo_headers ''x'') (csrf_token demo_web None) ''OCTO'' ''pw'' demo_web_state =
      start_session demo_web ''u1'' (ur_username demo_user) demo_web_state"
    using facts(1,4) up verified by (simp add: login_def is_genuine_iff query_def demo_headers_def)
  then obtain cookie target st' l where run:
    "login demo_web (demo_headers ''x'') (csrf_token demo_web None) ''OCTO'' ''pw'' demo_web_state
       = Some (Ok (CookieRedirect cookie target), st', l)"
    using start_session_Ok [of demo_web "''u1''" "ur_username demo_user" demo_web_state] facts(2) up made by auto
  from session_lifecycle [OF wf run] facts up have
    "map_option vw_user_id (viewer_from demo_web (demo_headers ''s2'') st') = Some ''u1''"
    "\<exists>page st2. logout demo_web (demo_headers ''s2'') (csrf_token demo_web (viewer_from demo_web (demo_headers ''s2'') st')) st'
       = Some (Ok page, st2, []) \<and> viewer_from demo_web (demo_headers ''s2'') st2 = None" by auto
  with run show ?thesis by blast
qed

end
