(* ===== verification/Server_Api.thy ===== *)
theory Server_Api
  imports Web_Safety
begin

text \<open>
  The server around it all: the JSON interface (\<open>forge-server/src/api.rs\<close>, with the parts of
  \<open>state.rs\<close> it uses) and the table of every route of the process (\<open>lib.rs\<close>, \<open>health.rs\<close>,
  \<open>forge-githttp/src/lib.rs\<close>). Hashing a password, the database and the admin client are
  parameters; axum prefers a fixed segment to a parameter.
\<close>

section \<open>Requests, replies and errors\<close>

record register_request =
  rq_username :: string
  rq_email :: string
  rq_password :: string

record create_repo_request =
  rq_owner :: string
  rq_name :: string
  rq_description :: "string option"
  rq_private :: bool

record user_response =
  us_id :: user_id
  us_username :: string
  us_email :: string

record repo_response =
  rs_id :: repo_id
  rs_name :: string
  rs_full_name :: string
  rs_owner :: string
  rs_description :: "string option"
  rs_default_branch :: string
  rs_private :: bool

datatype api_message = ApiText string | ApiName invalid_name

record api_error =
  ae_status :: int
  ae_code :: string
  ae_message :: api_message

definition not_found :: "string \<Rightarrow> api_error" where
  "not_found what = \<lparr>ae_status = 404, ae_code = ''not_found'', ae_message = ApiText (''no such '' @ what)\<rparr>"

definition internal_error :: api_error where
  "internal_error = \<lparr>ae_status = 500, ae_code = ''internal'', ae_message = ApiText ''internal error''\<rparr>"

definition unavailable :: "string \<Rightarrow> api_error" where
  "unavailable message = \<lparr>ae_status = 503, ae_code = ''unavailable'', ae_message = ApiText message\<rparr>"

definition invalid_name_error :: "invalid_name \<Rightarrow> api_error" where
  "invalid_name_error e = \<lparr>ae_status = 422, ae_code = ''invalid_name'', ae_message = ApiName e\<rparr>"

definition api_error_from :: "command_error \<Rightarrow> api_error" where
  "api_error_from e = (case e of
     UsernameTaken \<Rightarrow> \<lparr>ae_status = 409, ae_code = ''username_taken'', ae_message = ApiText ''that username is already taken''\<rparr>
   | RepoExists \<Rightarrow> \<lparr>ae_status = 409, ae_code = ''repo_exists'', ae_message = ApiText ''that repository already exists''\<rparr>
   | InvalidName n \<Rightarrow> invalid_name_error n
   | UnknownUser \<Rightarrow> not_found ''user''
   | _ \<Rightarrow> internal_error)"

datatype 'b api_reply = Created string 'b | Accepted string | Success 'b

definition reply_status :: "('b api_reply, api_error) result \<Rightarrow> int" where
  "reply_status r = (case r of Ok (Created _ _) \<Rightarrow> 201 | Ok (Accepted _) \<Rightarrow> 202 | Ok (Success _) \<Rightarrow> 200 | Err e \<Rightarrow> ae_status e)"

section \<open>State\<close>

text \<open>\<open>ap_store\<close>: whether the process has a database. \<open>ap_later\<close> is the read model after the wait.\<close>

record api_env =
  ap_store :: bool
  ap_model :: read_model
  ap_later :: read_model
  ap_fault :: "string \<Rightarrow> sql_error option"
  ap_applied :: "string \<Rightarrow> int list option"
  ap_hash :: "string \<Rightarrow> (string, string) result"
  ap_uuid :: "string \<Rightarrow> string option"
  ap_cmd :: cmd_env

definition api_await :: "api_env \<Rightarrow> string \<Rightarrow> int option \<Rightarrow> bool" where
  "api_await env topic off = (case off of
     None \<Rightarrow> True
   | Some n \<Rightarrow> (case ap_applied env topic of None \<Rightarrow> False | Some shown \<Rightarrow> wait_for_offset shown n))"

definition the_commands :: "service option \<Rightarrow> (service, api_error) result" where
  "the_commands svc = ok_or svc (unavailable ''the command service is not running; writes are unavailable'')"

definition the_store :: "api_env \<Rightarrow> (unit, api_error) result" where
  "the_store env = (if ap_store env then Ok () else Err (unavailable ''the database is unavailable''))"

definition api_query :: "api_env \<Rightarrow> string \<Rightarrow> 'a \<Rightarrow> ('a, api_error) result" where
  "api_query env statement x = (case ap_fault env statement of None \<Rightarrow> Ok x | Some _ \<Rightarrow> Err internal_error)"

definition user_response_of :: "user_row \<Rightarrow> user_response" where
  "user_response_of u = \<lparr>us_id = ur_user_id u, us_username = ur_username u, us_email = ur_email u\<rparr>"

definition repo_response_of :: "repo_row \<Rightarrow> repo_response" where
  "repo_response_of r = \<lparr>rs_id = rp_repo_id r, rs_name = rp_name r, rs_full_name = rp_owner_name r @ ''/'' @ rp_name r,
     rs_owner = rp_owner_name r, rs_description = rp_description r, rs_default_branch = rp_default_branch r,
     rs_private = (rp_visibility r = ''private'')\<rparr>"

section \<open>Handlers\<close>

text \<open>What a write answers once its command has committed: 202 when the projection is behind, else the
  row read back.\<close>

definition read_back ::
    "api_env \<Rightarrow> string \<Rightarrow> committed \<Rightarrow> string \<Rightarrow> string \<Rightarrow> 'r option \<Rightarrow> ('r \<Rightarrow> 'b) \<Rightarrow> ('b api_reply, api_error) result" where
  "read_back env topic c location statement row answer =
     (if \<not> api_await env topic (offset_for c topic) then Ok (Accepted location)
      else and_then (the_store env) (\<lambda>_. and_then (api_query env statement row) (\<lambda>found.
        case found of None \<Rightarrow> Err internal_error | Some r \<Rightarrow> Ok (Created location (answer r)))))"

type_synonym ('b, 'j) api_answer = "('b api_reply, api_error) result \<times> service option \<times> 'j pending_record list"

definition api_register_user :: "'j codec \<Rightarrow> api_env \<Rightarrow> register_request \<Rightarrow> service option \<Rightarrow> (user_response, 'j) api_answer" where
  "api_register_user cd env req commands = (case the_commands commands of
     Err e \<Rightarrow> (Err e, commands, [])
   | Ok svc \<Rightarrow> (case ap_hash env (rq_password req) of
       Err _ \<Rightarrow> (Err internal_error, commands, [])
     | Ok password_hash \<Rightarrow> (case register_user cd (ap_cmd env) (rq_username req) (rq_email req) password_hash svc of
         (Err e, svc', l) \<Rightarrow> (Err (api_error_from e), Some svc', l)
       | (Ok (_, c), svc', l) \<Rightarrow>
           (read_back env EVENTS_USERS c (''/api/v1/users/'' @ rq_username req) ''users.by_username_lower''
              (user_by_username_lower (to_ascii_lowercase (rq_username req)) (rm_users (ap_later env))) user_response_of,
            Some svc', l))))"

definition api_get_user :: "api_env \<Rightarrow> string \<Rightarrow> (user_response api_reply, api_error) result" where
  "api_get_user env username = and_then (the_store env) (\<lambda>_.
     and_then (api_query env ''users.by_username_lower''
       (user_by_username_lower (to_ascii_lowercase username) (rm_users (ap_model env)))) (\<lambda>found.
     and_then (ok_or found (not_found ''user'')) (\<lambda>u. Ok (Success (user_response_of u)))))"

text \<open>What \<open>create_repo\<close> looks up before it writes: the owner's name and id.\<close>

definition repo_owner :: "api_env \<Rightarrow> string \<Rightarrow> (user_row \<times> username \<times> user_id, api_error) result" where
  "repo_owner env owner = and_then (api_query env ''users.by_username_lower''
       (user_by_username_lower (to_ascii_lowercase owner) (rm_users (ap_model env)))) (\<lambda>found.
     and_then (ok_or found (not_found ''user'')) (\<lambda>u.
     and_then (case username_parse (ur_username u) of Ok n \<Rightarrow> Ok n | Err e \<Rightarrow> Err (invalid_name_error e)) (\<lambda>n.
     and_then (ok_or (ap_uuid env (ur_user_id u)) internal_error) (\<lambda>uid. Ok (u, n, uid)))))"

definition api_create_repo :: "'j codec \<Rightarrow> api_env \<Rightarrow> create_repo_request \<Rightarrow> service option \<Rightarrow> (repo_response, 'j) api_answer" where
  "api_create_repo cd env req commands = (case the_commands commands of
     Err e \<Rightarrow> (Err e, commands, [])
   | Ok svc \<Rightarrow> (case and_then (the_store env) (\<lambda>_. repo_owner env (rq_owner req)) of
       Err e \<Rightarrow> (Err e, commands, [])
     | Ok (u, owner_name, owner_id) \<Rightarrow>
         (case create_repo cd (ap_cmd env) owner_id owner_name (rq_name req) (rq_description req)
             (if rq_private req then Private else Public) svc of
            (Err e, svc', l) \<Rightarrow> (Err (api_error_from e), Some svc', l)
          | (Ok (_, c), svc', l) \<Rightarrow>
              (let full_name = ur_username u @ ''/'' @ rq_name req in
               (read_back env EVENTS_REPOS c (''/api/v1/repos/'' @ full_name) ''repos.by_full_name''
                  (repo_by_full_name (to_ascii_lowercase full_name) (rm_repos (ap_later env))) repo_response_of,
                Some svc', l)))))"

definition api_get_repo :: "api_env \<Rightarrow> string \<Rightarrow> string \<Rightarrow> (repo_response api_reply, api_error) result" where
  "api_get_repo env owner name = and_then (the_store env) (\<lambda>_.
     and_then (api_query env ''repos.by_full_name''
       (repo_by_full_name (to_ascii_lowercase (owner @ ''/'' @ name)) (rm_repos (ap_model env)))) (\<lambda>found.
     case found of
       None \<Rightarrow> Err (not_found ''repository'')
     | Some r \<Rightarrow> if rp_deleted r then Err (not_found ''repository'') else Ok (Success (repo_response_of r))))"

definition api_list_user_repos :: "api_env \<Rightarrow> string \<Rightarrow> (repo_response list api_reply, api_error) result" where
  "api_list_user_repos env username = and_then (the_store env) (\<lambda>_.
     and_then (api_query env ''users.by_username_lower''
       (user_by_username_lower (to_ascii_lowercase username) (rm_users (ap_model env)))) (\<lambda>found.
     and_then (ok_or found (not_found ''user'')) (\<lambda>u.
     and_then (api_query env ''repos.for_owner''
       (repos_for_owner (ur_user_id u) None (page_size 30) (rm_repos (ap_model env)))) (\<lambda>rows.
     Ok (Success (map repo_response_of rows))))))"

section \<open>Routes\<close>

datatype app_target =
    Livez
  | Readyz
  | ApiUsers
  | ApiUser string
  | ApiUserRepos string
  | ApiRepos
  | ApiRepo string string
  | PreReceiveHook
  | InfoRefs string string
  | UploadPack string string
  | ReceivePack string string
  | WebT web_target

definition health_route :: "string list \<Rightarrow> app_target option" where
  "health_route path = (if path = [''healthz''] then Some Livez else if path = [''readyz''] then Some Readyz else None)"

definition api_route :: "string list \<Rightarrow> app_target option" where
  "api_route path = (case path of
     [a, b, c] \<Rightarrow> if [a, b, c] = [''api'', ''v1'', ''users''] then Some ApiUsers
       else if [a, b, c] = [''api'', ''v1'', ''repos''] then Some ApiRepos else None
   | [a, b, c, d] \<Rightarrow> if [a, b, c] = [''api'', ''v1'', ''users''] \<and> d \<noteq> [] then Some (ApiUser d) else None
   | [a, b, c, d, e] \<Rightarrow> if d = [] \<or> e = [] then None
       else if [a, b, c, e] = [''api'', ''v1'', ''users'', ''repos''] then Some (ApiUserRepos d)
       else if [a, b, c] = [''api'', ''v1'', ''repos''] then Some (ApiRepo d e) else None
   | _ \<Rightarrow> None)"

definition git_route :: "string list \<Rightarrow> app_target option" where
  "git_route path = (case path of
     [a, b, c] \<Rightarrow> if [a, b, c] = [''internal'', ''hooks'', ''pre-receive''] then Some PreReceiveHook
       else if a = [] \<or> b = [] then None
       else if c = ''git-upload-pack'' then Some (UploadPack a b)
       else if c = ''git-receive-pack'' then Some (ReceivePack a b) else None
   | [a, b, c, d] \<Rightarrow> if [c, d] = [''info'', ''refs''] \<and> a \<noteq> [] \<and> b \<noteq> [] then Some (InfoRefs a b) else None
   | _ \<Rightarrow> None)"

text \<open>A process with git hosting and the web interface.\<close>

definition app_route :: "string list \<Rightarrow> app_target option" where
  "app_route path = (case health_route path of Some t \<Rightarrow> Some t | None \<Rightarrow>
     (case api_route path of Some t \<Rightarrow> Some t | None \<Rightarrow>
       (case git_route path of Some t \<Rightarrow> Some t | None \<Rightarrow> map_option WebT (web_route path))))"

section \<open>What the routes promise\<close>

text \<open>The path of a page, as the templates link to it.\<close>

definition page_path :: "web_target \<Rightarrow> string list" where
  "page_path target = (case target of
     StaticT name \<Rightarrow> [''static'', name] | HomeT \<Rightarrow> [] | LoginT \<Rightarrow> [''login''] | RegisterT \<Rightarrow> [''register'']
   | LogoutT \<Rightarrow> [''logout''] | ProfileT u \<Rightarrow> [u] | RootT a b \<Rightarrow> [a, b]
   | TreeT a b rest \<Rightarrow> a # b # ''tree'' # split_by (\<lambda>c. c = CHR ''/'') rest
   | BlobT a b rest \<Rightarrow> a # b # ''blob'' # split_by (\<lambda>c. c = CHR ''/'') rest
   | RawT a b rest \<Rightarrow> a # b # ''raw'' # split_by (\<lambda>c. c = CHR ''/'') rest
   | CommitsT a b r \<Rightarrow> [a, b, ''commits'', r] | CommitT a b x \<Rightarrow> [a, b, ''commit'', x]
   | IssuesT a b \<Rightarrow> [a, b, ''issues''] | NewIssueT a b \<Rightarrow> [a, b, ''issues'', ''new''] | IssueT a b n \<Rightarrow> [a, b, ''issues'', n]
   | CommentsT a b n \<Rightarrow> [a, b, ''issues'', n, ''comments''] | PullsT a b \<Rightarrow> [a, b, ''pulls''] | PullT a b n \<Rightarrow> [a, b, ''pulls'', n]
   | ReviewsT a b n \<Rightarrow> [a, b, ''pulls'', n, ''reviews''] | MergeT a b n \<Rightarrow> [a, b, ''pulls'', n, ''merge''])"

definition target_owner :: "web_target \<Rightarrow> string option" where
  "target_owner target = (case target of ProfileT u \<Rightarrow> Some u | _ \<Rightarrow> map_option fst (target_repo target))"

text \<open>What the request fills in for the parameters of a page.\<close>

definition page_parts :: "web_target \<Rightarrow> string list" where
  "page_parts target = (case target of
     StaticT name \<Rightarrow> [name] | HomeT \<Rightarrow> [] | LoginT \<Rightarrow> [] | RegisterT \<Rightarrow> [] | LogoutT \<Rightarrow> []
   | ProfileT u \<Rightarrow> [u] | RootT a b \<Rightarrow> [a, b] | TreeT a b rest \<Rightarrow> [a, b, rest] | BlobT a b rest \<Rightarrow> [a, b, rest]
   | RawT a b rest \<Rightarrow> [a, b, rest] | CommitsT a b r \<Rightarrow> [a, b, r] | CommitT a b x \<Rightarrow> [a, b, x]
   | IssuesT a b \<Rightarrow> [a, b] | NewIssueT a b \<Rightarrow> [a, b] | IssueT a b n \<Rightarrow> [a, b, n] | CommentsT a b n \<Rightarrow> [a, b, n]
   | PullsT a b \<Rightarrow> [a, b] | PullT a b n \<Rightarrow> [a, b, n] | ReviewsT a b n \<Rightarrow> [a, b, n] | MergeT a b n \<Rightarrow> [a, b, n])"

lemma split_by_nonempty [simp]: "split_by P s \<noteq> []"
  by (induction s) (auto split: list.splits)

lemma joined_split: "joined (split_by (\<lambda>c. c = CHR ''/'') s) = s"
proof (induction s)
  case (Cons c s)
  show ?case
  proof (cases "split_by (\<lambda>c. c = CHR ''/'') s")
    case (Cons p ps)
    then show ?thesis using Cons.IH by (cases ps) auto
  qed simp
qed simp

lemma reserved_words:
  "list_all (\<lambda>w. to_ascii_lowercase w = w \<and> w \<in> set RESERVED)
     [''api'', ''healthz'', ''internal'', ''login'', ''logout'', ''register'', ''static'']"
  "valid_shape username_MAX_LEN ''readyz'' \<and> to_ascii_lowercase ''readyz'' \<notin> set RESERVED"
  "valid_shape username_MAX_LEN ''Octo'' \<and> to_ascii_lowercase ''Octo'' \<notin> set RESERVED"
  by code_simp+

lemma reserved_owner:
  assumes "username_parse owner = Ok u"
  shows "owner \<notin> {''api'', ''healthz'', ''internal'', ''login'', ''logout'', ''register'', ''static''}"
proof
  assume "owner \<in> {''api'', ''healthz'', ''internal'', ''login'', ''logout'', ''register'', ''static''}"
  then have "to_ascii_lowercase owner \<in> set RESERVED" using reserved_words(1) by auto
  then show False using assms by (simp add: username_parse_Ok_iff)
qed

text \<open>Property C14: no page hides behind another. For every page of the web interface whose owner is a
  name an account can have, the path that leads to it is routed to it and to nothing else of the
  process: not to health, not to the JSON interface, not to git, not to another page. A path that
  leaves one of the parameters empty leads nowhere at all. The one account that loses its page is
  called \<open>readyz\<close>.\<close>

theorem routes_reach_their_pages:
  assumes "case target_owner target of None \<Rightarrow> True | Some owner \<Rightarrow> \<exists>u. username_parse owner = Ok u"
    and "target \<noteq> ProfileT ''readyz''" "\<forall>a b. target \<noteq> IssueT a b ''new''"
  shows "app_route (page_path target) = (if [] \<in> set (page_parts target) then None else Some (WebT target))"
proof -
  have free: "owner \<notin> {''api'', ''healthz'', ''internal'', ''login'', ''logout'', ''register'', ''static''}" "owner \<noteq> []"
    if owner: "target_owner target = Some owner" for owner
  proof -
    obtain u where u: "username_parse owner = Ok u" using assms(1) owner by auto
    then show "owner \<notin> {''api'', ''healthz'', ''internal'', ''login'', ''logout'', ''register'', ''static''}"
      by (rule reserved_owner)
    show "owner \<noteq> []" using u by (auto simp: username_parse_Ok_iff valid_shape_def)
  qed
  have rest: "\<exists>d ds. split_by (\<lambda>c. c = CHR ''/'') s = d # ds \<and> joined (d # ds) = s" for s
    by (metis joined_split split_by_nonempty neq_Nil_conv)
  note routes = target_owner_def target_repo_def page_path_def page_parts_def app_route_def health_route_def api_route_def
    git_route_def web_route_def
  show ?thesis
  proof (cases target)
    case (TreeT a b s)
    then show ?thesis using free [of a] rest [of s] by (auto simp: routes split: list.splits)
  next
    case (BlobT a b s)
    then show ?thesis using free [of a] rest [of s] by (auto simp: routes split: list.splits)
  next
    case (RawT a b s)
    then show ?thesis using free [of a] rest [of s] by (auto simp: routes split: list.splits)
  qed (use free assms(2,3) in \<open>auto simp: routes\<close>)
qed

lemma readyz_is_hidden:
  "\<exists>u. username_parse ''readyz'' = Ok u \<and> app_route (page_path (ProfileT ''readyz'')) = Some Readyz"
  using reserved_words(2) by (simp add: username_parse_Ok_iff page_path_def app_route_def health_route_def)

lemma routes_witness:
  "app_route [''Octo'', ''login'', ''tree'', ''main'', ''src''] = Some (WebT (TreeT ''Octo'' ''login'' ''main/src''))"
proof -
  have path: "page_path (TreeT ''Octo'' ''login'' ''main/src'') = [''Octo'', ''login'', ''tree'', ''main'', ''src'']"
    by (simp add: page_path_def)
  have owner: "case target_owner (TreeT ''Octo'' ''login'' ''main/src'') of None \<Rightarrow> True | Some owner \<Rightarrow> \<exists>u. username_parse owner = Ok u"
    using reserved_words(3) by (simp add: target_owner_def target_repo_def username_parse_Ok_iff)
  show ?thesis using routes_reach_their_pages [OF owner] by (simp add: path page_parts_def)
qed

section \<open>What a write says\<close>

lemma read_back_cases:
  "read_back env topic c location statement row answer = Ok (Accepted location) \<or>
   (\<exists>r. row = Some r \<and> read_back env topic c location statement row answer = Ok (Created location (answer r))) \<or>
   (\<exists>e. read_back env topic c location statement row answer = Err e \<and> 500 \<le> ae_status e)"
  by (auto simp: read_back_def the_store_def api_query_def internal_error_def unavailable_def split: option.splits)

lemma refused_command:
  "register_user cd env name email h svc = (Err e, svc', l) \<Longrightarrow> svc' = svc \<and> l = [] \<or> ae_status (api_error_from e) = 500"
  "create_repo cd env owner owner_name text descr vis svc = (Err e, svc', l) \<Longrightarrow>
     svc' = svc \<and> l = [] \<or> ae_status (api_error_from e) = 500"
  by (auto simp: register_user_def create_repo_def commit_def Let_def api_error_from_def internal_error_def
      split: sum.splits prod.splits if_splits)

text \<open>What a registration has to leave behind: the event that says who registered under which name, and
  the claim of that name, in lower case, for the same account; the name was free and is taken.\<close>

definition account_written ::
    "'j codec \<Rightarrow> register_request \<Rightarrow> string \<Rightarrow> service option \<Rightarrow> service option \<Rightarrow> 'j pending_record list \<Rightarrow> bool" where
  "account_written cd req password_hash commands commands' l \<longleftrightarrow> (\<exists>e uid svc svc' key.
     key = ''user:'' @ to_ascii_lowercase (rq_username req) \<and> map pr_topic l = [EVENTS_USERS, META_CATALOG] \<and>
     map pr_key l = [uid, key] \<and> map pr_value l = [Some (enc_user cd e), Some (enc_claim cd (UserClaim uid))] \<and>
     payload e = UserRegistered uid (rq_username req) (to_ascii_lowercase (rq_username req)) (rq_email req) password_hash \<and>
     commands = Some svc \<and> commands' = Some svc' \<and>
     tbl_get (sv_catalog svc) key = None \<and> tbl_get (sv_catalog svc') key = Some (UserClaim uid))"

text \<open>And what a new repository of \<open>u\<close> leaves behind; the suffix \<open>.git\<close> is taken off its name.\<close>

definition repository_written ::
    "'j codec \<Rightarrow> create_repo_request \<Rightarrow> user_row \<Rightarrow> user_id \<Rightarrow> service option \<Rightarrow> service option \<Rightarrow> 'j pending_record list \<Rightarrow> bool" where
  "repository_written cd req u owner commands commands' l \<longleftrightarrow> (\<exists>e rid svc svc' name full key.
     (rq_name req = name \<or> rq_name req = name @ ''.git'') \<and>
     full = to_ascii_lowercase (ur_username u @ ''/'' @ name) \<and> key = ''repo:'' @ full \<and>
     map pr_topic l = [EVENTS_REPOS, META_CATALOG] \<and> map pr_key l = [rid, key] \<and>
     map pr_value l = [Some (enc_repo cd e), Some (enc_claim cd (RepoClaim rid))] \<and>
     payload e = RepoCreated rid owner (ur_username u) name full (rq_description req) ''main''
       (if rq_private req then Private else Public) \<and>
     commands = Some svc \<and> commands' = Some svc' \<and>
     tbl_get (sv_catalog svc) key = None \<and> tbl_get (sv_catalog svc') key = Some (RepoClaim rid))"

lemma registered_account:
  assumes "broker_truthful (txn env)" "codec_ok cd"
    and "register_user cd env (rq_username req) (rq_email req) h svc = (Ok x, svc', l)"
  shows "account_written cd req h (Some svc) (Some svc') l"
proof -
  obtain u where u: "username_parse (rq_username req) = Ok u" and free: "\<not> is_username_taken (sv_catalog svc) (user_lower u)"
    using assms(3) by (auto simp: register_user_def split: sum.splits if_splits)
  have names: "user_raw u = rq_username req" "user_lower u = to_ascii_lowercase (rq_username req)"
    using u by (auto simp: username_parse_Ok_iff)
  let ?key = "user_key (user_lower u)" and ?c = "UserClaim (fresh_id env)"
  let ?ev = "UserRegistered (fresh_id env) (user_raw u) (user_lower u) (rq_email req) h"
  let ?e = "event_env user_event_type user_event_aggregate_id env 0 ?ev (Some (fresh_id env))"
  let ?rs = "[Command_Service.user_record cd env 0 ?ev (Some (fresh_id env)), pending_state META_CATALOG ?key (enc_claim cd ?c)]"
  have "commit env ?rs (claim_it cd ?key ?c) (fresh_id env) svc = (Ok x, svc', l)"
    using assms(3) u free by (simp add: register_user_def Let_def)
  from commit_cases [OF assms(1) this] obtain w where out: "l = ?rs" "svc' = claim_it cd ?key ?c (svc\<lparr>sv_writer := w\<rparr>)"
    by (auto split: prod.splits)
  show ?thesis unfolding account_written_def out
    using free by (intro exI [of _ ?e] exI [of _ "fresh_id env"] exI [of _ svc] exI conjI)
      (auto simp: names user_key_def Command_Service.user_record_def pending_event_def pending_state_def event_env_def envelope_new_def
        user_event_topic_def user_event_aggregate_id_def claim_it_def catalog_apply_def codec_simps [OF assms(2)]
        is_username_taken_def is_claimed_def)
qed

lemma slash_small: "to_lower (CHR ''/'') = CHR ''/''"
  by (simp add: to_lower_def is_upper_def code_def)

lemma created_repository:
  assumes "broker_truthful (txn env)" "codec_ok cd" "username_parse (ur_username u) = Ok n"
    and "create_repo cd env owner n (rq_name req) (rq_description req) (if rq_private req then Private else Public) svc
      = (Ok x, svc', l)"
  shows "repository_written cd req u owner (Some svc) (Some svc') l"
proof -
  define vis where "vis = (if rq_private req then Private else Public)"
  note made = assms(4) [folded vis_def]
  obtain name where parsed: "repo_name_parse (rq_name req) = Ok name"
    and free: "\<not> is_repo_name_taken (sv_catalog svc) (full_name_lower n name)"
    using made by (auto simp: create_repo_def Let_def split: sum.splits if_splits)
  have names: "user_raw n = ur_username u"
    "full_name_lower n name = to_ascii_lowercase (ur_username u @ ''/'' @ repo_raw name)"
    using assms(3) parsed slash_small
    by (auto simp: username_parse_Ok_iff repo_name_parse_Ok_iff full_name_lower_def to_ascii_lowercase_def)
  have typed: "rq_name req = repo_raw name \<or> rq_name req = repo_raw name @ ''.git''"
    using parsed by (auto simp: repo_name_parse_Ok_iff)
  let ?key = "repo_key (full_name_lower n name)" and ?c = "RepoClaim (fresh_id env)"
  let ?e = "RepoCreated (fresh_id env) owner (user_raw n) (repo_raw name) (full_name_lower n name) (rq_description req) ''main'' vis"
  let ?rs = "[Command_Service.repo_record cd env 0 ?e (Some owner), pending_state META_CATALOG ?key (enc_claim cd ?c)]"
  have "commit env ?rs (claim_it cd ?key ?c) (fresh_id env) svc = (Ok x, svc', l)"
    using made parsed free by (simp add: create_repo_def Let_def split: sum.splits)
  from commit_cases [OF assms(1) this] obtain w where out: "l = ?rs" "svc' = claim_it cd ?key ?c (svc\<lparr>sv_writer := w\<rparr>)"
    by (auto split: prod.splits)
  show ?thesis unfolding repository_written_def out
    using free typed
    by (intro exI [of _ "event_env repo_event_type repo_event_aggregate_id env 0 ?e (Some owner)"] exI [of _ "fresh_id env"]
        exI [of _ svc] exI [of _ "claim_it cd ?key ?c (svc\<lparr>sv_writer := w\<rparr>)"] exI [of _ "repo_raw name"] exI conjI)
      (auto simp: names vis_def repo_key_def Command_Service.repo_record_def pending_event_def pending_state_def event_env_def envelope_new_def
        repo_event_topic_def repo_event_aggregate_id_def claim_it_def catalog_apply_def codec_simps [OF assms(2)]
        is_repo_name_taken_def is_claimed_def)
qed

text \<open>What the status of a write may be taken for: \<open>holds\<close> stands for all that the write is.\<close>

definition told_truth ::
    "('b api_reply, api_error) result \<Rightarrow> bool \<Rightarrow> service option \<Rightarrow> service option \<Rightarrow> 'j pending_record list \<Rightarrow> bool" where
  "told_truth r holds commands commands' l \<longleftrightarrow> (case r of
     Ok _ \<Rightarrow> holds
   | Err e \<Rightarrow> ae_status e < 500 \<longrightarrow> l = [] \<and> commands' = commands)"

lemma told_refusal:
  "svc' = svc \<and> l = [] \<or> ae_status e = 500 \<Longrightarrow> told_truth (Err e) holds (Some svc) (Some svc') l"
  by (auto simp: told_truth_def)

lemma told_early: "told_truth (Err e) holds commands commands []"
  by (simp add: told_truth_def)

lemma told_read_back:
  "holds \<Longrightarrow> told_truth (read_back env topic c location statement row answer) holds commands commands' l"
  using read_back_cases [of env topic c location statement row answer] by (auto simp: told_truth_def)

lemma user_found: "user_by_username_lower lower t = Some u \<Longrightarrow> (\<exists>k. (k, u) \<in> set t) \<and> ur_username_lower u = lower"
  by (auto simp: user_by_username_lower_def find_Some_iff) (metis nth_mem)

lemma repo_found: "repo_by_full_name lower t = Some r \<Longrightarrow> (\<exists>k. (k, r) \<in> set t) \<and> rp_full_name_lower r = lower"
  by (auto simp: repo_by_full_name_def find_Some_iff) (metis nth_mem)

text \<open>Property C13: the status of a write can be believed. If the broker tells the truth about commits,
  an answer of 201 or 202 means that the command is in the log: the event with the name, the address
  and the hash of the password (or, for a repository, its owner's id and name, its name, description
  and visibility), and with it the claim, under the lowered name, which was free before and is taken
  since. The owner of a new repository is the account the request names, as the database has it. A
  refusal with a status below 500 means that nothing was written and nothing changed; and the body
  of a 201 is a row the database holds under the very name that was asked for, the owner's name
  included.\<close>

theorem api_writes_truthful:
  assumes "broker_truthful (txn (ap_cmd env))" "codec_ok cd"
  shows "(api_register_user cd env reg commands = (r1, commands1, l1) \<longrightarrow>
      told_truth r1 (\<exists>h. ap_hash env (rq_password reg) = Ok h \<and> account_written cd reg h commands commands1 l1) commands commands1 l1 \<and>
      (\<forall>loc b. r1 = Ok (Created loc b) \<longrightarrow> (\<exists>k u. (k, u) \<in> set (rm_users (ap_later env)) \<and> b = user_response_of u \<and>
        ur_username_lower u = to_ascii_lowercase (rq_username reg)))) \<and>
    (api_create_repo cd env req commands = (r2, commands2, l2) \<longrightarrow>
      told_truth r2 (\<exists>k u owner. (k, u) \<in> set (rm_users (ap_model env)) \<and> ur_username_lower u = to_ascii_lowercase (rq_owner req) \<and>
        ap_uuid env (ur_user_id u) = Some owner \<and> repository_written cd req u owner commands commands2 l2 \<and>
        (\<forall>loc b. r2 = Ok (Created loc b) \<longrightarrow> (\<exists>k row. (k, row) \<in> set (rm_repos (ap_later env)) \<and> b = repo_response_of row \<and>
          rp_full_name_lower row = to_ascii_lowercase (ur_username u @ ''/'' @ rq_name req)))) commands commands2 l2)"
proof (intro conjI impI)
  assume run: "api_register_user cd env reg commands = (r1, commands1, l1)"
  show "told_truth r1 (\<exists>h. ap_hash env (rq_password reg) = Ok h \<and> account_written cd reg h commands commands1 l1) commands commands1 l1"
    using run told_refusal [OF refused_command(1)] registered_account [OF assms]
    by (auto simp: api_register_user_def the_commands_def ok_or_def told_early intro!: told_read_back
        split: option.splits sum.splits prod.splits)
  show "\<forall>loc b. r1 = Ok (Created loc b) \<longrightarrow> (\<exists>k u. (k, u) \<in> set (rm_users (ap_later env)) \<and> b = user_response_of u \<and>
      ur_username_lower u = to_ascii_lowercase (rq_username reg))"
  proof (intro allI impI)
    fix loc b assume "r1 = Ok (Created loc b)"
    with run obtain u where "b = user_response_of u"
      "user_by_username_lower (to_ascii_lowercase (rq_username reg)) (rm_users (ap_later env)) = Some u"
      by (auto simp: api_register_user_def read_back_def api_query_def and_then_Ok_iff
          split: option.splits sum.splits prod.splits if_splits)
    with user_found show "\<exists>k u. (k, u) \<in> set (rm_users (ap_later env)) \<and> b = user_response_of u \<and>
      ur_username_lower u = to_ascii_lowercase (rq_username reg)" by blast
  qed
next
  assume run: "api_create_repo cd env req commands = (r2, commands2, l2)"
  let ?written = "\<exists>k u owner. (k, u) \<in> set (rm_users (ap_model env)) \<and> ur_username_lower u = to_ascii_lowercase (rq_owner req) \<and>
        ap_uuid env (ur_user_id u) = Some owner \<and> repository_written cd req u owner commands commands2 l2 \<and>
        (\<forall>loc b. r2 = Ok (Created loc b) \<longrightarrow> (\<exists>k row. (k, row) \<in> set (rm_repos (ap_later env)) \<and> b = repo_response_of row \<and>
          rp_full_name_lower row = to_ascii_lowercase (ur_username u @ ''/'' @ rq_name req)))"
  show "told_truth r2 ?written commands commands2 l2"
  proof (cases "\<exists>svc u n owner. commands = Some svc \<and> and_then (the_store env) (\<lambda>_. repo_owner env (rq_owner req)) = Ok (u, n, owner)")
    case False
    then show ?thesis
      using run by (auto simp: api_create_repo_def the_commands_def ok_or_def told_early split: option.splits sum.splits)
  next
    case True
    then obtain svc u n owner where svc: "commands = Some svc"
      and found: "and_then (the_store env) (\<lambda>_. repo_owner env (rq_owner req)) = Ok (u, n, owner)" by blast
    have u: "\<exists>k. (k, u) \<in> set (rm_users (ap_model env))" "ur_username_lower u = to_ascii_lowercase (rq_owner req)"
      "ap_uuid env (ur_user_id u) = Some owner" "username_parse (ur_username u) = Ok n"
      using found by (auto simp: repo_owner_def and_then_Ok_iff api_query_def ok_or_def split: option.splits sum.splits
          dest!: user_found)
    obtain a svc' l where made: "create_repo cd (ap_cmd env) owner n (rq_name req) (rq_description req)
        (if rq_private req then Private else Public) svc = (a, svc', l)" by (metis prod_cases3)
    have start: "the_commands commands = Ok svc" by (simp add: svc the_commands_def ok_or_def)
    show ?thesis
    proof (cases a)
      case (Inl e)
      have "r2 = Err (api_error_from e)" "commands2 = Some svc'" "l2 = l"
        using run by (simp_all add: api_create_repo_def start found made Inl)
      then show ?thesis using told_refusal [OF refused_command(2) [OF made [unfolded Inl]]] by (simp only: svc)
    next
      case (Inr k)
      then have out: "commands2 = Some svc'" "l2 = l"
        "r2 = read_back env EVENTS_REPOS (snd k) (''/api/v1/repos/'' @ ur_username u @ ''/'' @ rq_name req) ''repos.by_full_name''
          (repo_by_full_name (to_ascii_lowercase (ur_username u @ ''/'' @ rq_name req)) (rm_repos (ap_later env))) repo_response_of"
        using run by (auto simp: api_create_repo_def start found made Let_def case_prod_beta)
      have "repository_written cd req u owner commands commands2 l2"
        using created_repository [OF assms u(4) made [unfolded Inr]] by (simp add: out svc)
      moreover have "\<exists>k row. (k, row) \<in> set (rm_repos (ap_later env)) \<and> b = repo_response_of row \<and>
          rp_full_name_lower row = to_ascii_lowercase (ur_username u @ ''/'' @ rq_name req)" if "r2 = Ok (Created loc b)" for loc b
        using that unfolding out(3)
        by (auto simp: read_back_def api_query_def and_then_Ok_iff split: option.splits if_splits dest!: repo_found)
      ultimately have ?written using u by blast
      then show ?thesis unfolding out(3) by (rule told_read_back)
    qed
  qed
qed

text \<open>An account creates a private repository; the read model afterwards has its row.\<close>

definition demo_api :: api_env where
  "demo_api = \<lparr>ap_store = True, ap_model = empty_model\<lparr>rm_users := [(''u1'', demo_user)]\<rparr>,
     ap_later = empty_model\<lparr>rm_users := [(''u1'', demo_user)], rm_repos := [(''r1'', demo_row)]\<rparr>, ap_fault = (\<lambda>_. None),
     ap_applied = (\<lambda>_. Some [-1, 0]), ap_hash = Ok, ap_uuid = Some, ap_cmd = demo_env ''r1''\<rparr>"

definition demo_create :: "string \<Rightarrow> create_repo_request" where
  "demo_create name = \<lparr>rq_owner = ''octo'', rq_name = name, rq_description = None, rq_private = True\<rparr>"

definition api_facts :: "api_env \<Rightarrow> bool" where
  "api_facts env \<longleftrightarrow>
     (case fst (api_create_repo wire_codec env (demo_create ''Hello'') (Some demo_service)) of
        Ok (Created _ b) \<Rightarrow> b = repo_response_of demo_row | _ \<Rightarrow> False) \<and>
     (case api_create_repo wire_codec env (demo_create ''Hello.git'') (Some demo_service) of
        (r, commands', l) \<Rightarrow> reply_status r = 500 \<and> map pr_topic l = [EVENTS_REPOS, META_CATALOG]) \<and>
     (case api_register_user wire_codec env \<lparr>rq_username = ''ann'', rq_email = [], rq_password = []\<rparr> (Some demo_service) of
        (r, commands', l) \<Rightarrow> length l = 2)"

lemma demo_api_facts: "api_facts demo_api"
  by code_simp

lemma api_writes_witness:
  "\<exists>loc commands' l. api_create_repo wire_codec demo_api (demo_create ''Hello'') (Some demo_service)
      = (Ok (Created loc (repo_response_of demo_row)), commands', l) \<and>
    (\<exists>owner. repository_written wire_codec (demo_create ''Hello'') demo_user owner (Some demo_service) commands' l)"
proof -
  let ?run = "api_create_repo wire_codec demo_api (demo_create ''Hello'') (Some demo_service)"
  obtain r commands' l where run: "?run = (r, commands', l)" by (metis prod_cases3)
  have "(case fst ?run of Ok (Created _ b) \<Rightarrow> b = repo_response_of demo_row | _ \<Rightarrow> False)"
    using demo_api_facts by (simp add: api_facts_def)
  then obtain loc where created: "r = Ok (Created loc (repo_response_of demo_row))"
    by (auto simp: run split: sum.splits api_reply.splits)
  have truth: "broker_truthful (txn (ap_cmd demo_api))" by (simp add: demo_api_def demo_env_def broker_truthful_def)
  have users: "rm_users (ap_model demo_api) = [(''u1'', demo_user)]" by (simp add: demo_api_def)
  from mp [OF conjunct2 [OF api_writes_truthful [OF truth wire_codec_ok]] run]
  have "\<exists>owner. repository_written wire_codec (demo_create ''Hello'') demo_user owner (Some demo_service) commands' l"
    by (auto simp: told_truth_def users created)
  then show ?thesis using run created by simp
qed

text \<open>A name that ends in \<open>.git\<close> is stored without it but looked for with it: the repository is
  created and the answer is an internal error.\<close>

lemma dot_git_is_500:
  "case api_create_repo wire_codec demo_api (demo_create ''Hello.git'') (Some demo_service) of
     (r, commands', l) \<Rightarrow> reply_status r = 500 \<and> map pr_topic l = [EVENTS_REPOS, META_CATALOG]"
  using demo_api_facts by (simp add: api_facts_def)

text \<open>The JSON interface asks nobody who they are: it shows a private repository to anyone, and it takes
  an empty password.\<close>

lemma api_shows_private:
  "case api_get_repo (demo_api\<lparr>ap_model := ap_later demo_api\<rparr>) ''octo'' ''hello'' of
     Ok (Success r) \<Rightarrow> rs_private r | _ \<Rightarrow> False"
  using demo_words
  by (simp add: api_get_repo_def and_then_def the_store_def api_query_def demo_api_def repo_by_full_name_def demo_row_def
      repo_response_of_def ok_or_def)

lemma api_takes_empty_password:
  "case api_register_user wire_codec demo_api \<lparr>rq_username = ''ann'', rq_email = [], rq_password = []\<rparr> (Some demo_service) of
     (r, commands', l) \<Rightarrow> length l = 2"
  using demo_api_facts by (simp add: api_facts_def)

end
