(* ===== verification/Projector_Restart.thy ===== *)
theory Projector_Restart
  imports Projector_Runs
begin

text \<open>
  Starting the server (\<open>forge-server/src/main.rs\<close>): every projector is opened at its durable cursor
  and drained before the process listens; a failure ends the process, and whatever supervises it
  starts it again. However often that fails, the first start without a fault catches up.
\<close>

section \<open>Starting\<close>

definition PROJECTED_TOPICS :: "string list" where
  "PROJECTED_TOPICS = [EVENTS_USERS, EVENTS_REPOS, EVENTS_ISSUES, EVENTS_PRS, EVENTS_GIT_REFS]"

text \<open>What a start meets: the broker and the database, for each topic.\<close>

record 'j start_env =
  sn_fetch :: "string \<Rightarrow> int \<Rightarrow> ('j topic_record fetch_result, string) result"
  sn_faults :: "string \<Rightarrow> nat \<Rightarrow> db_fault"

fun start_projectors ::
    "nat \<Rightarrow> ('j, 'v) decoders \<Rightarrow> 'j start_env \<Rightarrow> string list \<Rightarrow> read_model \<Rightarrow>
      (((string \<times> projector) list, projector_error) result \<times> read_model) option" where
  "start_projectors fuel ds env [] m = Some (Ok [], m)"
| "start_projectors fuel ds env (topic # topics) m =
     (case drain fuel ds topic (sn_fetch env topic) (sn_faults env topic) 0 (projector_open topic m) m of
        None \<Rightarrow> None
      | Some (Err e, _, m') \<Rightarrow> Some (Err e, m')
      | Some (Ok _, p, m') \<Rightarrow> map_option (\<lambda>(r, m2). (map_sum id (Cons (topic, p)) r, m2))
          (start_projectors fuel ds env topics m'))"

text \<open>Start after start, until one succeeds; \<open>None\<close> when none of the first \<open>n\<close> does.\<close>

fun boots ::
    "nat \<Rightarrow> nat \<Rightarrow> ('j, 'v) decoders \<Rightarrow> (nat \<Rightarrow> 'j start_env) \<Rightarrow> read_model \<Rightarrow> ((string \<times> projector) list \<times> read_model) option" where
  "boots 0 fuel ds envs m = None"
| "boots (Suc n) fuel ds envs m = (case start_projectors fuel ds (envs 0) PROJECTED_TOPICS m of
     None \<Rightarrow> None
   | Some (Ok ps, m') \<Rightarrow> Some (ps, m')
   | Some (Err _, m') \<Rightarrow> boots n fuel ds (\<lambda>i. envs (Suc i)) m')"

section \<open>Draining through faults\<close>

text \<open>A broker that answers truthfully or not at all, at every fetch anew.\<close>

definition flaky :: "(int \<Rightarrow> ('r fetch_result, string) result) \<Rightarrow> 'r slot list \<Rightarrow> bool" where
  "flaky fetch log \<longleftrightarrow> (\<exists>good. serves good log \<and> (\<forall>off. fetch off = good off \<or> (\<exists>e. fetch off = Err e)))"

lemma serves_flaky: "serves fetch log \<Longrightarrow> flaky fetch log"
  by (auto simp: flaky_def)

lemma next_batch_cong: "fetch (tl_offset t) = fetch' (tl_offset t) \<Longrightarrow> next_batch fetch t = next_batch fetch' t"
  by (simp add: next_batch_def)

lemma flaky_answers:
  assumes "flaky fetch log"
  obtains fetch' where "answers fetch' log p" "\<And>fault m. drain_step ds topic fetch fault p m = drain_step ds topic fetch' fault p m"
proof -
  from assms obtain good where good: "serves good log" "\<And>off. fetch off = good off \<or> (\<exists>e. fetch off = Err e)"
    by (auto simp: flaky_def)
  show ?thesis
  proof (cases "\<exists>e. fetch (tl_offset (pv_tailer p)) = Err e")
    case True
    with that [of fetch] show ?thesis by (simp add: answers_def)
  next
    case False
    with good(2) have "fetch (tl_offset (pv_tailer p)) = good (tl_offset (pv_tailer p))" by blast
    then have "next_batch fetch (pv_tailer p) = next_batch good (pv_tailer p)" by (rule next_batch_cong)
    then have "drain_step ds topic fetch fault p m = drain_step ds topic good fault p m" for fault m
      by (simp add: drain_step_def)
    with that [of good] good(1) show ?thesis by (simp add: answers_def)
  qed
qed

text \<open>A turn that does not fail moves on, or the tailer is at the end of the log.\<close>

lemma turn_progress:
  assumes "answers fetch log p" "stands log n p" "drain_step ds topic fetch fault p m = (outcome, p', m')"
  shows "(\<exists>e. outcome = Failed e) \<or> (outcome = CaughtUp \<and> tl_offset (pv_tailer p') = int (length log)) \<or>
    (\<exists>c. outcome = Advanced c \<and> tl_offset (pv_tailer p) < tl_offset (pv_tailer p'))"
  using assms(1,2)
proof (cases rule: next_turn)
  case (1 e)
  with assms(3) show ?thesis by (auto simp: drain_step_def)
next
  case (2 k j)
  let ?vs = "visible (int k) (take (j - k) (drop k log))"
  have at_end: "j = k \<Longrightarrow> k = length log" using 2(3,5) by (cases "k < length log") simp_all
  show ?thesis
  proof (cases "?vs = []")
    case True
    with assms(3) 2(2,6-8) at_end show ?thesis
      by (cases "j = k") (auto simp: drain_step_def Let_def commit_cursor_def publish_applied_def split: db_fault.splits if_splits)
  next
    case False
    then have "k < j" using 2(2) by (cases "j = k") auto
    with assms(3) 2 False show ?thesis
      by (auto simp: drain_step_def Let_def apply_batch_def publish_applied_def split: db_fault.splits if_splits sum.splits)
  qed
qed

lemma drain_flaky:
  assumes "flaky fetch log" "projected_to ds topic log m n" "stands log n p"
    and "nat (int (length log) - tl_offset (pv_tailer p)) < fuel"
  shows "\<exists>r p' m' n'. drain fuel ds topic fetch faults tot p m = Some (r, p', m') \<and> untouched topic m m' \<and>
    projected_to ds topic log m' n' \<and>
    (\<forall>c. r = Ok c \<longrightarrow> stands log n' p' \<and> tl_offset (pv_tailer p') = int (length log))"
  using assms(2-4)
proof (induction fuel arbitrary: n p m tot faults)
  case (Suc fuel)
  obtain fetch' where ans: "answers fetch' log p"
    and same: "\<And>fault m. drain_step ds topic fetch fault p m = drain_step ds topic fetch' fault p m"
    using flaky_answers [OF assms(1), of p ds topic] by metis
  obtain outcome p1 m1 where step: "drain_step ds topic fetch' (faults 0) p m = (outcome, p1, m1)" by (metis prod_cases3)
  from turns_ok(1) [OF Suc.prems(1,2) ans, of "faults 0"] obtain n1 where
    n1: "untouched topic m m1" "projected_to ds topic log m1 n1" "(\<exists>e. outcome = Failed e) \<or> stands log n1 p1"
    by (auto simp: step turn_ok_def)
  from turn_progress [OF ans Suc.prems(2) step] consider
      e where "outcome = Failed e"
    | "outcome = CaughtUp" "tl_offset (pv_tailer p1) = int (length log)"
    | c where "outcome = Advanced c" "tl_offset (pv_tailer p) < tl_offset (pv_tailer p1)" by blast
  then show ?case
  proof cases
    case (3 c)
    then have st: "stands log n1 p1" using n1(3) by auto
    then have "tl_offset (pv_tailer p1) \<le> int (length log)" by (auto simp: stands_def)
    with 3(2) Suc.prems(3) have "nat (int (length log) - tl_offset (pv_tailer p1)) < fuel" by simp
    from Suc.IH [OF n1(2) st this, of "\<lambda>i. faults (Suc i)" "tot + c"] obtain r p' m' n' where
      "drain fuel ds topic fetch (\<lambda>i. faults (Suc i)) (tot + c) p1 m1 = Some (r, p', m')" "untouched topic m1 m'"
      "projected_to ds topic log m' n'"
      "\<forall>c. r = Ok c \<longrightarrow> stands log n' p' \<and> tl_offset (pv_tailer p') = int (length log)" by blast
    with n1(1) 3(1) show ?thesis by (auto simp: same step untouched_def)
  qed (use n1 in \<open>auto simp: same step\<close>)
qed simp

text \<open>A drain that meets no fault ends well, if the log projects.\<close>

lemma drain_whole:
  assumes "serves fetch log" "apply_all apply_stamped (events_in ds topic (visible 0 log)) empty_model = Ok full"
    and "projected_to ds topic log m n" "stands log n p" "length log < fuel"
  shows "\<exists>c p' m'. drain fuel ds topic fetch (\<lambda>_. NoFault) tot p m = Some (Ok c, p', m')"
proof -
  obtain k where "tl_offset (pv_tailer p) = int k" "n \<le> k" "k \<le> length log"
    "visible (int n) (take (k - n) (drop n log)) = []" "pv_applied p = int n - 1"
    using assms(4) unfolding stands_def by blast
  moreover have "length log - k < fuel" using assms(5) by simp
  ultimately show ?thesis using drain_complete [OF assms(1,2,3), where k = k and fuel = fuel and tot = tot] by blast
qed

section \<open>Caught up\<close>

text \<open>The tables of the topic are the projection of the whole log, and the projector has published an
  offset that releases every waiter for a visible record.\<close>

definition caught_up ::
    "('j, 'v) decoders \<Rightarrow> string \<Rightarrow> 'j topic_record slot list \<Rightarrow> read_model \<Rightarrow> projector \<Rightarrow> bool" where
  "caught_up ds topic log m p \<longleftrightarrow>
     apply_all apply_stamped (events_in ds topic (visible 0 log)) empty_model = Ok (tables_of topic m) \<and>
     (\<forall>(off, _)\<in>set (visible 0 log). wait_for_offset [pv_applied p] off)"

lemma visible_below: "(off, r) \<in> set (visible i xs) \<Longrightarrow> off < i + int (length xs)"
proof (induction xs arbitrary: i)
  case (Cons x xs)
  have "visible i (x # xs) = visible i [x] @ visible (i + 1) xs" using visible_append [of i "[x]" xs] by simp
  moreover have "visible i [x] = (case x of Visible r \<Rightarrow> [(i, r)] | Hidden \<Rightarrow> [])"
    by (simp add: visible_def List.map_filter_def split: slot.splits)
  ultimately show ?case using Cons.prems Cons.IH [of "i + 1"] by (auto split: slot.splits)
qed simp

lemma stands_caught_up:
  assumes "projected_to ds topic log m n" "stands log n p" "tl_offset (pv_tailer p) = int (length log)"
  shows "caught_up ds topic log m p"
proof -
  from assms(2,3) have n: "n \<le> length log" "visible (int n) (drop n log) = []" "pv_applied p = int n - 1"
    by (auto simp: stands_def)
  then have whole: "visible 0 log = visible 0 (take n log)"
    using visible_append [of 0 "take n log" "drop n log"] by simp
  have "off < int n" if "(off, r) \<in> set (visible 0 log)" for off r
    using that n(1) visible_below [of off r 0 "take n log"] by (simp add: whole)
  with assms(1) n(3) show ?thesis by (force simp: caught_up_def projected_to_def whole)
qed

lemma caught_up_untouched: "untouched other m m' \<Longrightarrow> topic \<noteq> other \<Longrightarrow> caught_up ds topic log m p \<Longrightarrow> caught_up ds topic log m' p"
  by (simp add: caught_up_def untouched_def)

section \<open>Start after start\<close>

lemma start_projectors_flaky:
  assumes "\<forall>topic. flaky (sn_fetch env topic) (logs topic)" "\<forall>topic. length (logs topic) < fuel"
    and "\<forall>topic. \<exists>n. projected_to ds topic (logs topic) m n" "distinct topics"
  shows "\<exists>r m'. start_projectors fuel ds env topics m = Some (r, m') \<and> (\<forall>topic. \<exists>n. projected_to ds topic (logs topic) m' n) \<and>
    (\<forall>other. other \<notin> set topics \<longrightarrow> tables_of other m' = tables_of other m) \<and>
    (\<forall>ps. r = Ok ps \<longrightarrow> map fst ps = topics \<and> (\<forall>(topic, p)\<in>set ps. caught_up ds topic (logs topic) m' p))"
  using assms(3,4)
proof (induction topics arbitrary: m)
  case (Cons topic topics)
  obtain n where n: "projected_to ds topic (logs topic) m n" using Cons.prems(1) by blast
  let ?p = "projector_open topic m"
  have st: "stands (logs topic) n ?p" by (rule opened_stands [OF n])
  then have fuel: "nat (int (length (logs topic)) - tl_offset (pv_tailer ?p)) < fuel"
    using assms(2) [rule_format, of topic] by (auto simp: stands_def)
  from drain_flaky [OF assms(1) [rule_format] n st fuel, of "sn_faults env topic" 0] obtain r p m1 n1 where
    run: "drain fuel ds topic (sn_fetch env topic) (sn_faults env topic) 0 ?p m = Some (r, p, m1)" "untouched topic m m1"
      "projected_to ds topic (logs topic) m1 n1"
      "\<forall>c. r = Ok c \<longrightarrow> stands (logs topic) n1 p \<and> tl_offset (pv_tailer p) = int (length (logs topic))" by blast
  have all: "\<forall>t. \<exists>n. projected_to ds t (logs t) m1 n"
    using Cons.prems(1) run(2,3) by (metis projected_untouched)
  have others: "t \<noteq> topic \<Longrightarrow> tables_of t m1 = tables_of t m" for t using run(2) by (simp add: untouched_def)
  show ?case
  proof (cases r)
    case (Inl e)
    with run(1) all others show ?thesis by auto
  next
    case (Inr c)
    have up: "caught_up ds topic (logs topic) m1 p" using run(3,4) Inr by (intro stands_caught_up) auto
    from Cons.IH [OF all] Cons.prems(2) obtain r2 m2 where
      r2: "start_projectors fuel ds env topics m1 = Some (r2, m2)" "\<forall>t. \<exists>n. projected_to ds t (logs t) m2 n"
        "\<forall>other. other \<notin> set topics \<longrightarrow> tables_of other m2 = tables_of other m1"
        "\<forall>ps. r2 = Ok ps \<longrightarrow> map fst ps = topics \<and> (\<forall>(t, p)\<in>set ps. caught_up ds t (logs t) m2 p)" by auto
    have "caught_up ds topic (logs topic) m2 p" using up r2(3) Cons.prems(2) by (simp add: caught_up_def)
    with run(1) Inr r2 others show ?thesis by (cases r2) auto
  qed
qed auto

lemma start_projectors_whole:
  assumes "\<forall>topic. serves (sn_fetch env topic) (logs topic)" "sn_faults env = (\<lambda>_ _. NoFault)" "\<forall>topic. length (logs topic) < fuel"
    and "\<forall>topic. \<exists>full. apply_all apply_stamped (events_in ds topic (visible 0 (logs topic))) empty_model = Ok full"
    and "\<forall>topic. \<exists>n. projected_to ds topic (logs topic) m n"
  shows "\<exists>ps m'. start_projectors fuel ds env topics m = Some (Ok ps, m')"
  using assms(5)
proof (induction topics arbitrary: m)
  case (Cons topic topics)
  obtain n full where n: "projected_to ds topic (logs topic) m n"
    "apply_all apply_stamped (events_in ds topic (visible 0 (logs topic))) empty_model = Ok full"
    using Cons.prems assms(4) by blast
  let ?p = "projector_open topic m"
  have st: "stands (logs topic) n ?p" by (rule opened_stands [OF n(1)])
  from drain_whole [OF assms(1) [rule_format] n(2,1) st assms(3) [rule_format], of 0] obtain c p m1 where
    run: "drain fuel ds topic (sn_fetch env topic) (\<lambda>_. NoFault) 0 ?p m = Some (Ok c, p, m1)" by blast
  have fuel: "nat (int (length (logs topic)) - tl_offset (pv_tailer ?p)) < fuel"
    using st assms(3) [rule_format, of topic] by (auto simp: stands_def)
  from drain_flaky [OF serves_flaky [OF assms(1) [rule_format]] n(1) st fuel, of "\<lambda>_. NoFault" 0] run obtain n1 where
    "untouched topic m m1" "projected_to ds topic (logs topic) m1 n1" by auto
  then have "\<forall>t. \<exists>n. projected_to ds t (logs t) m1 n" using Cons.prems by (metis projected_untouched)
  from Cons.IH [OF this] run show ?case by (auto simp: assms(2))
qed auto

lemma projected_topics_distinct: "distinct PROJECTED_TOPICS"
  by code_simp

lemma boots_up:
  assumes "\<forall>topic. \<exists>n. projected_to ds topic (logs topic) m n"
    and "\<forall>i. \<forall>topic. flaky (sn_fetch (envs i) topic) (logs topic)"
    and "\<forall>topic. serves (sn_fetch (envs k) topic) (logs topic)" "sn_faults (envs k) = (\<lambda>_ _. NoFault)" "k < n"
    and whole: "\<forall>topic. \<exists>full. apply_all apply_stamped (events_in ds topic (visible 0 (logs topic))) empty_model = Ok full"
    and fuel: "\<forall>topic. length (logs topic) < fuel"
  shows "\<exists>ps m'. boots n fuel ds envs m = Some (ps, m') \<and> map fst ps = PROJECTED_TOPICS \<and>
    (\<forall>(topic, p)\<in>set ps. caught_up ds topic (logs topic) m' p)"
  using assms(1-5)
proof (induction n arbitrary: k envs m)
  case (Suc n)
  from start_projectors_flaky [OF spec [OF Suc.prems(2), of 0] fuel Suc.prems(1) projected_topics_distinct]
  obtain r m1 where r: "start_projectors fuel ds (envs 0) PROJECTED_TOPICS m = Some (r, m1)"
    "\<forall>topic. \<exists>n. projected_to ds topic (logs topic) m1 n"
    "\<forall>ps. r = Ok ps \<longrightarrow> map fst ps = PROJECTED_TOPICS \<and> (\<forall>(topic, p)\<in>set ps. caught_up ds topic (logs topic) m1 p)"
    by blast
  show ?case
  proof (cases r)
    case (Inr ps)
    with r show ?thesis by simp
  next
    case (Inl e)
    have "k \<noteq> 0"
    proof
      assume "k = 0"
      with start_projectors_whole [OF _ _ fuel whole Suc.prems(1), of "envs 0" PROJECTED_TOPICS] Suc.prems(3,4) r(1) Inl
      show False by simp
    qed
    then obtain k' where k: "k = Suc k'" by (cases k) auto
    from Suc.IH [OF r(2), of "\<lambda>i. envs (Suc i)" k'] Suc.prems(2-5) k r(1) Inl show ?thesis by simp
  qed
qed simp

text \<open>Property C15: the forge comes up. From any state of any run, let the process be started over and
  over, each time against a broker that answers truthfully or not at all and a database that fails as
  it likes, half-known commits included. If some start meets no fault and the logs project, then one
  of the starts up to that one succeeds, and then every projected table is the projection of its
  whole log and everyone who waits for a committed record is released.\<close>

theorem projection_comes_up:
  assumes "projection_reach ds s"
    and "\<forall>i. \<forall>topic. flaky (sn_fetch (envs i) topic) (ps_log s topic)"
    and "\<forall>topic. serves (sn_fetch (envs k) topic) (ps_log s topic)" "sn_faults (envs k) = (\<lambda>_ _. NoFault)" "k < n"
    and "\<forall>topic. \<exists>full. apply_all (\<lambda>(e, at). apply_event e at) (events_in ds topic (visible 0 (ps_log s topic))) empty_model = Ok full"
    and "\<forall>topic. length (ps_log s topic) < fuel"
  shows "\<exists>ps m. boots n fuel ds envs (ps_db s) = Some (ps, m) \<and> map fst ps = PROJECTED_TOPICS \<and>
    (\<forall>(topic, p)\<in>set ps. caught_up ds topic (ps_log s topic) m p)"
  using boots_up [OF _ assms(2-7)] reach_in_step [OF assms(1)] unfolding in_step_def by blast

text \<open>Two users are in the log. The broker is down at the first start and a commit fails at the second.\<close>

definition demo_starts :: "nat \<Rightarrow> user_event envelope start_env" where
  "demo_starts i = \<lparr>sn_fetch = (if i = 0 then \<lambda>_ _. Err ''down'' else (\<lambda>topic. whole_log_fetch (ps_log (demo_run 1) topic))),
     sn_faults = (if i = 1 then \<lambda>_ _. CommitFault True else (\<lambda>_ _. NoFault))\<rparr>"

lemma projection_comes_up_witness:
  "\<exists>ps m. boots 3 5 demo_decoders demo_starts (ps_db (demo_run 1)) = Some (ps, m) \<and> map fst ps = PROJECTED_TOPICS \<and>
    (\<forall>(topic, p)\<in>set ps. caught_up demo_decoders topic (ps_log (demo_run 1) topic) m p)"
proof -
  have log: "ps_log (demo_run 1) topic = (if topic = EVENTS_USERS then demo_log else [])" for topic
    by (simp add: demo_run_def Let_def projection_start_def)
  have served: "serves (whole_log_fetch (ps_log (demo_run 1) topic)) (ps_log (demo_run 1) topic)" for topic
    by (rule whole_log_serves)
  then have flaky: "\<forall>i. \<forall>topic. flaky (sn_fetch (demo_starts i) topic) (ps_log (demo_run 1) topic)"
    by (auto simp: demo_starts_def flaky_def)
  have good: "\<forall>topic. serves (sn_fetch (demo_starts 2) topic) (ps_log (demo_run 1) topic)"
    "sn_faults (demo_starts 2) = (\<lambda>_ _. NoFault)"
    using served by (simp_all add: demo_starts_def)
  have "(case apply_all (\<lambda>(e, at). apply_event e at)
      (events_in demo_decoders EVENTS_USERS (visible 0 demo_log)) empty_model of Ok _ \<Rightarrow> True | Err _ \<Rightarrow> False)" by code_simp
  then obtain full where full: "apply_all (\<lambda>(e, at). apply_event e at)
      (events_in demo_decoders EVENTS_USERS (visible 0 demo_log)) empty_model = Ok full" by (auto split: sum.splits)
  have "\<forall>topic. \<exists>full. apply_all (\<lambda>(e, at). apply_event e at)
      (events_in demo_decoders topic (visible 0 (ps_log (demo_run 1) topic))) empty_model = Ok full"
    unfolding log using full by auto
  moreover have "length demo_log < 5" by code_simp
  then have "\<forall>topic. length (ps_log (demo_run 1) topic) < 5" unfolding log by simp
  ultimately show ?thesis using projection_comes_up [OF demo_run_reach(1) flaky good] by simp
qed

end
