(* ===== verification/Render_Text.thy ===== *)
theory Render_Text
  imports Git_Text Value_Types
begin

text \<open>
  Showing files and diffs (\<open>forge-render/src/highlight.rs\<close>, \<open>diff.rs\<close>): escaping, the choice between
  highlighted and plain text, and a diff as hunks of lines with the changed runs of a line
  emphasised. The grammars and the differ are other crates: they are the records \<open>highlighter\<close> and
  \<open>text_diff\<close>. What the differ documents of its answers is the predicate \<open>similar_ok\<close>.
\<close>

section \<open>Escaping\<close>

definition escape_char :: "char \<Rightarrow> string" where
  "escape_char c =
     (if c = CHR ''&'' then ''&amp;''
      else if c = CHR ''<'' then ''&lt;''
      else if c = CHR ''>'' then ''&gt;''
      else if c = CHR 0x22 then ''&quot;''
      else if c = CHR 0x27 then ''&#39;''
      else [c])"

definition escape :: "string \<Rightarrow> string" where
  "escape content = concat (map escape_char content)"

text \<open>What a browser makes of the five entities.\<close>

definition entity :: "string \<Rightarrow> (char \<times> string) option" where
  "entity s = (case strip_prefix ''&amp;'' s of Some r \<Rightarrow> Some (CHR ''&'', r) | None \<Rightarrow>
     (case strip_prefix ''&lt;'' s of Some r \<Rightarrow> Some (CHR ''<'', r) | None \<Rightarrow>
     (case strip_prefix ''&gt;'' s of Some r \<Rightarrow> Some (CHR ''>'', r) | None \<Rightarrow>
     (case strip_prefix ''&quot;'' s of Some r \<Rightarrow> Some (CHR 0x22, r) | None \<Rightarrow>
     (case strip_prefix ''&#39;'' s of Some r \<Rightarrow> Some (CHR 0x27, r) | None \<Rightarrow> None)))))"

lemma entity_shorter: "entity s = Some (c, r) \<Longrightarrow> length r < length s"
  by (auto simp: entity_def split: option.splits)

function read_html :: "string \<Rightarrow> string" where
  "read_html s = (case s of [] \<Rightarrow> [] | c # cs \<Rightarrow>
     (case entity s of Some (d, rest) \<Rightarrow> d # read_html rest | None \<Rightarrow> c # read_html cs))"
  by pat_completeness auto

termination
  by (relation "measure length") (auto dest: entity_shorter)

declare read_html.simps [simp del]

lemma entity_escape_char:
  "entity (escape_char c @ s) = (if c \<in> {CHR ''&'', CHR ''<'', CHR ''>'', CHR 0x22, CHR 0x27} then Some (c, s) else None)"
  by (auto simp: escape_char_def entity_def)

lemma read_escape: "read_html (escape s) = s"
proof (induction s)
  case Nil
  show ?case by (simp add: escape_def read_html.simps)
next
  case (Cons c s)
  have e: "escape (c # s) = escape_char c @ escape s" by (simp add: escape_def)
  show ?case
  proof (cases "c \<in> {CHR ''&'', CHR ''<'', CHR ''>'', CHR 0x22, CHR 0x27}")
    case True
    then obtain d ds where "escape (c # s) = d # ds" unfolding e by (auto simp: escape_char_def)
    with True Cons.IH entity_escape_char [of c "escape s"] show ?thesis
      unfolding e by (simp add: read_html.simps [of "d # ds"])
  next
    case False
    then have "escape (c # s) = c # escape s" unfolding e by (auto simp: escape_char_def)
    with False Cons.IH entity_escape_char [of c "escape s"] show ?thesis
      unfolding e by (simp add: read_html.simps [of "c # escape s"])
  qed
qed

lemma escape_inert: "c \<in> set (escape s) \<Longrightarrow> c \<notin> {CHR ''<'', CHR ''>'', CHR 0x22, CHR 0x27}"
  by (auto simp: escape_def escape_char_def split: if_splits)

section \<open>Highlighting\<close>

datatype highlighted = Html string | Plain string

definition into_html :: "highlighted \<Rightarrow> string" where
  "into_html h = (case h of Html s \<Rightarrow> s | Plain s \<Rightarrow> s)"

definition is_highlighted :: "highlighted \<Rightarrow> bool" where
  "is_highlighted h = (case h of Html _ \<Rightarrow> True | Plain _ \<Rightarrow> False)"

definition kib :: "u64 \<Rightarrow> byte_size" where
  "kib n = n * 1024"

definition max_highlight_size :: byte_size where
  "max_highlight_size = kib 512"

definition MAX_HIGHLIGHT_LINES :: nat where
  "MAX_HIGHLIGHT_LINES = 5000"

text \<open>A grammar set with its generator of markup, whose state is \<open>'s\<close>.\<close>

record ('y, 's) highlighter =
  hl_for_file :: "string \<Rightarrow> ('y option, string) result"
  hl_by_first_line :: "string \<Rightarrow> 'y option"
  hl_with_endings :: "string \<Rightarrow> string list"
  hl_start :: "'y \<Rightarrow> 's"
  hl_line :: "string \<Rightarrow> 's \<Rightarrow> ('s, string) result"
  hl_finalize :: "'s \<Rightarrow> string"

definition find_syntax :: "('y, 's) highlighter \<Rightarrow> string \<Rightarrow> string \<Rightarrow> 'y option" where
  "find_syntax hl path source =
     (case (case hl_for_file hl path of Ok found \<Rightarrow> found | Err _ \<Rightarrow> None) of
        Some y \<Rightarrow> Some y
      | None \<Rightarrow> hl_by_first_line hl (case str_lines source of [] \<Rightarrow> [] | l # _ \<Rightarrow> l))"

fun parse_lines :: "(string \<Rightarrow> 's \<Rightarrow> ('s, string) result) \<Rightarrow> string list \<Rightarrow> 's \<Rightarrow> 's option" where
  "parse_lines step [] s = Some s"
| "parse_lines step (l # ls) s = (case step l s of Err _ \<Rightarrow> None | Ok s' \<Rightarrow> parse_lines step ls s')"

definition highlight :: "('y, 's) highlighter \<Rightarrow> string \<Rightarrow> string \<Rightarrow> highlighted" where
  "highlight hl path source =
     (if of_nat (length source) > max_highlight_size \<or> length (str_lines source) > MAX_HIGHLIGHT_LINES
      then Plain (escape source)
      else (case find_syntax hl path source of
        None \<Rightarrow> Plain (escape source)
      | Some y \<Rightarrow> (case parse_lines (hl_line hl) (hl_with_endings hl source) (hl_start hl y) of
          None \<Rightarrow> Plain (escape source)
        | Some s \<Rightarrow> Html (hl_finalize hl s))))"

text \<open>Property C18: a file that is shown without highlighting is shown whole and cannot act. Its text
  holds no character that could open a tag or end an attribute, and a browser reads the file back
  from it, byte for byte; that is what happens to every file above the limits, and to one whose
  grammar is missing or fails. Highlighted markup is only ever what the generator finished.\<close>

theorem shown_file_is_inert:
  "(case highlight hl path source of
      Plain html \<Rightarrow> set html \<inter> {CHR ''<'', CHR ''>'', CHR 0x22, CHR 0x27} = {} \<and> read_html html = source
    | Html html \<Rightarrow> of_nat (length source) \<le> (524288 :: u64) \<and> length (str_lines source) \<le> 5000 \<and>
        (\<exists>y s. find_syntax hl path source = Some y \<and>
          parse_lines (hl_line hl) (hl_with_endings hl source) (hl_start hl y) = Some s \<and> html = hl_finalize hl s))"
  using escape_inert [of _ source]
  by (auto simp: highlight_def read_escape max_highlight_size_def kib_def MAX_HIGHLIGHT_LINES_def not_less split: option.splits)

section \<open>Diffs\<close>

datatype change_tag = Equal | Insert | Delete

datatype line_kind = Context | Added | Removed

record diff_run =
  rn_text :: string
  emphasized :: bool

record diff_line =
  ln_kind :: line_kind
  old_line :: "nat option"
  new_line :: "nat option"
  ln_runs :: "diff_run list"

type_synonym hunk = "diff_line list"

record file_diff =
  hunks :: "hunk list"
  added :: nat
  removed :: nat

definition is_empty_diff :: "file_diff \<Rightarrow> bool" where
  "is_empty_diff d \<longleftrightarrow> hunks d = []"

definition is_large :: "file_diff \<Rightarrow> bool" where
  "is_large d \<longleftrightarrow> added d + removed d > 400"

definition CONTEXT :: nat where "CONTEXT = 3"
definition MAX_INLINE_LINES :: nat where "MAX_INLINE_LINES = 2000"

text \<open>A change of the differ: its tag, its line on either side, counted from zero, and what it holds.\<close>

type_synonym 'v change = "change_tag \<times> nat option \<times> nat option \<times> 'v"

record 'op text_diff =
  td_all_changes :: "string change list"
  td_grouped_ops :: "nat \<Rightarrow> 'op list list"
  td_changes :: "'op \<Rightarrow> string change list"
  td_inline_changes :: "'op \<Rightarrow> (bool \<times> string) list change list"

definition tag_to_kind :: "change_tag \<Rightarrow> line_kind" where
  "tag_to_kind t = (case t of Equal \<Rightarrow> Context | Insert \<Rightarrow> Added | Delete \<Rightarrow> Removed)"

definition trim_end_newlines :: "string \<Rightarrow> string" where
  "trim_end_newlines s = rev (dropWhile (\<lambda>c. c = CHR 0x0A) (rev s))"

definition plain_line :: "string change \<Rightarrow> diff_line" where
  "plain_line c = (case c of (tag, old, new, v) \<Rightarrow>
     \<lparr>ln_kind = tag_to_kind tag, old_line = map_option Suc old, new_line = map_option Suc new,
      ln_runs = [\<lparr>rn_text = trim_end_newlines v, emphasized = False\<rparr>]\<rparr>)"

definition inline_line :: "(bool \<times> string) list change \<Rightarrow> diff_line" where
  "inline_line c = (case c of (tag, old, new, strings) \<Rightarrow>
     \<lparr>ln_kind = tag_to_kind tag, old_line = map_option Suc old, new_line = map_option Suc new,
      ln_runs = map (\<lambda>(emphasis, t). \<lparr>rn_text = trim_end_newlines t, emphasized = emphasis\<rparr>) strings\<rparr>)"

definition op_lines :: "bool \<Rightarrow> 'op text_diff \<Rightarrow> 'op \<Rightarrow> diff_line list" where
  "op_lines refine d op =
     (if refine then map inline_line (td_inline_changes d op) else map plain_line (td_changes d op))"

definition count_kind :: "line_kind \<Rightarrow> diff_line list \<Rightarrow> nat" where
  "count_kind k ls = length (filter (\<lambda>l. ln_kind l = k) ls)"

definition diff_lines :: "bool \<Rightarrow> 'op text_diff \<Rightarrow> file_diff" where
  "diff_lines refine d =
     (let groups = map (\<lambda>g. concat (map (op_lines refine d) g)) (td_grouped_ops d CONTEXT) in
      \<lparr>hunks = filter (\<lambda>h. h \<noteq> []) groups,
       added = sum_list (map (count_kind Added) groups),
       removed = sum_list (map (count_kind Removed) groups)\<rparr>)"

definition diff_text :: "(string \<Rightarrow> string \<Rightarrow> 'op text_diff) \<Rightarrow> string \<Rightarrow> string \<Rightarrow> file_diff" where
  "diff_text differ old new =
     (let d = differ old new;
          changed = length (filter (\<lambda>(tag, _). tag \<noteq> Equal) (td_all_changes d));
          refine_inline = changed \<le> MAX_INLINE_LINES
      in diff_lines refine_inline d)"

text \<open>What the differ documents: the inline changes of an operation are its changes with each value cut
  into pieces, a value is one line with at most its line feed at the end, and every change that is
  not equal lies in one of the groups.\<close>

definition one_line :: "string \<Rightarrow> bool" where
  "one_line v \<longleftrightarrow> CHR 0x0A \<notin> set (butlast v)"

definition similar_ok :: "'op text_diff \<Rightarrow> bool" where
  "similar_ok d \<longleftrightarrow>
     (\<forall>op. map (\<lambda>(t, a, b, pieces). (t, a, b, concat (map snd pieces))) (td_inline_changes d op) = td_changes d op) \<and>
     (\<forall>op. \<forall>(t, a, b, v)\<in>set (td_changes d op). one_line v) \<and>
     (\<forall>n. filter (\<lambda>(tag, _). tag \<noteq> Equal) (concat (map (td_changes d) (concat (td_grouped_ops d n)))) =
        filter (\<lambda>(tag, _). tag \<noteq> Equal) (td_all_changes d))"

text \<open>A line without its emphasis.\<close>

definition erase_line :: "diff_line \<Rightarrow> diff_line" where
  "erase_line l = l\<lparr>ln_runs := [\<lparr>rn_text = concat (map rn_text (ln_runs l)), emphasized = False\<rparr>]\<rparr>"

lemma trim_one_line: "CHR 0x0A \<notin> set a \<Longrightarrow> trim_end_newlines a = a"
  by (cases a rule: rev_cases) (auto simp: trim_end_newlines_def)

lemma trim_last: "CHR 0x0A \<notin> set a \<Longrightarrow> trim_end_newlines (a @ [CHR 0x0A]) = a"
  using trim_one_line [of a] by (simp add: trim_end_newlines_def)

lemma one_line_cases:
  assumes "one_line v" obtains "CHR 0x0A \<notin> set v" | a where "v = a @ [CHR 0x0A]" "CHR 0x0A \<notin> set a"
  using assms by (cases v rule: rev_cases) (auto simp: one_line_def)

lemma trim_pieces:
  "one_line (concat ps) \<Longrightarrow> concat (map trim_end_newlines ps) = trim_end_newlines (concat ps)"
proof (induction ps)
  case (Cons p ps)
  show ?case
  proof (cases "concat ps = []")
    case True
    then have "\<forall>q\<in>set ps. q = []" by simp
    then have "concat (map trim_end_newlines ps) = []" by (auto simp: trim_end_newlines_def)
    with True show ?thesis by (simp del: concat_eq_Nil_conv)
  next
    case False
    with Cons.prems have "CHR 0x0A \<notin> set (p @ butlast (concat ps))"
      by (simp add: one_line_def butlast_append del: concat_eq_Nil_conv)
    then have p: "CHR 0x0A \<notin> set p" "one_line (concat ps)" by (simp_all add: one_line_def)
    have "trim_end_newlines (p @ concat ps) = p @ trim_end_newlines (concat ps)"
      using p(2)
    proof (cases rule: one_line_cases)
      case 1
      with p(1) show ?thesis using trim_one_line [of "p @ concat ps"] trim_one_line [of "concat ps"] by simp
    next
      case (2 a)
      with p(1) show ?thesis using trim_last [of "p @ a"] trim_last [of a] by simp
    qed
    with Cons.IH [OF p(2)] p(1) show ?thesis by (simp add: trim_one_line)
  qed
qed (simp add: trim_end_newlines_def)

lemma erase_inline_line:
  assumes "one_line (concat (map snd pieces))"
  shows "erase_line (inline_line (t, a, b, pieces)) = plain_line (t, a, b, concat (map snd pieces))"
  using trim_pieces [OF assms] by (simp add: erase_line_def inline_line_def plain_line_def comp_def case_prod_unfold)

lemma erase_op_lines:
  assumes "similar_ok d" shows "map erase_line (op_lines True d op) = op_lines False d op"
proof -
  have ch: "td_changes d op = map (\<lambda>(t, a, b, pieces). (t, a, b, concat (map snd pieces))) (td_inline_changes d op)"
    and one: "\<forall>(t, a, b, v)\<in>set (td_changes d op). one_line v"
    using assms unfolding similar_ok_def by metis+
  have "erase_line (inline_line c) = plain_line (case c of (t, a, b, pieces) \<Rightarrow> (t, a, b, concat (map snd pieces)))"
    if "c \<in> set (td_inline_changes d op)" for c
  proof -
    obtain t a b pieces where c: "c = (t, a, b, pieces)" by (cases c)
    with that one have "one_line (concat (map snd pieces))" unfolding ch by fastforce
    with erase_inline_line [OF this] show ?thesis by (simp add: c)
  qed
  then show ?thesis by (simp add: op_lines_def ch)
qed

lemma erase_plain_line: "erase_line (plain_line c) = plain_line c"
  by (cases c) (simp add: erase_line_def plain_line_def)

lemma erase_any_lines:
  assumes "similar_ok d" shows "map erase_line (op_lines refine d op) = op_lines False d op"
  using erase_op_lines [OF assms] by (cases refine) (simp_all add: op_lines_def erase_plain_line)

lemma erase_group:
  "similar_ok d \<Longrightarrow> map erase_line (concat (map (op_lines refine d) g)) = concat (map (op_lines False d) g)"
  by (simp add: map_concat comp_def erase_any_lines)

lemma count_erase: "count_kind k (map erase_line ls) = count_kind k ls"
  by (induction ls) (auto simp: count_kind_def erase_line_def)

lemma diff_lines_erase:
  assumes "similar_ok d"
  shows "map (map erase_line) (hunks (diff_lines refine d)) = hunks (diff_lines False d)"
    and "added (diff_lines refine d) = added (diff_lines False d)"
    and "removed (diff_lines refine d) = removed (diff_lines False d)"
proof -
  let ?g = "\<lambda>r. \<lambda>g. concat (map (op_lines r d) g)"
  have erased: "map erase_line (?g refine g) = ?g False g" for g by (rule erase_group [OF assms])
  have keep: "filter (\<lambda>h. h \<noteq> []) (map (map erase_line) hs) = map (map erase_line) (filter (\<lambda>h. h \<noteq> []) hs)" for hs
    by (induction hs) auto
  have "map (map erase_line) (filter (\<lambda>h. h \<noteq> []) (map (?g refine) gs)) = filter (\<lambda>h. h \<noteq> []) (map (?g False) gs)" for gs
    unfolding keep [symmetric] by (simp add: comp_def erased)
  then show "map (map erase_line) (hunks (diff_lines refine d)) = hunks (diff_lines False d)"
    by (simp add: diff_lines_def Let_def)
  have same: "count_kind k (?g refine g) = count_kind k (?g False g)" for k g
    using count_erase [of k "?g refine g"] erased by simp
  then show "added (diff_lines refine d) = added (diff_lines False d)" "removed (diff_lines refine d) = removed (diff_lines False d)"
    by (simp_all add: diff_lines_def Let_def comp_def same [of _ _])
qed

lemma count_plain:
  "count_kind Added (map plain_line cs) + count_kind Removed (map plain_line cs) =
     length (filter (\<lambda>(tag, _). tag \<noteq> Equal) cs)"
  by (induction cs) (auto simp: count_kind_def plain_line_def tag_to_kind_def split: change_tag.splits)

lemma count_append [simp]: "count_kind k (a @ b) = count_kind k a + count_kind k b" "count_kind k [] = 0"
  by (simp_all add: count_kind_def)

lemma count_groups:
  "sum_list (map (\<lambda>g. count_kind Added (concat (map (op_lines False d) g))) gs) +
   sum_list (map (\<lambda>g. count_kind Removed (concat (map (op_lines False d) g))) gs) =
     length (filter (\<lambda>(tag, _). tag \<noteq> Equal) (concat (map (td_changes d) (concat gs))))"
proof (induction gs)
  case (Cons g gs)
  have "count_kind Added (concat (map (op_lines False d) g)) + count_kind Removed (concat (map (op_lines False d) g)) =
      length (filter (\<lambda>(tag, _). tag \<noteq> Equal) (concat (map (td_changes d) g)))" for g
  proof (induction g)
    case (Cons op g)
    then show ?case using count_plain [of "td_changes d op"] by (simp add: op_lines_def)
  qed simp
  from this [of g] Cons.IH show ?case by simp
qed simp

text \<open>Property C19: the emphasis within lines changes nothing else. Whether a diff is small enough to
  be refined or not, its hunks are, line by line, those of the plain rendering: the same kinds, the
  same line numbers, and the same text once the runs of a line are put together; the counts are the
  same, and together they are the number of changed lines, the number that decided about the
  refinement.\<close>

theorem refinement_is_only_emphasis:
  assumes "similar_ok (differ old new)"
  shows "map (map erase_line) (hunks (diff_text differ old new)) = hunks (diff_lines False (differ old new)) \<and>
    added (diff_text differ old new) = added (diff_lines False (differ old new)) \<and>
    removed (diff_text differ old new) = removed (diff_lines False (differ old new)) \<and>
    added (diff_text differ old new) + removed (diff_text differ old new) =
      length (filter (\<lambda>(tag, _). tag \<noteq> Equal) (td_all_changes (differ old new)))"
proof -
  let ?d = "differ old new"
  have "added (diff_lines False ?d) + removed (diff_lines False ?d) =
      length (filter (\<lambda>(tag, _). tag \<noteq> Equal) (concat (map (td_changes ?d) (concat (td_grouped_ops ?d CONTEXT)))))"
    using count_groups [of ?d "td_grouped_ops ?d CONTEXT"] by (simp add: diff_lines_def Let_def comp_def)
  also have "\<dots> = length (filter (\<lambda>(tag, _). tag \<noteq> Equal) (td_all_changes ?d))"
    using assms unfolding similar_ok_def by simp
  finally have total: "added (diff_lines False ?d) + removed (diff_lines False ?d) = \<dots>" .
  obtain r where r: "diff_text differ old new = diff_lines r ?d" by (simp add: diff_text_def Let_def)
  from total show ?thesis unfolding r using diff_lines_erase [OF assms, of r] by simp
qed

text \<open>The second of two lines is changed in one letter.\<close>

definition demo_differ :: "string \<Rightarrow> string \<Rightarrow> unit text_diff" where
  "demo_differ old new =
     \<lparr>td_all_changes = [(Equal, Some 0, Some 0, ''a'' @ [CHR 0x0A]), (Delete, Some 1, None, ''bit'' @ [CHR 0x0A]),
        (Insert, None, Some 1, ''but'' @ [CHR 0x0A])],
      td_grouped_ops = (\<lambda>_. [[()]]),
      td_changes = (\<lambda>_. [(Equal, Some 0, Some 0, ''a'' @ [CHR 0x0A]), (Delete, Some 1, None, ''bit'' @ [CHR 0x0A]),
        (Insert, None, Some 1, ''but'' @ [CHR 0x0A])]),
      td_inline_changes = (\<lambda>_. [(Equal, Some 0, Some 0, [(False, ''a'' @ [CHR 0x0A])]),
        (Delete, Some 1, None, [(False, ''b''), (True, ''i''), (False, ''t'' @ [CHR 0x0A])]),
        (Insert, None, Some 1, [(False, ''b''), (True, ''u''), (False, ''t'' @ [CHR 0x0A])])])\<rparr>"

lemma refinement_witness:
  "map (map erase_line) (hunks (diff_text demo_differ [] [])) = hunks (diff_lines False (demo_differ [] [])) \<and>
   added (diff_text demo_differ [] []) + removed (diff_text demo_differ [] []) = 2"
proof -
  have "similar_ok (demo_differ [] [])" by (simp add: similar_ok_def demo_differ_def one_line_def)
  from refinement_is_only_emphasis [of demo_differ "[]" "[]", OF this] show ?thesis by (simp add: demo_differ_def)
qed

end
