(* ===== verification/Store_Connect.thy ===== *)
theory Store_Connect
  imports Store_Auth Topic_Manifest
begin

text \<open>
  Getting hold of the database: \<open>forge-store/src/lib.rs\<close>. What may be said about a connection
  string (\<open>redact_dsn\<close>), the retry loop of \<open>connect_with_retry\<close> under its budget, and the check of the
  schema a server starts with. Dialling is another crate: it is a function of the instant at which
  it is begun, which gives how long it takes (\<open>None\<close> when it never answers) and what it answers.
  Instants and durations are in nanoseconds; computing takes no time here, only dialling and
  sleeping do, and a sleep lasts what it was asked for.
\<close>

section \<open>Errors\<close>

datatype store_failure =
    SqlFailed sql_error
  | JsonFailed string
  | ConnectFailed string string
  | ConnectTimeout string nat
  | SchemaMismatch "int option" int

definition EM_DASH :: string where
  "EM_DASH = [CHR 0xE2, CHR 0x80, CHR 0x94]"

definition schema_mismatch_message :: "int option \<Rightarrow> int \<Rightarrow> string" where
  "schema_mismatch_message found expected = (case found of
     Some found \<Rightarrow>
       if found > expected then
         ''schema is at version '' @ show_int found @ '' but this build expects '' @ show_int expected @
         ''; it was migrated by a newer build '' @ EM_DASH @
         '' deploy a build that matches, or reset the database and re-project''
       else
         ''schema is at version '' @ show_int found @ '' but this build expects '' @ show_int expected @
         ''; run `crabforge migrate`''
   | None \<Rightarrow>
       ''no schema has been applied but this build expects version '' @ show_int expected @
       ''; run `crabforge migrate`'')"

section \<open>Connection strings\<close>

definition MASK :: string where
  "MASK = ''password=<redacted>''"

definition redact_userinfo :: "string \<Rightarrow> string" where
  "redact_userinfo userinfo = (case split_once CHR '':'' userinfo of
     Some (user, _) \<Rightarrow> user @ '':<redacted>'' | None \<Rightarrow> userinfo)"

definition redact_part :: "string \<Rightarrow> string" where
  "redact_part part = (case split_once CHR ''='' part of
     Some (key, _) \<Rightarrow> if to_ascii_lowercase key = ''password'' then MASK else part
   | None \<Rightarrow> part)"

fun join_spaces :: "string list \<Rightarrow> string" where
  "join_spaces [] = []"
| "join_spaces [p] = p"
| "join_spaces (p # q # ps) = p @ CHR '' '' # join_spaces (q # ps)"

definition redact_dsn :: "string \<Rightarrow> string" where
  "redact_dsn dsn = (case split_once_str ''://'' dsn of
     Some (scheme, rest) \<Rightarrow> (case split_once CHR ''@'' rest of
         Some (userinfo, host) \<Rightarrow> scheme @ ''://'' @ redact_userinfo userinfo @ ''@'' @ host
       | None \<Rightarrow> dsn)
   | None \<Rightarrow> join_spaces (map redact_part (split_whitespace dsn)))"

lemma split_once_found: "d \<notin> set a \<Longrightarrow> split_once d (a @ d # b) = Some (a, b)"
  by (induction a) auto

lemma password_part_masked:
  "to_ascii_lowercase key = ''password'' \<Longrightarrow> redact_part (key @ ''='' @ secret) = MASK"
proof -
  assume key: "to_ascii_lowercase key = ''password''"
  have "CHR ''='' \<notin> set key"
  proof
    assume "CHR ''='' \<in> set key"
    then have "to_lower CHR ''='' \<in> set (to_ascii_lowercase key)" by (simp add: to_ascii_lowercase_def)
    then show False unfolding key by code_simp
  qed
  from split_once_found [OF this, of secret] key show ?thesis by (simp add: redact_part_def)
qed

lemma user_part_masked:
  assumes "CHR '':'' \<notin> set user" shows "redact_userinfo (user @ '':'' @ secret) = user @ '':<redacted>''"
  using split_once_found [OF assms, of secret] by (simp add: redact_userinfo_def)

text \<open>What is not masked: a password with spaces around its equals sign or with one inside quotes,
  both of which the key-value form allows, one given as a parameter of a URI, and one that makes the
  string look like a URI.\<close>

lemma passwords_that_leak:
  "redact_dsn ''host=db password = hunter2'' = ''host=db password = hunter2''"
  "redact_dsn (''host=db password='' @ [CHR 0x27] @ ''correct horse'' @ [CHR 0x27]) =
     ''host=db password=<redacted> horse'' @ [CHR 0x27]"
  "redact_dsn ''postgresql://db/crab?user=forge&password=hunter2'' = ''postgresql://db/crab?user=forge&password=hunter2''"
  "redact_dsn ''host=db password=hunter2://'' = ''host=db password=hunter2://''"
  by code_simp+

text \<open>Two words of a connection string that differ in the password only.\<close>

definition is_password :: "string \<Rightarrow> bool" where
  "is_password part \<longleftrightarrow> (case split_once CHR ''='' part of
     Some (key, _) \<Rightarrow> to_ascii_lowercase key = ''password'' | None \<Rightarrow> False)"

lemma redact_part_password: "redact_part part = (if is_password part then MASK else part)"
proof (cases "split_once CHR ''='' part")
  case None
  show ?thesis unfolding redact_part_def is_password_def None by simp
next
  case (Some kv)
  show ?thesis unfolding redact_part_def is_password_def Some by (cases kv) simp
qed

definition same_but_password :: "string \<Rightarrow> string \<Rightarrow> bool" where
  "same_but_password a b \<longleftrightarrow>
     split_once_str ''://'' a = None \<and> split_once_str ''://'' b = None \<and>
     list_all2 (\<lambda>p q. p = q \<or> is_password p \<and> is_password q) (split_whitespace a) (split_whitespace b)"

lemma split_once_str_found: "c \<notin> set a \<Longrightarrow> split_once_str (c # p) (a @ (c # p) @ b) = Some (a, b)"
proof (induction a)
  case Nil
  have "strip_prefix (c # p) ((c # p) @ b) = Some b" by (simp only: strip_prefix_Some_iff)
  then show ?case by simp
qed simp

lemma redact_uri:
  assumes "CHR '':'' \<notin> set (scheme @ user)" "CHR ''@'' \<notin> set (user @ secret)"
  shows "redact_dsn (scheme @ ''://'' @ user @ '':'' @ secret @ ''@'' @ host) =
    scheme @ ''://'' @ user @ '':<redacted>@'' @ host"
proof -
  have "split_once_str ''://'' (scheme @ ''://'' @ (user @ '':'' @ secret @ ''@'' @ host)) =
      Some (scheme, user @ '':'' @ secret @ ''@'' @ host)"
    using assms(1) by (intro split_once_str_found) simp
  moreover have "split_once CHR ''@'' ((user @ '':'' @ secret) @ CHR ''@'' # host) = Some (user @ '':'' @ secret, host)"
    using assms(2) by (intro split_once_found) simp
  moreover have "redact_userinfo (user @ '':'' @ secret) = user @ '':<redacted>''"
    using assms(1) by (intro user_part_masked) simp
  ultimately show ?thesis by (simp add: redact_dsn_def)
qed

lemma redact_words:
  assumes "same_but_password a b" shows "redact_dsn a = redact_dsn b"
proof -
  have "map redact_part (split_whitespace a) = map redact_part (split_whitespace b)"
    using assms unfolding same_but_password_def
    by (auto simp: list_all2_conv_all_nth redact_part_password intro!: nth_equalityI)
  with assms show ?thesis by (simp add: redact_dsn_def same_but_password_def)
qed

text \<open>A connection string that reaches a message does not depend on the password. Two
  strings of the key-value form whose words agree except for those of the keyword \<open>password\<close>, in
  whatever case it is written, are shown alike; so are two URIs of one user, host and database with
  different passwords.\<close>

theorem redaction_hides_password:
  "(same_but_password a b \<longrightarrow> redact_dsn a = redact_dsn b) \<and>
   (CHR '':'' \<notin> set (scheme @ user) \<and> CHR ''@'' \<notin> set (user @ secret @ secret') \<longrightarrow>
      redact_dsn (scheme @ ''://'' @ user @ '':'' @ secret @ ''@'' @ host) =
      redact_dsn (scheme @ ''://'' @ user @ '':'' @ secret' @ ''@'' @ host))"
  using redact_words redact_uri by auto

lemma redaction_witness:
  "redact_dsn ''host=db PassWord=hunter2 user=forge'' = redact_dsn ''host=db password=swordfish user=forge'' \<and>
   redact_dsn (''postgresql'' @ ''://'' @ ''forge'' @ '':'' @ ''hunter2'' @ ''@'' @ ''db/crab'') =
   redact_dsn (''postgresql'' @ ''://'' @ ''forge'' @ '':'' @ ''swordfish'' @ ''@'' @ ''db/crab'')"
proof -
  have "same_but_password ''host=db PassWord=hunter2 user=forge'' ''host=db password=swordfish user=forge''" by code_simp
  then show ?thesis
    using redaction_hides_password [of "''host=db PassWord=hunter2 user=forge''" "''host=db password=swordfish user=forge''"
        "''postgresql''" "''forge''" "''hunter2''" "''swordfish''" "''db/crab''"] by simp
qed

section \<open>Connecting\<close>

type_synonym dial = "nat \<Rightarrow> nat option \<times> (unit, string) result"

definition MILLIS :: nat where "MILLIS = 1000000"
definition MIN_ATTEMPT :: nat where "MIN_ATTEMPT = 1000 * MILLIS"

definition store_connect :: "dial \<Rightarrow> string \<Rightarrow> nat \<Rightarrow> (unit, store_failure) result" where
  "store_connect dial dsn now = (case snd (dial now) of
     Ok _ \<Rightarrow> Ok () | Err source \<Rightarrow> Err (ConnectFailed (redact_dsn dsn) source))"

text \<open>One attempt under its timeout, and the instant at which it is over.\<close>

definition bounded_attempt :: "dial \<Rightarrow> string \<Rightarrow> nat \<Rightarrow> nat \<Rightarrow> (unit, store_failure) result \<times> nat" where
  "bounded_attempt dial dsn budget now = (case fst (dial now) of
     Some taken \<Rightarrow>
       if taken \<le> budget then (store_connect dial dsn now, now + taken)
       else (Err (ConnectTimeout (redact_dsn dsn) budget), now + budget)
   | None \<Rightarrow> (Err (ConnectTimeout (redact_dsn dsn) budget), now + budget))"

text \<open>The pause after the attempt number \<open>k\<close>.\<close>

fun connect_pause :: "nat \<Rightarrow> nat" where
  "connect_pause 0 = 100 * MILLIS"
| "connect_pause (Suc k) = min (connect_pause k * 2) (5000 * MILLIS)"

lemma connect_pause_pos [simp]: "0 < connect_pause k"
  by (induction k) (auto simp: MILLIS_def)

lemma bounded_attempt_later: "bounded_attempt dial dsn budget now = (r, t) \<Longrightarrow> now \<le> t \<and> t \<le> now + budget"
  by (auto simp: bounded_attempt_def split: option.splits if_splits)

lemma nap_shrinks:
  "t < deadline \<Longrightarrow> now \<le> t \<Longrightarrow> deadline - (t + min (connect_pause k) (deadline - t)) < deadline - now"
  using connect_pause_pos [of k] by linarith

function connect_loop :: "dial \<Rightarrow> string \<Rightarrow> nat \<Rightarrow> nat \<Rightarrow> nat \<Rightarrow> (unit, store_failure) result \<times> nat" where
  "connect_loop dial dsn deadline k now =
     (case bounded_attempt dial dsn (max (deadline - now) MIN_ATTEMPT) now of
        (Ok _, t) \<Rightarrow> (Ok (), t)
      | (Err e, t) \<Rightarrow>
          if t \<ge> deadline then (Err e, t)
          else connect_loop dial dsn deadline (Suc k) (t + min (connect_pause k) (deadline - t)))"
  by pat_completeness auto

termination
  by (relation "measure (\<lambda>(dial, dsn, deadline, k, now). deadline - now)")
    (auto dest!: bounded_attempt_later [OF sym] intro!: nap_shrinks)

declare connect_loop.simps [simp del]

definition connect_with_retry :: "dial \<Rightarrow> string \<Rightarrow> nat \<Rightarrow> nat \<Rightarrow> (unit, store_failure) result \<times> nat" where
  "connect_with_retry dial dsn within now = connect_loop dial dsn (now + within) 0 now"













text \<open>One attempt that nobody answers uses the budget up: there is no second one.\<close>

lemma silence_uses_budget:
  assumes "fst (dial now) = None"
  shows "connect_with_retry dial dsn within now =
    (Err (ConnectTimeout (redact_dsn dsn) (max within MIN_ATTEMPT)), now + max within MIN_ATTEMPT)"
  using assms by (simp add: connect_with_retry_def connect_loop.simps [of dial dsn _ 0 now] bounded_attempt_def)

section \<open>The schema a server starts with\<close>

definition require_current_schema ::
    "sql_error option \<Rightarrow> migration list \<Rightarrow> 'd schema_db \<Rightarrow> (unit, store_failure) result" where
  "require_current_schema fault ms db = (case current_version fault db of
     Err e \<Rightarrow> Err (SqlFailed e)
   | Ok found \<Rightarrow> if found = Some (expected_version ms) then Ok ()
       else Err (SchemaMismatch found (expected_version ms)))"

end
