(* ===== verification/Operator_Tools.thy ===== *)
theory Operator_Tools
  imports Store_Connect Forge_Bus
begin

text \<open>
  The operator's command line (\<open>forge-cli/src\<close>): provisioning the topics (\<open>bootstrap.rs\<close>), applying
  the schema (\<open>migrate.rs\<close>), the diagnosis with its remedies (\<open>doctor.rs\<close>), and the dispatch of
  \<open>main.rs\<close>. The admin client, the feature query and the database are parameters, as in the theories
  of the components that are called here; the text of somebody else's error is a string.
\<close>

section \<open>Asking the broker for its features\<close>

datatype feature_error = FeatureClient string | FeatureServer int

record features_response =
  fe_error_code :: int
  fe_finalized :: "(string \<times> int) list"

definition feature_probe :: "(features_response, string) result \<Rightarrow> ((string, int) table, feature_error) result" where
  "feature_probe answer = (case answer of
     Err e \<Rightarrow> Err (FeatureClient e)
   | Ok response \<Rightarrow>
       if fe_error_code response \<noteq> 0 then Err (FeatureServer (fe_error_code response))
       else Ok (from_levels (fe_finalized response)))"

definition feature_message :: "feature_error \<Rightarrow> string" where
  "feature_message e = (case e of
     FeatureClient e \<Rightarrow> ''asking the broker which features it has: '' @ e
   | FeatureServer c \<Rightarrow> ''the broker rejected the feature query with error_code '' @ show_int c)"

section \<open>Reports\<close>

datatype finding = Pass string | Fail string string

record check =
  ck_name :: string
  ck_outcome :: finding

type_synonym report = "check list"

definition is_healthy :: "report \<Rightarrow> bool" where
  "is_healthy checks = list_all (\<lambda>c. case ck_outcome c of Pass _ \<Rightarrow> True | Fail _ _ \<Rightarrow> False) checks"

definition padded :: "string \<Rightarrow> string" where
  "padded s = s @ replicate (20 - chars_count s) CHR '' ''"

definition print_check :: "check \<Rightarrow> string list" where
  "print_check c = (case ck_outcome c of
     Pass detail \<Rightarrow> [''  ok      '' @ padded (ck_name c) @ '' '' @ detail]
   | Fail problem fix_it \<Rightarrow>
       [''  FAILED  '' @ padded (ck_name c) @ '' '' @ problem,
        ''          '' @ padded [] @ '' fix: '' @ fix_it])"

definition print_report :: "report \<Rightarrow> string list" where
  "print_report checks = concat (map print_check checks) @
     [[], if is_healthy checks then ''all checks passed'' else ''environment is not ready to serve'']"

section \<open>The checks\<close>

text \<open>What the doctor finds: the broker, the topics it lists, its features, and the database, whose
  probe may take as long as it likes.\<close>

record 'd surroundings =
  su_admin :: "(unit, string) result"
  su_topics :: "(string list, string) result"
  su_features :: "(features_response, string) result"
  su_takes :: "nat option"
  su_database :: "(unit, string) result"
  su_fault :: "sql_error option"
  su_has_users :: "'d \<Rightarrow> bool"

definition GRES_PROBE_TIMEOUT :: nat where
  "GRES_PROBE_TIMEOUT = 5000 * MILLIS"

fun join_commas :: "string list \<Rightarrow> string" where
  "join_commas [] = []"
| "join_commas [p] = p"
| "join_commas (p # q # ps) = p @ '', '' @ join_commas (q # ps)"

definition broker_check :: "string \<Rightarrow> (unit, string) result \<Rightarrow> check" where
  "broker_check bootstrap admin = \<lparr>ck_name = ''broker'', ck_outcome = (case admin of
     Ok _ \<Rightarrow> Pass (''reachable at '' @ bootstrap)
   | Err e \<Rightarrow> Fail (''cannot reach '' @ bootstrap @ '': '' @ e)
       ''run `just broker` (and `just format` first if the log dir is empty)'')\<rparr>"

definition topics_check :: "(string list, string) result \<Rightarrow> check" where
  "topics_check listed = \<lparr>ck_name = ''topics'', ck_outcome = (case listed of
     Ok existing \<Rightarrow>
       (let absent = missing existing static_topics in
        if absent = [] then Pass (''all '' @ show_nat (length static_topics) @ '' present'')
        else Fail (show_nat (length absent) @ '' missing: '' @ join_commas absent) ''run `crabforge bootstrap`'')
   | Err e \<Rightarrow> Fail (''could not list topics: '' @ e) ''check broker health and authorization'')\<rparr>"

definition ELLIPSIS :: string where
  "ELLIPSIS = [CHR 0xE2, CHR 0x80, CHR 0xA6]"

definition APOSTROPHE_S :: string where
  "APOSTROPHE_S = [CHR 0x27, CHR ''s'']"

definition share_groups_check :: "((string, int) table, feature_error) result \<Rightarrow> check" where
  "share_groups_check probed = \<lparr>ck_name = ''share groups'', ck_outcome = (case probed of
     Ok features \<Rightarrow>
       if share_groups features then Pass (''share.version='' @ show_int (level features SHARE_VERSION))
       else Fail (''this broker was formatted without share.version, so Crab Actions runs on '' @
           ''a feature the broker does not advertise'')
         (''re-format the log directory with `crabka format --feature share.version=1 '' @ ELLIPSIS @
          ''` (`just format` after `just dev-reset` in development); the level cannot be raised in place'')
   | Err e \<Rightarrow> Fail (''could not read the broker'' @ APOSTROPHE_S @ '' features: '' @ feature_message e)
       (''check broker health '' @ EM_DASH @ '' the same address the broker check used''))\<rparr>"

definition leftover_tables :: "'d surroundings \<Rightarrow> 'd schema_db \<Rightarrow> bool" where
  "leftover_tables env db = su_has_users env (sd_data db)"

definition probe_schema :: "'d surroundings \<Rightarrow> string \<Rightarrow> migration list \<Rightarrow> 'd schema_db \<Rightarrow> finding" where
  "probe_schema env dsn ms db =
     (let expected = expected_version ms in
      case su_database env of
        Err e \<Rightarrow> Fail (''cannot reach gres: connecting to gres at '' @ redact_dsn dsn @ '': '' @ e)
          ''run `just gres` (and `just gres-tenant` if the tenant is new)''
      | Ok _ \<Rightarrow> (case current_version (su_fault env) db of
          Err (Sql e) \<Rightarrow> Fail (''could not read the migration ledger: sql: '' @ e)
            ''check gres health and that the forge user can read `schema_migrations`''
        | Ok (Some found) \<Rightarrow>
            if found = expected then Pass (''at version '' @ show_int found)
            else if found > expected then
              Fail (''database is at version '' @ show_int found @ '' but this build expects '' @ show_int expected @
                  ''; it was migrated by a newer build'')
                ''deploy a build that matches, or reset the database and re-project''
            else Fail (''database is at version '' @ show_int found @ '', this build expects '' @ show_int expected)
              ''run `crabforge migrate`''
        | Ok None \<Rightarrow>
            if leftover_tables env db then
              Fail (''no schema version recorded, but forge tables already exist '' @ EM_DASH @
                  '' a migration failed partway'')
                (''reset the database and re-project (`just dev-reset` in development); '' @
                 ''re-running `crabforge migrate` will fail on the tables that survived'')
            else Fail (''no schema applied, this build expects version '' @ show_int expected) ''run `crabforge migrate`''))"

definition schema_check :: "'d surroundings \<Rightarrow> string \<Rightarrow> migration list \<Rightarrow> 'd schema_db \<Rightarrow> check" where
  "schema_check env dsn ms db =
     (let late = Fail (''gres did not answer within '' @ show_nat (GRES_PROBE_TIMEOUT div (1000 * MILLIS)) @ ''s at '' @ redact_dsn dsn)
           (''check `just gres` '' @ EM_DASH @ '' a cold start replays the whole WAL before it listens'')
      in \<lparr>ck_name = ''schema'', ck_outcome = (case su_takes env of
           Some taken \<Rightarrow> if taken \<le> GRES_PROBE_TIMEOUT then probe_schema env dsn ms db else late
         | None \<Rightarrow> late)\<rparr>)"

definition doctor :: "'d surroundings \<Rightarrow> string \<Rightarrow> string \<Rightarrow> migration list \<Rightarrow> 'd schema_db \<Rightarrow> report" where
  "doctor env bootstrap dsn ms db =
     broker_check bootstrap (su_admin env) #
     (case su_admin env of Ok _ \<Rightarrow> [topics_check (su_topics env)] | Err _ \<Rightarrow> []) @
     [share_groups_check (feature_probe (su_features env)), schema_check env dsn ms db]"

section \<open>Provisioning\<close>

datatype cli_error =
    CliAdmin string
  | CliTopics topic_error
  | CliConnect store_failure
  | CliMigrate sql_error
  | CliLedger sql_error
  | NewerBuild int int

definition cli_bootstrap ::
    "(unit, string) result \<Rightarrow> (topic_spec list \<Rightarrow> (create_outcome list, string) result) \<Rightarrow> int \<Rightarrow> (unit, cli_error) result" where
  "cli_bootstrap admin create_topics replicas_wanted = (case admin of
     Err e \<Rightarrow> Err (CliAdmin e)
   | Ok _ \<Rightarrow> (case ensure_static_replicated create_topics replicas_wanted of
       Err e \<Rightarrow> Err (CliTopics e) | Ok _ \<Rightarrow> Ok ()))"

definition DEFAULT_WAIT_SECS :: nat where "DEFAULT_WAIT_SECS = 120"
definition MAX_WAIT_SECS :: nat where "MAX_WAIT_SECS = 24 * 60 * 60"

text \<open>The faults of the three readings of the ledger, the scripts and the rows of the ledger are those
  of \<open>migrate_run\<close>.\<close>

definition cli_migrate ::
    "dial \<Rightarrow> string \<Rightarrow> nat \<Rightarrow> nat \<Rightarrow> (string \<Rightarrow> 'd \<Rightarrow> (unit, sql_error) result \<times> 'd) \<Rightarrow> (string \<Rightarrow> sql_error option) \<Rightarrow>
      (int \<Rightarrow> sql_error option) \<Rightarrow> migration list \<Rightarrow> 'd schema_db \<Rightarrow> (int list, cli_error) result \<times> 'd schema_db" where
  "cli_migrate dial dsn wait now ddl fault recorded ms db =
     (case fst (connect_with_retry dial dsn wait now) of
        Err e \<Rightarrow> (Err (CliConnect e), db)
      | Ok _ \<Rightarrow> (case migrate_run ddl fault recorded ms db of
          (Err e, db1) \<Rightarrow> (Err (CliMigrate e), db1)
        | (Ok applied, db1) \<Rightarrow> (case current_version (fault ''re-read'') db1 of
            Err e \<Rightarrow> (Err (CliLedger e), db1)
          | Ok found \<Rightarrow>
              if (case found of Some v \<Rightarrow> v > expected_version ms | None \<Rightarrow> False)
              then (Err (NewerBuild (the found) (expected_version ms)), db1)
              else (Ok applied, db1))))"

text \<open>The wait that was asked for, in the loop's unit and cut to a day.\<close>

definition cli_wait :: "nat \<Rightarrow> nat" where
  "cli_wait secs = min secs MAX_WAIT_SECS * 1000 * MILLIS"

section \<open>What a verdict means\<close>

lemma nothing_missing: "missing existing specs = [] \<longleftrightarrow> ts_name ` set specs \<subseteq> set existing"
  by (auto simp: missing_def filter_empty_conv)

lemma topics_check_passes:
  "is_healthy [topics_check listed] \<longleftrightarrow> (\<exists>existing. listed = Ok existing \<and> ts_name ` set static_topics \<subseteq> set existing)"
  using nothing_missing [of _ static_topics]
  by (cases listed) (auto simp: is_healthy_def topics_check_def Let_def)

lemma share_check_passes: "is_healthy [share_groups_check probed] \<longleftrightarrow> (\<exists>f. probed = Ok f \<and> share_groups f)"
  by (cases probed) (auto simp: is_healthy_def share_groups_check_def)

lemma probe_schema_passes:
  "(\<exists>detail. probe_schema env dsn ms db = Pass detail) \<longleftrightarrow>
     su_database env = Ok () \<and> require_current_schema (su_fault env) ms db = Ok ()"
  by (auto simp: probe_schema_def require_current_schema_def Let_def split: sum.splits option.splits sql_error.splits)

lemma schema_check_passes:
  "is_healthy [schema_check env dsn ms db] \<longleftrightarrow> (\<exists>taken\<le>GRES_PROBE_TIMEOUT. su_takes env = Some taken) \<and>
     su_database env = Ok () \<and> require_current_schema (su_fault env) ms db = Ok ()"
proof -
  have "is_healthy [schema_check env dsn ms db] \<longleftrightarrow> (\<exists>taken\<le>GRES_PROBE_TIMEOUT. su_takes env = Some taken) \<and>
      (\<exists>detail. probe_schema env dsn ms db = Pass detail)"
    by (cases "probe_schema env dsn ms db") (auto simp: is_healthy_def schema_check_def Let_def split: option.splits)
  with probe_schema_passes [of env dsn ms db] show ?thesis by simp
qed

lemma doctor_verdict:
  "is_healthy (doctor env bootstrap dsn ms db) \<longleftrightarrow>
     su_admin env = Ok () \<and>
     (\<exists>existing. su_topics env = Ok existing \<and> ts_name ` set static_topics \<subseteq> set existing) \<and>
     (\<exists>f. feature_probe (su_features env) = Ok f \<and> share_groups f) \<and>
     (\<exists>taken\<le>GRES_PROBE_TIMEOUT. su_takes env = Some taken) \<and> su_database env = Ok () \<and>
     require_current_schema (su_fault env) ms db = Ok ()"
proof (cases "su_admin env")
  case (Inl e)
  then show ?thesis by (simp add: doctor_def is_healthy_def broker_check_def)
next
  case (Inr u)
  have b: "is_healthy [broker_check bootstrap (Ok u)]" by (simp add: is_healthy_def broker_check_def)
  have "doctor env bootstrap dsn ms db = [broker_check bootstrap (Ok u), topics_check (su_topics env),
      share_groups_check (feature_probe (su_features env)), schema_check env dsn ms db]"
    by (simp add: doctor_def Inr)
  then have "is_healthy (doctor env bootstrap dsn ms db) \<longleftrightarrow> is_healthy [broker_check bootstrap (Ok u)] \<and>
      is_healthy [topics_check (su_topics env)] \<and> is_healthy [share_groups_check (feature_probe (su_features env))] \<and>
      is_healthy [schema_check env dsn ms db]"
    by (simp add: is_healthy_def)
  with b Inr show ?thesis by (simp add: topics_check_passes share_check_passes schema_check_passes)
qed

text \<open>What the admin client documents about creating topics: one outcome for each topic asked for, and
  a topic that was created, or that exists, is listed afterwards.\<close>

definition admin_truthful ::
    "(topic_spec list \<Rightarrow> (create_outcome list, string) result) \<Rightarrow> topic_spec list \<Rightarrow> string list \<Rightarrow> bool" where
  "admin_truthful create_topics specs existing \<longleftrightarrow> (\<forall>outcomes. create_topics specs = Ok outcomes \<longrightarrow>
     map co_name outcomes = map ts_name specs \<and>
     (\<forall>o1\<in>set outcomes. co_error o1 = None \<or> (\<exists>name. co_error o1 = Some (TOPIC_ALREADY_EXISTS, name)) \<longrightarrow>
       co_name o1 \<in> set existing))"

lemma bootstrapped_topics:
  assumes "admin_truthful create_topics (map (replicated n) static_topics) existing" "cli_bootstrap admin create_topics n = Ok ()"
  shows "ts_name ` set static_topics \<subseteq> set existing"
proof -
  let ?specs = "map (replicated n) static_topics"
  have "ensure_static_replicated create_topics n = Ok ()"
    using assms(2) by (auto simp: cli_bootstrap_def split: sum.splits)
  then obtain outcomes where os: "create_topics ?specs = Ok outcomes" "check_outcomes outcomes = Ok ()"
    by (auto simp: ensure_static_replicated_def ensure_def static_topics_def split: sum.splits)
  have names: "map ts_name ?specs = map ts_name static_topics" by (simp add: replicated_def comp_def)
  have fine: "\<forall>o1\<in>set outcomes. co_error o1 = None \<or> (\<exists>name. co_error o1 = Some (TOPIC_ALREADY_EXISTS, name))"
    using os(2) unfolding check_outcomes_Ok_iff list_all_iff by blast
  have told: "map co_name outcomes = map ts_name ?specs" "\<forall>o1\<in>set outcomes. co_name o1 \<in> set existing"
    using assms(1) os(1) fine unfolding admin_truthful_def by blast+
  from told(2) have "set (map co_name outcomes) \<subseteq> set existing" by auto
  then show ?thesis unfolding told(1) names by simp
qed

lemma migrated_ledger:
  assumes "migrate_run ddl fault recorded ms db = (Ok vs, db')"
  shows "\<exists>l. sd_ledger db' = Some l \<and> set (map mg_version ms) \<subseteq> fst ` set l"
proof -
  obtain db1 l where l: "sd_ledger db1 = Some l" and run: "apply_all ddl recorded (map fst l) ms db1 = (Ok vs, db')"
    using assms by (auto simp: migrate_run_def applied_versions_def split: prod.splits sum.splits option.splits)
  from apply_all_ledger [OF run l] obtain new where "sd_ledger db' = Some (l @ new)"
    "set (map fst new) = set (map mg_version ms) - set (map fst l)" by auto
  then show ?thesis by auto
qed

lemma migrated_is_current:
  assumes "cli_migrate dial dsn wait now ddl fault recorded (MIGRATIONS sql) db = (Ok vs, db')"
  shows "require_current_schema None (MIGRATIONS sql) db' = Ok ()"
proof -
  have run: "migrate_run ddl fault recorded (MIGRATIONS sql) db = (Ok vs, db')"
    and re: "\<exists>found. current_version (fault ''re-read'') db' = Ok found \<and> (\<forall>v. found = Some v \<longrightarrow> v \<le> 1)"
    using assms by (auto simp: cli_migrate_def expected_version_def MIGRATIONS_def split: sum.splits prod.splits if_splits option.splits)
  from migrated_ledger [OF run] obtain l where l: "sd_ledger db' = Some l" "1 \<in> fst ` set l" by (auto simp: MIGRATIONS_def)
  then obtain v name rest where c: "l = (v, name) # rest" by (cases l) auto
  from re l(1) c have "fold max (map fst rest) v \<le> 1" by (auto simp: current_version_def split: option.splits)
  moreover have "1 \<le> fold max (map fst rest) v" using l(2) c by (simp add: fold_max)
  ultimately show ?thesis using l(1) c
    by (simp add: require_current_schema_def current_version_def expected_version_def MIGRATIONS_def)
qed

lemma newer_build_is_refused:
  assumes "migrate_run ddl fault recorded ms db = (Ok vs, db')" "current_version (fault ''re-read'') db' = Ok (Some v)"
    "v > expected_version ms" "fst (connect_with_retry dial dsn wait now) = Ok ()"
  shows "cli_migrate dial dsn wait now ddl fault recorded ms db = (Err (NewerBuild v (expected_version ms)), db')"
  using assms by (simp add: cli_migrate_def)

text \<open>Property C17: the operator's three commands agree with each other and with the server. The doctor
  finds everything in order exactly when the broker is reached, every declared topic is there, share
  groups are on, and the database answers in time with the schema the server insists on at its
  start. Once provisioning and migrating have succeeded, all that can be left to complain of is that
  one of the two services does not answer, or that the broker was formatted without share groups;
  the server then accepts the schema. And a database that a newer build has migrated, which the
  server refuses, is refused by \<open>migrate\<close> as well, with the two versions.\<close>

theorem operator_commands_agree:
  assumes "admin_truthful create_topics (map (replicated n) static_topics) existing" "cli_bootstrap admin create_topics n = Ok ()"
    and "cli_migrate dial dsn wait now ddl fault recorded (MIGRATIONS sql) db0 = (Ok vs, db')"
    and "su_topics env = Ok existing" "su_fault env = None"
  shows "(is_healthy (doctor env bootstrap dsn (MIGRATIONS sql) db') \<longleftrightarrow>
      su_admin env = Ok () \<and> (\<exists>f. feature_probe (su_features env) = Ok f \<and> share_groups f) \<and>
      (\<exists>taken\<le>GRES_PROBE_TIMEOUT. su_takes env = Some taken) \<and> su_database env = Ok ()) \<and>
    require_current_schema None (MIGRATIONS sql) db' = Ok () \<and>
    (is_healthy (doctor other bootstrap dsn ms db) \<longleftrightarrow>
      su_admin other = Ok () \<and>
      (\<exists>listed. su_topics other = Ok listed \<and> ts_name ` set static_topics \<subseteq> set listed) \<and>
      (\<exists>f. feature_probe (su_features other) = Ok f \<and> share_groups f) \<and>
      (\<exists>taken\<le>GRES_PROBE_TIMEOUT. su_takes other = Some taken) \<and> su_database other = Ok () \<and>
      require_current_schema (su_fault other) ms db = Ok ()) \<and>
    (migrate_run ddl fault recorded ms db = (Ok done, db2) \<and> current_version (fault ''re-read'') db2 = Ok (Some v) \<and>
        expected_version ms < v \<and> fst (connect_with_retry dial dsn wait now) = Ok () \<longrightarrow>
      cli_migrate dial dsn wait now ddl fault recorded ms db = (Err (NewerBuild v (expected_version ms)), db2) \<and>
      require_current_schema None ms db2 = Err (SchemaMismatch (Some v) (expected_version ms)))"
proof -
  have "require_current_schema None ms db2 = Err (SchemaMismatch (Some v) (expected_version ms))"
    if "current_version (fault ''re-read'') db2 = Ok (Some v)" "expected_version ms < v"
    using that by (auto simp: require_current_schema_def current_version_def split: option.splits sql_error.splits)
  then have newer: "migrate_run ddl fault recorded ms db = (Ok done, db2) \<and> current_version (fault ''re-read'') db2 = Ok (Some v) \<and>
        expected_version ms < v \<and> fst (connect_with_retry dial dsn wait now) = Ok () \<longrightarrow>
      cli_migrate dial dsn wait now ddl fault recorded ms db = (Err (NewerBuild v (expected_version ms)), db2) \<and>
      require_current_schema None ms db2 = Err (SchemaMismatch (Some v) (expected_version ms))"
    using newer_build_is_refused by metis
  have provisioned: "is_healthy (doctor env bootstrap dsn (MIGRATIONS sql) db') \<longleftrightarrow>
      su_admin env = Ok () \<and> (\<exists>f. feature_probe (su_features env) = Ok f \<and> share_groups f) \<and>
      (\<exists>taken\<le>GRES_PROBE_TIMEOUT. su_takes env = Some taken) \<and> su_database env = Ok ()"
    using doctor_verdict [of env bootstrap dsn "MIGRATIONS sql" db'] assms(4,5) bootstrapped_topics [OF assms(1,2)]
      migrated_is_current [OF assms(3)] by simp
  show ?thesis by (intro conjI) (rule provisioned, rule migrated_is_current [OF assms(3)], rule doctor_verdict, rule newer)
qed

text \<open>A broker and a database that were empty a moment ago.\<close>

definition demo_admin :: "topic_spec list \<Rightarrow> (create_outcome list, string) result" where
  "demo_admin specs = Ok (map (\<lambda>s. \<lparr>co_name = ts_name s, co_error = None\<rparr>) specs)"

definition demo_surroundings :: "unit surroundings" where
  "demo_surroundings = \<lparr>su_admin = Ok (), su_topics = Ok (map ts_name static_topics),
     su_features = Ok \<lparr>fe_error_code = 0, fe_finalized = [(SHARE_VERSION, 1)]\<rparr>, su_takes = Some 1,
     su_database = Ok (), su_fault = None, su_has_users = (\<lambda>_. True)\<rparr>"

lemma operator_commands_witness:
  "is_healthy (doctor demo_surroundings ''b:9092'' ''dbname=crab'' (MIGRATIONS ''ddl'') \<lparr>sd_ledger = Some [(1, ''schema'')], sd_data = ()\<rparr>) \<and>
   \<not> is_healthy (doctor demo_surroundings ''b:9092'' ''dbname=crab'' (MIGRATIONS ''ddl'') \<lparr>sd_ledger = Some [(2, ''next'')], sd_data = ()\<rparr>)"
proof -
  have told: "admin_truthful demo_admin (map (replicated 3) static_topics) (map ts_name static_topics)"
    by (auto simp: admin_truthful_def demo_admin_def replicated_def)
  have boot: "cli_bootstrap (Ok ()) demo_admin 3 = Ok ()"
  proof -
    have "check_outcomes (map (\<lambda>s. \<lparr>co_name = ts_name s, co_error = None\<rparr>) specs) = Ok ()" for specs :: "topic_spec list"
      by (induction specs) auto
    then show ?thesis by (simp add: cli_bootstrap_def ensure_static_replicated_def ensure_def demo_admin_def del: map_map)
  qed
  have migrated: "cli_migrate (\<lambda>_. (Some 0, Ok ())) ''dbname=crab'' 0 0 (\<lambda>_ d. (Ok (), d)) (\<lambda>_. None) (\<lambda>_. None) (MIGRATIONS ''ddl'')
      \<lparr>sd_ledger = None, sd_data = ()\<rparr> = (Ok [1], \<lparr>sd_ledger = Some [(1, ''schema'')], sd_data = ()\<rparr>)"
    by (simp add: cli_migrate_def connect_with_retry_def connect_loop.simps bounded_attempt_def store_connect_def migrate_run_def
        ensure_ledger_def applied_versions_def MIGRATIONS_def apply_migration_def current_version_def expected_version_def)
  have share: "\<exists>f. feature_probe (su_features demo_surroundings) = Ok f \<and> share_groups f"
    by (simp add: demo_surroundings_def feature_probe_def) code_simp
  have newer: "require_current_schema None (MIGRATIONS ''ddl'') \<lparr>sd_ledger = Some [(2, ''next'')], sd_data = ()\<rparr> \<noteq> Ok ()"
    by (simp add: require_current_schema_def current_version_def expected_version_def MIGRATIONS_def)
  have env: "su_topics demo_surroundings = Ok (map ts_name static_topics)" "su_fault demo_surroundings = None"
    "su_admin demo_surroundings = Ok ()" "su_database demo_surroundings = Ok ()"
    "\<exists>taken\<le>GRES_PROBE_TIMEOUT. su_takes demo_surroundings = Some taken"
    by (simp_all add: demo_surroundings_def GRES_PROBE_TIMEOUT_def MILLIS_def)
  show ?thesis
    using operator_commands_agree [OF told boot migrated env(1,2), of "''b:9092''" demo_surroundings "MIGRATIONS ''ddl''"
        "\<lparr>sd_ledger = Some [(2, ''next'')], sd_data = ()\<rparr>"] share newer env by (simp; blast)?
qed

end
