(* ===== verification/Server_Start.thy ===== *)
theory Server_Start
  imports Hook_Matcher Projector_Restart Store_Connect
begin

text \<open>
  The order in which a process of the forge comes up (\<open>forge-server/src/main.rs\<close>): every step that may
  fail, in the sequence of the two roles. What each step does is modelled elsewhere (connecting and
  the schema in \<open>Store_Connect\<close>, the projectors in \<open>Projector_Restart\<close>); here a step is a name with
  an outcome, and a run is the list of the steps that were made. Steps that cannot fail (spawning a
  task, filling in the state) are steps that succeed.
\<close>

datatype startup_step =
    ConnectStore | CheckSchema | StartCommands | CreateCacheDir | ConnectObjectWriter
  | ProjectorStore string | OpenProjector string | DrainProjector string | RunProjector string
  | ConnectHookWriter | MatcherStore string | OpenMatcher string | RunMatcher string
  | WorkerStore int | OpenWorker int | RunWorker int
  | OrchestratorStore | OpenOrchestrator | RunOrchestrator
  | RunnerStore nat | OpenRunner nat | RunRunner nat
  | ConnectRunnerWriter | CreateWorkspaces | QueueDepthStore | RunQueueDepth | ServeMetrics
  | BindListener | Serve | DrainRunners

datatype sandbox_kind = DockerSandbox | KubernetesSandbox

datatype server_role = RoleAll | RoleRunner

record server_args =
  sa_ci_runners :: nat
  sa_ci_sandbox :: sandbox_kind
  sa_role :: server_role

datatype startup_error = StepFailed startup_step string | NoRunners

type_synonym outcomes = "startup_step \<Rightarrow> (unit, string) result"

text \<open>The steps that were made, and how it ended.\<close>

type_synonym 'a startup = "startup_step list \<times> ('a, startup_error) result"

fun in_order :: "outcomes \<Rightarrow> startup_step list \<Rightarrow> unit startup" where
  "in_order env [] = ([], Ok ())"
| "in_order env (s # ss) = (case env s of
     Err e \<Rightarrow> ([s], Err (StepFailed s e))
   | Ok _ \<Rightarrow> (case in_order env ss of (made, r) \<Rightarrow> (s # made, r)))"

definition and_next :: "'a startup \<Rightarrow> ('a \<Rightarrow> 'b startup) \<Rightarrow> 'b startup" where
  "and_next a f = (case a of
     (made, Err e) \<Rightarrow> (made, Err e)
   | (made, Ok x) \<Rightarrow> (case f x of (made', r) \<Rightarrow> (made @ made', r)))"

text \<open>\<open>start_runners\<close>: a database session that cannot be had is an error, a queue that cannot be joined
  ends the loop with what was started.\<close>

fun start_runners :: "outcomes \<Rightarrow> nat list \<Rightarrow> nat startup" where
  "start_runners env [] = ([], Ok 0)"
| "start_runners env (worker # workers) = (case env (RunnerStore worker) of
     Err e \<Rightarrow> ([RunnerStore worker], Err (StepFailed (RunnerStore worker) e))
   | Ok _ \<Rightarrow> (case env (OpenRunner worker) of
       Err _ \<Rightarrow> ([RunnerStore worker, OpenRunner worker], Ok 0)
     | Ok _ \<Rightarrow> (case start_runners env workers of
         (made, r) \<Rightarrow> ([RunnerStore worker, OpenRunner worker, RunRunner worker] @ made, map_sum id Suc r))))"

definition projector_steps :: "startup_step list" where
  "projector_steps = concat (map (\<lambda>topic. [ProjectorStore topic, OpenProjector topic, DrainProjector topic, RunProjector topic])
     PROJECTED_TOPICS)"

definition webhook_steps :: "startup_step list" where
  "webhook_steps = ConnectHookWriter #
     concat (map (\<lambda>topic. [MatcherStore topic, OpenMatcher topic, RunMatcher topic]) matched_topics) @
     concat (map (\<lambda>p. [WorkerStore (int p), OpenWorker (int p), RunWorker (int p)]) [0..<nat worker_partitions])"

definition before_runners :: "startup_step list" where
  "before_runners = [ConnectStore, CheckSchema, StartCommands, CreateCacheDir, ConnectObjectWriter] @
     projector_steps @ webhook_steps @ [OrchestratorStore, OpenOrchestrator, RunOrchestrator]"

definition after_runners :: "startup_step list" where
  "after_runners = [QueueDepthStore, RunQueueDepth, ServeMetrics, BindListener, Serve]"

definition serve_everything :: "outcomes \<Rightarrow> server_args \<Rightarrow> unit startup" where
  "serve_everything env args =
     and_next (in_order env before_runners) (\<lambda>_.
     and_next (start_runners env [0..<sa_ci_runners args]) (\<lambda>_. in_order env after_runners))"

definition runner_steps :: "sandbox_kind \<Rightarrow> startup_step list" where
  "runner_steps kind = [ConnectStore, CheckSchema, ConnectRunnerWriter] @
     (case kind of DockerSandbox \<Rightarrow> [CreateWorkspaces] | KubernetesSandbox \<Rightarrow> [])"

definition serve_runners :: "outcomes \<Rightarrow> server_args \<Rightarrow> unit startup" where
  "serve_runners env args =
     and_next (in_order env (runner_steps (sa_ci_sandbox args))) (\<lambda>_.
     and_next (start_runners env [0..<sa_ci_runners args]) (\<lambda>started.
     if started = 0 then ([], Err NoRunners)
     else in_order env [ServeMetrics, BindListener, Serve, DrainRunners]))"

definition server_main :: "outcomes \<Rightarrow> server_args \<Rightarrow> unit startup" where
  "server_main env args = (case sa_role args of RoleAll \<Rightarrow> serve_everything env args | RoleRunner \<Rightarrow> serve_runners env args)"

section \<open>What the order guarantees\<close>

lemma in_order_Ok: "snd (in_order env ss) = Ok () \<longleftrightarrow> (\<forall>s\<in>set ss. env s = Ok ())"
  by (induction ss) (auto split: sum.splits prod.splits)

lemma in_order_all: "\<forall>s\<in>set ss. env s = Ok () \<Longrightarrow> in_order env ss = (ss, Ok ())"
  by (induction ss) auto

lemma in_order_steps: "set (fst (in_order env ss)) \<subseteq> set ss"
  by (induction ss) (auto split: sum.splits prod.splits)

lemma start_runners_steps:
  "s \<in> set (fst (start_runners env ws)) \<Longrightarrow> \<exists>w. s \<in> {RunnerStore w, OpenRunner w, RunRunner w}"
  by (induction ws) (auto split: sum.splits prod.splits)

lemma start_runners_count:
  "start_runners env ws = (made, Ok n) \<Longrightarrow> n \<le> length ws \<and> (\<forall>w\<in>set (take n ws). env (OpenRunner w) = Ok ())"
  by (induction ws arbitrary: made n) (auto simp: map_sum_def split: sum.splits prod.splits)

lemma start_runners_go:
  "\<forall>w. env (RunnerStore w) = Ok () \<Longrightarrow> \<exists>n. snd (start_runners env ws) = Ok n"
proof (induction ws)
  case (Cons w ws)
  then show ?case by (cases "env (OpenRunner w)"; cases "start_runners env ws") auto
qed simp

lemma and_next_made:
  "s \<in> set (fst (and_next a f)) \<longleftrightarrow> s \<in> set (fst a) \<or> (\<exists>x. snd a = Ok x \<and> s \<in> set (fst (f x)))"
  by (cases a; cases "snd a") (auto simp: and_next_def split: prod.splits)

lemma and_next_Ok: "snd (and_next a f) = Ok y \<longleftrightarrow> (\<exists>x. snd a = Ok x \<and> snd (f x) = Ok y)"
  by (cases a; cases "snd a") (auto simp: and_next_def split: prod.splits)

lemma serve_only_last:
  "Serve \<notin> set before_runners" "Serve \<notin> set (fst (start_runners env ws))" "Serve \<notin> set (runner_steps kind)"
  "StartCommands \<notin> set after_runners" "StartCommands \<notin> set (fst (start_runners env ws))"
  using start_runners_steps [of Serve env ws] start_runners_steps [of StartCommands env ws]
  by (auto simp: before_runners_def after_runners_def projector_steps_def webhook_steps_def runner_steps_def split: sandbox_kind.splits)

lemma commands_after_schema:
  assumes "StartCommands \<in> set (fst (serve_everything env args))"
  shows "env ConnectStore = Ok () \<and> env CheckSchema = Ok ()"
proof -
  have "StartCommands \<in> set (fst (in_order env before_runners))"
    using assms serve_only_last(4,5) in_order_steps [of env after_runners] unfolding serve_everything_def and_next_made by blast
  then show ?thesis by (cases "env ConnectStore"; cases "env CheckSchema"; simp add: before_runners_def)
qed

lemma serving_needs_all:
  assumes "Serve \<in> set (fst (serve_everything env args))" shows "\<forall>s\<in>set before_runners. env s = Ok ()"
proof -
  have "snd (in_order env before_runners) = Ok ()"
    using assms serve_only_last(1) in_order_steps [of env before_runners] unfolding serve_everything_def and_next_made by auto
  then show ?thesis unfolding in_order_Ok .
qed

lemma serving_without_runners:
  assumes "\<forall>s. env s = Ok () \<or> (\<exists>w. s = OpenRunner w)"
  shows "snd (serve_everything env args) = Ok () \<and> Serve \<in> set (fst (serve_everything env args))"
proof -
  have up: "env s = Ok ()" if "\<forall>w. s \<noteq> OpenRunner w" for s using assms that by blast
  have first: "\<forall>s\<in>set before_runners. env s = Ok ()"
    using up by (fastforce simp: before_runners_def projector_steps_def webhook_steps_def)
  have last: "\<forall>s\<in>set after_runners. env s = Ok ()" using up by (auto simp: after_runners_def)
  obtain n where "snd (start_runners env [0..<sa_ci_runners args]) = Ok n"
    using start_runners_go [of env] up by blast
  then show ?thesis
    unfolding serve_everything_def and_next_Ok and_next_made in_order_all [OF first] in_order_all [OF last]
    by (simp add: after_runners_def)
qed

lemma runners_fence_nobody:
  assumes "s \<in> {StartCommands, ConnectHookWriter, ConnectObjectWriter}"
  shows "s \<notin> set (fst (serve_runners env args))"
proof -
  have "s \<notin> set (fst (start_runners env ws))" for ws using assms start_runners_steps [of s env ws] by auto
  moreover have "s \<notin> set (fst (in_order env (runner_steps kind)))" for kind
    using assms in_order_steps [of env "runner_steps kind"] by (cases kind) (auto simp: runner_steps_def)
  moreover have "s \<notin> set (fst (in_order env [ServeMetrics, BindListener, Serve, DrainRunners]))"
    using assms in_order_steps [of env "[ServeMetrics, BindListener, Serve, DrainRunners]"] by auto
  ultimately show ?thesis unfolding serve_runners_def and_next_made by (simp del: in_order.simps)
qed

lemma no_runner_no_process:
  assumes "\<forall>w. env (OpenRunner w) \<noteq> Ok ()"
  shows "Serve \<notin> set (fst (serve_runners env args)) \<and> snd (serve_runners env args) \<noteq> Ok ()"
proof -
  have zero: "n = 0" if "snd (start_runners env ws) = Ok n" for n ws
  proof (cases ws)
    case (Cons w ws')
    with that assms show ?thesis by (auto split: sum.splits prod.splits)
  qed (use that in simp)
  then have "(if n = 0 then ([], Err NoRunners) else f) = ([], Err NoRunners)"
    if "snd (start_runners env ws) = Ok n" for n ws and f :: "unit startup" using that by simp
  then show ?thesis
    using serve_only_last(2,3) in_order_steps [of env "runner_steps (sa_ci_sandbox args)"]
    unfolding serve_runners_def and_next_made and_next_Ok by (auto split: if_splits)
qed

text \<open>The order in which the forge comes up. The command service, whose start fences the
  process that ran before, is only started when the database is there with the schema of this build;
  so a build that does not match never stops the one that runs. Nothing is served before every
  projector has been opened and drained. CI is not needed to serve: with every other step going well
  the server comes up, however many runners cannot be opened. And a process that only runs jobs
  fences nobody and does not stay up without a runner.\<close>

theorem startup_order:
  "(StartCommands \<in> set (fst (serve_everything env args)) \<longrightarrow> env ConnectStore = Ok () \<and> env CheckSchema = Ok ()) \<and>
   (Serve \<in> set (fst (serve_everything env args)) \<longrightarrow> env StartCommands = Ok () \<and>
     (\<forall>topic\<in>set PROJECTED_TOPICS. env (OpenProjector topic) = Ok () \<and> env (DrainProjector topic) = Ok ())) \<and>
   ((\<forall>s. env s = Ok () \<or> (\<exists>w. s = OpenRunner w)) \<longrightarrow>
     snd (serve_everything env args) = Ok () \<and> Serve \<in> set (fst (serve_everything env args))) \<and>
   set (fst (serve_runners env args)) \<inter> {StartCommands, ConnectHookWriter, ConnectObjectWriter} = {} \<and>
   ((\<forall>w. env (OpenRunner w) \<noteq> Ok ()) \<longrightarrow> Serve \<notin> set (fst (serve_runners env args)) \<and> snd (serve_runners env args) \<noteq> Ok ())"
proof -
  have "StartCommands \<in> set before_runners" "\<forall>topic\<in>set PROJECTED_TOPICS. OpenProjector topic \<in> set before_runners \<and> DrainProjector topic \<in> set before_runners"
    by (auto simp: before_runners_def projector_steps_def)
  then have "Serve \<in> set (fst (serve_everything env args)) \<longrightarrow> env StartCommands = Ok () \<and>
     (\<forall>topic\<in>set PROJECTED_TOPICS. env (OpenProjector topic) = Ok () \<and> env (DrainProjector topic) = Ok ())"
    using serving_needs_all [of env args] by blast
  moreover have "set (fst (serve_runners env args)) \<inter> {StartCommands, ConnectHookWriter, ConnectObjectWriter} = {}"
    using runners_fence_nobody [of _ env args] by blast
  ultimately show ?thesis
    using commands_after_schema [of env args] serving_without_runners [of env args] no_runner_no_process [of env args] by blast
qed

text \<open>The broker was formatted without share groups: no runner can be opened.\<close>

definition runners_down :: outcomes where
  "runners_down s = (case s of OpenRunner _ \<Rightarrow> Err ''share groups'' | _ \<Rightarrow> Ok ())"

definition demo_args :: server_args where
  "demo_args = \<lparr>sa_ci_runners = 2, sa_ci_sandbox = DockerSandbox, sa_role = RoleAll\<rparr>"

lemma startup_order_witness:
  "snd (server_main runners_down demo_args) = Ok () \<and> Serve \<in> set (fst (server_main runners_down demo_args)) \<and>
   runners_down (DrainProjector EVENTS_USERS) = Ok () \<and>
   snd (server_main runners_down (demo_args\<lparr>sa_role := RoleRunner\<rparr>)) \<noteq> Ok ()"
proof -
  have outcome: "runners_down s = Ok () \<longleftrightarrow> (\<forall>w. s \<noteq> OpenRunner w)" for s
    by (cases s) (simp_all add: runners_down_def)
  then show ?thesis
    using startup_order [of runners_down demo_args] startup_order [of runners_down "demo_args\<lparr>sa_role := RoleRunner\<rparr>"]
    by (simp add: server_main_def demo_args_def) metis
qed

end
