(* ===== verification/Spec2Isabelle.thy ===== *)
theory Spec2Isabelle
  imports Names Value_Types Forge_Auth Forge_Events Topic_Manifest Forge_Bus Git_Frame Git_Cache
    Command_History Projector_Runs Hook_Matcher Ci_Orchestrator Git_Merge Server_Api
    Projector_Restart Render_Text Operator_Tools Server_Start
begin

text \<open>
  Crabforge is a git forge whose source of truth is a log. What follows is a model of its Rust
  crates (\<open>src/crates\<close>), in the order in which a change travels through them, and the theorems
  that make the parts correct. The theorems that are numbered as properties stand in the theories
  of the parts they are about, each after a text that says what it means.

  \<^bold>\<open>How the program works.\<close> A command (\<open>forge-command\<close>) decides against two maps it keeps in memory, the
  catalog of claimed names and counters and the map of references, and writes its event and the new
  values of these maps in one transaction (\<open>forge-bus\<close>). Both maps are compacted topics, so a process
  that starts replays them, after it has fenced the one before it. A projector (\<open>forge-projector\<close>)
  reads the events (\<open>forge-events\<close>) and turns them into rows (\<open>forge-store\<close>), in one database
  transaction with its cursor. Git objects are records of a topic of their repository
  (\<open>forge-git\<close>); a cache on disk is hydrated from it before it is used, and a push writes its objects
  before its references (\<open>forge-githttp\<close>). Webhooks (\<open>forge-hooks\<close>) and CI (\<open>forge-ci\<close>) read the same
  events. The pages (\<open>forge-web\<close>) and the JSON interface (\<open>forge-server\<close>) read rows and caches and send
  commands.

  \<^bold>\<open>Common ground.\<close> \<open>Forge_Prelude\<close> has text as the code sees it (ASCII case, splitting, white space,
  decimal and hexadecimal numbers, bytes as 8-bit words) and errors as values of a sum. \<open>Keyed_Table\<close>
  has tables as association lists and two interfaces as locales: \<open>keyed_map\<close>, what a lookup returns after
  a write, and \<open>topic_fold\<close>, a state that is folded from a compacted topic, with its theorem that
  compaction does not show. \<open>Names\<close>, \<open>Value_Types\<close> (\<open>forge-types\<close>), \<open>Forge_Auth\<close> (\<open>forge-auth\<close>) and
  \<open>Forge_Events\<close> (\<open>forge-events\<close>) are the data; \<open>Topic_Manifest\<close> (\<open>forge-topics\<close>) are the declared topics
  and provisioning.

  \<^bold>\<open>The log.\<close> \<open>Forge_Bus\<close> (\<open>writer.rs\<close>, \<open>tailer.rs\<close>, \<open>features.rs\<close>): \<open>transact\<close> is a transaction with
  every way it can fail, and it returns what reached the log; \<open>next_batch\<close> and \<open>replay_to_end\<close> are the
  reader. Its theorems say when an answer can be believed and that a replay is complete.

  \<^bold>\<open>Commands.\<close> \<open>Command_State\<close> (\<open>catalog.rs\<close>, \<open>refs.rs\<close>) interprets \<open>topic_fold\<close> for both maps;
  \<open>Command_Service\<close> (\<open>lib.rs\<close>, \<open>pulls.rs\<close>) has one definition for each command, with its validation, the
  records it writes and the change of the state. \<open>Command_Safety\<close> puts them together: a system is a log
  and a process, its steps are the commands with any outcome of their transaction, and starting again
  from any compaction of the log. By induction over its runs the memory is the log
  (\<open>decision_state_is_log\<close>), and \<open>Command_History\<close> concludes what the log says: unique names, consecutive
  numbers, a reflog that agrees with the references, merges that moved their branch, and what a push or
  a merge writes and leaves alone.

  \<^bold>\<open>The read model.\<close> \<open>Read_Tables\<close> and \<open>Read_Model\<close> (\<open>users.rs\<close>, \<open>repos.rs\<close>, \<open>issues.rs\<close>, \<open>pulls.rs\<close>,
  \<open>ci.rs\<close>, \<open>hooks.rs\<close>) have each statement as an operation on tables with their unique constraints; the
  locale \<open>upserted\<close> is the insert-or-update that all tables share. \<open>Row_Replay\<close> has the locales
  \<open>projected\<close> and \<open>statement_table\<close>: rows that are a function of the events that went before.
  \<open>Projector_Apply\<close> (\<open>apply.rs\<close>) applies each event, \<open>Projector_Loop\<close> (\<open>lib.rs\<close>) is the loop.
  \<open>Projector_Safety\<close>, \<open>Projector_History\<close> and \<open>Projector_Ci\<close> show that applying an event again changes
  nothing, that rows can be rebuilt, and the claims and conclusions of CI; \<open>Projector_System\<close>,
  \<open>Projector_Runs\<close> and \<open>Projector_Restart\<close> are the system of log, projectors and database with failures
  and restarts: every event counts once, a reader who waited sees its write, and a forge that starts
  catches up. \<open>Store_Auth\<close> (\<open>auth.rs\<close>, \<open>migrate.rs\<close>) are sessions, tokens and migrations, \<open>Store_Connect\<close>
  (\<open>lib.rs\<close>) is connecting to the database.

  \<^bold>\<open>Git.\<close> \<open>Git_Frame\<close> (\<open>frame.rs\<close>) and \<open>Git_Cache\<close> (\<open>store.rs\<close>, \<open>cache.rs\<close>, \<open>loose.rs\<close>) write objects to a topic and
  hydrate a cache from it: what was stored is recovered, and nothing else gets in. \<open>Git_Text\<close> is UTF-8
  as the code reads it. \<open>Git_Refs\<close> (\<open>cache.rs\<close>, \<open>merge.rs\<close>, \<open>import.rs\<close>) and \<open>Git_Browse\<close> (\<open>browse.rs\<close>)
  are what is asked of git and how its answers are read. \<open>Git_Http\<close> (\<open>forge-githttp\<close>) prepares a
  repository for a request, so that what it advertises is the log, and decides a push; \<open>Git_Merge\<close>
  (\<open>merge.rs\<close>) performs a merge.

  \<^bold>\<open>Webhooks and CI.\<close> \<open>Hook_Target\<close> (\<open>target.rs\<close>) judges where a request may go, \<open>Hook_Delivery\<close>
  (\<open>delivery.rs\<close>, \<open>worker.rs\<close>, \<open>queue.rs\<close>, \<open>signature.rs\<close>) sends it with its ladder of retries, \<open>Hook_Matcher\<close>
  (\<open>matcher.rs\<close>) decides who hears of an event. \<open>Ci_Workflow\<close> (\<open>workflow.rs\<close>, \<open>discover.rs\<close>, \<open>plan.rs\<close>)
  validates and plans, \<open>Ci_Sandbox\<close> (\<open>sandbox.rs\<close>, \<open>docker.rs\<close>, \<open>kubernetes.rs\<close>) is what containers are asked
  to do, \<open>Ci_Runner\<close> (\<open>runner.rs\<close>, the log of \<open>service.rs\<close>) runs a job, \<open>Ci_Service\<close> (\<open>queue.rs\<close>,
  \<open>service.rs\<close>) leases and reports it, \<open>Ci_Orchestrator\<close> (\<open>orchestrate.rs\<close>) turns a push into jobs.

  \<^bold>\<open>The faces.\<close> \<open>Web_Pages\<close>, \<open>Web_Access\<close>, \<open>Web_Routes\<close> and \<open>Web_Pulls\<close> (\<open>forge-web\<close>) are the records a page is
  rendered from, the sessions, every handler and the route table. A handler is a function of the state
  of the web process that may change it and the log; \<open>None\<close> as its outcome means that there were more
  transactions than outcomes given for them. \<open>Web_Safety\<close> shows what no handler does. \<open>Render_Text\<close>
  (\<open>forge-render\<close>) escapes files and builds diffs. \<open>Server_Api\<close> and \<open>Server_Start\<close> (\<open>forge-server\<close>) are the
  JSON interface, the routes of the whole process and the order in which it comes up;
  \<open>Operator_Tools\<close> (\<open>forge-cli\<close>) are provisioning, migrating and the doctor.

  \<^bold>\<open>How code is rendered.\<close> A struct is a record, an enum a datatype; a fallible function returns \<open>Ok\<close> or
  \<open>Err\<close> (the sum type). A function that changes something takes the state and returns it. What reaches
  the log is returned as a list of records, also when the answer is an error. Strings are lists of
  bytes shown as characters, a table is an association list with one entry for each key (\<open>tbl_wf\<close>).
  Offsets, counters, instants and durations are integers or natural numbers; where their width shows
  (the width of a parsed number, sizes, address bytes) it is written out.

  \<^bold>\<open>Parameters and hypotheses.\<close> Code outside the repository is an argument: JSON (a \<open>codec\<close>; \<open>codec_ok\<close> is that
  what was written reads back), SHA-1, HMAC and password hashing, the broker (\<open>txn_env\<close>, the fate of one
  transaction; \<open>broker_truthful\<close> is that a commit that is acknowledged has happened and one that is
  refused has not, while an answer that never came leaves it open; \<open>serves\<close> is that a fetch returns
  what the log has from an offset on), git (\<open>keeps_refs\<close>:
  \<open>for-each-ref\<close> lists the references by name, \<open>update-ref\<close> sets or deletes the one it names), the admin
  client (\<open>admin_truthful\<close>), DNS and HTTP, the share group, containers, YAML, the grammars of the
  highlighter, the differ (\<open>similar_ok\<close>), the database driver, minted identifiers and the clock. Each
  property that needs such a hypothesis comes with a witness in which the parameter is a function that
  satisfies it.

  \<^bold>\<open>Bounds and fuel.\<close> Recursion is structural, or its termination is proved (a budget that shrinks in
  \<open>connect_loop\<close>, input that shrinks in the readers), save for loops that read from the outside. A replay
  has fuel, one unit for a fetch, and \<open>replay_to_end_complete\<close> proves that one more than there are
  records left is enough; \<open>hydrate\<close> and \<open>start_replicated\<close> inherit both. Loops that write a batch in each
  turn take the list of the outcomes of their transactions, and have no answer when it is too short.
  The drain of a projector has fuel too; one more than its topic has records is enough, however the
  batches are cut and whatever fails (\<open>projection_comes_up\<close>). Endless loops (the projector, the matcher, the worker, the runner,
  the orchestrator) are their steps; the theorems are about any sequence of steps.

  \<^bold>\<open>What is not modelled.\<close> The system clock (\<open>clock.rs\<close>), metrics and tracing, password hashing itself,
  the test kit, parsing the command line, the wiring of \<open>main.rs\<close> beyond the order of its steps, signals,
  the connection to Kafka and to the database beyond when it is tried, the decoders of rows, the
  directory layout of a cache and zlib, spawning git, docker and kubectl and copying their output, the text
  of the hook script, markdown and themes, and the templates, where the record a page is made from is
  taken for the page. Concurrency is interleaving at the grain of a command, a batch or a step: the code
  holds a lock around each of them, and that it does is not shown.
\<close>

end
